(* ===== verification/Prelude.thy ===== *)
theory Prelude imports Complex_Main "HOL-Library.AList" "HOL-Library.Multiset" "HOL-Library.Char_ord" "HOL-Library.List_Lexorder" begin

text \<open>
  What every component shares. The exceptions the program raises are values of one type
  \<open>exn\<close> and a computation that can raise returns \<open>exn + 'a\<close>: \<open>Inl\<close> is the
  exception, \<open>Inr\<close> the result, and \<open>ebind\<close> runs the rest of the code only after a
  normal return, as Python does. Exception messages (f-strings for the log) are left out; their
  machine-readable codes are kept.

  A Python dict is an association list in insertion order: \<open>map_of\<close> is lookup,
  \<open>AList.update\<close> is item assignment (in place for a key that is there, at the end for a new
  one), \<open>keys\<close> lists the keys.
\<close>

section \<open>Exceptions as values\<close>

datatype rejection_code =
    BELOW_MIN_GAIN | NON_FINITE_SIGNAL | INVALID_QUOTE | NOTIONAL_TOO_SMALL | CAP_BREACH

datatype exn =
    ValueError string
  | KeyError
  | IndexError
  | ZeroDivision
  | InvalidOperation
  | Tier0Rejection rejection_code
  | PolicyRejection string
  | PolicyError string
  | GuardBlocked string
  | PlanRejected string
  | SnapshotError string
  | OrderRejected
  | OrderOutcomeUnknown
  | AlpacaError
  | TransportError
  | FillTimingError
  | SimOrderRejected
  | OverflowError
  | TypeError
  | AssertionError
  | LookAheadError
  | StaleSample
  | RuntimeError string
  | ConfigError
  | SandboxViolation
  | RealQuoteUnavailable
  | AtrUnavailable
  | LockBoxError
  | PermissionError
  | DirtyTree
  | ManifestMismatch
  | NotReproduced
  | CoreAccountRefused
  | AttributeError
  | OSError
  | HTTPException int

type_synonym 'a result = "exn + 'a"

definition ebind :: "'a result \<Rightarrow> ('a \<Rightarrow> 'b result) \<Rightarrow> 'b result" where
  "ebind r f = (case r of Inl e \<Rightarrow> Inl e | Inr x \<Rightarrow> f x)"

definition emap :: "('a \<Rightarrow> 'b) \<Rightarrow> 'a result \<Rightarrow> 'b result" where
  "emap f r = ebind r (\<lambda>x. Inr (f x))"

definition eguard :: "bool \<Rightarrow> exn \<Rightarrow> unit result" where
  "eguard b e = (if b then Inr () else Inl e)"

text \<open>A comprehension or a loop over a list whose body can raise: it stops at the first exception.\<close>

fun etraverse :: "('a \<Rightarrow> 'b result) \<Rightarrow> 'a list \<Rightarrow> 'b list result" where
  "etraverse f [] = Inr []"
| "etraverse f (x # xs) = ebind (f x) (\<lambda>y. ebind (etraverse f xs) (\<lambda>ys. Inr (y # ys)))"

fun efold :: "('s \<Rightarrow> 'a \<Rightarrow> 's result) \<Rightarrow> 's \<Rightarrow> 'a list \<Rightarrow> 's result" where
  "efold f s [] = Inr s"
| "efold f s (x # xs) = ebind (f s x) (\<lambda>s'. efold f s' xs)"

definition eget :: "('k \<times> 'v) list \<Rightarrow> 'k \<Rightarrow> 'v result" where
  "eget d k = (case map_of d k of None \<Rightarrow> Inl KeyError | Some v \<Rightarrow> Inr v)"

lemma ebind_simps [simp]:
  "ebind (Inl e) f = Inl e"
  "ebind (Inr x) f = f x"
  by (simp_all add: ebind_def)

text \<open>Evaluation goes through the case distinction, which does not look into the branches before it is decided.\<close>

declare ebind_def [code_unfold] emap_def [code_unfold]

lemma ebind_Inr_iff: "ebind r f = Inr y \<longleftrightarrow> (\<exists>x. r = Inr x \<and> f x = Inr y)"
  by (cases r) simp_all

lemma ebind_Inl_iff: "ebind r f = Inl e \<longleftrightarrow> r = Inl e \<or> (\<exists>x. r = Inr x \<and> f x = Inl e)"
  by (cases r) auto

lemma emap_Inr_iff: "emap f r = Inr y \<longleftrightarrow> (\<exists>x. r = Inr x \<and> y = f x)"
  by (auto simp: emap_def ebind_Inr_iff)

lemma emap_Inl_iff: "emap f r = Inl e \<longleftrightarrow> r = Inl e"
  by (auto simp: emap_def ebind_Inl_iff)

lemma eguard_Inr_iff [simp]: "eguard b e = Inr u \<longleftrightarrow> b"
  by (simp add: eguard_def)

lemma eguard_Inl_iff [simp]: "eguard b e = Inl e' \<longleftrightarrow> \<not> b \<and> e' = e"
  by (auto simp: eguard_def)

lemmas result_simps = ebind_Inr_iff ebind_Inl_iff emap_Inr_iff emap_Inl_iff

lemma ebindE [elim?]:
  assumes "ebind r f = Inr y"
  obtains x where "r = Inr x" "f x = Inr y"
  using assms by (auto simp: ebind_Inr_iff)

lemma ebind_eval: "r = Inr x \<Longrightarrow> f x = y \<Longrightarrow> ebind r f = y"
  by simp

lemma eget_Inr_iff: "eget d k = Inr v \<longleftrightarrow> map_of d k = Some v"
  by (auto simp: eget_def split: option.splits)

lemma etraverse_Inr_iff:
  "etraverse f xs = Inr ys \<longleftrightarrow> list_all2 (\<lambda>x y. f x = Inr y) xs ys"
  by (induction xs arbitrary: ys) (auto simp: ebind_Inr_iff list_all2_Cons1)

lemma etraverse_total: "(\<And>x. x \<in> set xs \<Longrightarrow> f x = Inr (g x)) \<Longrightarrow> etraverse f xs = Inr (map g xs)"
  by (induction xs) simp_all

lemma efold_invariant:
  assumes "efold f s xs = Inr t" and "P s"
    and "\<And>s x s'. x \<in> set xs \<Longrightarrow> P s \<Longrightarrow> f s x = Inr s' \<Longrightarrow> P s'"
  shows "P t"
  using assms
proof (induction xs arbitrary: s)
  case (Cons x xs)
  then obtain s' where "f s x = Inr s'" "efold f s' xs = Inr t"
    by (auto simp: ebind_Inr_iff)
  with Cons show ?case by (meson list.set_intros)
qed simp

section \<open>Dicts\<close>

definition keys :: "('k \<times> 'v) list \<Rightarrow> 'k list" where
  "keys d = map fst d"

definition vals :: "('k \<times> 'v) list \<Rightarrow> 'v list" where
  "vals d = map snd d"

definition aget :: "'v \<Rightarrow> ('k \<times> 'v) list \<Rightarrow> 'k \<Rightarrow> 'v" where
  "aget dflt d k = (case map_of d k of None \<Rightarrow> dflt | Some v \<Rightarrow> v)"

text \<open>\<open>sorted(set(a) | set(b))\<close>: the keys of two dicts, each once, in order.\<close>

definition sorted_union :: "'k::linorder list \<Rightarrow> 'k list \<Rightarrow> 'k list" where
  "sorted_union xs ys = sort (remdups (xs @ ys))"

lemma set_keys: "set (keys d) = dom (map_of d)"
  by (simp add: keys_def dom_map_of_conv_image_fst)

lemma keys_simps [simp]: "keys [] = []" "keys ((k, v) # d) = k # keys d" "keys (d @ d') = keys d @ keys d'"
  by (simp_all add: keys_def)

lemma vals_simps [simp]: "vals [] = []" "vals ((k, v) # d) = v # vals d" "vals (d @ d') = vals d @ vals d'"
  by (simp_all add: vals_def)

lemma length_keys [simp]: "length (keys d) = length d"
  by (simp add: keys_def)

lemma length_vals [simp]: "length (vals d) = length d"
  by (simp add: vals_def)

lemma set_sorted_union [simp]: "set (sorted_union xs ys) = set xs \<union> set ys"
  by (simp add: sorted_union_def)

lemma distinct_sorted_union [simp]: "distinct (sorted_union xs ys)"
  by (simp add: sorted_union_def)

lemma sorted_sorted_union [simp]: "sorted (sorted_union xs ys)"
  by (simp add: sorted_union_def)

lemma map_of_keys_Some: "k \<in> set (keys d) \<Longrightarrow> \<exists>v. map_of d k = Some v"
  by (auto simp: set_keys)

lemma distinct_keys_map_of: "distinct (keys d) \<Longrightarrow> (k, v) \<in> set d \<Longrightarrow> map_of d k = Some v"
  by (simp add: keys_def)

lemma aget_update [simp]: "aget z (AList.update k v d) k' = (if k' = k then v else aget z d k')"
  by (simp add: aget_def update_conv)

lemma keys_update: "set (keys (AList.update k v d)) = insert k (set (keys d))"
  by (auto simp: set_keys update_conv)

lemma distinct_keys_update: "distinct (keys d) \<Longrightarrow> distinct (keys (AList.update k v d))"
  by (simp add: keys_def distinct_update)

lemma list_all2_right: "list_all2 P xs ys \<Longrightarrow> y \<in> set ys \<Longrightarrow> \<exists>x \<in> set xs. P x y"
  by (induction rule: list_all2_induct) auto

lemma map_of_in_keys: "map_of d k = Some v \<Longrightarrow> k \<in> set (keys d)"
  by (simp add: set_keys domI)

lemma list_all2_vals:
  "list_all2 P d d' \<Longrightarrow> v \<in> set (vals d') \<Longrightarrow> \<exists>x \<in> set d. \<exists>y \<in> set d'. P x y \<and> snd y = v"
  by (induction rule: list_all2_induct) (auto simp: vals_def)

lemma list_all2_keys: "list_all2 (\<lambda>x y. fst y = fst x \<and> P x y) d d' \<Longrightarrow> keys d' = keys d"
  by (induction rule: list_all2_induct) (auto simp: keys_def)

lemma aget_in_vals: "k \<in> set (keys d) \<Longrightarrow> aget z d k \<in> set (vals d)"
  using map_of_keys_Some [of k d] by (force simp: aget_def vals_def dest: map_of_SomeD)

lemma in_vals_aget: "distinct (keys d) \<Longrightarrow> v \<in> set (vals d) \<Longrightarrow> \<exists>k \<in> set (keys d). v = aget z d k"
  by (force simp: aget_def vals_def keys_def)

lemma aget_map_of: "map_of d k = Some v \<Longrightarrow> aget z d k = v"
  by (simp add: aget_def)

lemma aget_cases: "aget z d k = z \<or> aget z d k \<in> set (vals d)"
  by (cases "map_of d k") (force simp: aget_def vals_def dest: map_of_SomeD)+

lemma map_of_update [simp]: "map_of (AList.update k v d) k' = (if k' = k then Some v else map_of d k')"
  by (simp add: update_conv')

lemma keys_update_id: "k \<in> set (keys d) \<Longrightarrow> keys (AList.update k v d) = keys d"
  by (induction d) (auto simp: keys_def)

lemma vals_update_subset: "set (vals (AList.update k v d)) \<subseteq> insert v (set (vals d))"
  by (induction d) (auto simp: vals_def)

section \<open>Sorting with a comparison\<close>

text \<open>\<open>sorted(xs, key=k)\<close>: stable, by a comparison of the keys.\<close>

fun insert_by :: "('a \<Rightarrow> 'a \<Rightarrow> bool) \<Rightarrow> 'a \<Rightarrow> 'a list \<Rightarrow> 'a list" where
  "insert_by le x [] = [x]"
| "insert_by le x (y # ys) = (if le x y then x # y # ys else y # insert_by le x ys)"

definition sort_by :: "('a \<Rightarrow> 'a \<Rightarrow> bool) \<Rightarrow> 'a list \<Rightarrow> 'a list" where
  "sort_by le xs = foldr (insert_by le) xs []"

lemma mset_insert_by [simp]: "mset (insert_by le x ys) = add_mset x (mset ys)"
  by (induction ys) auto

lemma mset_sort_by [simp]: "mset (sort_by le xs) = mset xs"
  by (induction xs) (simp_all add: sort_by_def)

lemma set_sort_by [simp]: "set (sort_by le xs) = set xs"
  by (metis mset_sort_by set_mset_mset)

lemma length_sort_by [simp]: "length (sort_by le xs) = length xs"
  by (metis mset_sort_by size_mset)

lemma distinct_sort_by [simp]: "distinct (sort_by le xs) = distinct xs"
  by (metis mset_sort_by mset_eq_imp_distinct_iff)

lemma sorted_sort_by:
  assumes total: "\<And>x y. le x y \<or> le y x" and trans: "\<And>x y z. le x y \<Longrightarrow> le y z \<Longrightarrow> le x z"
  shows "sorted_wrt le (sort_by le xs)"
proof -
  have "sorted_wrt le ys \<Longrightarrow> sorted_wrt le (insert_by le x ys)" for x ys
  proof (induction ys)
    case (Cons y ys)
    have "set (insert_by le x ys) = insert x (set ys)" by (metis mset_insert_by set_mset_add_mset_insert set_mset_mset)
    with Cons total trans show ?case by auto
  qed simp
  then show ?thesis by (induction xs) (simp_all add: sort_by_def)
qed

end
