(* ===== verification/Decimal.thy ===== *)
theory Decimal imports Prelude begin

text \<open>
  Python's \<open>decimal.Decimal\<close> as the program uses it: a finite decimal is a coefficient and an
  exponent, and every operation of the default context (precision 28, \<open>ROUND_HALF_EVEN\<close>)
  rounds its exact result to 28 significant digits. \<open>quantize\<close> rescales to the exponent of its
  argument and raises \<open>InvalidOperation\<close> when the result has more than 28 digits; a division
  by zero raises. Comparisons are exact and look at the value only: \<open>2.0\<close> and \<open>2.00\<close>
  are different representations of one value, \<open>deq\<close> is Python's \<open>==\<close>.

  Not modelled: the sign of a zero, NaN and infinities (no operation the program uses makes one from
  finite operands) and the exponent limits of the context (\<open>\<plusminus>\<close> 999999).
\<close>

section \<open>Representation and value\<close>

datatype decimal = Dec (coef: int) (dexp: int)

definition val :: "decimal \<Rightarrow> rat" where
  "val d = of_int (coef d) * 10 powi (dexp d)"

function ndigits :: "int \<Rightarrow> nat" where
  "ndigits n = (if \<bar>n\<bar> < 10 then 1 else Suc (ndigits (\<bar>n\<bar> div 10)))"
  by pat_completeness auto
termination by (relation "measure (\<lambda>n. nat \<bar>n\<bar>)") auto

declare ndigits.simps [simp del]

abbreviation PREC :: nat where "PREC \<equiv> 28"

datatype rounding = ROUND_DOWN | ROUND_UP | ROUND_HALF_EVEN | ROUND_HALF_UP | ROUND_CEILING

text \<open>\<open>n / d\<close> rounded to an integer, for a positive \<open>d\<close>.\<close>

definition rounds_away :: "rounding \<Rightarrow> int \<Rightarrow> int \<Rightarrow> bool" where
  "rounds_away m n d =
     (let q = \<bar>n\<bar> div d; r = \<bar>n\<bar> mod d
      in case m of
           ROUND_DOWN \<Rightarrow> False
         | ROUND_UP \<Rightarrow> r \<noteq> 0
         | ROUND_HALF_EVEN \<Rightarrow> d < 2 * r \<or> (d = 2 * r \<and> odd q)
         | ROUND_HALF_UP \<Rightarrow> d \<le> 2 * r
         | ROUND_CEILING \<Rightarrow> r \<noteq> 0 \<and> 0 < n)"

definition div_round :: "rounding \<Rightarrow> int \<Rightarrow> int \<Rightarrow> int" where
  "div_round m n d = sgn n * (\<bar>n\<bar> div d + of_bool (rounds_away m n d))"

definition rescale :: "rounding \<Rightarrow> decimal \<Rightarrow> int \<Rightarrow> decimal" where
  "rescale m d e =
     (if e \<le> dexp d then Dec (coef d * 10 ^ nat (dexp d - e)) e
      else Dec (div_round m (coef d) (10 ^ nat (e - dexp d))) e)"

definition dfix :: "decimal \<Rightarrow> decimal" where
  "dfix d =
     (let n = ndigits (coef d) in
      if n \<le> PREC then d
      else let r = rescale ROUND_HALF_EVEN d (dexp d + int (n - PREC))
           in if ndigits (coef r) \<le> PREC then r else Dec (coef r div 10) (dexp r + 1))"

definition quantize :: "decimal \<Rightarrow> decimal \<Rightarrow> rounding \<Rightarrow> decimal result" where
  "quantize d q m =
     (let r = rescale m d (dexp q)
      in if ndigits (coef r) \<le> PREC then Inr r else Inl InvalidOperation)"

section \<open>Arithmetic\<close>

definition align :: "decimal \<Rightarrow> int \<Rightarrow> int" where
  "align d e = coef d * 10 ^ nat (dexp d - e)"

instantiation decimal :: "{zero, one, plus, minus, uminus, times, abs, ord}"
begin

definition zero_decimal :: decimal where "zero_decimal = Dec 0 0"

definition one_decimal :: decimal where "one_decimal = Dec 1 0"

definition plus_decimal :: "decimal \<Rightarrow> decimal \<Rightarrow> decimal" where
  "plus_decimal a b = (let e = min (dexp a) (dexp b) in dfix (Dec (align a e + align b e) e))"

definition uminus_decimal :: "decimal \<Rightarrow> decimal" where
  "uminus_decimal a = dfix (Dec (- coef a) (dexp a))"

definition minus_decimal :: "decimal \<Rightarrow> decimal \<Rightarrow> decimal" where
  "minus_decimal a b = (let e = min (dexp a) (dexp b) in dfix (Dec (align a e - align b e) e))"

definition times_decimal :: "decimal \<Rightarrow> decimal \<Rightarrow> decimal" where
  "times_decimal a b = dfix (Dec (coef a * coef b) (dexp a + dexp b))"

definition abs_decimal :: "decimal \<Rightarrow> decimal" where
  "abs_decimal a = dfix (Dec \<bar>coef a\<bar> (dexp a))"

definition less_eq_decimal :: "decimal \<Rightarrow> decimal \<Rightarrow> bool" where
  "less_eq_decimal a b = (let e = min (dexp a) (dexp b) in align a e \<le> align b e)"

definition less_decimal :: "decimal \<Rightarrow> decimal \<Rightarrow> bool" where
  "less_decimal a b = (let e = min (dexp a) (dexp b) in align a e < align b e)"

instance ..

end

definition deq :: "decimal \<Rightarrow> decimal \<Rightarrow> bool" where
  "deq a b \<longleftrightarrow> a \<le> b \<and> b \<le> a"

text \<open>
  Division: 29 or 30 digits of the quotient, made sticky when it is not exact, then rounded; an exact
  quotient loses trailing zeros down to the ideal exponent.
\<close>

fun strip_zeros :: "nat \<Rightarrow> int \<Rightarrow> int \<Rightarrow> decimal" where
  "strip_zeros 0 c e = Dec c e"
| "strip_zeros (Suc k) c e = (if c mod 10 = 0 then strip_zeros k (c div 10) (e + 1) else Dec c e)"

definition ddiv :: "decimal \<Rightarrow> decimal \<Rightarrow> decimal result" where
  "ddiv a b =
     (if coef b = 0 then Inl (if coef a = 0 then InvalidOperation else ZeroDivision)
      else if coef a = 0 then Inr (Dec 0 (dexp a - dexp b))
      else let s = int (ndigits (coef b)) - int (ndigits (coef a)) + int PREC + 1;
               num = \<bar>coef a\<bar> * 10 ^ nat s;
               den = \<bar>coef b\<bar> * 10 ^ nat (- s);
               q = num div den;
               e = dexp a - dexp b - s;
               u = (if num mod den = 0 then strip_zeros (nat s) q e
                    else Dec (if q mod 5 = 0 then q + 1 else q) e)
           in Inr (dfix (Dec (sgn (coef a) * sgn (coef b) * coef u) (dexp u))))"

text \<open>Python's \<open>max\<close> of two keeps its first argument on a tie; \<open>min\<close> does too, as HOL's does.\<close>

definition pmax :: "decimal \<Rightarrow> decimal \<Rightarrow> decimal" where
  "pmax a b = (if a < b then b else a)"

definition dsum :: "decimal list \<Rightarrow> decimal" where
  "dsum xs = foldl (+) 0 xs"

text \<open>\<open>if d:\<close> on a Decimal.\<close>

definition truthy :: "decimal \<Rightarrow> bool" where
  "truthy d \<longleftrightarrow> coef d \<noteq> 0"

end
