(* ===== verification/Decimal_Laws.thy ===== *)
theory Decimal_Laws imports Decimal begin

text \<open>
  The laws of the decimal arithmetic, over the value \<open>val\<close> of a decimal: what comparison decides,
  when an operation is exact, how far a rounded result can be from the exact one, and what
  \<open>quantize\<close> promises in each rounding mode.
\<close>

named_theorems dec_val \<open>value laws of exact decimal operations\<close>

section \<open>Powers of ten and digits\<close>

lemma p10_pos [simp]: "0 < (10::rat) powi e"
  by simp

lemma p10_nonneg [simp]: "0 \<le> (10::rat) powi e"
  by (simp add: less_imp_le)

lemma p10_not_neg [simp]: "\<not> (10::rat) powi e < 0" "\<not> (10::rat) powi e \<le> 0"
  using p10_pos [of e] by (simp_all only: not_less not_le less_imp_le)

lemma p10_add: "(10::rat) powi (a + b) = 10 powi a * 10 powi b"
  by (simp add: power_int_add)

lemma p10_nat: "0 \<le> k \<Longrightarrow> (10::rat) powi k = of_int (10 ^ nat k)"
  by (simp add: power_int_def)

lemma p10_split: "e \<le> d \<Longrightarrow> (10::rat) powi d = of_int (10 ^ nat (d - e)) * 10 powi e"
  using p10_add [of "d - e" e] p10_nat [of "d - e"] by simp

lemma p10_mono: "a \<le> b \<Longrightarrow> (10::rat) powi a \<le> 10 powi b"
  by (simp add: power_int_increasing)

lemma ndigits_pos: "0 < ndigits n"
  by (subst ndigits.simps) simp

lemma ndigits_0 [simp]: "ndigits 0 = 1"
  by (subst ndigits.simps) simp

lemma ndigits_abs: "ndigits \<bar>n\<bar> = ndigits n"
  by (simp add: ndigits.simps [of n] ndigits.simps [of "\<bar>n\<bar>"])

lemma ndigits_upper: "\<bar>n\<bar> < 10 ^ ndigits n"
proof (induction n rule: ndigits.induct)
  case (1 n)
  show ?case
  proof (cases "\<bar>n\<bar> < 10")
    case False
    with 1 have "\<bar>n\<bar> div 10 < 10 ^ ndigits (\<bar>n\<bar> div 10)" by simp
    then have "\<bar>n\<bar> < 10 * 10 ^ ndigits (\<bar>n\<bar> div 10)" by linarith
    with False show ?thesis by (simp add: ndigits.simps [of n])
  qed (simp add: ndigits.simps [of n])
qed

lemma ndigits_lower: "n \<noteq> 0 \<Longrightarrow> 10 ^ (ndigits n - 1) \<le> \<bar>n\<bar>"
proof (induction n rule: ndigits.induct)
  case (1 n)
  show ?case
  proof (cases "\<bar>n\<bar> < 10")
    case True
    with 1(2) show ?thesis by (simp add: ndigits.simps [of n])
  next
    case False
    with 1 have ih: "10 ^ (ndigits (\<bar>n\<bar> div 10) - 1) \<le> \<bar>n\<bar> div 10" by simp
    have "(10::int) ^ ndigits (\<bar>n\<bar> div 10) = 10 * 10 ^ (ndigits (\<bar>n\<bar> div 10) - 1)"
      using ndigits_pos [of "\<bar>n\<bar> div 10"] by (cases "ndigits (\<bar>n\<bar> div 10)") simp_all
    with ih have "10 ^ ndigits (\<bar>n\<bar> div 10) \<le> \<bar>n\<bar>" by linarith
    with False show ?thesis by (simp add: ndigits.simps [of n])
  qed
qed

lemma ndigits_le_iff: "0 < k \<Longrightarrow> ndigits n \<le> k \<longleftrightarrow> \<bar>n\<bar> < 10 ^ k"
proof
  assume "ndigits n \<le> k"
  then have "(10::int) ^ ndigits n \<le> 10 ^ k" by (intro power_increasing) auto
  with ndigits_upper [of n] show "\<bar>n\<bar> < 10 ^ k" by linarith
next
  assume k: "0 < k" and n: "\<bar>n\<bar> < 10 ^ k"
  show "ndigits n \<le> k"
  proof (cases "n = 0")
    case True
    with k show ?thesis by simp
  next
    case False
    with n have "(10::int) ^ (ndigits n - 1) < 10 ^ k" using ndigits_lower [OF False] by linarith
    then have "ndigits n - 1 < k" by (simp add: power_less_imp_less_exp)
    then show ?thesis by simp
  qed
qed

section \<open>Comparison\<close>

lemma val_align: "e \<le> dexp d \<Longrightarrow> val d = of_int (align d e) * 10 powi e"
  using p10_split [of e "dexp d"] by (simp add: val_def align_def mult.assoc)

lemma less_eq_val: "a \<le> b \<longleftrightarrow> val a \<le> val b"
  using val_align [of "min (dexp a) (dexp b)" a] val_align [of "min (dexp a) (dexp b)" b]
  by (simp add: less_eq_decimal_def Let_def)

lemma less_val: "a < b \<longleftrightarrow> val a < val b"
  using val_align [of "min (dexp a) (dexp b)" a] val_align [of "min (dexp a) (dexp b)" b]
  by (simp add: less_decimal_def Let_def)

instance decimal :: preorder
  by standard (auto simp: less_eq_val less_val)

lemma deq_val: "deq a b \<longleftrightarrow> val a = val b"
  by (auto simp: deq_def less_eq_val)

lemma not_less_dec: "\<not> a < b \<longleftrightarrow> b \<le> (a::decimal)"
  by (auto simp: less_eq_val less_val)

lemma not_le_dec: "\<not> a \<le> b \<longleftrightarrow> b < (a::decimal)"
  by (auto simp: less_eq_val less_val)

lemma val_min: "val (min a b) = min (val a) (val b)"
  by (auto simp: min_def less_eq_val)

lemma val_pmax: "val (pmax a b) = max (val a) (val b)"
  by (auto simp: pmax_def less_val)

lemma val_zero [simp]: "val 0 = 0"
  by (simp add: val_def zero_decimal_def)

lemma val_one [simp]: "val 1 = 1"
  by (simp add: val_def one_decimal_def)

lemma val_eq_0_iff: "val d = 0 \<longleftrightarrow> coef d = 0"
  by (simp add: val_def)

lemma val_pos_iff: "0 < val d \<longleftrightarrow> 0 < coef d"
  by (simp add: val_def zero_less_mult_iff)

lemma val_nonneg_iff: "0 \<le> val d \<longleftrightarrow> 0 \<le> coef d"
  using val_pos_iff [of d] val_eq_0_iff [of d] by linarith

lemma truthy_val: "truthy d \<longleftrightarrow> val d \<noteq> 0"
  by (simp add: truthy_def val_eq_0_iff)

section \<open>Rounding a quotient\<close>

lemma div_round_diff:
  assumes "0 < d"
  shows "div_round m n d * d - n = sgn n * (of_bool (rounds_away m n d) * d - \<bar>n\<bar> mod d)"
proof -
  define s q r where "s = sgn n" and "q = \<bar>n\<bar> div d" and "r = \<bar>n\<bar> mod d"
  have "n = s * (q * d + r)" by (simp add: s_def q_def r_def sgn_if)
  then have "s * (q + of_bool u) * d - n = s * (of_bool u * d - r)" for u
    by (simp add: algebra_simps)
  then show ?thesis by (simp add: div_round_def s_def q_def r_def)
qed

lemma rounds_away_exact: "0 < d \<Longrightarrow> \<bar>n\<bar> mod d = 0 \<Longrightarrow> \<not> rounds_away m n d"
  by (cases m) (auto simp: rounds_away_def Let_def)

lemma abs_sgn_le: "\<bar>sgn (n::int) * x\<bar> \<le> \<bar>x\<bar>"
  by (simp add: abs_mult sgn_if)

lemma div_round_error:
  assumes "0 < d" shows "\<bar>div_round m n d * d - n\<bar> < d"
proof -
  let ?r = "\<bar>n\<bar> mod d"
  have "0 \<le> ?r" "?r < d" using assms by simp_all
  moreover have "?r = 0 \<Longrightarrow> \<not> rounds_away m n d" using rounds_away_exact [OF assms] .
  ultimately have "\<bar>of_bool (rounds_away m n d) * d - ?r\<bar> < d"
    by (cases "rounds_away m n d"; cases "?r = 0") (simp_all add: abs_if)
  then show ?thesis
    unfolding div_round_diff [OF assms] using abs_sgn_le le_less_trans by blast
qed

lemma div_round_half_error:
  assumes "0 < d" and "m = ROUND_HALF_EVEN \<or> m = ROUND_HALF_UP"
  shows "2 * \<bar>div_round m n d * d - n\<bar> \<le> d"
proof -
  let ?r = "\<bar>n\<bar> mod d"
  have "0 \<le> ?r" "?r < d" using assms by simp_all
  then have "2 * \<bar>of_bool (rounds_away m n d) * d - ?r\<bar> \<le> d"
    using assms(2) by (auto simp: rounds_away_def Let_def)
  then show ?thesis
    unfolding div_round_diff [OF assms(1)] using abs_sgn_le [of n] by (smt (verit, best))
qed

lemma div_round_exact:
  assumes "0 < d" and "d dvd n" shows "div_round m n d * d = n"
  using div_round_diff [OF assms(1), of m n] rounds_away_exact [OF assms(1), of n m] assms by simp

lemma div_round_down:
  assumes "0 < d" shows "\<bar>div_round ROUND_DOWN n d\<bar> * d \<le> \<bar>n\<bar>"
proof -
  have "\<bar>div_round ROUND_DOWN n d\<bar> = (if n = 0 then 0 else \<bar>n\<bar> div d)"
    using assms by (auto simp: div_round_def rounds_away_def Let_def abs_mult pos_imp_zdiv_nonneg_iff)
  moreover have "\<bar>n\<bar> div d * d \<le> \<bar>n\<bar>"
    using div_mult_mod_eq [of "\<bar>n\<bar>" d] pos_mod_sign [OF assms, of "\<bar>n\<bar>"] by linarith
  ultimately show ?thesis by simp
qed

lemma div_round_up:
  assumes "0 < d" shows "\<bar>n\<bar> \<le> \<bar>div_round ROUND_UP n d\<bar> * d"
proof (cases "n = 0")
  case False
  let ?k = "\<bar>n\<bar> div d + of_bool (\<bar>n\<bar> mod d \<noteq> 0)"
  have "0 \<le> ?k" using assms by (simp add: pos_imp_zdiv_nonneg_iff)
  moreover have "\<bar>div_round ROUND_UP n d\<bar> = \<bar>sgn n\<bar> * \<bar>?k\<bar>"
    unfolding div_round_def rounds_away_def Let_def abs_mult by simp
  ultimately have "\<bar>div_round ROUND_UP n d\<bar> = ?k" using False by simp
  moreover have "\<bar>n\<bar> < \<bar>n\<bar> div d * d + d" "\<bar>n\<bar> mod d = 0 \<Longrightarrow> \<bar>n\<bar> \<le> \<bar>n\<bar> div d * d"
    using div_mult_mod_eq [of "\<bar>n\<bar>" d] pos_mod_bound [OF assms, of "\<bar>n\<bar>"] by linarith+
  then have "\<bar>n\<bar> \<le> ?k * d"
    by (cases "\<bar>n\<bar> mod d = 0") (simp_all add: distrib_right)
  ultimately show ?thesis by simp
qed (simp add: div_round_def)

lemma div_round_ceiling:
  assumes "0 < d" shows "n \<le> div_round ROUND_CEILING n d * d"
proof -
  have "0 \<le> sgn n * (of_bool (rounds_away ROUND_CEILING n d) * d - \<bar>n\<bar> mod d)"
    using assms pos_mod_bound [OF assms, of "\<bar>n\<bar>"] pos_mod_sign [OF assms, of "\<bar>n\<bar>"]
    by (auto simp: rounds_away_def Let_def sgn_if)
  then show ?thesis using div_round_diff [OF assms, of ROUND_CEILING n] by linarith
qed

lemma div_round_nonneg: "0 < d \<Longrightarrow> 0 \<le> n \<Longrightarrow> 0 \<le> div_round m n d"
  by (auto simp: div_round_def sgn_if pos_imp_zdiv_nonneg_iff)

lemma div_round_nonpos: "0 < d \<Longrightarrow> n \<le> 0 \<Longrightarrow> div_round m n d \<le> 0"
  using pos_imp_zdiv_nonneg_iff [of d "\<bar>n\<bar>"] by (auto simp: div_round_def sgn_if)

section \<open>Multiples of a power of ten\<close>

definition grid :: "int \<Rightarrow> rat \<Rightarrow> bool" where
  "grid e x \<longleftrightarrow> (\<exists>k. x = of_int k * 10 powi e)"

lemma grid_0 [simp]: "grid e 0"
  by (auto simp: grid_def intro: exI [of _ 0])

lemma grid_add: "grid e x \<Longrightarrow> grid e y \<Longrightarrow> grid e (x + y)"
  unfolding grid_def by (metis distrib_right of_int_add)

lemma grid_uminus: "grid e x \<Longrightarrow> grid e (- x)"
  unfolding grid_def by (metis mult_minus_left of_int_minus)

lemma grid_diff: "grid e x \<Longrightarrow> grid e y \<Longrightarrow> grid e (x - y)"
  using grid_add [of e x "- y"] grid_uminus [of e y] by simp

lemma grid_mult: "grid e x \<Longrightarrow> grid f y \<Longrightarrow> grid (e + f) (x * y)"
proof -
  assume "grid e x" "grid f y"
  then obtain k l where "x = of_int k * 10 powi e" "y = of_int l * 10 powi f"
    by (auto simp: grid_def)
  then have "x * y = of_int (k * l) * 10 powi (e + f)" by (simp add: p10_add)
  then show ?thesis unfolding grid_def by blast
qed

lemma grid_mono: "grid e x \<Longrightarrow> f \<le> e \<Longrightarrow> grid f x"
proof -
  assume "grid e x" "f \<le> e"
  then obtain k where "x = of_int (k * 10 ^ nat (e - f)) * 10 powi f"
    using p10_split [of f e] by (auto simp: grid_def mult.assoc)
  then show ?thesis unfolding grid_def by blast
qed

lemma grid_val: "grid (dexp d) (val d)"
  unfolding grid_def val_def by blast

lemma grid_of_int [simp]: "grid 0 (of_int k)"
  unfolding grid_def by (intro exI [of _ k]) simp

lemma grid_min: "grid e x \<Longrightarrow> grid e y \<Longrightarrow> grid e (min x y)"
  by (simp add: min_def)

lemma grid_max: "grid e x \<Longrightarrow> grid e y \<Longrightarrow> grid e (max x y)"
  by (simp add: max_def)

lemma grid_sum_list: "(\<And>x. x \<in> set xs \<Longrightarrow> grid e x) \<Longrightarrow> grid e (sum_list xs)"
  by (induction xs) (simp_all add: grid_add)

lemma grid_less_step: "grid e x \<Longrightarrow> grid e y \<Longrightarrow> x < y + 10 powi e \<Longrightarrow> x \<le> y"
proof -
  assume "grid e x" "grid e y" and lt: "x < y + 10 powi e"
  then obtain k l where kl: "x = of_int k * 10 powi e" "y = of_int l * 10 powi e"
    by (auto simp: grid_def)
  with lt have "of_int k * (10::rat) powi e < of_int (l + 1) * 10 powi e" by (simp add: distrib_right)
  then have "k < l + 1" using p10_pos [of e] by (simp only: mult_less_cancel_right_pos of_int_less_iff)
  then show ?thesis using kl by (simp add: mult_right_mono)
qed

lemma grid_pos_ge: "grid e x \<Longrightarrow> 0 < x \<Longrightarrow> 10 powi e \<le> x"
proof -
  assume "grid e x" "0 < x"
  then obtain k where k: "x = of_int k * 10 powi e" "0 < (of_int k :: rat)"
    by (auto simp: grid_def zero_less_mult_iff)
  then have "1 \<le> (of_int k :: rat)" by simp
  then show ?thesis using k(1) mult_right_mono [of 1 "of_int k :: rat" "10 powi e"] by simp
qed

section \<open>Rescaling\<close>

lemma dexp_rescale [simp]: "dexp (rescale m d e) = e"
  by (simp add: rescale_def)

lemma grid_rescale: "grid e (val (rescale m d e))"
  using grid_val [of "rescale m d e"] by simp

lemma val_rescale_up: "e \<le> dexp d \<Longrightarrow> val (rescale m d e) = val d"
  by (subst val_align [of e d]) (simp_all add: rescale_def val_def align_def)

lemma val_rescale:
  assumes "dexp d < e" and "D = 10 ^ nat (e - dexp d)"
  shows "val (rescale m d e) = of_int (div_round m (coef d) D * D) * 10 powi dexp d"
    and "0 < D" and "(10::rat) powi e = of_int D * 10 powi dexp d"
  using assms p10_split [of "dexp d" e] by (simp_all add: rescale_def val_def)

lemma rescale_diff:
  assumes "dexp d < e" and "D = 10 ^ nat (e - dexp d)"
  shows "\<bar>val (rescale m d e) - val d\<bar> = of_int \<bar>div_round m (coef d) D * D - coef d\<bar> * 10 powi dexp d"
  unfolding val_rescale(1) [OF assms] unfolding val_def
  by (simp add: abs_mult flip: left_diff_distrib of_int_mult)

lemma rescale_error: "\<bar>val (rescale m d e) - val d\<bar> < 10 powi e"
proof (cases "e \<le> dexp d")
  case False
  define D :: int where D: "D = 10 ^ nat (e - dexp d)"
  from False have lt: "dexp d < e" by simp
  note f = val_rescale [OF lt D] rescale_diff [OF lt D]
  have "of_int \<bar>div_round m (coef d) D * D - coef d\<bar> < (of_int D :: rat)"
    using div_round_error [OF f(2)] by (simp only: of_int_less_iff)
  then show ?thesis unfolding f(3,4) by (simp only: mult_strict_right_mono p10_pos)
qed (simp add: val_rescale_up)

lemma rescale_half_error:
  assumes "m = ROUND_HALF_EVEN \<or> m = ROUND_HALF_UP"
  shows "2 * \<bar>val (rescale m d e) - val d\<bar> \<le> 10 powi e"
proof (cases "e \<le> dexp d")
  case False
  define D :: int where D: "D = 10 ^ nat (e - dexp d)"
  from False have lt: "dexp d < e" by simp
  note f = val_rescale [OF lt D] rescale_diff [OF lt D]
  have "2 * of_int \<bar>div_round m (coef d) D * D - coef d\<bar> \<le> (of_int D :: rat)"
    using div_round_half_error [OF f(2) assms, of "coef d"] by linarith
  then show ?thesis unfolding f(3,4) by (simp add: mult_right_mono flip: mult.assoc)
qed (simp add: val_rescale_up)

lemma rescale_exact:
  assumes "grid e (val d)" shows "val (rescale m d e) = val d"
proof (cases "e \<le> dexp d")
  case False
  define D :: int where D: "D = 10 ^ nat (e - dexp d)"
  from False have lt: "dexp d < e" by simp
  note f = val_rescale [OF lt D]
  from assms obtain k where "val d = of_int k * 10 powi e" by (auto simp: grid_def)
  then have "(of_int (coef d) :: rat) = of_int (k * D)"
    unfolding f(3) val_def using p10_pos [of "dexp d"] by (simp del: p10_pos flip: mult.assoc)
  then have "D dvd coef d" by (simp only: of_int_eq_iff dvd_triv_right)
  from div_round_exact [OF f(2) this] show ?thesis unfolding f(1) by (simp add: val_def)
qed (simp add: val_rescale_up)

lemma rescale_down: "\<bar>val (rescale ROUND_DOWN d e)\<bar> \<le> \<bar>val d\<bar>"
proof (cases "e \<le> dexp d")
  case False
  define D :: int where D: "D = 10 ^ nat (e - dexp d)"
  from False have lt: "dexp d < e" by simp
  note f = val_rescale [OF lt D]
  have "\<bar>div_round ROUND_DOWN (coef d) D * D\<bar> \<le> \<bar>coef d\<bar>"
    using div_round_down [OF f(2)] f(2) by (simp add: abs_mult)
  then have "(of_int \<bar>div_round ROUND_DOWN (coef d) D * D\<bar> :: rat) \<le> of_int \<bar>coef d\<bar>"
    by (simp only: of_int_le_iff)
  then show ?thesis unfolding f(1) unfolding val_def abs_mult by (simp add: mult_right_mono abs_mult)
qed (simp add: val_rescale_up)

lemma rescale_up: "\<bar>val d\<bar> \<le> \<bar>val (rescale ROUND_UP d e)\<bar>"
proof (cases "e \<le> dexp d")
  case False
  define D :: int where D: "D = 10 ^ nat (e - dexp d)"
  from False have lt: "dexp d < e" by simp
  note f = val_rescale [OF lt D]
  have "\<bar>coef d\<bar> \<le> \<bar>div_round ROUND_UP (coef d) D * D\<bar>"
    using div_round_up [OF f(2)] f(2) by (simp add: abs_mult)
  then have "(of_int \<bar>coef d\<bar> :: rat) \<le> of_int \<bar>div_round ROUND_UP (coef d) D * D\<bar>"
    by (simp only: of_int_le_iff)
  then show ?thesis unfolding f(1) unfolding val_def abs_mult by (simp add: mult_right_mono)
qed (simp add: val_rescale_up)

lemma rescale_ceiling: "val d \<le> val (rescale ROUND_CEILING d e)"
proof (cases "e \<le> dexp d")
  case False
  define D :: int where D: "D = 10 ^ nat (e - dexp d)"
  from False have lt: "dexp d < e" by simp
  note f = val_rescale [OF lt D]
  have "(of_int (coef d) :: rat) \<le> of_int (div_round ROUND_CEILING (coef d) D * D)"
    using div_round_ceiling [OF f(2)] by (simp only: of_int_le_iff)
  then show ?thesis unfolding f(1) unfolding val_def by (simp add: mult_right_mono)
qed (simp add: val_rescale_up)

lemma rescale_nonneg: "0 \<le> val d \<Longrightarrow> 0 \<le> val (rescale m d e)"
  by (auto simp: val_nonneg_iff rescale_def div_round_nonneg)

lemma rescale_nonpos: "val d \<le> 0 \<Longrightarrow> val (rescale m d e) \<le> 0"
proof -
  assume "val d \<le> 0"
  then have "coef d \<le> 0" using val_pos_iff [of d] by linarith
  then have "coef (rescale m d e) \<le> 0"
    by (auto simp: rescale_def div_round_nonpos mult_nonpos_nonneg)
  then show ?thesis using val_pos_iff [of "rescale m d e"] by linarith
qed

section \<open>Rounding to the context's precision\<close>

definition EPS :: rat where "EPS = 1 / 10 ^ 27"

text \<open>
  \<open>rnd x y\<close>: \<open>y\<close> is a correct rounding of the exact result \<open>x\<close>. It is off by a factor of at
  most \<open>EPS\<close>, and it is \<open>x\<close> itself when \<open>x\<close> has at most 28 digits.
\<close>

definition rnd :: "rat \<Rightarrow> rat \<Rightarrow> bool" where
  "rnd x y \<longleftrightarrow> \<bar>y - x\<bar> \<le> \<bar>x\<bar> * EPS \<and> (\<forall>e. grid e x \<and> \<bar>x\<bar> < 10 powi (28 + e) \<longrightarrow> y = x)"

lemma EPS_pos [simp]: "0 < EPS" "0 \<le> EPS"
  by (simp_all add: EPS_def)

lemma EPS_less: "EPS < 1"
  by (simp add: EPS_def)

lemma rnd_exact: "rnd x y \<Longrightarrow> grid e x \<Longrightarrow> \<bar>x\<bar> < 10 powi (28 + e) \<Longrightarrow> y = x"
  unfolding rnd_def by blast

lemma rnd_error: "rnd x y \<Longrightarrow> \<bar>y - x\<bar> \<le> \<bar>x\<bar> * EPS"
  unfolding rnd_def by blast

lemma rnd_refl [simp]: "rnd x x"
  by (simp add: rnd_def)

lemma rnd_0 [simp]: "rnd 0 y \<longleftrightarrow> y = 0"
  by (auto simp: rnd_def)

lemma rnd_upper: "rnd x y \<Longrightarrow> 0 \<le> x \<Longrightarrow> y \<le> x * (1 + EPS)"
  using rnd_error [of x y] by (simp add: algebra_simps)

lemma rnd_lower: "rnd x y \<Longrightarrow> 0 \<le> x \<Longrightarrow> x * (1 - EPS) \<le> y"
  using rnd_error [of x y] by (simp add: algebra_simps)

lemma rnd_nonneg: "rnd x y \<Longrightarrow> 0 \<le> x \<Longrightarrow> 0 \<le> y"
  using rnd_lower [of x y] EPS_less mult_nonneg_nonneg [of x "1 - EPS"] by linarith

lemma rnd_uminus: "rnd x y \<Longrightarrow> rnd (- x) (- y)"
  unfolding rnd_def using grid_uminus [of _ "- x"] by (auto simp: abs_minus_commute)

lemma rnd_pos: "rnd x y \<Longrightarrow> 0 < x \<Longrightarrow> 0 < y"
  using rnd_lower [of x y] EPS_less mult_pos_pos [of x "1 - EPS"] by linarith

lemma rnd_nonpos: "rnd x y \<Longrightarrow> x \<le> 0 \<Longrightarrow> y \<le> 0"
  using rnd_nonneg [of "- x" "- y"] rnd_uminus [of x y] by simp

lemma rnd_neg: "rnd x y \<Longrightarrow> x < 0 \<Longrightarrow> y < 0"
  using rnd_pos [of "- x" "- y"] rnd_uminus [of x y] by simp

lemma rnd_pos_iff: "rnd x y \<Longrightarrow> 0 < y \<longleftrightarrow> 0 < x"
  using rnd_pos rnd_nonpos by (meson not_less)

lemma rnd_neg_iff: "rnd x y \<Longrightarrow> y < 0 \<longleftrightarrow> x < 0"
  using rnd_neg rnd_nonneg by (meson not_less)

lemma dfix_carry_value:
  assumes "\<not> ndigits (coef d) \<le> PREC"
    and "r = rescale ROUND_HALF_EVEN d (dexp d + int (ndigits (coef d) - PREC))"
    and "\<not> ndigits (coef r) \<le> PREC"
  shows "coef r = 10 ^ 28 \<or> coef r = - (10 ^ 28)"
proof -
  define D :: int where "D = 10 ^ (ndigits (coef d) - PREC)"
  have D: "0 < D" by (simp add: D_def)
  have r: "coef r = div_round ROUND_HALF_EVEN (coef d) D"
    using assms(1,2) by (simp add: rescale_def D_def nat_diff_distrib')
  have "\<bar>coef d\<bar> < 10 ^ (28 + (ndigits (coef d) - PREC))"
    using ndigits_upper [of "coef d"] assms(1) by simp
  then have "\<bar>coef d\<bar> < 10 ^ 28 * D" by (simp add: power_add D_def)
  then have "\<bar>coef r * D\<bar> < (10 ^ 28 + 1) * D"
    using div_round_error [OF D, of ROUND_HALF_EVEN "coef d"] by (simp add: r distrib_right)
  then have "\<bar>coef r\<bar> < 10 ^ 28 + 1" using D by (simp add: abs_mult)
  moreover have "10 ^ 28 \<le> \<bar>coef r\<bar>" using assms(3) by (simp add: ndigits_le_iff)
  ultimately show ?thesis by linarith
qed

lemma dfix_carry:
  assumes "\<not> ndigits (coef d) \<le> PREC"
    and "r = rescale ROUND_HALF_EVEN d (dexp d + int (ndigits (coef d) - PREC))"
    and "\<not> ndigits (coef r) \<le> PREC"
  shows "coef r = (coef r div 10) * 10"
  using dfix_carry_value [OF assms] by auto

lemma dfix_laws:
  shows dfix_error: "2 * \<bar>val (dfix d) - val d\<bar> \<le> \<bar>val d\<bar> * EPS"
    and dfix_exact: "grid f (val d) \<Longrightarrow> \<bar>val d\<bar> < 10 powi (28 + f) \<Longrightarrow> val (dfix d) = val d"
proof (atomize (full), cases "ndigits (coef d) \<le> PREC")
  case True
  then show "2 * \<bar>val (dfix d) - val d\<bar> \<le> \<bar>val d\<bar> * EPS \<and>
      (grid f (val d) \<longrightarrow> \<bar>val d\<bar> < 10 powi (28 + f) \<longrightarrow> val (dfix d) = val d)"
    by (simp add: dfix_def)
next
  case False
  define e where "e = dexp d + int (ndigits (coef d) - PREC)"
  define r where "r = rescale ROUND_HALF_EVEN d e"
  have big: "(10::rat) powi (27 + e) \<le> \<bar>val d\<bar>"
  proof -
    have "coef d \<noteq> 0" using False by auto
    then have "(10::int) ^ (ndigits (coef d) - 1) \<le> \<bar>coef d\<bar>" by (rule ndigits_lower)
    then have "(10::rat) powi int (ndigits (coef d) - 1) \<le> of_int \<bar>coef d\<bar>"
      unfolding power_int_of_nat by (simp only: flip: of_int_le_iff [where ?'a = rat]) simp
    then have "(10::rat) powi int (ndigits (coef d) - 1) * 10 powi dexp d \<le> \<bar>val d\<bar>"
      by (simp add: val_def abs_mult mult_right_mono)
    moreover have "int (ndigits (coef d) - 1) + dexp d = 27 + e" using False by (simp add: e_def)
    ultimately show ?thesis by (simp only: flip: p10_add)
  qed
  have r10: "val (dfix d) = val r"
  proof (cases "ndigits (coef r) \<le> PREC")
    case True
    with False show ?thesis by (simp add: dfix_def Let_def r_def e_def)
  next
    case carry: False
    have "val (dfix d) = of_int (coef r div 10) * 10 powi (e + 1)"
      using False carry by (simp add: dfix_def Let_def r_def e_def val_def)
    also have "\<dots> = of_int (coef r div 10 * 10) * 10 powi e" by (simp add: p10_add)
    also have "coef r div 10 * 10 = coef r"
      using dfix_carry [OF False _ carry] by (simp add: r_def e_def)
    finally show ?thesis by (simp add: val_def r_def)
  qed
  have "2 * \<bar>val r - val d\<bar> \<le> \<bar>val d\<bar> * EPS"
  proof -
    have "2 * \<bar>val r - val d\<bar> \<le> 10 powi e"
      unfolding r_def by (rule rescale_half_error) simp
    also have "\<dots> = 10 powi (27 + e) * EPS" by (simp add: p10_add EPS_def)
    also have "\<dots> \<le> \<bar>val d\<bar> * EPS" using big by (rule mult_right_mono) simp
    finally show ?thesis .
  qed
  moreover have "val r = val d" if g: "grid f (val d)" and l: "\<bar>val d\<bar> < 10 powi (28 + f)"
  proof -
    from big l have "(10::rat) powi (27 + e) < 10 powi (28 + f)" by linarith
    then have "27 + e < 28 + f" using p10_mono [of "28 + f" "27 + e"] by linarith
    with grid_mono [OF g] show ?thesis unfolding r_def by (intro rescale_exact) simp
  qed
  ultimately show "2 * \<bar>val (dfix d) - val d\<bar> \<le> \<bar>val d\<bar> * EPS \<and>
      (grid f (val d) \<longrightarrow> \<bar>val d\<bar> < 10 powi (28 + f) \<longrightarrow> val (dfix d) = val d)"
    unfolding r10 by blast
qed

lemma rnd_dfix: "rnd (val d) (val (dfix d))"
proof -
  have "\<bar>val (dfix d) - val d\<bar> \<le> 2 * \<bar>val (dfix d) - val d\<bar>" by simp
  also note dfix_error
  finally show ?thesis unfolding rnd_def using dfix_exact by blast
qed

section \<open>The operations\<close>

lemma rnd_plus: "rnd (val a + val b) (val (a + b))"
proof -
  let ?e = "min (dexp a) (dexp b)"
  have "val (Dec (align a ?e + align b ?e) ?e) = val a + val b"
    using val_align [of ?e a] val_align [of ?e b] by (simp add: val_def [of "Dec _ _"] distrib_right)
  then show ?thesis using rnd_dfix by (simp add: plus_decimal_def Let_def) metis
qed

lemma rnd_minus: "rnd (val a - val b) (val (a - b))"
proof -
  let ?e = "min (dexp a) (dexp b)"
  have "val (Dec (align a ?e - align b ?e) ?e) = val a - val b"
    using val_align [of ?e a] val_align [of ?e b] by (simp add: val_def [of "Dec _ _"] left_diff_distrib)
  then show ?thesis using rnd_dfix by (simp add: minus_decimal_def Let_def) metis
qed

lemma rnd_times: "rnd (val a * val b) (val (a * b))"
proof -
  have "val (Dec (coef a * coef b) (dexp a + dexp b)) = val a * val b"
    by (simp add: val_def p10_add)
  then show ?thesis using rnd_dfix by (simp add: times_decimal_def) metis
qed

lemma rnd_neg_op: "rnd (- val a) (val (- a))"
proof -
  have "val (Dec (- coef a) (dexp a)) = - val a" by (simp add: val_def)
  then show ?thesis using rnd_dfix by (simp add: uminus_decimal_def) metis
qed

lemma rnd_abs: "rnd \<bar>val a\<bar> (val \<bar>a\<bar>)"
proof -
  have "val (Dec \<bar>coef a\<bar> (dexp a)) = \<bar>val a\<bar>" by (simp add: val_def abs_mult)
  then show ?thesis using rnd_dfix by (simp add: abs_decimal_def) metis
qed

text \<open>A decimal that any operation returned has at most 28 digits; negating it is then exact.\<close>

lemma val_uminus: "grid e (val a) \<Longrightarrow> \<bar>val a\<bar> < 10 powi (28 + e) \<Longrightarrow> val (- a) = - val a"
  using rnd_exact [OF rnd_neg_op grid_uminus] by simp

lemma val_plus_exact [dec_val]:
  "grid e (val a) \<Longrightarrow> grid e (val b) \<Longrightarrow> \<bar>val a + val b\<bar> < 10 powi (28 + e) \<Longrightarrow> val (a + b) = val a + val b"
  using rnd_exact [OF rnd_plus grid_add] .

lemma val_minus_exact [dec_val]:
  "grid e (val a) \<Longrightarrow> grid e (val b) \<Longrightarrow> \<bar>val a - val b\<bar> < 10 powi (28 + e) \<Longrightarrow> val (a - b) = val a - val b"
  using rnd_exact [OF rnd_minus grid_diff] .

lemma val_times_exact [dec_val]:
  "grid e (val a) \<Longrightarrow> grid f (val b) \<Longrightarrow> \<bar>val a * val b\<bar> < 10 powi (28 + (e + f)) \<Longrightarrow> val (a * b) = val a * val b"
  using rnd_exact [OF rnd_times grid_mult] .

lemma val_strip_zeros: "val (strip_zeros k c e) = of_int c * 10 powi e"
proof (induction k arbitrary: c e)
  case (Suc k)
  show ?case
  proof (cases "c mod 10 = 0")
    case True
    have "(of_int (c div 10) :: rat) * 10 powi (e + 1) = of_int (c div 10 * 10) * 10 powi e"
      by (simp add: p10_add)
    also have "c div 10 * 10 = c" using True div_mult_mod_eq [of c 10] by simp
    finally show ?thesis using True Suc.IH by simp
  qed (simp add: val_def)
qed (simp add: val_def)

text \<open>
  Division: the integer quotient has at least 29 digits, so the sticky last digit moves it by less
  than one unit in the 29th, and an exact quotient of at most 28 digits divides evenly.
\<close>

lemma p10_neg_nat: "(10::rat) powi (- s) = 10 ^ nat (- s) / 10 ^ nat s"
proof (cases "0 \<le> s")
  case True
  then have "(10::rat) powi s = 10 ^ nat s" by (simp add: power_int_def)
  with True show ?thesis by (simp only: power_int_minus) (simp add: divide_inverse)
next
  case False
  then show ?thesis by (simp add: power_int_def)
qed

lemma p10_shift: "(10::rat) powi (a - b - s) = 10 powi a / 10 powi b * (10 ^ nat (- s) / 10 ^ nat s)"
proof -
  have "a - b - s = a + - b + - s" by simp
  then have "(10::rat) powi (a - b - s) = 10 powi a * 10 powi (- b) * 10 powi (- s)"
    by (simp only: p10_add)
  then show ?thesis by (simp only: p10_neg_nat [of s] power_int_minus [of _ b] divide_inverse [of "10 powi a"])
qed

lemma scaled_quotient:
  assumes "0 < X" "0 < Y" "0 < Q" "0 < (B::rat)"
  shows "(A * P) / (B * Q) = (A * X) / (B * Y) * (P / Q * (Y / X))"
  using assms by simp

lemma ddiv_scaled:
  assumes "a \<noteq> 0" "b \<noteq> 0"
    and s: "s = int (ndigits b) - int (ndigits a) + 29"
    and n: "num = \<bar>a\<bar> * 10 ^ nat s" and d: "den = \<bar>b\<bar> * 10 ^ nat (- s)"
  shows "0 < den" and "10 ^ 28 * den \<le> num"
proof -
  show "0 < den" using assms(2) by (simp add: d)
  let ?na = "ndigits a" and ?nb = "ndigits b"
  have "10 ^ (?na - 1) * 10 ^ nat s \<le> num"
    unfolding n using ndigits_lower [OF assms(1)] by (rule mult_right_mono) simp
  moreover have "den \<le> 10 ^ ?nb * 10 ^ nat (- s)"
    unfolding d using ndigits_upper [of b] by (intro mult_right_mono less_imp_le) simp_all
  then have "10 ^ 28 * den \<le> 10 ^ 28 * (10 ^ ?nb * 10 ^ nat (- s))" by (rule mult_left_mono) simp
  moreover have "28 + (?nb + nat (- s)) = ?na - 1 + nat s"
    using s ndigits_pos [of a] by linarith
  then have "(10::int) ^ 28 * (10 ^ ?nb * 10 ^ nat (- s)) = 10 ^ (?na - 1) * 10 ^ nat s"
    by (simp only: flip: power_add)
  ultimately show "10 ^ 28 * den \<le> num" by (metis order_trans)
qed

lemma ddiv_value:
  assumes "coef b \<noteq> 0" and n: "num = \<bar>coef a\<bar> * 10 ^ nat s" and d: "den = \<bar>coef b\<bar> * 10 ^ nat (- s)"
  shows "\<bar>val a / val b\<bar> = of_int num / of_int den * 10 powi (dexp a - dexp b - s)"
proof -
  have B: "0 < (of_int \<bar>coef b\<bar> :: rat)" using assms(1) by simp
  have "\<bar>val a / val b\<bar> = (of_int \<bar>coef a\<bar> * 10 powi dexp a) / (of_int \<bar>coef b\<bar> * 10 powi dexp b)"
    by (simp add: val_def abs_mult)
  also have "\<dots> = (of_int \<bar>coef a\<bar> * 10 ^ nat s) / (of_int \<bar>coef b\<bar> * 10 ^ nat (- s)) * 10 powi (dexp a - dexp b - s)"
    unfolding p10_shift by (rule scaled_quotient [OF _ _ _ B]) simp_all
  finally show ?thesis by (simp only: n d of_int_mult of_int_power of_int_numeral)
qed

lemma sticky_quotient:
  fixes num den q u :: int
  assumes "0 < den" "10 ^ 28 * den \<le> num" and q: "q = num div den"
    and u: "num mod den = 0 \<Longrightarrow> u = q" "num mod den \<noteq> 0 \<Longrightarrow> u = q \<or> u = q + 1"
  shows "\<bar>of_int u - (of_int num / of_int den :: rat)\<bar> \<le> of_int num / of_int den / 10 ^ 28"
    and "10 ^ 28 \<le> q"
proof -
  let ?x = "of_int num / of_int den :: rat"
  show "10 ^ 28 \<le> q" unfolding q using assms(1,2) by (metis nonzero_mult_div_cancel_right less_irrefl zdiv_mono1)
  have x: "10 ^ 28 \<le> ?x"
    using assms(1,2) by (simp add: pos_le_divide_eq flip: of_int_le_iff [where ?'a = rat])
  have "?x = of_int q + of_int (num mod den) / of_int den"
    using assms(1) by (simp add: q field_simps flip: of_int_mult of_int_add)
  moreover have "0 \<le> (of_int (num mod den) / of_int den :: rat)" "of_int (num mod den) / of_int den < (1 :: rat)"
    using assms(1) by simp_all
  ultimately have "\<bar>of_int u - ?x\<bar> \<le> 1 \<and> (num mod den = 0 \<longrightarrow> of_int u = ?x)"
    using u by (cases "num mod den = 0") (auto simp: abs_if)
  moreover have "1 \<le> ?x / 10 ^ 28" using x by simp
  ultimately show "\<bar>of_int u - ?x\<bar> \<le> ?x / 10 ^ 28" by linarith
qed

lemma rnd_two_steps:
  assumes x: "0 \<le> x" and y: "\<bar>y - x\<bar> \<le> x / 10 ^ 28" and w: "val w = \<sigma> * y" and \<sigma>: "\<bar>\<sigma>\<bar> = 1"
    and ex: "\<And>f. grid f x \<Longrightarrow> x < 10 powi (28 + f) \<Longrightarrow> y = x"
  shows "rnd (\<sigma> * x) (val (dfix w))"
proof -
  let ?r = "val (dfix w)"
  have ys: "\<bar>\<sigma> * y - \<sigma> * x\<bar> \<le> x / 10 ^ 28"
    using y \<sigma> by (simp add: abs_mult flip: right_diff_distrib)
  have "\<bar>y\<bar> \<le> x + x / 10 ^ 28" using y x by linarith
  then have "\<bar>\<sigma> * y\<bar> \<le> x + x / 10 ^ 28" using \<sigma> by (simp only: abs_mult mult_1)
  then have "\<bar>\<sigma> * y\<bar> * EPS \<le> (x + x / 10 ^ 28) * EPS" by (rule mult_right_mono) simp
  with dfix_error [of w] have "2 * \<bar>?r - \<sigma> * y\<bar> \<le> (x + x / 10 ^ 28) * EPS"
    unfolding w by (rule order_trans)
  then have half: "\<bar>?r - \<sigma> * y\<bar> \<le> (x + x / 10 ^ 28) * EPS / 2"
    by (simp only: pos_le_divide_eq [of 2] zero_less_numeral mult.commute)
  have "\<bar>?r - \<sigma> * x\<bar> \<le> \<bar>?r - \<sigma> * y\<bar> + \<bar>\<sigma> * y - \<sigma> * x\<bar>" by linarith
  also have "\<dots> \<le> (x + x / 10 ^ 28) * EPS / 2 + x / 10 ^ 28" using half ys by (rule add_mono)
  also have "\<dots> = x * ((1 + 1 / 10 ^ 28) * EPS / 2 + 1 / 10 ^ 28)" by (simp add: algebra_simps)
  also have "\<dots> \<le> x * EPS" using x by (intro mult_left_mono) (simp_all add: EPS_def)
  finally have "\<bar>?r - \<sigma> * x\<bar> \<le> \<bar>\<sigma> * x\<bar> * EPS" using x \<sigma> by (simp add: abs_mult)
  moreover have "?r = \<sigma> * x" if "grid f (\<sigma> * x)" "\<bar>\<sigma> * x\<bar> < 10 powi (28 + f)" for f
  proof -
    from \<sigma> have "\<sigma> = 1 \<or> \<sigma> = - 1" by linarith
    with that(1) have "grid f x" using grid_uminus [of f "- x"] by auto
    moreover have "x < 10 powi (28 + f)" using that(2) x \<sigma> by (simp add: abs_mult)
    ultimately have "y = x" by (rule ex)
    with that show ?thesis using dfix_exact [of f w] by (simp add: w)
  qed
  ultimately show ?thesis unfolding rnd_def by blast
qed

theorem rnd_ddiv:
  assumes "ddiv a b = Inr r" shows "rnd (val a / val b) (val r)" and "val b \<noteq> 0"
proof -
  show b0: "val b \<noteq> 0" using assms by (auto simp: ddiv_def val_eq_0_iff split: if_splits)
  show "rnd (val a / val b) (val r)"
  proof (cases "coef a = 0")
    case True
    with assms b0 have "val r = 0" "val a = 0" by (auto simp: ddiv_def val_def)
    then show ?thesis by (simp only: div_0 rnd_0)
  next
    case False
    define s where "s = int (ndigits (coef b)) - int (ndigits (coef a)) + int PREC + 1"
    define num where "num = \<bar>coef a\<bar> * 10 ^ nat s"
    define den where "den = \<bar>coef b\<bar> * 10 ^ nat (- s)"
    define q where "q = num div den"
    define e where "e = dexp a - dexp b - s"
    define \<sigma> where "\<sigma> = sgn (coef a) * sgn (coef b)"
    define u where "u = (if num mod den = 0 then q else if q mod 5 = 0 then q + 1 else q)"
    define x where "x = \<bar>val a / val b\<bar>"
    have cb: "coef b \<noteq> 0" using b0 by (simp add: val_eq_0_iff)
    have "s = int (ndigits (coef b)) - int (ndigits (coef a)) + 29" by (simp add: s_def)
    note dn = ddiv_scaled [OF False cb this num_def den_def]
    have xe: "x = of_int num / of_int den * 10 powi e"
      unfolding x_def e_def by (rule ddiv_value [OF cb num_def den_def])
    define z where "z = (of_int num / of_int den :: rat)"
    have "\<bar>of_int u - z\<bar> \<le> z / 10 ^ 28"
      unfolding z_def by (rule sticky_quotient [OF dn q_def]) (simp_all add: u_def)
    then have "\<bar>of_int u - z\<bar> * 10 powi e \<le> z / 10 ^ 28 * 10 powi e"
      by (rule mult_right_mono) simp
    moreover have "of_int u * 10 powi e - x = (of_int u - z) * 10 powi e"
      by (simp add: xe z_def left_diff_distrib)
    moreover have "x = z * 10 powi e" by (simp add: xe z_def)
    ultimately have uy: "\<bar>of_int u * 10 powi e - x\<bar> \<le> x / 10 ^ 28"
      by (simp add: abs_mult)
    obtain w where w: "r = dfix w" "val w = of_int (\<sigma> * u) * 10 powi e"
    proof -
      let ?w = "if num mod den = 0 then strip_zeros (nat s) q e else Dec (if q mod 5 = 0 then q + 1 else q) e"
      have "ddiv a b = Inr (dfix (Dec (\<sigma> * coef ?w) (dexp ?w)))"
        unfolding ddiv_def Let_def s_def num_def den_def q_def e_def \<sigma>_def using cb False by (simp only: if_False)
      with assms have "r = dfix (Dec (\<sigma> * coef ?w) (dexp ?w))" by (simp only: sum.inject)
      moreover have "val ?w = of_int u * 10 powi e"
        by (simp add: val_strip_zeros u_def) (simp add: val_def)
      then have "val (Dec (\<sigma> * coef ?w) (dexp ?w)) = of_int (\<sigma> * u) * 10 powi e"
        by (simp only: val_def decimal.sel of_int_mult mult.assoc)
      ultimately show ?thesis by (rule that)
    qed
    have "rnd (of_int \<sigma> * x) (val (dfix w))"
    proof (rule rnd_two_steps [OF _ uy])
      show "0 \<le> x" by (simp add: x_def)
      show "val w = of_int \<sigma> * (of_int u * 10 powi e)" by (simp add: w(2))
      show "\<bar>of_int \<sigma> :: rat\<bar> = 1" using False cb by (simp add: \<sigma>_def abs_mult flip: of_int_abs)
    next
      fix f assume g: "grid f x" and l: "x < 10 powi (28 + f)"
      have "10 ^ 28 \<le> (of_int num / of_int den :: rat)"
        using dn by (simp add: pos_le_divide_eq flip: of_int_le_iff [where ?'a = rat])
      then have "10 powi (28 + e) \<le> x"
        unfolding xe p10_add by (intro mult_right_mono) simp_all
      with l have "e \<le> f" using p10_mono [of "28 + f" "28 + e"] by linarith
      with g have "grid e x" by (rule grid_mono)
      then obtain k where "x = of_int k * 10 powi e" by (auto simp: grid_def)
      then have "(of_int num :: rat) = of_int (k * den)" using dn(1) by (simp add: xe field_simps)
      then have "num = k * den" by (simp only: of_int_eq_iff)
      with dn(1) show "of_int u * 10 powi e = x" by (simp add: xe u_def q_def)
    qed
    moreover have "of_int \<sigma> * x = val a / val b"
      by (simp add: x_def \<sigma>_def val_def abs_mult abs_sgn [of "of_int _"] sgn_if)
    ultimately show ?thesis by (simp only: w(1))
  qed
qed

lemma ddiv_total: "val b \<noteq> 0 \<Longrightarrow> \<exists>r. ddiv a b = Inr r"
  by (simp add: ddiv_def Let_def val_eq_0_iff)

lemma ddiv_Inl: "ddiv a b = Inl e \<Longrightarrow> val b = 0"
  by (simp add: ddiv_def Let_def val_eq_0_iff split: if_splits)

section \<open>Numbers of at most 28 digits\<close>

text \<open>Every result of an operation is one, so that negating it or taking its absolute value is exact.\<close>

definition canon :: "decimal \<Rightarrow> bool" where
  "canon d \<longleftrightarrow> ndigits (coef d) \<le> PREC"

lemma canon_dfix [simp]: "canon (dfix d)"
proof (cases "ndigits (coef d) \<le> PREC")
  case False
  define r where "r = rescale ROUND_HALF_EVEN d (dexp d + int (ndigits (coef d) - PREC))"
  have "canon (Dec (coef r div 10) (dexp r + 1))" if "\<not> ndigits (coef r) \<le> PREC"
    using dfix_carry_value [OF False r_def that] by (auto simp: canon_def ndigits_le_iff)
  with False show ?thesis by (simp add: dfix_def Let_def canon_def r_def)
qed (simp add: dfix_def canon_def)

lemma canon_ops [simp]:
  "canon (a + b)" "canon (a - b)" "canon (a * b)" "canon (- a)" "canon \<bar>a\<bar>" "canon 0" "canon 1"
  by (simp_all add: plus_decimal_def minus_decimal_def times_decimal_def uminus_decimal_def abs_decimal_def Let_def)
    (simp_all add: canon_def zero_decimal_def one_decimal_def ndigits_le_iff)

lemma canon_val: "canon d \<Longrightarrow> \<bar>val d\<bar> < 10 powi (28 + dexp d)"
  by (simp add: canon_def ndigits_le_iff val_def abs_mult p10_add)

lemma canon_neg [simp]: "canon d \<Longrightarrow> val (- d) = - val d"
  using val_uminus [OF grid_val canon_val] .

lemma canon_abs [simp]: "canon d \<Longrightarrow> val \<bar>d\<bar> = \<bar>val d\<bar>"
  using rnd_exact [OF rnd_abs, of "dexp d" d] canon_val [of d] grid_val [of d] grid_uminus [OF grid_val [of d]]
  by (simp add: abs_if split: if_splits)

lemma canon_dsum [simp]: "canon (dsum xs)"
proof -
  have "canon a \<Longrightarrow> canon (foldl (+) a xs)" for a by (induction xs arbitrary: a) simp_all
  then show ?thesis by (simp add: dsum_def)
qed

lemma canon_ddiv: "ddiv a b = Inr r \<Longrightarrow> canon r"
  by (auto simp: ddiv_def Let_def split: if_splits) (simp add: canon_def)

lemma canon_quantize: "quantize d q m = Inr r \<Longrightarrow> canon r"
  by (auto simp: quantize_def Let_def canon_def split: if_splits)

section \<open>Quantising\<close>

lemma quantize_Inr_iff: "quantize d q m = Inr r \<longleftrightarrow> r = rescale m d (dexp q) \<and> ndigits (coef r) \<le> PREC"
  by (auto simp: quantize_def Let_def)

lemma quantize_Inl: "quantize d q m = Inl e \<Longrightarrow> e = InvalidOperation"
  by (auto simp: quantize_def Let_def split: if_splits)

lemma quantize_total:
  assumes "\<bar>val d\<bar> \<le> 10 powi (27 + dexp q)"
  shows "quantize d q m = Inr (rescale m d (dexp q))"
proof -
  let ?r = "rescale m d (dexp q)" and ?e = "dexp q"
  have "\<bar>val ?r\<bar> < 10 powi (27 + ?e) + 10 powi ?e"
    using rescale_error [of m d ?e] assms by linarith
  also have "\<dots> = (10 ^ 27 + 1) * 10 powi ?e" by (simp add: p10_add distrib_right)
  also have "\<dots> \<le> 10 ^ 28 * 10 powi ?e" by (rule mult_right_mono) simp_all
  finally have "of_int \<bar>coef ?r\<bar> * (10::rat) powi ?e < 10 ^ 28 * 10 powi ?e"
    by (simp add: val_def abs_mult)
  then have "(of_int \<bar>coef ?r\<bar> :: rat) < of_int (10 ^ 28)" by simp
  then have "\<bar>coef ?r\<bar> < 10 ^ 28" by (simp only: of_int_less_iff)
  then show ?thesis by (simp add: quantize_def Let_def ndigits_le_iff)
qed

lemma quantize_laws:
  assumes "quantize d q m = Inr r"
  shows quantize_grid: "grid (dexp q) (val r)"
    and quantize_error: "\<bar>val r - val d\<bar> < 10 powi dexp q"
    and quantize_exact: "grid (dexp q) (val d) \<Longrightarrow> val r = val d"
    and quantize_nonneg: "0 \<le> val d \<Longrightarrow> 0 \<le> val r"
    and quantize_dexp: "dexp r = dexp q"
    and quantize_bound: "\<bar>val r\<bar> < 10 powi (28 + dexp q)"
proof -
  have r: "r = rescale m d (dexp q)" and n: "ndigits (coef r) \<le> PREC"
    using assms unfolding quantize_Inr_iff by blast+
  show "grid (dexp q) (val r)" "\<bar>val r - val d\<bar> < 10 powi dexp q" "dexp r = dexp q"
    "grid (dexp q) (val d) \<Longrightarrow> val r = val d" "0 \<le> val d \<Longrightarrow> 0 \<le> val r"
    by (simp_all add: r grid_rescale rescale_error rescale_exact rescale_nonneg)
  have "\<bar>coef r\<bar> < 10 ^ 28" using n by (simp add: ndigits_le_iff)
  then have "(of_int \<bar>coef r\<bar> :: rat) < of_int (10 ^ 28)" by (simp only: of_int_less_iff)
  then have "of_int \<bar>coef r\<bar> * (10::rat) powi dexp q < of_int (10 ^ 28) * 10 powi dexp q"
    by (rule mult_strict_right_mono) simp
  then show "\<bar>val r\<bar> < 10 powi (28 + dexp q)"
    by (simp add: val_def abs_mult p10_add r)
qed

lemma quantize_down: "quantize d q ROUND_DOWN = Inr r \<Longrightarrow> 0 \<le> val d \<Longrightarrow> val r \<le> val d"
  using rescale_down [of d "dexp q"] quantize_nonneg [of d q ROUND_DOWN r] by (auto simp: quantize_Inr_iff)

lemma quantize_up: "quantize d q ROUND_UP = Inr r \<Longrightarrow> 0 \<le> val d \<Longrightarrow> val d \<le> val r"
  using rescale_up [of d "dexp q"] quantize_nonneg [of d q ROUND_UP r] by (auto simp: quantize_Inr_iff)

lemma quantize_ceiling: "quantize d q ROUND_CEILING = Inr r \<Longrightarrow> val d \<le> val r"
  using rescale_ceiling [of d "dexp q"] by (auto simp: quantize_Inr_iff)

lemma quantize_half:
  "quantize d q m = Inr r \<Longrightarrow> m = ROUND_HALF_EVEN \<or> m = ROUND_HALF_UP \<Longrightarrow> 2 * \<bar>val r - val d\<bar> \<le> 10 powi dexp q"
  using rescale_half_error [of m d "dexp q"] by (simp add: quantize_Inr_iff)

lemma quantize_half_cap:
  assumes "quantize x q m = Inr r" "m = ROUND_HALF_EVEN \<or> m = ROUND_HALF_UP"
    and "grid (dexp q) cap" "2 * (val x - cap) < 10 powi dexp q"
  shows "val r \<le> cap"
proof (rule grid_less_step [OF quantize_grid [OF assms(1)] assms(3)])
  have "2 * (val r - val x) \<le> 2 * \<bar>val r - val x\<bar>" by (rule mult_left_mono [OF abs_ge_self]) simp
  also have "\<dots> \<le> 10 powi dexp q" by (rule quantize_half [OF assms(1,2)])
  finally have "2 * (val r - val x) \<le> 10 powi dexp q" .
  with assms(4) show "val r < cap + 10 powi dexp q" by simp
qed

lemma quantize_quotient_down:
  assumes "ddiv b x = Inr u" "quantize u q ROUND_DOWN = Inr r" "0 \<le> val b" "0 < val x"
  shows "val r * val x \<le> val b * (1 + EPS)" and "0 \<le> val r"
proof -
  have u: "rnd (val b / val x) (val u)" by (rule rnd_ddiv(1) [OF assms(1)])
  have bx: "0 \<le> val b / val x" using assms(3,4) by simp
  have u0: "0 \<le> val u" by (rule rnd_nonneg [OF u bx])
  show "0 \<le> val r" by (rule quantize_nonneg [OF assms(2) u0])
  have "val r \<le> val b / val x * (1 + EPS)"
    using quantize_down [OF assms(2) u0] rnd_upper [OF u bx] by linarith
  then have "val r * val x \<le> val b / val x * (1 + EPS) * val x"
    by (rule mult_right_mono) (use assms(4) in simp)
  then show "val r * val x \<le> val b * (1 + EPS)" using assms(4) by simp
qed

section \<open>Sums\<close>

lemma foldl_plus_exact:
  assumes "grid e (val a)" "\<And>x. x \<in> set xs \<Longrightarrow> grid e (val x)"
    and "\<bar>val a\<bar> + (\<Sum>x\<leftarrow>xs. \<bar>val x\<bar>) < 10 powi (28 + e)"
  shows "val (foldl (+) a xs) = val a + (\<Sum>x\<leftarrow>xs. val x)"
  using assms
proof (induction xs arbitrary: a)
  case (Cons x xs)
  have nn: "0 \<le> (\<Sum>x\<leftarrow>xs. \<bar>val x\<bar>)" by (rule sum_list_nonneg) auto
  have ax: "val (a + x) = val a + val x"
    using Cons.prems nn by (intro val_plus_exact) auto
  with Cons.prems have "val (foldl (+) (a + x) xs) = val (a + x) + (\<Sum>x\<leftarrow>xs. val x)"
    by (intro Cons.IH) (auto simp: grid_add)
  with ax show ?case by simp
qed simp

lemma dsum_exact:
  assumes "\<And>x. x \<in> set xs \<Longrightarrow> grid e (val x)" and "(\<Sum>x\<leftarrow>xs. \<bar>val x\<bar>) < 10 powi (28 + e)"
  shows "val (dsum xs) = (\<Sum>x\<leftarrow>xs. val x)"
  using foldl_plus_exact [of e 0 xs] assms by (simp add: dsum_def)

lemma foldl_plus_nonneg:
  "0 \<le> val a \<Longrightarrow> (\<And>x. x \<in> set xs \<Longrightarrow> 0 \<le> val x) \<Longrightarrow> 0 \<le> val (foldl (+) a xs)"
proof (induction xs arbitrary: a)
  case (Cons x xs)
  have "0 \<le> val (a + x)"
    using rnd_nonneg [OF rnd_plus, of a x] Cons.prems by simp
  with Cons show ?case by simp
qed simp

lemma dsum_nonneg: "(\<And>x. x \<in> set xs \<Longrightarrow> 0 \<le> val x) \<Longrightarrow> 0 \<le> val (dsum xs)"
  unfolding dsum_def by (rule foldl_plus_nonneg) auto

lemma dsum_Nil [simp]: "dsum [] = 0"
  by (simp add: dsum_def)

section \<open>Sums of rounded terms\<close>

lemma EPS_power_lower: "1 - of_nat n * EPS \<le> (1 - EPS) ^ n"
proof (induction n)
  case (Suc n)
  have "1 - of_nat (Suc n) * EPS \<le> (1 - of_nat n * EPS) * (1 - EPS)"
    by (simp add: algebra_simps)
  also have "\<dots> \<le> (1 - EPS) ^ n * (1 - EPS)"
    using Suc EPS_less by (intro mult_right_mono) simp_all
  finally show ?case by (simp add: mult.commute)
qed simp

lemma EPS_power_upper: "2 * of_nat n * EPS \<le> 1 \<Longrightarrow> (1 + EPS) ^ n \<le> 1 + 2 * of_nat n * EPS"
proof (induction n)
  case (Suc n)
  then have "2 * EPS + 2 * of_nat n * EPS \<le> 1" by (simp add: distrib_right distrib_left)
  then have n: "2 * of_nat n * EPS \<le> 1" using EPS_pos by linarith
  have "(1 + EPS) ^ n * (1 + EPS) \<le> (1 + 2 * of_nat n * EPS) * (1 + EPS)"
    using Suc.IH [OF n] by (intro mult_right_mono) simp_all
  also have "\<dots> = 1 + 2 * of_nat n * EPS + EPS + (2 * of_nat n * EPS) * EPS"
    by (simp add: algebra_simps)
  also have "\<dots> \<le> 1 + 2 * of_nat n * EPS + EPS + 1 * EPS"
    using n by (intro add_left_mono mult_right_mono) simp_all
  finally show ?case by (simp add: algebra_simps)
qed simp

lemma foldl_plus_bounds:
  assumes "0 \<le> val a" "\<And>x. x \<in> set xs \<Longrightarrow> 0 \<le> val x"
  shows "(val a + (\<Sum>x\<leftarrow>xs. val x)) * (1 - EPS) ^ length xs \<le> val (foldl (+) a xs) \<and>
         val (foldl (+) a xs) \<le> (val a + (\<Sum>x\<leftarrow>xs. val x)) * (1 + EPS) ^ length xs"
  using assms
proof (induction xs arbitrary: a)
  case (Cons x xs)
  let ?S = "\<Sum>x\<leftarrow>xs. val x"
  have S: "0 \<le> ?S" using Cons.prems(2) by (intro sum_list_nonneg) auto
  have ax: "0 \<le> val a + val x" using Cons.prems by simp
  note r = rnd_plus [of a x]
  have nn: "0 \<le> val (a + x)" by (rule rnd_nonneg [OF r ax])
  have ih: "(val (a + x) + ?S) * (1 - EPS) ^ length xs \<le> val (foldl (+) (a + x) xs)"
      "val (foldl (+) (a + x) xs) \<le> (val (a + x) + ?S) * (1 + EPS) ^ length xs"
    using Cons.IH [OF nn] Cons.prems(2) by simp_all
  have "S' * (1 - EPS) \<le> S'" if "0 \<le> S'" for S' :: rat
    using mult_left_mono [of "1 - EPS" 1 S'] that by simp
  then have "(val a + (val x + ?S)) * (1 - EPS) \<le> val (a + x) + ?S"
    using rnd_lower [OF r ax] S by (simp add: distrib_right add_mono flip: add.assoc)
  then have "(val a + (val x + ?S)) * (1 - EPS) * (1 - EPS) ^ length xs \<le> (val (a + x) + ?S) * (1 - EPS) ^ length xs"
    using EPS_less by (intro mult_right_mono) simp_all
  moreover have "?S \<le> ?S * (1 + EPS)" using mult_left_mono [of 1 "1 + EPS" ?S] S by simp
  then have "val (a + x) + ?S \<le> (val a + (val x + ?S)) * (1 + EPS)"
    using rnd_upper [OF r ax] by (simp add: distrib_right flip: add.assoc)
  then have "(val (a + x) + ?S) * (1 + EPS) ^ length xs \<le> (val a + (val x + ?S)) * (1 + EPS) * (1 + EPS) ^ length xs"
    by (intro mult_right_mono) simp_all
  ultimately show ?case using ih by (simp add: mult.assoc)
qed simp

text \<open>For the list lengths the program meets, the relative error of a sum is below \<open>SUM_EPS\<close>.\<close>

definition SUM_EPS :: rat where "SUM_EPS = 1 / 10 ^ 20"

lemma EPS_power_SUM_EPS:
  assumes "n \<le> 10 ^ 6" shows "1 - SUM_EPS \<le> (1 - EPS) ^ n" "(1 + EPS) ^ n \<le> 1 + SUM_EPS"
proof -
  have "of_nat n \<le> (10 ^ 6 :: rat)" using assms by (simp flip: of_nat_le_iff)
  then have n: "of_nat n * EPS \<le> 10 ^ 6 * EPS" by (rule mult_right_mono) simp
  then have "2 * of_nat n * EPS \<le> SUM_EPS" "of_nat n * EPS \<le> SUM_EPS" "SUM_EPS \<le> 1"
    by (simp_all add: SUM_EPS_def EPS_def)
  with EPS_power_lower [of n] EPS_power_upper [of n]
  show "1 - SUM_EPS \<le> (1 - EPS) ^ n" "(1 + EPS) ^ n \<le> 1 + SUM_EPS" by linarith+
qed

lemma dsum_bounds:
  assumes "\<And>x. x \<in> set xs \<Longrightarrow> 0 \<le> val x" and "length xs \<le> 10 ^ 6"
  shows "(\<Sum>x\<leftarrow>xs. val x) * (1 - SUM_EPS) \<le> val (dsum xs)"
    and "val (dsum xs) \<le> (\<Sum>x\<leftarrow>xs. val x) * (1 + SUM_EPS)"
proof -
  have S: "0 \<le> (\<Sum>x\<leftarrow>xs. val x)" using assms(1) by (intro sum_list_nonneg) auto
  from mult_left_mono [OF EPS_power_SUM_EPS(1) [OF assms(2)] S] mult_left_mono [OF EPS_power_SUM_EPS(2) [OF assms(2)] S]
  show "(\<Sum>x\<leftarrow>xs. val x) * (1 - SUM_EPS) \<le> val (dsum xs)" "val (dsum xs) \<le> (\<Sum>x\<leftarrow>xs. val x) * (1 + SUM_EPS)"
    using foldl_plus_bounds [of 0 xs] assms(1) by (simp_all add: dsum_def)
qed

lemma sum_list_upper: "(\<And>x. x \<in> set xs \<Longrightarrow> x \<le> m) \<Longrightarrow> sum_list xs \<le> of_nat (length xs) * (m::rat)"
  by (induction xs) (simp_all add: distrib_right add_mono)

lemma sum_list_diff_bound:
  "list_all2 (\<lambda>x y. \<bar>y - x\<bar> \<le> c + x * k) xs ys \<Longrightarrow>
   \<bar>sum_list ys - sum_list xs\<bar> \<le> of_nat (length xs) * c + sum_list xs * (k::rat)"
proof (induction rule: list_all2_induct)
  case (Cons x xs y ys)
  have "\<bar>sum_list (y # ys) - sum_list (x # xs)\<bar> \<le> \<bar>y - x\<bar> + \<bar>sum_list ys - sum_list xs\<bar>"
    by simp
  also have "\<dots> \<le> (c + x * k) + (of_nat (length xs) * c + sum_list xs * k)"
    using Cons by (intro add_mono) simp_all
  finally show ?case by (simp add: algebra_simps)
qed simp

end
