(* ===== verification/Tier0.thy ===== *)
theory Tier0 imports Decimal_Laws begin

text \<open>
  \<open>tier0.py\<close>: the hard limits every order of the news agent passes through, and the pricing and
  sizing of a buy. The constants are the module's \<open>Final\<close>s; durations are seconds. The message of
  a rejection is left out. \<open>uuid4().hex\<close>, used when the caller gives no client order id, is the
  argument \<open>fresh\<close>.
\<close>

section \<open>The limits\<close>

definition MIN_PREDICTED_GAIN_PCT :: decimal where "MIN_PREDICTED_GAIN_PCT = Dec 10 0"
definition MAX_NOTIONAL_USD :: decimal where "MAX_NOTIONAL_USD = Dec 10 0"
definition RISK_BUDGET_USD :: decimal where "RISK_BUDGET_USD = Dec 30 (-2)"
definition STOP_LOSS_PCT :: decimal where "STOP_LOSS_PCT = Dec 5 0"
definition TAKE_PROFIT_PCT :: decimal where "TAKE_PROFIT_PCT = Dec 10 0"
definition CIRCUIT_BREAKER_DAILY_PNL_PCT :: decimal where "CIRCUIT_BREAKER_DAILY_PNL_PCT = Dec (-25) (-1)"
definition LIMIT_BUFFER_PCT :: decimal where "LIMIT_BUFFER_PCT = Dec 25 (-2)"
definition ALLOW_PYRAMIDING :: bool where "ALLOW_PYRAMIDING = False"
definition MAX_GROSS_EXPOSURE_USD :: decimal where "MAX_GROSS_EXPOSURE_USD = Dec 50 0"
definition MAX_OPEN_POSITIONS :: int where "MAX_OPEN_POSITIONS = 5"
definition MAX_NEW_BUYS_PER_DAY :: int where "MAX_NEW_BUYS_PER_DAY = 10"
definition REENTRY_COOLDOWN_SECONDS :: int where "REENTRY_COOLDOWN_SECONDS = 4 * 3600"
definition LAST_ENTRY_BEFORE_CLOSE_SECONDS :: int where "LAST_ENTRY_BEFORE_CLOSE_SECONDS = 30 * 60"
definition SESSION_EXIT_BEFORE_CLOSE_SECONDS :: int where "SESSION_EXIT_BEFORE_CLOSE_SECONDS = 10 * 60"
definition ROUTER_MIN_PROB_UP :: decimal where "ROUTER_MIN_PROB_UP = Dec 60 (-2)"
definition QTY_PRECISION :: decimal where "QTY_PRECISION = Dec 1 (-9)"
definition PRICE_PRECISION :: decimal where "PRICE_PRECISION = Dec 1 (-2)"
definition MIN_FRACTIONAL_QTY :: decimal where "MIN_FRACTIONAL_QTY = Dec 1 (-9)"

datatype order_side = BUY | SELL

datatype order_class = OTO

datatype stop_loss_kind = NATIVE_OTO | ENGINE_TRACKED

record execution_plan =
  ep_symbol :: string
  ep_side :: order_side
  ep_quantity :: decimal
  ep_limit_price :: decimal
  ep_stop_price :: decimal
  ep_notional_usd :: decimal
  ep_stop_loss_kind :: stop_loss_kind
  ep_order_class :: "order_class option"
  ep_client_order_id :: string

section \<open>Pricing and sizing a buy\<close>

definition to_integral_value :: "decimal \<Rightarrow> decimal" where
  "to_integral_value d = (if 0 \<le> dexp d then d else rescale ROUND_HALF_EVEN d 0)"

definition choose_stop_strategy :: "decimal \<Rightarrow> stop_loss_kind" where
  "choose_stop_strategy quantity =
     (if deq quantity (to_integral_value quantity) \<and> 1 \<le> quantity then NATIVE_OTO else ENGINE_TRACKED)"

definition plan_buy ::
  "string \<Rightarrow> decimal \<Rightarrow> decimal \<Rightarrow> decimal option \<Rightarrow> string option \<Rightarrow> string \<Rightarrow> execution_plan result" where
  "plan_buy symbol bid ask atr client_order_id fresh =
     (if ask \<le> 0 \<or> bid \<le> 0 \<or> ask < bid then Inl (Tier0Rejection INVALID_QUOTE)
      else
        ebind (ddiv LIMIT_BUFFER_PCT (Dec 100 0)) (\<lambda>buffer.
        ebind (quantize (ask * (1 + buffer)) PRICE_PRECISION ROUND_UP) (\<lambda>limit_price.
        ebind (ddiv STOP_LOSS_PCT (Dec 100 0)) (\<lambda>stop.
        ebind (quantize (limit_price * (1 - stop)) PRICE_PRECISION ROUND_DOWN) (\<lambda>stop_price.
        ebind (ddiv MAX_NOTIONAL_USD limit_price) (\<lambda>units.
        ebind (quantize units QTY_PRECISION ROUND_DOWN) (\<lambda>notional_quantity.
        ebind (case atr of
                 None \<Rightarrow> Inr notional_quantity
               | Some a \<Rightarrow>
                   if 0 < a then
                     ebind (ddiv RISK_BUDGET_USD a) (\<lambda>v.
                     ebind (quantize v QTY_PRECISION ROUND_DOWN) (\<lambda>volatility_quantity.
                     Inr (min notional_quantity volatility_quantity)))
                   else Inr notional_quantity) (\<lambda>quantity.
        if quantity < MIN_FRACTIONAL_QTY then Inl (Tier0Rejection NOTIONAL_TOO_SMALL)
        else
          ebind (quantize (quantity * limit_price) PRICE_PRECISION ROUND_HALF_UP) (\<lambda>notional_usd.
          if MAX_NOTIONAL_USD < notional_usd then Inl (Tier0Rejection CAP_BREACH)
          else
            let kind = choose_stop_strategy quantity
            in Inr \<lparr> ep_symbol = symbol, ep_side = BUY, ep_quantity = quantity,
                     ep_limit_price = limit_price, ep_stop_price = stop_price,
                     ep_notional_usd = notional_usd, ep_stop_loss_kind = kind,
                     ep_order_class = (if kind = NATIVE_OTO then Some OTO else None),
                     ep_client_order_id =
                       (case client_order_id of
                          None \<Rightarrow> fresh | Some c \<Rightarrow> if c = [] then fresh else c) \<rparr>)))))))))"

section \<open>The sizing lemmas\<close>

text \<open>The values of the constants, for the arithmetic below.\<close>

lemma tier0_vals [simp]:
  "val MAX_NOTIONAL_USD = 10" "val RISK_BUDGET_USD = 3 / 10" "val QTY_PRECISION = 1 / 10 ^ 9"
  "val PRICE_PRECISION = 1 / 100" "val MIN_FRACTIONAL_QTY = 1 / 10 ^ 9"
  "dexp QTY_PRECISION = -9" "dexp PRICE_PRECISION = -2"
  by (simp_all add: val_def MAX_NOTIONAL_USD_def RISK_BUDGET_USD_def QTY_PRECISION_def PRICE_PRECISION_def
      MIN_FRACTIONAL_QTY_def power_int_def power_one_over)

lemma buffer_eval:
  "ddiv LIMIT_BUFFER_PCT (Dec 100 0) = Inr (Dec 25 (-4))" "1 + Dec 25 (-4) = Dec 10025 (-4)"
  "ddiv STOP_LOSS_PCT (Dec 100 0) = Inr (Dec 5 (-2))" "1 - Dec 5 (-2) = Dec 95 (-2)"
  by code_simp+

lemma buffer_vals [simp]: "val (Dec 10025 (-4)) = 10025 / 10000" "val (Dec 95 (-2)) = 95 / 100"
  by (simp_all add: val_def power_int_def power_one_over)

lemma limit_price_laws:
  assumes "quantize (ask * Dec 10025 (-4)) PRICE_PRECISION ROUND_UP = Inr l" "0 < val ask"
  shows "val ask \<le> val l" "grid (-2) (val l)" "1 / 100 \<le> val l"
    "val l < val ask * (10025 / 10000) * (1 + EPS) + 1 / 100"
    "val ask * (10025 / 10000) * (1 - EPS) \<le> val l"
proof -
  have p: "0 \<le> val ask * (10025 / 10000)" using assms(2) by simp
  have r: "rnd (val ask * (10025 / 10000)) (val (ask * Dec 10025 (-4)))"
    using rnd_times [of ask "Dec 10025 (-4)"] by simp
  have nn: "0 \<le> val (ask * Dec 10025 (-4))" by (rule rnd_nonneg [OF r p])
  have up: "val (ask * Dec 10025 (-4)) \<le> val l" by (rule quantize_up [OF assms(1) nn])
  with rnd_lower [OF r p] show lo: "val ask * (10025 / 10000) * (1 - EPS) \<le> val l" by linarith
  have "val ask * 1 \<le> val ask * (10025 / 10000 * (1 - EPS))"
    by (rule mult_left_mono) (use assms(2) in \<open>simp_all add: EPS_def\<close>)
  also have "\<dots> \<le> val l" using lo by (simp only: mult.assoc)
  finally show ge: "val ask \<le> val l" by simp
  show g: "grid (-2) (val l)" using quantize_grid [OF assms(1)] by simp
  show "1 / 100 \<le> val l" using grid_pos_ge [OF g] ge assms(2) by (simp add: power_int_def power_one_over)
  have "\<bar>val l - val (ask * Dec 10025 (-4))\<bar> < 1 / 100"
    using quantize_error [OF assms(1)] by (simp add: power_int_def power_one_over)
  with rnd_upper [OF r p] show "val l < val ask * (10025 / 10000) * (1 + EPS) + 1 / 100" by linarith
qed

text \<open>The volatility-parity part of the sizing, as one function of the ATR.\<close>

definition parity_quantity :: "decimal option \<Rightarrow> decimal \<Rightarrow> decimal result" where
  "parity_quantity atr notional_quantity =
     (case atr of
        None \<Rightarrow> Inr notional_quantity
      | Some a \<Rightarrow>
          if 0 < a then
            ebind (ddiv RISK_BUDGET_USD a) (\<lambda>v.
            ebind (quantize v QTY_PRECISION ROUND_DOWN) (\<lambda>volatility_quantity.
            Inr (min notional_quantity volatility_quantity)))
          else Inr notional_quantity)"

lemma parity_quantity_laws:
  assumes "parity_quantity atr nq = Inr q" "grid (-9) (val nq)" "0 \<le> val nq"
  shows "val q \<le> val nq" "grid (-9) (val q)" "0 \<le> val q"
    "atr = Some a \<Longrightarrow> 0 < val a \<Longrightarrow> val q * val a \<le> 3 / 10 * (1 + EPS)"
proof -
  show "val q \<le> val nq" "grid (-9) (val q)" "0 \<le> val q"
    using assms quantize_grid quantize_quotient_down(2)
    by (force simp: parity_quantity_def result_simps val_min grid_min less_val split: option.splits if_splits)+
  assume a: "atr = Some a" "0 < val a"
  then obtain v w where v: "ddiv RISK_BUDGET_USD a = Inr v" "quantize v QTY_PRECISION ROUND_DOWN = Inr w"
      "q = min nq w"
    using assms(1) by (auto simp: parity_quantity_def result_simps less_val)
  have "val w * val a \<le> 3 / 10 * (1 + EPS)"
    using quantize_quotient_down(1) [OF v(1,2)] a(2) by simp
  moreover have "val q * val a \<le> val w * val a"
    using a(2) by (intro mult_right_mono) (simp_all add: v(3) val_min)
  ultimately show "val q * val a \<le> 3 / 10 * (1 + EPS)" by linarith
qed

lemma plan_buy_eq:
  "plan_buy symbol bid ask atr cid fresh =
     (if ask \<le> 0 \<or> bid \<le> 0 \<or> ask < bid then Inl (Tier0Rejection INVALID_QUOTE)
      else
        ebind (quantize (ask * Dec 10025 (-4)) PRICE_PRECISION ROUND_UP) (\<lambda>limit_price.
        ebind (quantize (limit_price * Dec 95 (-2)) PRICE_PRECISION ROUND_DOWN) (\<lambda>stop_price.
        ebind (ddiv MAX_NOTIONAL_USD limit_price) (\<lambda>units.
        ebind (quantize units QTY_PRECISION ROUND_DOWN) (\<lambda>notional_quantity.
        ebind (parity_quantity atr notional_quantity) (\<lambda>quantity.
        if quantity < MIN_FRACTIONAL_QTY then Inl (Tier0Rejection NOTIONAL_TOO_SMALL)
        else
          ebind (quantize (quantity * limit_price) PRICE_PRECISION ROUND_HALF_UP) (\<lambda>notional_usd.
          if MAX_NOTIONAL_USD < notional_usd then Inl (Tier0Rejection CAP_BREACH)
          else Inr \<lparr> ep_symbol = symbol, ep_side = BUY, ep_quantity = quantity,
                     ep_limit_price = limit_price, ep_stop_price = stop_price,
                     ep_notional_usd = notional_usd, ep_stop_loss_kind = choose_stop_strategy quantity,
                     ep_order_class = (if choose_stop_strategy quantity = NATIVE_OTO then Some OTO else None),
                     ep_client_order_id =
                       (case cid of None \<Rightarrow> fresh | Some c \<Rightarrow> if c = [] then fresh else c) \<rparr>)))))))"
  unfolding plan_buy_def parity_quantity_def Let_def by (simp add: buffer_eval)

lemma good_quote: "\<not> (ask \<le> 0 \<or> bid \<le> 0 \<or> ask < bid) \<Longrightarrow> 0 < val ask"
  by (simp add: less_eq_val)

lemma notional_quantity_laws:
  assumes "ddiv MAX_NOTIONAL_USD l = Inr u" "quantize u QTY_PRECISION ROUND_DOWN = Inr q" "1 / 100 \<le> val l"
  shows "val q * val l \<le> 10 * (1 + EPS)" "0 \<le> val q" "grid (-9) (val q)"
  using quantize_quotient_down [OF assms(1,2)] quantize_grid [OF assms(2)] assms(3) by simp_all

text \<open>The cap post-condition cannot trip: the sizing keeps the rounded notional at or under the cap.\<close>

lemma notional_capped:
  assumes "val q * val l \<le> 10 * (1 + EPS)" "0 \<le> val q" "0 \<le> val l"
    and "quantize (q * l) PRICE_PRECISION ROUND_HALF_UP = Inr n"
  shows "val n \<le> 10"
proof (rule quantize_half_cap [OF assms(4)])
  have "val (q * l) \<le> val q * val l * (1 + EPS)"
    using rnd_upper [OF rnd_times, of q l] assms(2,3) by simp
  also have "\<dots> \<le> 10 * (1 + EPS) * (1 + EPS)" using assms(1) by (rule mult_right_mono) simp
  also have "\<dots> < 10 + 1 / 200" by (simp add: EPS_def)
  finally show "2 * (val (q * l) - 10) < 10 powi dexp PRICE_PRECISION"
    by (simp add: power_int_def power_one_over)
  show "grid (dexp PRICE_PRECISION) 10"
    using grid_mono [OF grid_of_int [of 10], of "-2"] by simp
qed simp

lemma choose_stop_strategy_whole:
  "choose_stop_strategy q = NATIVE_OTO \<longleftrightarrow> (\<exists>n::int. 1 \<le> n \<and> val q = of_int n)"
proof -
  have "deq q (to_integral_value q) \<longleftrightarrow> grid 0 (val q)"
  proof (cases "0 \<le> dexp q")
    case True
    then show ?thesis using grid_mono [OF grid_val, of 0 q] by (simp add: to_integral_value_def deq_val)
  next
    case False
    then show ?thesis
      using rescale_exact [of 0 q ROUND_HALF_EVEN] grid_rescale [of 0 ROUND_HALF_EVEN q]
      by (auto simp: to_integral_value_def deq_val)
  qed
  moreover have "1 \<le> q \<longleftrightarrow> 1 \<le> val q" by (simp add: less_eq_val)
  ultimately show ?thesis by (auto simp: choose_stop_strategy_def grid_def)
qed

lemma stop_price_laws:
  assumes "quantize (l * Dec 95 (-2)) PRICE_PRECISION ROUND_DOWN = Inr r" "0 \<le> val l"
  shows "val r \<le> val l * (95 / 100) * (1 + EPS)" "0 \<le> val r"
proof -
  have nn: "0 \<le> val l * (95 / 100)" using assms(2) by simp
  have fl: "rnd (val l * (95 / 100)) (val (l * Dec 95 (-2)))"
    using rnd_times [of l "Dec 95 (-2)"] by simp
  then have "0 \<le> val (l * Dec 95 (-2))" using nn by (rule rnd_nonneg)
  with quantize_down [OF assms(1)] quantize_nonneg [OF assms(1)] rnd_upper [OF fl nn]
  show "val r \<le> val l * (95 / 100) * (1 + EPS)" "0 \<le> val r" by linarith+
qed

text \<open>
  C1. Every buy the sizing accepts is inside the hard limits: the quantity is at least the broker's
  minimum, the dollars at the limit price stay within the cap (the rounded notional exactly, the exact
  product up to the 28-digit rounding of one division), a known ATR bounds the quantity by the risk
  budget, the limit is at or above the ask and within the marketable buffer rounded up by a cent, the
  stop is at least 5 percent below the limit, and a native stop is attached exactly to whole-share orders.
\<close>

theorem plan_buy_within_limits:
  assumes "plan_buy symbol bid ask atr cid fresh = Inr p"
  shows "ep_symbol p = symbol \<and> ep_side p = BUY \<and>
    1 / 10 ^ 9 \<le> val (ep_quantity p) \<and>
    val (ep_quantity p) * val (ep_limit_price p) \<le> 10 * (1 + EPS) \<and>
    val (ep_notional_usd p) \<le> 10 \<and>
    (\<forall>a. atr = Some a \<and> 0 < val a \<longrightarrow> val (ep_quantity p) * val a \<le> 3 / 10 * (1 + EPS)) \<and>
    val ask \<le> val (ep_limit_price p) \<and>
    val (ep_limit_price p) < val ask * (10025 / 10000) * (1 + EPS) + 1 / 100 \<and>
    val (ep_stop_price p) \<le> val (ep_limit_price p) * (95 / 100) * (1 + EPS) \<and>
    (ep_order_class p = Some OTO \<longleftrightarrow> (\<exists>n::int. 1 \<le> n \<and> val (ep_quantity p) = of_int n))"
proof -
  from assms obtain l st u nq q n where
      good: "0 < val ask"
    and l: "quantize (ask * Dec 10025 (-4)) PRICE_PRECISION ROUND_UP = Inr l"
    and st: "quantize (l * Dec 95 (-2)) PRICE_PRECISION ROUND_DOWN = Inr st"
    and u: "ddiv MAX_NOTIONAL_USD l = Inr u" and nq: "quantize u QTY_PRECISION ROUND_DOWN = Inr nq"
    and q: "parity_quantity atr nq = Inr q" and min: "\<not> q < MIN_FRACTIONAL_QTY"
    and n: "\<not> MAX_NOTIONAL_USD < n"
    and p: "ep_symbol p = symbol" "ep_side p = BUY" "ep_quantity p = q" "ep_limit_price p = l"
      "ep_stop_price p = st" "ep_notional_usd p = n"
      "ep_order_class p = (if choose_stop_strategy q = NATIVE_OTO then Some OTO else None)"
    using good_quote [of ask bid] unfolding plan_buy_eq
    by (auto simp: result_simps split: if_splits)
  note ll = limit_price_laws [OF l good] and nql = notional_quantity_laws [OF u nq]
  have nq1: "val nq * val l \<le> 10 * (1 + EPS)" "0 \<le> val nq" "grid (-9) (val nq)"
    using nql ll(3) by simp_all
  note ql = parity_quantity_laws [OF q nq1(3,2)]
  have "val q * val l \<le> val nq * val l" using ql(1) ll(3) by (intro mult_right_mono) simp_all
  also note nq1(1)
  finally have "val q * val l \<le> 10 * (1 + EPS)" .
  moreover have "val n \<le> 10" using n by (simp add: not_less_dec less_eq_val)
  moreover have "1 / 10 ^ 9 \<le> val q" using min by (simp add: not_less_dec less_eq_val)
  ultimately show ?thesis
    using p ql(4) ll stop_price_laws(1) [OF st] choose_stop_strategy_whole [of q]
    by simp
qed

theorem plan_buy_within_limits_witness:
  "\<exists>p. plan_buy ''TSLA'' (Dec 35390 (-2)) (Dec 35410 (-2)) (Some (Dec 1520 (-2))) (Some ''c'') ''f'' = Inr p \<and>
     val (ep_notional_usd p) \<le> 10"
proof -
  let ?r = "plan_buy ''TSLA'' (Dec 35390 (-2)) (Dec 35410 (-2)) (Some (Dec 1520 (-2))) (Some ''c'') ''f''"
  have "\<not> isl ?r" by code_simp
  then obtain p where p: "?r = Inr p" by (cases ?r) auto
  then show ?thesis using plan_buy_within_limits [OF p] by blast
qed

text \<open>The rest of the code returns, once the quote is good and its numbers are of a sane size.\<close>

lemma quantize_overflow:
  assumes "10 powi (28 + dexp q) + 10 powi dexp q \<le> \<bar>val d\<bar>"
  shows "quantize d q m = Inl InvalidOperation"
proof (cases "quantize d q m")
  case (Inr r)
  from quantize_bound [OF Inr] quantize_error [OF Inr] assms have False by linarith
  then show ?thesis ..
qed (simp add: quantize_Inl)

lemma limit_price_total:
  assumes "0 < val ask" "val ask < 10 ^ 20"
  obtains l where "quantize (ask * Dec 10025 (-4)) PRICE_PRECISION ROUND_UP = Inr l" "val l < 10 ^ 21"
proof -
  have p: "0 \<le> val ask * (10025 / 10000)" using assms(1) by simp
  have r: "rnd (val ask * (10025 / 10000)) (val (ask * Dec 10025 (-4)))"
    using rnd_times [of ask "Dec 10025 (-4)"] by simp
  have "val ask * (10025 / 10000) * (1 + EPS) \<le> 10 ^ 20 * (10025 / 10000) * (1 + EPS)"
    using assms(2) by (intro mult_right_mono) simp_all
  also have "\<dots> < 2 * 10 ^ 20" by (simp add: EPS_def)
  finally have u: "val (ask * Dec 10025 (-4)) < 2 * 10 ^ 20" using rnd_upper [OF r p] by linarith
  with rnd_nonneg [OF r p] obtain l where l: "quantize (ask * Dec 10025 (-4)) PRICE_PRECISION ROUND_UP = Inr l"
    using quantize_total [of "ask * Dec 10025 (-4)" PRICE_PRECISION ROUND_UP] by (simp add: power_int_def)
  moreover have "val l < 10 ^ 21"
    using abs_ge_self [THEN le_less_trans, OF quantize_error [OF l]] u by (simp add: power_int_def power_one_over)
  ultimately show ?thesis by (rule that)
qed

lemma stop_price_total:
  assumes "0 \<le> val l" "val l < 10 ^ 21"
  shows "\<exists>r. quantize (l * Dec 95 (-2)) PRICE_PRECISION ROUND_DOWN = Inr r"
proof -
  have p: "0 \<le> val l * (95 / 100)" using assms(1) by simp
  have r: "rnd (val l * (95 / 100)) (val (l * Dec 95 (-2)))"
    using rnd_times [of l "Dec 95 (-2)"] by simp
  have "val l * (95 / 100) * (1 + EPS) \<le> 10 ^ 21 * (95 / 100) * (1 + EPS)"
    using assms(2) by (intro mult_right_mono) simp_all
  also have "\<dots> < 10 ^ 21" by (simp add: EPS_def)
  finally have "val (l * Dec 95 (-2)) < 10 ^ 21" using rnd_upper [OF r p] by linarith
  with rnd_nonneg [OF r p] show ?thesis
    using quantize_total [of "l * Dec 95 (-2)" PRICE_PRECISION ROUND_DOWN] by (simp add: power_int_def)
qed

lemma quantity_total:
  assumes "0 \<le> val b" "val b \<le> 10" "1 / 10 ^ 15 \<le> val x"
  shows "\<exists>u q. ddiv b x = Inr u \<and> quantize u QTY_PRECISION ROUND_DOWN = Inr q"
proof -
  obtain u where u: "ddiv b x = Inr u" using ddiv_total [of x b] assms(3) by auto
  have "val b / val x \<le> 10 / (1 / 10 ^ 15)" using assms by (intro frac_le) simp_all
  then have "val b / val x * (1 + EPS) \<le> 10 ^ 16 * (1 + EPS)" by (intro mult_right_mono) simp_all
  also have "\<dots> < 10 ^ 17" by (simp add: EPS_def)
  finally have "val u < 10 ^ 17" using rnd_upper [OF rnd_ddiv(1) [OF u]] assms by force
  moreover have "0 \<le> val u" using rnd_nonneg [OF rnd_ddiv(1) [OF u]] assms by force
  ultimately show ?thesis
    using u quantize_total [of u QTY_PRECISION ROUND_DOWN] by (simp add: power_int_def)
qed

text \<open>
  The outcomes of the sizing, for a price below $10^20 and an ATR that is absent, not positive or at
  least 10^-15: a bad quote is rejected as \<open>invalid_quote\<close>; otherwise the plan is accepted or
  rejected as too small. The \<open>cap_breach\<close> post-condition is unreachable and no decimal operation
  raises.
\<close>

theorem plan_buy_outcomes:
  assumes "val ask < 10 ^ 20" and "\<forall>a. atr = Some a \<longrightarrow> val a \<le> 0 \<or> 1 / 10 ^ 15 \<le> val a"
  shows "if ask \<le> 0 \<or> bid \<le> 0 \<or> ask < bid
         then plan_buy symbol bid ask atr cid fresh = Inl (Tier0Rejection INVALID_QUOTE)
         else plan_buy symbol bid ask atr cid fresh = Inl (Tier0Rejection NOTIONAL_TOO_SMALL) \<or>
              (\<exists>p. plan_buy symbol bid ask atr cid fresh = Inr p)"
proof (cases "ask \<le> 0 \<or> bid \<le> 0 \<or> ask < bid")
  case True
  then show ?thesis by (simp add: plan_buy_eq)
next
  case False
  then have good: "0 < val ask" using good_quote by blast
  from limit_price_total [OF good assms(1)] obtain l where
    l: "quantize (ask * Dec 10025 (-4)) PRICE_PRECISION ROUND_UP = Inr l" "val l < 10 ^ 21" .
  note ll = limit_price_laws [OF l(1) good]
  obtain st where st: "quantize (l * Dec 95 (-2)) PRICE_PRECISION ROUND_DOWN = Inr st"
    using stop_price_total [of l] l(2) ll(3) by auto
  obtain u nq where u: "ddiv MAX_NOTIONAL_USD l = Inr u" "quantize u QTY_PRECISION ROUND_DOWN = Inr nq"
    using quantity_total [of MAX_NOTIONAL_USD l] ll(3) by auto
  note nql = notional_quantity_laws [OF u ll(3)]
  obtain q where q: "parity_quantity atr nq = Inr q"
    using quantity_total [of RISK_BUDGET_USD] assms(2)
    by (fastforce simp: parity_quantity_def result_simps less_val split: option.splits)
  note ql = parity_quantity_laws [OF q nql(3,2)]
  have "val q * val l \<le> val nq * val l" using ql(1) ll(3) by (intro mult_right_mono) simp_all
  with nql(1) have cap: "val q * val l \<le> 10 * (1 + EPS)" by linarith
  moreover have ql0: "0 \<le> val q * val l" using ql(3) ll(3) by simp
  ultimately have "\<bar>val (q * l)\<bar> \<le> 10 * (1 + EPS) * (1 + EPS)"
    using rnd_upper [OF rnd_times ql0] rnd_nonneg [OF rnd_times ql0]
      mult_right_mono [of "val q * val l" "10 * (1 + EPS)" "1 + EPS"] by simp
  also have "\<dots> \<le> 10 powi (27 + dexp PRICE_PRECISION)" by (simp add: EPS_def power_int_def)
  finally obtain n where n: "quantize (q * l) PRICE_PRECISION ROUND_HALF_UP = Inr n"
    using quantize_total by blast
  have "\<not> MAX_NOTIONAL_USD < n"
    using notional_capped [OF cap ql(3) _ n] ll(3) by (simp add: less_val)
  with False l st u q n show ?thesis by (simp add: plan_buy_eq)
qed

theorem plan_buy_outcomes_witness:
  "val (Dec 50000 (-2)) < 10 ^ 20 \<and> \<not> (Dec 50000 (-2) \<le> 0 \<or> Dec 49990 (-2) \<le> 0 \<or> Dec 50000 (-2) < Dec 49990 (-2)) \<and>
   (plan_buy ''MSFT'' (Dec 49990 (-2)) (Dec 50000 (-2)) (Some (Dec 991 (-2))) None ''f'' = Inl (Tier0Rejection NOTIONAL_TOO_SMALL) \<or>
    (\<exists>p. plan_buy ''MSFT'' (Dec 49990 (-2)) (Dec 50000 (-2)) (Some (Dec 991 (-2))) None ''f'' = Inr p))"
proof -
  have h1: "val (Dec 50000 (-2)) < 10 ^ 20" by (simp add: val_def power_int_def power_one_over)
  have h2: "\<forall>a. Some (Dec 991 (-2)) = Some a \<longrightarrow> val a \<le> 0 \<or> 1 / 10 ^ 15 \<le> val a"
    by (simp add: val_def power_int_def power_one_over)
  have h3: "\<not> (Dec 50000 (-2) \<le> 0 \<or> Dec 49990 (-2) \<le> 0 \<or> Dec 50000 (-2) < Dec 49990 (-2))" by code_simp
  show ?thesis
    using plan_buy_outcomes [OF h1 h2, of "Dec 49990 (-2)" "''MSFT''" None "''f''"] h1 h3 by simp
qed

text \<open>
  Below that range the ATR is not only a tighter limit: a positive ATR of at most 10^-21 makes
  \<open>RISK_BUDGET_USD / atr\<close> too large to quantise to nine places, and the sizing raises
  \<open>InvalidOperation\<close> instead of a tier-0 rejection.
\<close>

theorem plan_buy_tiny_atr_raises:
  assumes "val ask < 10 ^ 20" and "\<not> (ask \<le> 0 \<or> bid \<le> 0 \<or> ask < bid)" and "0 < val a" and "val a \<le> 1 / 10 ^ 21"
  shows "plan_buy symbol bid ask (Some a) cid fresh = Inl InvalidOperation"
proof -
  have good: "0 < val ask" using good_quote assms(2) by blast
  from limit_price_total [OF good assms(1)] obtain l where
    l: "quantize (ask * Dec 10025 (-4)) PRICE_PRECISION ROUND_UP = Inr l" "val l < 10 ^ 21" .
  note ll = limit_price_laws [OF l(1) good]
  obtain st where st: "quantize (l * Dec 95 (-2)) PRICE_PRECISION ROUND_DOWN = Inr st"
    using stop_price_total [of l] l(2) ll(3) by auto
  obtain u nq where u: "ddiv MAX_NOTIONAL_USD l = Inr u" "quantize u QTY_PRECISION ROUND_DOWN = Inr nq"
    using quantity_total [of MAX_NOTIONAL_USD l] ll(3) by auto
  obtain v where v: "ddiv RISK_BUDGET_USD a = Inr v" using ddiv_total [of a] assms(3) by auto
  have "(3 / 10) / (1 / 10 ^ 21) \<le> (3 / 10) / val a" using assms(3,4) by (intro frac_le) simp_all
  then have "3 * 10 ^ 20 * (1 - EPS) \<le> (3 / 10) / val a * (1 - EPS)"
    by (intro mult_right_mono) (simp_all add: EPS_def)
  also have "\<dots> \<le> val v" using rnd_lower [OF rnd_ddiv(1) [OF v]] assms(3) by simp
  finally have "quantize v QTY_PRECISION ROUND_DOWN = Inl InvalidOperation"
    by (intro quantize_overflow) (simp add: EPS_def power_int_def power_one_over)
  with l st u v assms(2,3) show ?thesis by (simp add: plan_buy_eq parity_quantity_def less_val)
qed

theorem plan_buy_tiny_atr_raises_witness:
  "plan_buy ''AAPL'' (Dec 99 0) (Dec 100 0) (Some (Dec 1 (-22))) None ''f'' = Inl InvalidOperation"
  by (rule plan_buy_tiny_atr_raises) (code_simp | simp add: val_def power_int_def power_one_over)+

end
