(* ===== verification/Dates.thy ===== *)
theory Dates imports Prelude begin

text \<open>
  Python's \<open>date\<close>, \<open>time\<close> and aware \<open>datetime\<close> as the program uses them. A date is its year,
  month and day, ordered lexicographically, and \<open>toordinal\<close> is the day count that date arithmetic
  goes through. A time of day is its number of microseconds since midnight. An instant of an aware clock is a number of
  microseconds; converting it to the New York wall clock needs the time-zone database, which is data
  outside the program, so code that converts takes the New York date and time as its argument.
\<close>

datatype date = Date (year: int) (month: int) (day: int)

instantiation date :: linorder
begin

definition less_eq_date :: "date \<Rightarrow> date \<Rightarrow> bool" where
  "less_eq_date a b \<longleftrightarrow>
     year a < year b \<or> (year a = year b \<and>
       (month a < month b \<or> (month a = month b \<and> day a \<le> day b)))"

definition less_date :: "date \<Rightarrow> date \<Rightarrow> bool" where
  "less_date a b \<longleftrightarrow>
     year a < year b \<or> (year a = year b \<and>
       (month a < month b \<or> (month a = month b \<and> day a < day b)))"

instance
proof
  fix x y z :: date
  show "x < y \<longleftrightarrow> x \<le> y \<and> \<not> y \<le> x" "x \<le> x" "x \<le> y \<or> y \<le> x"
    by (auto simp: less_eq_date_def less_date_def)
  show "x \<le> y \<Longrightarrow> y \<le> z \<Longrightarrow> x \<le> z"
    by (auto simp: less_eq_date_def)
  show "x \<le> y \<Longrightarrow> y \<le> x \<Longrightarrow> x = y"
    by (cases x; cases y) (auto simp: less_eq_date_def)
qed

end

definition is_leap :: "int \<Rightarrow> bool" where
  "is_leap y \<longleftrightarrow> y mod 4 = 0 \<and> (y mod 100 \<noteq> 0 \<or> y mod 400 = 0)"

definition days_in_month :: "int \<Rightarrow> int \<Rightarrow> int" where
  "days_in_month y m =
     (if m = 2 then if is_leap y then 29 else 28
      else if m \<in> {4, 6, 9, 11} then 30 else 31)"

definition valid_date :: "date \<Rightarrow> bool" where
  "valid_date d \<longleftrightarrow> 1 \<le> year d \<and> 1 \<le> month d \<and> month d \<le> 12 \<and>
     1 \<le> day d \<and> day d \<le> days_in_month (year d) (month d)"

definition days_before_year :: "int \<Rightarrow> int" where
  "days_before_year y = (let p = y - 1 in p * 365 + p div 4 - p div 100 + p div 400)"

fun days_before_month :: "int \<Rightarrow> nat \<Rightarrow> int" where
  "days_before_month y 0 = 0"
| "days_before_month y (Suc 0) = 0"
| "days_before_month y (Suc (Suc m)) = days_before_month y (Suc m) + days_in_month y (int (Suc m))"

definition toordinal :: "date \<Rightarrow> int" where
  "toordinal d = days_before_year (year d) + days_before_month (year d) (nat (month d)) + day d"

text \<open>A time of day, in microseconds since midnight.\<close>

type_synonym time_of_day = int

definition hms :: "int \<Rightarrow> int \<Rightarrow> int \<Rightarrow> time_of_day" where
  "hms h m s = (h * 3600 + m * 60 + s) * 1000000"

text \<open>An instant of an aware clock, in microseconds.\<close>

type_synonym instant = int

definition seconds :: "int \<Rightarrow> instant" where
  "seconds s = s * 1000000"

definition minutes :: "int \<Rightarrow> instant" where
  "minutes m = seconds (60 * m)"

text \<open>The New York wall clock at an instant.\<close>

record ny_time =
  ny_date :: date
  ny_clock :: time_of_day

end
