(* ===== verification/Core_Alloc.thy ===== *)
theory Core_Alloc imports Decimal_Laws Dates begin

text \<open>
  \<open>core_alloc.py\<close>, the allocation rules the backtest and paper trading share: quantised weights, the
  rebalancing rules and their calendar, drift, the rebalance plan and the scaling of its buys. Symbols
  are strings, a dict from symbols to amounts is an association list. The raising of cash and the tax
  lots are in theories of their own.

  A weight given as a float reaches this code as \<open>Decimal(repr(v))\<close>; the model's weights are those
  decimals. The volatility estimates behind the inverse-volatility weights are binary floating point
  (\<open>math.log\<close>, \<open>math.sqrt\<close>, \<open>math.fsum\<close>) and are not modelled.
\<close>

type_synonym amounts = "(string \<times> decimal) list"

definition WEIGHT_QUANTUM :: decimal where "WEIGHT_QUANTUM = Dec 1 (-6)"
definition QTY_QUANTUM :: decimal where "QTY_QUANTUM = Dec 1 (-9)"
definition CENT :: decimal where "CENT = Dec 1 (-2)"
definition ONE :: decimal where "ONE = Dec 1 0"
definition DONE :: decimal where "DONE = Dec 5 (-3)"
definition ROUND_UP_QTY :: rounding where "ROUND_UP_QTY = ROUND_UP"

section \<open>Weights\<close>

text \<open>\<open>max(xs, key=f)\<close>: the first element with the largest key.\<close>

fun max_by :: "('a \<Rightarrow> decimal) \<Rightarrow> 'a \<Rightarrow> 'a list \<Rightarrow> 'a" where
  "max_by f b [] = b"
| "max_by f b (x # xs) = max_by f (if f b < f x then x else b) xs"

text \<open>\<open>{**a, **b}\<close>.\<close>

definition merge :: "('k \<times> 'v) list \<Rightarrow> ('k \<times> 'v) list \<Rightarrow> ('k \<times> 'v) list" where
  "merge a b = foldl (\<lambda>d (k, v). AList.update k v d) a b"

definition quantise_weight :: "decimal \<Rightarrow> string \<times> decimal \<Rightarrow> (string \<times> decimal) result" where
  "quantise_weight tot sv =
     ebind (ddiv (snd sv) tot) (\<lambda>w.
     ebind (quantize w WEIGHT_QUANTUM ROUND_HALF_EVEN) (\<lambda>q.
     Inr (fst sv, q)))"

definition quantise_weights :: "amounts \<Rightarrow> amounts result" where
  "quantise_weights raw =
     (if raw = [] \<or> (\<exists>v \<in> set (vals raw). v < 0) then Inl (ValueError ''weights'')
      else let tot = dsum (vals raw) in
        if tot \<le> 0 then Inl (ValueError ''weights sum to zero'')
        else
          ebind (etraverse (quantise_weight tot) (sort_key fst raw)) (\<lambda>out.
          let largest = (case keys out of [] \<Rightarrow> [] | s # ss \<Rightarrow> max_by (aget 0 out) s ss)
          in Inr (AList.update largest (aget 0 out largest + (ONE - dsum (vals out))) out)))"

definition with_sleeves :: "amounts \<Rightarrow> amounts \<Rightarrow> amounts result" where
  "with_sleeves base sleeves =
     (let rest = ONE - dsum (vals sleeves)
      in quantise_weights (merge (map (\<lambda>(s, w). (s, w * rest)) base) sleeves))"

section \<open>Rules\<close>

datatype period = Month | Quarter | Year

definition period_ends :: "date \<Rightarrow> date \<Rightarrow> period set" where
  "period_ends session next_session =
     (if (year session, month session) \<noteq> (year next_session, month next_session)
      then {Month} \<union>
        (if (month session - 1) div 3 \<noteq> (month next_session - 1) div 3 \<or> year session \<noteq> year next_session
         then {Quarter} else {})
      else {})
     \<union> (if year session \<noteq> year next_session then {Quarter, Year} else {})"

record rule =
  rule_name :: string
  rule_period :: "period option"
  rule_band :: "decimal option"
  rule_never :: bool

definition drift :: "amounts \<Rightarrow> amounts \<Rightarrow> decimal" where
  "drift weights targets =
     (case map (\<lambda>s. \<bar>aget 0 weights s - aget 0 targets s\<bar>) (sorted_union (keys weights) (keys targets)) of
        [] \<Rightarrow> 0 | d # ds \<Rightarrow> foldl pmax d ds)"

definition rule_checked :: "rule \<Rightarrow> period set \<Rightarrow> bool" where
  "rule_checked r ends \<longleftrightarrow>
     \<not> rule_never r \<and> (case rule_period r of None \<Rightarrow> True | Some p \<Rightarrow> p \<in> ends)"

definition rule_due :: "rule \<Rightarrow> period set \<Rightarrow> amounts \<Rightarrow> amounts \<Rightarrow> bool" where
  "rule_due r ends weights targets =
     (if \<not> rule_checked r ends then False
      else case rule_band r of None \<Rightarrow> True | Some b \<Rightarrow> b < drift weights targets)"

definition mk_rule :: "string \<Rightarrow> period option \<Rightarrow> decimal option \<Rightarrow> bool \<Rightarrow> string \<times> rule" where
  "mk_rule n p b v = (n, \<lparr> rule_name = n, rule_period = p, rule_band = b, rule_never = v \<rparr>)"

definition RULES :: "(string \<times> rule) list" where
  "RULES =
     [mk_rule ''none'' None None True,
      mk_rule ''monthly'' (Some Month) None False,
      mk_rule ''quarterly'' (Some Quarter) None False,
      mk_rule ''yearly'' (Some Year) None False,
      mk_rule ''band5'' None (Some (Dec 5 (-2))) False,
      mk_rule ''band10'' None (Some (Dec 10 (-2))) False,
      mk_rule ''monthly_band5'' (Some Month) (Some (Dec 5 (-2))) False,
      mk_rule ''quarterly_band5'' (Some Quarter) (Some (Dec 5 (-2))) False]"

definition rebalance_due :: "rule \<Rightarrow> period set \<Rightarrow> amounts \<Rightarrow> amounts \<Rightarrow> bool \<Rightarrow> bool" where
  "rebalance_due r ends weights targets forced =
     (if forced
      then rule_never r \<or> (case rule_band r of None \<Rightarrow> True | Some b \<Rightarrow> b < drift weights targets)
      else rule_due r ends weights targets)"

text \<open>\<open>{s: q * prices[s] for s, q in qty.items() if p(q)}\<close>.\<close>

definition position_values :: "(decimal \<Rightarrow> bool) \<Rightarrow> amounts \<Rightarrow> amounts \<Rightarrow> amounts result" where
  "position_values p qty prices =
     etraverse (\<lambda>(s, q). emap (\<lambda>price. (s, q * price)) (eget prices s)) (filter (\<lambda>(s, q). p q) qty)"

definition current_weights :: "amounts \<Rightarrow> amounts \<Rightarrow> decimal \<Rightarrow> amounts result" where
  "current_weights qty prices cash =
     ebind (position_values truthy qty prices) (\<lambda>values.
     let tot = cash + dsum (vals values) in
     if tot \<le> 0 then Inl (ValueError ''portfolio value is not positive'')
     else etraverse (\<lambda>(s, v). emap (Pair s) (ddiv v tot)) values)"

section \<open>The rebalance plan\<close>

record plan =
  decided_on :: date
  targets :: amounts
  sells :: amounts
  buys :: amounts
  reason :: string

definition plan_empty :: "plan \<Rightarrow> bool" where
  "plan_empty p \<longleftrightarrow> sells p = [] \<and> buys p = []"

definition rebalance_order ::
  "amounts \<Rightarrow> amounts \<Rightarrow> amounts \<Rightarrow> decimal \<Rightarrow> decimal \<Rightarrow> bool \<Rightarrow> amounts \<times> amounts \<Rightarrow> string \<Rightarrow>
   (amounts \<times> amounts) result" where
  "rebalance_order qty prices tgts value min_order_usd cents sb symbol =
     (let held = aget 0 qty symbol in
      ebind (eget prices symbol) (\<lambda>price.
      let delta = aget 0 tgts symbol * value - held * price in
      if \<bar>delta\<bar> < min_order_usd then Inr sb
      else if delta < 0 then
        ebind (ddiv (- delta) price) (\<lambda>units.
        ebind (quantize units QTY_QUANTUM ROUND_DOWN) (\<lambda>q.
        let sell = (if deq (aget 0 tgts symbol) 0 then held else min held q) in
        if 0 < sell then Inr (AList.update symbol sell (fst sb), snd sb) else Inr sb))
      else
        ebind (if cents then quantize delta CENT ROUND_DOWN else Inr delta) (\<lambda>notional.
        Inr (fst sb, AList.update symbol notional (snd sb)))))"

definition plan_rebalance ::
  "date \<Rightarrow> amounts \<Rightarrow> amounts \<Rightarrow> decimal \<Rightarrow> amounts \<Rightarrow> decimal \<Rightarrow> string \<Rightarrow> bool \<Rightarrow> plan result" where
  "plan_rebalance on qty prices cash tgts min_order_usd why cents =
     ebind (position_values (\<lambda>_. True) qty prices) (\<lambda>values.
     let value = cash + dsum (vals values) in
     if value \<le> 0 then Inl (ValueError ''portfolio value is not positive'')
     else
       ebind (efold (rebalance_order qty prices tgts value min_order_usd cents) ([], [])
                (sorted_union (keys qty) (keys tgts))) (\<lambda>sb.
       Inr \<lparr> decided_on = on, targets = tgts, sells = fst sb, buys = snd sb, reason = why \<rparr>))"

definition scale_buy :: "decimal \<Rightarrow> bool \<Rightarrow> string \<times> decimal \<Rightarrow> (string \<times> decimal) result" where
  "scale_buy k cents sn =
     emap (Pair (fst sn)) (if cents then quantize (snd sn * k) CENT ROUND_DOWN else Inr (snd sn * k))"

definition scale_buys :: "amounts \<Rightarrow> decimal \<Rightarrow> amounts \<Rightarrow> bool \<Rightarrow> amounts result" where
  "scale_buys bs available cost_rate cents =
     (let need = dsum (map (\<lambda>(s, n). n * (ONE + aget 0 cost_rate s)) bs) in
      if need \<le> available \<or> deq need 0 then Inr bs
      else
        ebind (ddiv (pmax available 0) need) (\<lambda>k.
        etraverse (scale_buy k cents) bs))"

end
