(* ===== verification/Core_Alloc_Laws.thy ===== *)
theory Core_Alloc_Laws imports Core_Alloc "HOL-Library.Multiset" begin

text \<open>
  What the allocation rules guarantee. Quantised weights sum to one exactly; a rebalance sells no more
  than is held and sells a symbol or buys it, never both; scaled buys with their costs fit in the cash.
  Sums are compared as rationals, so the bounds show the rounding of the 28-digit arithmetic.
\<close>

section \<open>Laws of the weights\<close>

lemma alloc_vals [simp]:
  "val WEIGHT_QUANTUM = 1 / 10 ^ 6" "val QTY_QUANTUM = 1 / 10 ^ 9" "val CENT = 1 / 100" "val ONE = 1"
  "val DONE = 5 / 1000" "dexp WEIGHT_QUANTUM = -6" "dexp QTY_QUANTUM = -9" "dexp CENT = -2"
  by (simp_all add: val_def WEIGHT_QUANTUM_def QTY_QUANTUM_def CENT_def ONE_def DONE_def power_int_def power_one_over)

abbreviation total_value :: "amounts \<Rightarrow> rat" where
  "total_value d \<equiv> (\<Sum>x\<leftarrow>vals d. val x)"

lemma max_by_mem: "max_by f b xs \<in> set (b # xs)"
  by (induction xs arbitrary: b) (auto, (metis insertE set_ConsD list.set_intros)?)

lemma max_by_greatest: "x \<in> set (b # xs) \<Longrightarrow> f x \<le> f (max_by f b xs)"
proof (induction xs arbitrary: b x)
  case (Cons y ys)
  let ?c = "if f b < f y then y else b"
  have c: "f b \<le> f ?c" "f y \<le> f ?c" by (auto simp: less_val less_eq_val)
  have "f ?c \<le> f (max_by f ?c ys)" by (rule Cons.IH) simp
  then have "f b \<le> f (max_by f ?c ys)" "f y \<le> f (max_by f ?c ys)" using c order_trans by blast+
  moreover have "x \<in> set ys \<Longrightarrow> f x \<le> f (max_by f ?c ys)" by (rule Cons.IH) simp
  ultimately show ?case using Cons.prems by (auto simp del: max_by.simps(1))
qed simp

lemma total_value_update:
  "distinct (keys d) \<Longrightarrow> k \<in> set (keys d) \<Longrightarrow>
   total_value (AList.update k v d) = total_value d - val (aget 0 d k) + val v"
proof (induction d)
  case (Cons p d)
  obtain k' v' where p: "p = (k', v')" by (cases p)
  show ?case
  proof (cases "k = k'")
    case False
    then have "aget 0 (p # d) k = aget 0 d k" by (simp add: p aget_def)
    with False Cons show ?thesis by (simp add: p)
  qed (simp add: p aget_def)
qed simp

lemma quantise_weight_Inr:
  assumes "quantise_weight tot sv = Inr sq" "0 \<le> val (snd sv)" "0 < val tot"
  shows "fst sq = fst sv" "grid (-6) (val (snd sq))" "0 \<le> val (snd sq)"
    "\<bar>val (snd sq) - val (snd sv) / val tot\<bar> \<le> 1 / (2 * 10 ^ 6) + val (snd sv) / val tot * EPS"
proof -
  from assms(1) obtain w q where w: "ddiv (snd sv) tot = Inr w" and
      q: "quantize w WEIGHT_QUANTUM ROUND_HALF_EVEN = Inr q" and sq: "sq = (fst sv, q)"
    by (auto simp: quantise_weight_def result_simps)
  have nn: "0 \<le> val (snd sv) / val tot" using assms by simp
  note r = rnd_ddiv(1) [OF w]
  show "fst sq = fst sv" "grid (-6) (val (snd sq))" "0 \<le> val (snd sq)"
    using sq quantize_grid [OF q] quantize_nonneg [OF q] rnd_nonneg [OF r nn] by simp_all
  have "2 * \<bar>val q - val w\<bar> \<le> 1 / 10 ^ 6"
    using quantize_half [OF q] by (simp add: power_int_def power_one_over)
  then have "\<bar>val q - val w\<bar> \<le> 1 / (2 * 10 ^ 6)" by simp
  moreover have "\<bar>val w - val (snd sv) / val tot\<bar> \<le> val (snd sv) / val tot * EPS"
    using rnd_error [OF r] by (simp only: abs_of_nonneg [OF nn])
  ultimately show "\<bar>val (snd sq) - val (snd sv) / val tot\<bar> \<le> 1 / (2 * 10 ^ 6) + val (snd sv) / val tot * EPS"
    unfolding sq snd_conv by linarith
qed


lemma quantise_weights_parts:
  assumes "quantise_weights raw = Inr w"
  obtains out k where
    "list_all2 (\<lambda>x y. quantise_weight (dsum (vals raw)) x = Inr y) (sort_key fst raw) out"
    "raw \<noteq> []" "\<And>v. v \<in> set (vals raw) \<Longrightarrow> 0 \<le> val v" "0 < val (dsum (vals raw))"
    "k \<in> set (keys out)" "\<And>s. s \<in> set (keys out) \<Longrightarrow> val (aget 0 out s) \<le> val (aget 0 out k)"
    "w = AList.update k (aget 0 out k + (ONE - dsum (vals out))) out"
proof -
  from assms obtain out where tr: "etraverse (quantise_weight (dsum (vals raw))) (sort_key fst raw) = Inr out"
    and raw: "raw \<noteq> []" "\<And>v. v \<in> set (vals raw) \<Longrightarrow> 0 \<le> val v" "0 < val (dsum (vals raw))"
    and w: "w = (let k = (case keys out of [] \<Rightarrow> [] | s # ss \<Rightarrow> max_by (aget 0 out) s ss)
                in AList.update k (aget 0 out k + (ONE - dsum (vals out))) out)"
    by (auto simp: quantise_weights_def Let_def result_simps not_less_dec not_le_dec less_val less_eq_val not_less not_le split: if_splits)
  have la: "list_all2 (\<lambda>x y. quantise_weight (dsum (vals raw)) x = Inr y) (sort_key fst raw) out"
    using tr by (simp only: etraverse_Inr_iff)
  from list_all2_lengthD [OF la] raw(1) obtain s ss where ks: "keys out = s # ss"
    by (cases out) (auto simp: keys_def)
  let ?k = "max_by (aget 0 out) s ss"
  have "?k \<in> set (keys out)" using max_by_mem [of "aget 0 out" s ss] by (simp only: ks)
  moreover have "val (aget 0 out x) \<le> val (aget 0 out ?k)" if "x \<in> set (keys out)" for x
    using max_by_greatest [of x s ss "aget 0 out"] that by (simp only: ks less_eq_val)
  ultimately show ?thesis using that [OF la raw, of ?k] w ks by (simp add: Let_def)
qed

lemma total_value_sort: "total_value (sort_key f d) = total_value d"
proof -
  have "sum_mset (image_mset (\<lambda>p. val (snd p)) (mset (sort_key f d))) = sum_mset (image_mset (\<lambda>p. val (snd p)) (mset d))"
    by simp
  then show ?thesis by (simp only: sum_mset_sum_list vals_def map_map o_def flip: mset_map)
qed

lemma ratio_bounds:
  fixes S T :: rat
  assumes "0 < T" "0 \<le> S" "S * (1 - SUM_EPS) \<le> T" "T \<le> S * (1 + SUM_EPS)"
  shows "1 - SUM_EPS \<le> S / T" "S / T \<le> 1 + 2 * SUM_EPS"
proof -
  have "(1 - SUM_EPS) * T \<le> (1 - SUM_EPS) * (S * (1 + SUM_EPS))"
    by (rule mult_left_mono [OF assms(4)]) (simp add: SUM_EPS_def)
  also have "\<dots> = S * ((1 - SUM_EPS) * (1 + SUM_EPS))" by simp
  also have "\<dots> \<le> S * 1" by (rule mult_left_mono) (use assms(2) in \<open>simp_all add: SUM_EPS_def\<close>)
  finally show "1 - SUM_EPS \<le> S / T" using assms(1) by (simp add: pos_le_divide_eq)
  have "S * 1 \<le> S * ((1 - SUM_EPS) * (1 + 2 * SUM_EPS))"
    by (rule mult_left_mono) (use assms(2) in \<open>simp_all add: SUM_EPS_def\<close>)
  also have "\<dots> = S * (1 - SUM_EPS) * (1 + 2 * SUM_EPS)" by simp
  also have "\<dots> \<le> T * (1 + 2 * SUM_EPS)" by (rule mult_right_mono [OF assms(3)]) (simp add: SUM_EPS_def)
  finally show "S / T \<le> 1 + 2 * SUM_EPS" using assms(1) by (simp add: pos_divide_le_eq mult.commute)
qed

lemma total_value_nonneg: "(\<And>v. v \<in> set (vals d) \<Longrightarrow> 0 \<le> val v) \<Longrightarrow> 0 \<le> total_value d"
  by (rule sum_list_nonneg) auto

text \<open>What the rounding of each weight leaves: the same symbols in order, weights on the grid, their sum near 1.\<close>

lemma quantised_weights:
  assumes la: "list_all2 (\<lambda>x y. quantise_weight (dsum (vals raw)) x = Inr y) (sort_key fst raw) out"
    and raw: "\<And>v. v \<in> set (vals raw) \<Longrightarrow> 0 \<le> val v" "0 < val (dsum (vals raw))" and n: "length raw \<le> 1000"
  shows "keys out = sort (keys raw)" "\<And>v. v \<in> set (vals out) \<Longrightarrow> grid (-6) (val v) \<and> 0 \<le> val v"
    "\<bar>total_value out - 1\<bar> \<le> of_nat (length raw) / 2000000 + 4 * SUM_EPS"
proof -
  let ?T = "val (dsum (vals raw))" and ?S = "total_value raw" and ?n = "of_nat (length raw) :: rat"
  have each: "fst y = fst x \<and> grid (-6) (val (snd y)) \<and> 0 \<le> val (snd y) \<and>
      \<bar>val (snd y) - val (snd x) / ?T\<bar> \<le> 1 / (2 * 10 ^ 6) + val (snd x) / ?T * EPS"
    if "quantise_weight (dsum (vals raw)) x = Inr y" "x \<in> set (sort_key fst raw)" for x y
  proof -
    have "0 \<le> val (snd x)" using raw(1) that(2) by (force simp: vals_def)
    with quantise_weight_Inr [OF that(1) _ raw(2)] show ?thesis by blast
  qed
  have la': "list_all2 (\<lambda>x y. fst y = fst x \<and> grid (-6) (val (snd y)) \<and> 0 \<le> val (snd y) \<and>
      \<bar>val (snd y) - val (snd x) / ?T\<bar> \<le> 1 / (2 * 10 ^ 6) + val (snd x) / ?T * EPS) (sort_key fst raw) out"
    by (rule list.rel_mono_strong [OF la]) (rule each)
  have "keys out = keys (sort_key fst raw)" by (rule list_all2_keys [OF la'])
  also have "\<dots> = sort (keys raw)" by (simp add: keys_def, rule sym, rule properties_for_sort) simp_all
  finally show "keys out = sort (keys raw)" .
  show "grid (-6) (val v) \<and> 0 \<le> val v" if "v \<in> set (vals out)" for v
    using list_all2_vals [OF la' that] by blast
  have "list_all2 (\<lambda>x y. \<bar>y - x\<bar> \<le> 1 / 2000000 + x * EPS)
      (map (\<lambda>x. val (snd x) / ?T) (sort_key fst raw)) (map val (vals out))"
    using la' by (auto simp: vals_def list_all2_conv_all_nth)
  moreover have "(\<Sum>x\<leftarrow>sort_key fst raw. val (snd x) / ?T) = ?S / ?T"
    using total_value_sort [of fst raw] by (simp add: vals_def o_def divide_inverse sum_list_mult_const)
  ultimately have "\<bar>total_value out - ?S / ?T\<bar> \<le> ?n / 2000000 + ?S / ?T * EPS"
    using sum_list_diff_bound by fastforce
  moreover have T: "1 - SUM_EPS \<le> ?S / ?T" "?S / ?T \<le> 1 + 2 * SUM_EPS"
    using ratio_bounds [of ?T ?S] raw dsum_bounds [of "vals raw"] total_value_nonneg [of raw] n by simp_all
  moreover have "?S / ?T * EPS \<le> (1 + 2 * SUM_EPS) * EPS" by (rule mult_right_mono [OF T(2)]) (simp add: EPS_def)
  moreover have "(1 + 2 * SUM_EPS) * EPS \<le> SUM_EPS" by (simp add: EPS_def SUM_EPS_def)
  ultimately show "\<bar>total_value out - 1\<bar> \<le> ?n / 2000000 + 4 * SUM_EPS" by linarith
qed

text \<open>
  C2. \<open>quantise_weights\<close> returns the same symbols, sorted, with weights that are non-negative
  multiples of a millionth and sum to exactly one: the rounding residue goes to the largest weight and never
  makes it negative (for up to a thousand distinct symbols).
\<close>

theorem quantise_weights_sum:
  assumes q: "quantise_weights raw = Inr w" and d: "distinct (keys raw)" and n: "length raw \<le> 1000"
  shows "keys w = sort (keys raw) \<and> total_value w = 1 \<and> (\<forall>v \<in> set (vals w). grid (-6) (val v) \<and> 0 \<le> val v)"
proof -
  from q obtain out k where
    la: "list_all2 (\<lambda>x y. quantise_weight (dsum (vals raw)) x = Inr y) (sort_key fst raw) out"
    and raw: "raw \<noteq> []" "\<And>v. v \<in> set (vals raw) \<Longrightarrow> 0 \<le> val v" "0 < val (dsum (vals raw))"
    and k: "k \<in> set (keys out)" "\<And>s. s \<in> set (keys out) \<Longrightarrow> val (aget 0 out s) \<le> val (aget 0 out k)"
    and w: "w = AList.update k (aget 0 out k + (ONE - dsum (vals out))) out"
    by (rule quantise_weights_parts) blast
  let ?Q = "total_value out" and ?n = "of_nat (length raw) :: rat"
  have out: "keys out = sort (keys raw)" "\<And>v. v \<in> set (vals out) \<Longrightarrow> grid (-6) (val v) \<and> 0 \<le> val v"
    and Q: "\<bar>?Q - 1\<bar> \<le> ?n / 2000000 + 4 * SUM_EPS"
    using quantised_weights [OF la _ raw(3) n] raw(2) by blast+
  note len = list_all2_lengthD [OF la]
  have n': "1 \<le> ?n" "?n \<le> 1000" using raw(1) n by (cases raw; simp)+
  have S4: "4 * SUM_EPS \<le> 1 / 10 ^ 6" by (simp add: SUM_EPS_def)
  have Qb: "999 / 1000 \<le> ?Q" "?Q \<le> 2" using Q n' S4 by simp_all
  have ds: "val (dsum (vals out)) = ?Q"
  proof (rule dsum_exact)
    have "map (\<lambda>x. \<bar>val x\<bar>) (vals out) = map val (vals out)" using out(2) by (intro map_cong) auto
    then show "(\<Sum>x\<leftarrow>vals out. \<bar>val x\<bar>) < 10 powi (28 + -6)" using Qb by (simp only:) simp
  qed (use out(2) in blast)
  have gQ: "grid (-6) ?Q" by (rule grid_sum_list) (use out(2) in auto)
  have g1: "grid (-6) (1::rat)" using grid_mono [OF grid_of_int [of 1]] by simp
  have res: "val (ONE - dsum (vals out)) = 1 - ?Q"
    using val_minus_exact [of "-6" ONE "dsum (vals out)"] g1 gQ Qb by (simp add: ds)
  let ?m = "aget 0 out k"
  have dk: "distinct (keys out)" using d by (simp add: out(1))
  have m: "?m \<in> set (vals out)" using aget_in_vals [OF k(1)] .
  have "val v \<le> val ?m" if "v \<in> set (vals out)" for v
    using in_vals_aget [OF dk that] k(2) by metis
  then have "?Q \<le> of_nat (length (map val (vals out))) * val ?m" by (intro sum_list_upper) auto
  then have "?Q \<le> ?n * val ?m" using len by simp
  also have "\<dots> \<le> 1000 * val ?m" using n' out(2) [OF m] by (intro mult_right_mono) auto
  finally have mlow: "999 / 1000000 \<le> val ?m" using Qb by simp
  have mup: "val ?m \<le> ?Q" using m out(2) by (intro member_le_sum_list) auto
  have new: "val (?m + (ONE - dsum (vals out))) = val ?m + (1 - ?Q)"
    using val_plus_exact [of "-6" ?m "ONE - dsum (vals out)"] out(2) [OF m] grid_diff [OF g1 gQ] Qb mlow mup
    by (simp add: res)
  have "grid (-6) (val ?m + (1 - ?Q))" "0 \<le> val ?m + (1 - ?Q)"
    using grid_add [OF _ grid_diff [OF g1 gQ]] out(2) [OF m] Q n' mlow S4 by auto
  then have "grid (-6) (val v) \<and> 0 \<le> val v" if "v \<in> set (vals w)" for v
    using subsetD [OF vals_update_subset that [unfolded w]] out(2) new by (elim insertE) simp_all
  then show ?thesis
    using total_value_update [OF dk k(1)] k(1) out(1) new by (simp add: w keys_update_id)
qed

theorem quantise_weights_sum_witness:
  "\<exists>w. quantise_weights [(''SPY'', Dec 1 0), (''IEF'', Dec 1 0), (''GLD'', Dec 1 0)] = Inr w \<and> (\<Sum>x\<leftarrow>vals w. val x) = 1"
proof -
  have "\<exists>w. quantise_weights [(''SPY'', Dec 1 0), (''IEF'', Dec 1 0), (''GLD'', Dec 1 0)] = Inr w"
    by (rule exI [of _ "[(''GLD'', Dec 333334 (-6)), (''IEF'', Dec 333333 (-6)), (''SPY'', Dec 333333 (-6))]"]) code_simp
  then obtain w where "quantise_weights [(''SPY'', Dec 1 0), (''IEF'', Dec 1 0), (''GLD'', Dec 1 0)] = Inr w" ..
  with quantise_weights_sum [OF this] show ?thesis by auto
qed

section \<open>The rebalance plan\<close>

text \<open>The orders a rebalance may hold, against the gap \<open>delta\<close> between a target and a holding.\<close>

definition order_gap :: "amounts \<Rightarrow> amounts \<Rightarrow> amounts \<Rightarrow> decimal \<Rightarrow> string \<Rightarrow> decimal" where
  "order_gap qty prices tgts value s = aget 0 tgts s * value - aget 0 qty s * aget 0 prices s"

definition sell_ok :: "amounts \<Rightarrow> amounts \<Rightarrow> amounts \<Rightarrow> decimal \<Rightarrow> decimal \<Rightarrow> string \<Rightarrow> decimal \<Rightarrow> bool" where
  "sell_ok qty prices tgts value m s q \<longleftrightarrow>
     0 < val q \<and> val q \<le> val (aget 0 qty s) \<and> val m \<le> - val (order_gap qty prices tgts value s) \<and>
     (if val (aget 0 tgts s) = 0 then q = aget 0 qty s
      else val q * val (aget 0 prices s) \<le> - val (order_gap qty prices tgts value s) * (1 + EPS))"

definition buy_ok :: "amounts \<Rightarrow> amounts \<Rightarrow> amounts \<Rightarrow> decimal \<Rightarrow> decimal \<Rightarrow> bool \<Rightarrow> string \<Rightarrow> decimal \<Rightarrow> bool" where
  "buy_ok qty prices tgts value m cents s n \<longleftrightarrow>
     val m \<le> val (order_gap qty prices tgts value s) \<and> 0 \<le> val n \<and>
     val n \<le> val (order_gap qty prices tgts value s) \<and>
     (if cents then grid (-2) (val n) \<and> val (order_gap qty prices tgts value s) < val n + 1 / 100
      else n = order_gap qty prices tgts value s)"

lemma rebalance_order_step:
  assumes "rebalance_order qty prices tgts value m cents sb s = Inr sb'"
    and price: "0 < val (aget 0 prices s)" and m: "0 < val m"
  shows "sb' = sb \<or>
    (\<exists>q. sb' = (AList.update s q (fst sb), snd sb) \<and> sell_ok qty prices tgts value m s q) \<or>
    (\<exists>n. sb' = (fst sb, AList.update s n (snd sb)) \<and> buy_ok qty prices tgts value m cents s n)"
proof -
  let ?delta = "order_gap qty prices tgts value s" and ?p = "aget 0 prices s" and ?h = "aget 0 qty s"
  have c: "canon ?delta" by (simp add: order_gap_def)
  have step: "(if \<bar>?delta\<bar> < m then Inr sb
      else if ?delta < 0 then
        ebind (ddiv (- ?delta) ?p) (\<lambda>units. ebind (quantize units QTY_QUANTUM ROUND_DOWN) (\<lambda>q.
        let sell = (if deq (aget 0 tgts s) 0 then ?h else min ?h q) in
        if 0 < sell then Inr (AList.update s sell (fst sb), snd sb) else Inr sb))
      else ebind (if cents then quantize ?delta CENT ROUND_DOWN else Inr ?delta) (\<lambda>notional.
        Inr (fst sb, AList.update s notional (snd sb)))) = Inr sb'"
  proof (cases "map_of prices s")
    case (Some p)
    then show ?thesis
      using assms(1)
      by (simp only: rebalance_order_def eget_def aget_map_of order_gap_def Let_def option.case ebind_simps)
  qed (use assms(1) in \<open>simp add: rebalance_order_def eget_def Let_def\<close>)
  consider "\<bar>?delta\<bar> < m" | (sell) "\<not> \<bar>?delta\<bar> < m" "val ?delta < 0" | (buy) "\<not> \<bar>?delta\<bar> < m" "0 \<le> val ?delta"
    by (meson not_le)
  then show ?thesis
  proof cases
    case sell
    then have gap: "val m \<le> - val ?delta" using c by (simp add: less_val)
    from step sell obtain units q where u: "ddiv (- ?delta) ?p = Inr units" "quantize units QTY_QUANTUM ROUND_DOWN = Inr q"
      and sb': "sb' = (let x = if deq (aget 0 tgts s) 0 then ?h else min ?h q in
                  if 0 < x then (AList.update s x (fst sb), snd sb) else sb)"
      by (auto simp: less_val result_simps Let_def split: if_splits)
    have "val q * val ?p \<le> - val ?delta * (1 + EPS)"
      using quantize_quotient_down(1) [OF u] sell(2) price c by simp
    moreover have "val (min ?h q) * val ?p \<le> val q * val ?p" using price by (intro mult_right_mono) (auto simp: val_min)
    ultimately have "sell_ok qty prices tgts value m s x" if "x = (if deq (aget 0 tgts s) 0 then ?h else min ?h q)" "0 < x" for x
      using that gap by (auto simp: sell_ok_def deq_val less_val val_min)
    then show ?thesis by (auto simp: sb' Let_def)
  next
    case buy
    then have gap: "val m \<le> val ?delta" using c by (simp add: less_val)
    from step buy obtain n where n: "(if cents then quantize ?delta CENT ROUND_DOWN else Inr ?delta) = Inr n"
      and sb': "sb' = (fst sb, AList.update s n (snd sb))"
      by (auto simp: less_val result_simps)
    have "buy_ok qty prices tgts value m cents s n"
      using n gap buy(2) quantize_down [of ?delta CENT n] quantize_nonneg [of ?delta CENT ROUND_DOWN n]
        quantize_grid [of ?delta CENT ROUND_DOWN n] quantize_error [of ?delta CENT ROUND_DOWN n]
      by (auto simp: buy_ok_def power_int_def power_one_over split: if_splits)
    with sb' show ?thesis by blast
  qed (use step in simp)
qed

definition orders_ok :: "amounts \<Rightarrow> amounts \<Rightarrow> amounts \<Rightarrow> decimal \<Rightarrow> decimal \<Rightarrow> bool \<Rightarrow> amounts \<times> amounts \<Rightarrow> bool" where
  "orders_ok qty prices tgts value m cents sb \<longleftrightarrow>
     distinct (keys (fst sb)) \<and> distinct (keys (snd sb)) \<and> set (keys (fst sb)) \<inter> set (keys (snd sb)) = {} \<and>
     (\<forall>s q. map_of (fst sb) s = Some q \<longrightarrow> sell_ok qty prices tgts value m s q) \<and>
     (\<forall>s n. map_of (snd sb) s = Some n \<longrightarrow> buy_ok qty prices tgts value m cents s n)"

lemma rebalance_orders_ok:
  assumes "efold (rebalance_order qty prices tgts value m cents) sb ss = Inr sb'" "distinct ss"
    and "orders_ok qty prices tgts value m cents sb" "set ss \<inter> (set (keys (fst sb)) \<union> set (keys (snd sb))) = {}"
    and "\<And>s. s \<in> set ss \<Longrightarrow> 0 < val (aget 0 prices s)" and m: "0 < val m"
  shows "orders_ok qty prices tgts value m cents sb'"
  using assms(1-5)
proof (induction ss arbitrary: sb)
  case (Cons s ss)
  from Cons.prems(1) obtain sb1 where s: "rebalance_order qty prices tgts value m cents sb s = Inr sb1"
    and rest: "efold (rebalance_order qty prices tgts value m cents) sb1 ss = Inr sb'" by (auto simp: ebind_Inr_iff)
  note step = rebalance_order_step [OF s _ m]
  have "orders_ok qty prices tgts value m cents sb1" "set ss \<inter> (set (keys (fst sb1)) \<union> set (keys (snd sb1))) = {}"
    using step Cons.prems(2-5) by (auto simp: orders_ok_def keys_update distinct_keys_update split: if_splits)
  with Cons.IH [OF rest] Cons.prems(2,5) show ?case by simp
qed simp

text \<open>
  C3. A rebalance plan names each symbol at most once, as a sell or as a buy. Every sell is of a positive
  quantity, at most what is held, for a gap of at least the minimum order, and worth no more than the gap
  (all of the holding when the target is zero). Every buy is for a gap of at least the minimum order, is not
  above the gap, and in whole cents is the gap rounded down.
\<close>

theorem plan_rebalance_orders:
  assumes plan: "plan_rebalance on qty prices cash tgts m why cents = Inr p"
    and prices: "\<forall>s \<in> set (keys qty) \<union> set (keys tgts). 0 < val (aget 0 prices s)" and m: "0 < val m"
  shows "distinct (keys (sells p)) \<and> distinct (keys (buys p)) \<and> set (keys (sells p)) \<inter> set (keys (buys p)) = {} \<and>
    (\<exists>vs value. position_values (\<lambda>_. True) qty prices = Inr vs \<and> value = cash + dsum (vals vs) \<and> 0 < val value \<and>
      (\<forall>s q. map_of (sells p) s = Some q \<longrightarrow> sell_ok qty prices tgts value m s q) \<and>
      (\<forall>s n. map_of (buys p) s = Some n \<longrightarrow> buy_ok qty prices tgts value m cents s n))"
proof -
  from plan obtain vs where vs: "position_values (\<lambda>_. True) qty prices = Inr vs"
    and v: "0 < val (cash + dsum (vals vs))" 
    and p: "ebind (efold (rebalance_order qty prices tgts (cash + dsum (vals vs)) m cents) ([], [])
                (sorted_union (keys qty) (keys tgts))) (\<lambda>sb.
       Inr \<lparr> decided_on = on, targets = tgts, sells = fst sb, buys = snd sb, reason = why \<rparr>) = Inr p"
    by (auto simp: plan_rebalance_def result_simps Let_def less_eq_val not_le split: if_splits)
  from p obtain sb where sb: "efold (rebalance_order qty prices tgts (cash + dsum (vals vs)) m cents) ([], [])
                (sorted_union (keys qty) (keys tgts)) = Inr sb" and eq: "sells p = fst sb" "buys p = snd sb"
    by (auto simp: ebind_Inr_iff)
  have "orders_ok qty prices tgts (cash + dsum (vals vs)) m cents sb"
    by (rule rebalance_orders_ok [OF sb _ _ _ _ m]) (use prices in \<open>auto simp: orders_ok_def\<close>)
  then show ?thesis using v vs by (auto simp: orders_ok_def eq)
qed

theorem plan_rebalance_orders_witness:
  "\<exists>p. plan_rebalance (Date 2024 6 28) [(''SPY'', Dec 10 0), (''OLD'', Dec 15 (-1))]
      [(''SPY'', Dec 500 0), (''OLD'', Dec 20 0), (''IEF'', Dec 95 0)] (Dec 100 0)
      [(''SPY'', Dec 6 (-1)), (''IEF'', Dec 4 (-1))] (Dec 1 0) ''rebalance'' True = Inr p \<and>
    sells p = [(''OLD'', Dec 15 (-1)), (''SPY'', Dec 3844000000 (-9))] \<and> set (keys (sells p)) \<inter> set (keys (buys p)) = {}"
proof -
  have "plan_rebalance (Date 2024 6 28) [(''SPY'', Dec 10 0), (''OLD'', Dec 15 (-1))]
      [(''SPY'', Dec 500 0), (''OLD'', Dec 20 0), (''IEF'', Dec 95 0)] (Dec 100 0)
      [(''SPY'', Dec 6 (-1)), (''IEF'', Dec 4 (-1))] (Dec 1 0) ''rebalance'' True =
    Inr \<lparr> decided_on = Date 2024 6 28, targets = [(''SPY'', Dec 6 (-1)), (''IEF'', Dec 4 (-1))],
      sells = [(''OLD'', Dec 15 (-1)), (''SPY'', Dec 3844000000 (-9))], buys = [(''IEF'', Dec 205200 (-2))], reason = ''rebalance'' \<rparr>"
    (is "?p = Inr ?r") by code_simp
  then show ?thesis using plan_rebalance_orders [of _ _ _ _ _ _ _ _ ?r]
    by (auto simp: aget_def val_def)
qed

section \<open>Scaling the buys\<close>

definition cost_of :: "amounts \<Rightarrow> amounts \<Rightarrow> rat" where
  "cost_of cost_rate bs = (\<Sum>(s, n)\<leftarrow>bs. val n * (1 + val (aget 0 cost_rate s)))"

lemma cost_of_nonneg:
  "\<forall>n \<in> set (vals bs). 0 \<le> val n \<Longrightarrow> \<forall>s. 0 \<le> val (aget 0 r s) \<Longrightarrow> 0 \<le> cost_of r bs"
  unfolding cost_of_def by (rule sum_list_nonneg) (auto simp: vals_def)

lemma need_lower:
  assumes n: "\<forall>n \<in> set (vals bs). 0 \<le> val n" and r: "\<forall>s. 0 \<le> val (aget 0 r s)" and len: "length bs \<le> 10 ^ 6"
  shows "cost_of r bs * (1 - 2 * SUM_EPS) \<le> val (dsum (map (\<lambda>(s, n). n * (ONE + aget 0 r s)) bs))"
proof -
  let ?f = "\<lambda>(s, n). n * (ONE + aget 0 r s)"
  have tm: "val n * (1 + val (aget 0 r s)) * ((1 - EPS) * (1 - EPS)) \<le> val (n * (ONE + aget 0 r s)) \<and>
      0 \<le> val (n * (ONE + aget 0 r s))" if "(s, n) \<in> set bs" for s n
  proof -
    have n0: "0 \<le> val n" using n that by (auto simp: vals_def)
    have c: "(1 + val (aget 0 r s)) * (1 - EPS) \<le> val (ONE + aget 0 r s)"
      using rnd_lower [OF rnd_plus [of ONE "aget 0 r s"]] r by simp
    have c0: "0 \<le> val (ONE + aget 0 r s)" using rnd_nonneg [OF rnd_plus [of ONE "aget 0 r s"]] r by simp
    have p: "0 \<le> val n * val (ONE + aget 0 r s)" using n0 c0 by simp
    have "val n * ((1 + val (aget 0 r s)) * (1 - EPS)) * (1 - EPS) \<le> val n * val (ONE + aget 0 r s) * (1 - EPS)"
      using c n0 EPS_less by (intro mult_right_mono mult_left_mono) simp_all
    also have "\<dots> \<le> val (n * (ONE + aget 0 r s))" by (rule rnd_lower [OF rnd_times p])
    finally show ?thesis using rnd_nonneg [OF rnd_times p] by (simp add: mult.assoc)
  qed
  have "cost_of r bs * ((1 - EPS) * (1 - EPS)) = (\<Sum>(s, n)\<leftarrow>bs. val n * (1 + val (aget 0 r s)) * ((1 - EPS) * (1 - EPS)))"
    by (simp add: cost_of_def sum_list_mult_const case_prod_unfold)
  also have "\<dots> \<le> (\<Sum>x\<leftarrow>map ?f bs. val x)"
    by (simp add: o_def, rule sum_list_mono) (use tm in auto)
  finally have 1: "cost_of r bs * ((1 - EPS) * (1 - EPS)) \<le> (\<Sum>x\<leftarrow>map ?f bs. val x)" .
  have "cost_of r bs * (1 - 2 * SUM_EPS) \<le> cost_of r bs * ((1 - EPS) * (1 - EPS) * (1 - SUM_EPS))"
    by (rule mult_left_mono [OF _ cost_of_nonneg [OF n r]]) (simp add: EPS_def SUM_EPS_def)
  also have "\<dots> \<le> (\<Sum>x\<leftarrow>map ?f bs. val x) * (1 - SUM_EPS)"
    using mult_right_mono [OF 1, of "1 - SUM_EPS"] by (simp add: SUM_EPS_def mult.assoc)
  also have "\<dots> \<le> val (dsum (map ?f bs))" by (rule dsum_bounds(1)) (use tm len in auto)
  finally show ?thesis .
qed

lemma scaled_cost:
  "list_all2 (\<lambda>x y. fst y = fst x \<and> 0 \<le> val (snd y) \<and> val (snd y) \<le> val (snd x) * k) bs out \<Longrightarrow>
   \<forall>s. 0 \<le> val (aget 0 r s) \<Longrightarrow> cost_of r out \<le> cost_of r bs * k"
proof (induction rule: list_all2_induct)
  case (Cons x xs y ys)
  then have "val (snd y) * (1 + val (aget 0 r (fst x))) \<le> val (snd x) * k * (1 + val (aget 0 r (fst x)))"
    by (intro mult_right_mono) (auto simp: add_nonneg_nonneg)
  also have "\<dots> = val (snd x) * (1 + val (aget 0 r (fst x))) * k" by simp
  finally show ?case using Cons by (simp add: cost_of_def case_prod_unfold distrib_right [of _ _ k])
qed (simp add: cost_of_def)

lemma scale_buys_bound:
  assumes ok: "scale_buys bs available r cents = Inr out"
    and n: "\<forall>n \<in> set (vals bs). 0 \<le> val n" and r: "\<forall>s. 0 \<le> val (aget 0 r s)" and len: "length bs \<le> 10 ^ 6"
  shows "keys out = keys bs \<and> (\<forall>n \<in> set (vals out). 0 \<le> val n) \<and>
    cost_of r out \<le> max (val available) 0 * (1 + 3 * SUM_EPS)"
proof -
  let ?need = "dsum (map (\<lambda>(s, n). n * (ONE + aget 0 r s)) bs)"
  note X = need_lower [OF n r len] and X0 = cost_of_nonneg [OF n r]
  have fit: "cost_of r bs \<le> a * (1 + 3 * SUM_EPS)" if "cost_of r bs * (1 - 2 * SUM_EPS) \<le> a" "0 \<le> a" for a
  proof -
    have "cost_of r bs * 1 \<le> cost_of r bs * ((1 - 2 * SUM_EPS) * (1 + 3 * SUM_EPS))"
      by (rule mult_left_mono [OF _ X0]) (simp add: SUM_EPS_def)
    also have "\<dots> \<le> a * (1 + 3 * SUM_EPS)"
      using mult_right_mono [OF that(1), of "1 + 3 * SUM_EPS"] by (simp add: SUM_EPS_def mult.assoc)
    finally show ?thesis by simp
  qed
  show ?thesis
  proof (cases "?need \<le> available \<or> deq ?need 0")
    case True
    then have "out = bs" "cost_of r bs * (1 - 2 * SUM_EPS) \<le> max (val available) 0"
      using ok X by (auto simp: scale_buys_def Let_def less_eq_val deq_val)
    then show ?thesis using fit [of "max (val available) 0"] n by simp
  next
    case False
    let ?A = "max (val available) 0"
    from False have need: "0 < val ?need"
      using X X0 mult_nonneg_nonneg [OF X0, of "1 - 2 * SUM_EPS"] by (auto simp: deq_val SUM_EPS_def)
    from ok False obtain k where k: "ddiv (pmax available 0) ?need = Inr k"
      and tr: "list_all2 (\<lambda>x y. scale_buy k cents x = Inr y) bs out"
      by (auto simp: scale_buys_def Let_def ebind_Inr_iff etraverse_Inr_iff)
    have A: "0 \<le> ?A / val ?need" using need by simp
    have k0: "0 \<le> val k" and kA: "val k \<le> ?A / val ?need * (1 + EPS)"
      using rnd_nonneg [OF rnd_ddiv(1) [OF k]] rnd_upper [OF rnd_ddiv(1) [OF k]] A by (simp_all add: val_pmax max.commute)
    have each: "fst y = fst x \<and> 0 \<le> val (snd y) \<and> val (snd y) \<le> val (snd x) * (val k * (1 + EPS))"
      if "scale_buy k cents x = Inr y" "x \<in> set bs" for x y
    proof -
      have p: "0 \<le> val (snd x) * val k" using n k0 that(2) by (auto simp: vals_def)
      have "0 \<le> val (snd x * k)" "val (snd x * k) \<le> val (snd x) * (val k * (1 + EPS))"
        using rnd_nonneg [OF rnd_times p] rnd_upper [OF rnd_times p] by (simp_all add: mult.assoc)
      then show ?thesis using that(1) quantize_down [of "snd x * k" CENT "snd y"] quantize_nonneg [of "snd x * k" CENT ROUND_DOWN "snd y"]
        by (cases x) (auto simp: scale_buy_def emap_Inr_iff split: if_splits)
    qed
    have la: "list_all2 (\<lambda>x y. fst y = fst x \<and> 0 \<le> val (snd y) \<and> val (snd y) \<le> val (snd x) * (val k * (1 + EPS))) bs out"
      by (rule list.rel_mono_strong [OF tr]) (use each in auto)
    have "cost_of r out \<le> cost_of r bs * (val k * (1 + EPS))"
      using scaled_cost [OF la] r .
    also have "\<dots> \<le> cost_of r bs * (?A / val ?need * (1 + EPS) * (1 + EPS))"
      using kA by (intro mult_left_mono mult_right_mono X0) simp_all
    also have "\<dots> = cost_of r bs * (?A / val ?need) * ((1 + EPS) * (1 + EPS))" by simp
    also have "\<dots> \<le> cost_of r bs * (?A / val ?need) * ((1 - 2 * SUM_EPS) * (1 + 3 * SUM_EPS))"
      by (rule mult_left_mono [OF _ mult_nonneg_nonneg [OF X0 A]]) (simp add: EPS_def SUM_EPS_def)
    also have "\<dots> = (cost_of r bs * (1 - 2 * SUM_EPS)) * (?A / val ?need) * (1 + 3 * SUM_EPS)" by simp
    also have "\<dots> \<le> val ?need * (?A / val ?need) * (1 + 3 * SUM_EPS)"
      using X A by (intro mult_right_mono) (simp_all add: SUM_EPS_def)
    also have "\<dots> = ?A * (1 + 3 * SUM_EPS)" using need by simp
    finally have "cost_of r out \<le> ?A * (1 + 3 * SUM_EPS)" .
    then show ?thesis using list_all2_keys [OF la] list_all2_vals [OF la] by blast
  qed
qed

text \<open>
  \<open>scale_buys\<close> keeps the symbols, and the scaled notionals with their costs fit in the available cash, up
  to the rounding of the 28-digit sums; with no cash they are all zero.
\<close>

theorem scale_buys_fit:
  assumes ok: "scale_buys bs available r cents = Inr out"
    and n: "\<forall>n \<in> set (vals bs). 0 \<le> val n" and r: "\<forall>s. 0 \<le> val (aget 0 r s)" and len: "length bs \<le> 10 ^ 6"
  shows "keys out = keys bs \<and> (\<forall>n \<in> set (vals out). 0 \<le> val n) \<and>
    cost_of r out \<le> max (val available) 0 * (1 + 3 * SUM_EPS)"
  by (rule scale_buys_bound [OF assms])

theorem scale_buys_fit_witness:
  "\<exists>out. scale_buys [(''SPY'', Dec 600 0), (''IEF'', Dec 400 0)] (Dec 500 0) [(''SPY'', Dec 1 (-3))] True = Inr out \<and>
     cost_of [(''SPY'', Dec 1 (-3))] out \<le> 500 * (1 + 3 * SUM_EPS)"
proof -
  have out: "scale_buys [(''SPY'', Dec 600 0), (''IEF'', Dec 400 0)] (Dec 500 0) [(''SPY'', Dec 1 (-3))] True =
      Inr [(''SPY'', Dec 29982 (-2)), (''IEF'', Dec 19988 (-2))]"
    by code_simp
  have r: "\<forall>s. 0 \<le> val (aget 0 [(''SPY'', Dec 1 (-3))] s)" by (simp add: aget_def val_def [of "Dec 1 (-3)"])
  show ?thesis
    using out scale_buys_fit [OF out _ r]
    by (simp add: val_def [of "Dec 600 0"] val_def [of "Dec 400 0"] val_def [of "Dec 500 0"])
qed

section \<open>When a rule is due\<close>

lemma foldl_pmax: "val (foldl pmax a xs) = Max (set (map val (a # xs)))"
proof (induction xs arbitrary: a)
  case (Cons x xs)
  have "Max (insert (max (val a) (val x)) (val ` set xs)) = Max (insert (val a) (insert (val x) (val ` set xs)))"
    by (cases "xs = []") (simp_all add: max.assoc)
  then show ?case by (simp add: Cons val_pmax)
qed simp

lemma drift_less:
  assumes "0 \<le> val b"
  shows "b < drift w t \<longleftrightarrow> (\<exists>s. b < \<bar>aget 0 w s - aget 0 t s\<bar>)"
proof -
  let ?g = "\<lambda>s. \<bar>aget 0 w s - aget 0 t s\<bar>" and ?u = "sorted_union (keys w) (keys t)"
  have outside: "\<not> b < ?g s" if "s \<notin> set ?u" for s
  proof -
    from that have "map_of w s = None" "map_of t s = None" by (auto simp: set_keys domIff)
    then show ?thesis using assms rnd_minus [of 0 0] by (simp add: aget_def less_val)
  qed
  have "b < drift w t \<longleftrightarrow> (\<exists>s \<in> set ?u. b < ?g s)"
  proof (cases ?u)
    case Nil
    then show ?thesis using assms by (simp add: drift_def less_val)
  next
    case (Cons s ss)
    have "val (drift w t) = Max (val ` ?g ` set ?u)"
      by (simp add: drift_def Cons foldl_pmax image_image)
    then show ?thesis using Cons by (simp add: less_val Max_gr_iff)
  qed
  then show ?thesis using outside by blast
qed

text \<open>The calendar period of a date; a period ends at the last session inside it.\<close>

fun bucket :: "period \<Rightarrow> date \<Rightarrow> int \<times> int" where
  "bucket Month d = (year d, month d)"
| "bucket Quarter d = (year d, (month d - 1) div 3)"
| "bucket Year d = (year d, 0)"

lemma period_ends_bucket: "p \<in> period_ends d d' \<longleftrightarrow> bucket p d \<noteq> bucket p d'"
  by (cases p) (auto simp: period_ends_def)

text \<open>
  Each named rule is due exactly when it is not \<open>none\<close>, the next session falls in another month, quarter
  or year (for a calendar rule), and some symbol's weight is further from its target than the band (for a band
  rule).
\<close>

theorem rule_due_calendar_and_drift:
  assumes "(n, r) \<in> set RULES"
  shows "rule_due r (period_ends d d') w t \<longleftrightarrow>
    n \<noteq> ''none'' \<and> (\<forall>p. rule_period r = Some p \<longrightarrow> bucket p d \<noteq> bucket p d') \<and>
    (\<forall>b. rule_band r = Some b \<longrightarrow> (\<exists>s. b < \<bar>aget 0 w s - aget 0 t s\<bar>))"
proof -
  have "0 \<le> val b" if "rule_band r = Some b" for b
    using that assms by (auto simp: RULES_def mk_rule_def val_def)
  moreover have "rule_never r \<longleftrightarrow> n = ''none''" using assms by (auto simp: RULES_def mk_rule_def)
  ultimately show ?thesis
    by (auto simp: rule_due_def rule_checked_def period_ends_bucket drift_less split: option.splits)
qed

theorem rule_due_calendar_and_drift_witness:
  "rule_due (snd (mk_rule ''monthly_band5'' (Some Month) (Some (Dec 5 (-2))) False))
     (period_ends (Date 2024 5 31) (Date 2024 6 3)) [(''SPY'', Dec 60 (-2))] [(''SPY'', Dec 50 (-2)), (''AGG'', Dec 5 (-1))]"
proof -
  have "(''monthly_band5'', snd (mk_rule ''monthly_band5'' (Some Month) (Some (Dec 5 (-2))) False)) \<in> set RULES"
    by (simp add: RULES_def mk_rule_def)
  moreover have "Dec 5 (-2) < \<bar>aget 0 [(''SPY'', Dec 60 (-2))] ''SPY'' - aget 0 [(''SPY'', Dec 50 (-2)), (''AGG'', Dec 5 (-1))] ''SPY''\<bar>"
    by code_simp
  ultimately show ?thesis by (auto simp: rule_due_calendar_and_drift) (auto simp: mk_rule_def)
qed

end
