(* ===== verification/Lots_Laws.thy ===== *)
theory Lots_Laws imports Lots begin

text \<open>
  What a sale does to the lots, whichever method picks them: it never fails on a holding that has the
  quantity, removes exactly that quantity, leaves no empty lot, and splits the cost between the basis
  returned and the lots left, up to rounding. The contract is a locale, interpreted on
  \<open>Holding.sell\<close> for each method; selling repeatedly is proved once from the contract.
\<close>

section \<open>What a holding is worth\<close>

definition units :: "holding \<Rightarrow> rat" where
  "units h = (\<Sum>l\<leftarrow>h. val (lot_qty l))"

definition paid :: "holding \<Rightarrow> rat" where
  "paid h = (\<Sum>l\<leftarrow>h. if 0 < val (lot_qty l) then val (lot_cost l) else 0)"

definition lot_ok :: "lot \<Rightarrow> bool" where
  "lot_ok l \<longleftrightarrow> grid (-9) (val (lot_qty l)) \<and> 0 \<le> val (lot_qty l) \<and> (0 < val (lot_qty l) \<longrightarrow> 0 \<le> val (lot_cost l))"

definition lots_wf :: "holding \<Rightarrow> bool" where
  "lots_wf h \<longleftrightarrow> (\<forall>l \<in> set h. lot_ok l \<and> 0 < val (lot_qty l)) \<and> units h \<le> 10 ^ 9 \<and> length h \<le> 10 ^ 5"

lemma sum_list_update_rat:
  "i < length xs \<Longrightarrow> (\<Sum>x\<leftarrow>xs[i := y]. f x) = (\<Sum>x\<leftarrow>xs. f x) - f (xs ! i) + (f y :: rat)"
  by (induction xs arbitrary: i) (auto split: nat.splits)

lemma units_update: "i < length h \<Longrightarrow> units (h[i := l]) = units h - val (lot_qty (h ! i)) + val (lot_qty l)"
  by (simp add: units_def sum_list_update_rat)

lemma paid_update:
  "i < length h \<Longrightarrow> paid (h[i := l]) = paid h - (if 0 < val (lot_qty (h ! i)) then val (lot_cost (h ! i)) else 0)
     + (if 0 < val (lot_qty l) then val (lot_cost l) else 0)"
  by (simp add: paid_def sum_list_update_rat)

lemma paid_nonneg: "\<forall>l \<in> set h. lot_ok l \<Longrightarrow> 0 \<le> paid h"
  unfolding paid_def by (rule sum_list_nonneg) (auto simp: lot_ok_def)

lemma paid_ge: "\<forall>l \<in> set h. lot_ok l \<Longrightarrow> l \<in> set h \<Longrightarrow> 0 < val (lot_qty l) \<Longrightarrow> val (lot_cost l) \<le> paid h"
  unfolding paid_def
  using member_le_sum_list [of "val (lot_cost l)" "map (\<lambda>l. if 0 < val (lot_qty l) then val (lot_cost l) else 0) h"]
  by (force simp: lot_ok_def)

lemma units_ge: "\<forall>l \<in> set h. lot_ok l \<Longrightarrow> l \<in> set h \<Longrightarrow> val (lot_qty l) \<le> units h"
  unfolding units_def
  using member_le_sum_list [of "val (lot_qty l)" "map (\<lambda>l. val (lot_qty l)) h"] by (force simp: lot_ok_def)

lemma grid_units: "\<forall>l \<in> set h. lot_ok l \<Longrightarrow> grid (-9) (units h)"
  unfolding units_def by (rule grid_sum_list) (auto simp: lot_ok_def)

lemma holding_qty_exact:
  assumes "\<forall>l \<in> set h. lot_ok l" "units h \<le> 10 ^ 9" shows "val (holding_qty h) = units h"
proof -
  have "map (\<lambda>l. \<bar>val (lot_qty l)\<bar>) h = map (\<lambda>l. val (lot_qty l)) h" using assms(1) by (auto simp: lot_ok_def)
  then have "(\<Sum>x\<leftarrow>map lot_qty h. \<bar>val x\<bar>) = units h" by (simp only: units_def map_map o_def)
  then show ?thesis unfolding holding_qty_def using assms dsum_exact [of "map lot_qty h" "-9"]
    by (auto simp: units_def o_def lot_ok_def)
qed

text \<open>The two roundings of \<open>cost * take / qty\<close>.\<close>

lemma part_bounds:
  assumes d: "ddiv (c * t) q = Inr p" and c: "0 \<le> val c" and t: "0 \<le> val t" and q: "0 < val q"
  shows "0 \<le> val p" "val p \<le> val c * (val t / val q) * (1 + EPS) ^ 2" "val c * (val t / val q) * (1 - EPS) ^ 2 \<le> val p"
proof -
  have ct: "0 \<le> val c * val t" using c t by simp
  note r1 = rnd_nonneg [OF rnd_times ct] rnd_upper [OF rnd_times ct] rnd_lower [OF rnd_times ct]
  have n: "0 \<le> val (c * t) / val q" using r1 q by simp
  note r2 = rnd_ddiv(1) [OF d]
  show "0 \<le> val p" by (rule rnd_nonneg [OF r2 n])
  have "val p \<le> val (c * t) / val q * (1 + EPS)" by (rule rnd_upper [OF r2 n])
  also have "\<dots> \<le> val c * val t * (1 + EPS) / val q * (1 + EPS)"
    using r1 q by (intro mult_right_mono divide_right_mono) simp_all
  finally show "val p \<le> val c * (val t / val q) * (1 + EPS) ^ 2" by (simp add: power2_eq_square mult.assoc)
  have "val c * val t * (1 - EPS) / val q * (1 - EPS) \<le> val (c * t) / val q * (1 - EPS)"
    using r1 q EPS_less by (intro mult_right_mono divide_right_mono) simp_all
  also have "\<dots> \<le> val p" by (rule rnd_lower [OF r2 n])
  finally show "val c * (val t / val q) * (1 - EPS) ^ 2 \<le> val p" by (simp add: power2_eq_square mult.assoc)
qed

lemma part_below_cost:
  assumes "ddiv (c * t) q = Inr p" "0 \<le> val c" "0 \<le> val t" "0 < val q" "val t < val q"
    and g: "grid (-9) (val t)" "grid (-9) (val q)" and big: "val q \<le> 10 ^ 9"
  shows "val p \<le> val c"
proof -
  have "1 / 10 ^ 9 \<le> val q - val t" using grid_pos_ge [OF grid_diff [OF g(2,1)]] assms(5) by (simp add: power_int_def power_one_over)
  moreover have "val q / 10 ^ 18 \<le> 1 / 10 ^ 9" using big by simp
  ultimately have "val t \<le> val q * (1 - 1 / 10 ^ 18)" by (simp add: right_diff_distrib)
  then have "val t / val q \<le> 1 - 1 / 10 ^ 18" using assms(4) by (simp add: pos_divide_le_eq mult.commute)
  then have "val c * (val t / val q) * (1 + EPS) ^ 2 \<le> val c * (1 - 1 / 10 ^ 18) * (1 + EPS) ^ 2"
    using assms(2) by (intro mult_right_mono mult_left_mono) simp_all
  also have "\<dots> = val c * ((1 - 1 / 10 ^ 18) * (1 + EPS) ^ 2)" by simp
  also have "\<dots> \<le> val c * 1" using assms(2) by (intro mult_left_mono) (simp_all add: EPS_def power2_eq_square)
  finally show ?thesis using part_bounds(2) [OF assms(1-4)] by simp
qed

section \<open>The loop over the lots\<close>

type_synonym loop_state = "holding \<times> decimal \<times> decimal"

definition loop_ok :: "nat set \<Rightarrow> loop_state \<Rightarrow> bool" where
  "loop_ok visited s \<longleftrightarrow> (case s of (lots, basis, left) \<Rightarrow>
     (\<forall>l \<in> set lots. lot_ok l \<and> val (lot_qty l) \<le> 10 ^ 9) \<and>
     grid (-9) (val left) \<and> 0 \<le> val left \<and> val left \<le> 10 ^ 9 \<and> 0 \<le> val basis \<and>
     (\<forall>i < length lots. if i \<in> visited then 0 < val left \<longrightarrow> val (lot_qty (lots ! i)) = 0
                        else 0 < val (lot_qty (lots ! i))))"

text \<open>What a round keeps: the lots' length, what is held less what is left to sell, and (nearly) the cost.\<close>

definition loop_keeps :: "nat \<Rightarrow> loop_state \<Rightarrow> loop_state \<Rightarrow> bool" where
  "loop_keeps k s s' \<longleftrightarrow> (case (s, s') of ((lots, basis, left), (lots', basis', left')) \<Rightarrow>
     length lots' = length lots \<and> units lots' - val left' = units lots - val left \<and>
     (paid lots + val basis) * (1 - EPS) ^ k \<le> paid lots' + val basis' \<and>
     paid lots' + val basis' \<le> (paid lots + val basis) * (1 + EPS) ^ k)"

lemma eps_chain:
  assumes "(x::rat) * (1 - EPS) ^ j \<le> y" "y \<le> x * (1 + EPS) ^ j" "y * (1 - EPS) ^ k \<le> z" "z \<le> y * (1 + EPS) ^ k"
  shows "x * (1 - EPS) ^ (j + k) \<le> z" "z \<le> x * (1 + EPS) ^ (j + k)"
proof -
  have "0 \<le> (1 - EPS) ^ k" "0 \<le> (1 + EPS) ^ k" using EPS_less by simp_all
  from mult_right_mono [OF assms(1) this(1)] mult_right_mono [OF assms(2) this(2)] assms(3,4)
  show "x * (1 - EPS) ^ (j + k) \<le> z" "z \<le> x * (1 + EPS) ^ (j + k)" by (simp_all only: power_add mult.assoc)
qed

lemma loop_keeps_trans: "loop_keeps j s t \<Longrightarrow> loop_keeps k t u \<Longrightarrow> loop_keeps (j + k) s u"
  by (cases s, cases t, cases u) (auto simp: loop_keeps_def intro: eps_chain)

lemma eps_cube: "(1 - EPS) ^ 3 \<le> 1 - EPS" "1 + EPS \<le> (1 + EPS) ^ 3" "(1 - EPS) ^ 3 \<le> 1"
  using power_le_one [of "1 - EPS" 3] power_decreasing [of 1 3 "1 - EPS"] power_increasing [of 1 3 "1 + EPS"] EPS_less by simp_all

lemma cost_kept:
  assumes "0 \<le> K" "0 \<le> b" "0 \<le> p" "p \<le> c" "rnd (b + p) b'" "rnd (c - p) c'"
  shows "(K + b + c) * (1 - EPS) ^ 3 \<le> K + c' + b'" "K + c' + b' \<le> (K + b + c) * (1 + EPS) ^ 3"
proof -
  have "(K + b + c) * (1 - EPS) ^ 3 \<le> (K + b + c) * (1 - EPS)" "(K + b + c) * (1 + EPS) \<le> (K + b + c) * (1 + EPS) ^ 3"
    using assms by (simp_all add: mult_left_mono eps_cube)
  moreover have "K * (1 - EPS) \<le> K" "K \<le> K * (1 + EPS)" using assms(1) by (simp_all add: algebra_simps)
  moreover note rnd_lower [OF assms(5)] rnd_upper [OF assms(5)] rnd_lower [OF assms(6)] rnd_upper [OF assms(6)]
  ultimately show "(K + b + c) * (1 - EPS) ^ 3 \<le> K + c' + b'" "K + c' + b' \<le> (K + b + c) * (1 + EPS) ^ 3"
    using assms by (simp_all add: distrib_right left_diff_distrib)
qed

lemma cost_gone:
  assumes "0 \<le> K" "0 \<le> b" "0 \<le> c" "c * (1 - EPS) ^ 2 \<le> p" "p \<le> c * (1 + EPS) ^ 2" "0 \<le> p" "rnd (b + p) b'"
  shows "(K + b + c) * (1 - EPS) ^ 3 \<le> K + b'" "K + b' \<le> (K + b + c) * (1 + EPS) ^ 3"
proof -
  have "(K + b) * (1 - EPS) ^ 3 \<le> (K + b) * (1 - EPS)" "(K + b) * (1 + EPS) \<le> (K + b) * (1 + EPS) ^ 3"
    using assms by (simp_all add: mult_left_mono eps_cube)
  moreover have "K * (1 - EPS) \<le> K" "K \<le> K * (1 + EPS)" using assms(1) by (simp_all add: algebra_simps)
  moreover have "c * (1 - EPS) ^ 2 * (1 - EPS) \<le> p * (1 - EPS)" "p * (1 + EPS) \<le> c * (1 + EPS) ^ 2 * (1 + EPS)"
    using assms EPS_less by (intro mult_right_mono; simp)+
  moreover note rnd_lower [OF assms(7)] rnd_upper [OF assms(7)]
  ultimately show "(K + b + c) * (1 - EPS) ^ 3 \<le> K + b'" "K + b' \<le> (K + b + c) * (1 + EPS) ^ 3"
    using assms by (simp_all add: distrib_right power3_eq_cube power2_eq_square mult.assoc)
qed

lemma sell_lot_step:
  assumes ok: "loop_ok visited s" and i: "i < length (fst s)" "i \<notin> visited"
  shows "\<exists>s'. sell_lot s i = Inr s' \<and> loop_ok (insert i visited) s' \<and> loop_keeps 3 s s'"
proof -
  obtain lots basis left where s: "s = (lots, basis, left)" by (cases s)
  let ?l = "lots ! i" let ?q = "val (lot_qty ?l)" let ?c = "val (lot_cost ?l)" let ?t = "min (lot_qty ?l) left"
  have lots: "\<forall>l \<in> set lots. lot_ok l" using ok by (simp add: s loop_ok_def)
  have l: "?l \<in> set lots" and q: "0 < ?q" using ok i by (auto simp: s loop_ok_def)
  have c: "0 \<le> ?c" "grid (-9) ?q" "?q \<le> 10 ^ 9" using ok l q by (auto simp: s loop_ok_def lot_ok_def)
  have left: "grid (-9) (val left)" "0 \<le> val left" "val left \<le> 10 ^ 9" "0 \<le> val basis"
    using ok by (auto simp: s loop_ok_def)
  show ?thesis
  proof (cases "left \<le> 0")
    case True
    then have "sell_lot s i = Inr s" by (simp add: sell_lot_def s)
    moreover have "loop_ok (insert i visited) s" using True ok by (auto simp: s loop_ok_def less_eq_val)
    moreover have "0 \<le> paid lots + val basis" using left paid_nonneg [OF lots] by simp
    then have "loop_keeps 3 s s"
      using mult_left_mono [of "(1 - EPS) ^ 3" 1 "paid lots + val basis"] mult_left_mono [of 1 "(1 + EPS) ^ 3" "paid lots + val basis"]
        eps_cube by (simp add: s loop_keeps_def)
    ultimately show ?thesis by blast
  next
    case False
    then have l0: "0 < val left" by (simp add: less_eq_val)
    have t: "val ?t = min ?q (val left)" "0 < val ?t" "grid (-9) (val ?t)"
      using q l0 c(2) left(1) by (simp_all add: val_min grid_min)
    obtain p where p: "ddiv (lot_cost ?l * ?t) (lot_qty ?l) = Inr p" using ddiv_total q by (metis less_irrefl)
    note pb = part_bounds [OF p c(1) less_imp_le [OF t(2)] q]
    let ?l' = "?l\<lparr> lot_cost := lot_cost ?l - p, lot_qty := lot_qty ?l - ?t \<rparr>"
    let ?s' = "(lots[i := ?l'], basis + p, left - ?t)"
    have q': "val (lot_qty ?l - ?t) = ?q - val ?t" "val (left - ?t) = val left - val ?t"
      using val_minus_exact [OF c(2) t(3)] val_minus_exact [OF left(1) t(3)] c(3) q left t(1,2) by simp_all
    have pc: "val p \<le> ?c" if "val ?t < ?q"
      using part_below_cost [OF p c(1) less_imp_le [OF t(2)] q that t(3) c(2,3)] .
    have b: "rnd (val basis + val p) (val (basis + p))" "rnd (?c - val p) (val (lot_cost ?l - p))"
      by (rule rnd_plus, rule rnd_minus)
    have l': "lot_ok ?l'" "val (lot_qty ?l') \<le> 10 ^ 9"
      using q' c t pc rnd_nonneg [OF b(2)] by (auto simp: lot_ok_def grid_diff)
    have "\<forall>x \<in> set (lots[i := ?l']). lot_ok x \<and> val (lot_qty x) \<le> 10 ^ 9"
    proof
      fix x assume "x \<in> set (lots[i := ?l'])"
      then have "x = ?l' \<or> x \<in> set lots" using set_update_subset_insert [of lots i ?l'] by blast
      then show "lot_ok x \<and> val (lot_qty x) \<le> 10 ^ 9" using l' ok by (auto simp: s loop_ok_def)
    qed
    moreover have "if j \<in> insert i visited then 0 < val left - val ?t \<longrightarrow> val (lot_qty (lots[i := ?l'] ! j)) = 0
        else 0 < val (lot_qty (lots[i := ?l'] ! j))" if "j < length lots" for j
    proof (cases "j = i")
      case True
      then show ?thesis using that q' t(1) by (simp add: min_def)
    next
      case False
      then show ?thesis using that ok l0 by (auto simp: s loop_ok_def)
    qed
    moreover have "\<forall>j. j \<noteq> i \<and> j \<notin> visited \<longrightarrow> j < length lots \<longrightarrow> 0 < val (lot_qty (lots ! j))"
      using ok by (auto simp: s loop_ok_def)
    moreover have "0 \<le> val left - val ?t" using t(1) by simp
    ultimately have "loop_ok (insert i visited) ?s'"
      using left t(2) grid_diff [OF left(1) t(3)] rnd_nonneg [OF b(1)] pb(1)
      by (simp add: loop_ok_def q'(2))
    moreover have "loop_keeps 3 s ?s'"
    proof -
      define K where "K = paid lots - ?c"
      have K: "0 \<le> K" using paid_ge [OF lots l q] by (simp add: K_def)
      have u: "units (lots[i := ?l']) = units lots - ?q + (?q - val ?t)"
        using i by (simp add: units_update s q'(1))
      have pd: "paid (lots[i := ?l']) = K + (if 0 < ?q - val ?t then val (lot_cost ?l - p) else 0)"
        using i q by (simp add: paid_update s q'(1) K_def)
      have T: "paid lots + val basis = K + val basis + ?c" by (simp add: K_def)
      have "(K + val basis + ?c) * (1 - EPS) ^ 3 \<le> paid (lots[i := ?l']) + val (basis + p) \<and>
          paid (lots[i := ?l']) + val (basis + p) \<le> (K + val basis + ?c) * (1 + EPS) ^ 3"
      proof (cases "val ?t < ?q")
        case True
        then show ?thesis using cost_kept [OF K left(4) pb(1) pc [OF True] b] by (simp add: pd)
      next
        case False
        then have "val ?t = ?q" using t(1) by simp
        then show ?thesis using cost_gone [OF K left(4) c(1) _ _ pb(1) b(1)] pb(2,3) q by (simp add: pd)
      qed
      then show ?thesis using u q'(2) by (simp add: loop_keeps_def s T)
    qed
    moreover have "sell_lot s i = Inr ?s'" using False p by (simp add: s sell_lot_def Let_def)
    ultimately show ?thesis by blast
  qed
qed

lemma sell_loop:
  "loop_ok visited s \<Longrightarrow> distinct ps \<Longrightarrow> set ps \<subseteq> {..<length (fst s)} \<Longrightarrow> set ps \<inter> visited = {} \<Longrightarrow>
   \<exists>s'. efold sell_lot s ps = Inr s' \<and> loop_ok (set ps \<union> visited) s' \<and> loop_keeps (3 * length ps) s s'"
proof (induction ps arbitrary: s visited)
  case Nil
  then show ?case by (simp add: loop_keeps_def split: prod.splits)
next
  case (Cons i ps)
  then obtain s1 where s1: "sell_lot s i = Inr s1" "loop_ok (insert i visited) s1" "loop_keeps 3 s s1"
    using sell_lot_step [of visited s i] by auto
  then have "length (fst s1) = length (fst s)" by (auto simp: loop_keeps_def split: prod.splits)
  then obtain s' where s': "efold sell_lot s1 ps = Inr s'" "loop_ok (set ps \<union> insert i visited) s'"
      "loop_keeps (3 * length ps) s1 s'"
    using Cons.IH [OF s1(2)] Cons.prems by auto
  then show ?case using s1 loop_keeps_trans [OF s1(3) s'(3)] by (simp add: algebra_simps)
qed

text \<open>What a sale of \<open>qty\<close> must do to a holding: it is what every method is held to.\<close>

definition sale_ok :: "decimal \<Rightarrow> holding \<Rightarrow> holding \<Rightarrow> decimal \<Rightarrow> bool" where
  "sale_ok qty h h' basis \<longleftrightarrow>
     lots_wf h' \<and> length h' \<le> length h \<and> units h' = units h - val qty \<and> 0 \<le> val basis \<and>
     \<bar>paid h' + val basis - paid h\<bar> \<le> paid h * (3 * SUM_EPS)"

definition sellable :: "decimal \<Rightarrow> holding \<Rightarrow> bool" where
  "sellable qty h \<longleftrightarrow> lots_wf h \<and> grid (-9) (val qty) \<and> 0 < val qty \<and> val qty \<le> units h"

lemma filter_sold:
  assumes "\<forall>l \<in> set h. lot_ok l"
  shows "units (filter (\<lambda>l. 0 < lot_qty l) h) = units h" "paid (filter (\<lambda>l. 0 < lot_qty l) h) = paid h"
  using assms by (induction h) (auto simp: units_def paid_def less_val lot_ok_def)

lemma sell_in_order_ok:
  assumes s: "sellable qty h" and ps: "distinct ps" "set ps = {..<length h}"
  shows "\<exists>h' basis. sell_in_order ps qty h = Inr (h', basis) \<and> sale_ok qty h h' basis"
proof -
  have wf: "\<forall>l \<in> set h. lot_ok l \<and> 0 < val (lot_qty l)" "units h \<le> 10 ^ 9" "length h \<le> 10 ^ 5"
    and q: "grid (-9) (val qty)" "0 < val qty" "val qty \<le> units h"
    using s by (auto simp: sellable_def lots_wf_def)
  have lots: "\<forall>l \<in> set h. lot_ok l" using wf by blast
  have "loop_ok {} (h, 0, qty)"
    using wf q units_ge [OF lots] by (force simp: loop_ok_def)
  then obtain lots' basis left where e: "efold sell_lot (h, 0, qty) ps = Inr (lots', basis, left)"
    and ok: "loop_ok (set ps) (lots', basis, left)" and k: "loop_keeps (3 * length ps) (h, 0, qty) (lots', basis, left)"
    using sell_loop [of "{}" "(h, 0, qty)" ps] ps by fastforce
  have n: "length lots' = length h" using k by (simp add: loop_keeps_def)
  have l': "\<forall>l \<in> set lots'. lot_ok l" using ok by (simp add: loop_ok_def)
  have left: "val left = 0"
  proof (rule ccontr)
    assume "val left \<noteq> 0"
    then have "0 < val left" using ok by (simp add: loop_ok_def less_le)
    then have "\<forall>i < length lots'. val (lot_qty (lots' ! i)) = 0" using ok ps n by (auto simp: loop_ok_def)
    then have "map (\<lambda>l. val (lot_qty l)) lots' = map (\<lambda>_. 0) lots'" by (auto simp: list_eq_iff_nth_eq)
    then have "units lots' = 0" by (simp only: units_def sum_list_0)
    then show False using k q \<open>0 < val left\<close> by (simp add: loop_keeps_def)
  qed
  let ?h' = "filter (\<lambda>l. 0 < lot_qty l) lots'"
  have u: "units ?h' = units h - val qty" using k left filter_sold [OF l'] by (simp add: loop_keeps_def)
  have "length ps = length h" using ps distinct_card by fastforce
  then have "3 * length ps \<le> 10 ^ 6" using wf(3) by simp
  note pw = EPS_power_SUM_EPS [OF this]
  have P: "0 \<le> paid h" by (rule paid_nonneg [OF lots])
  have "paid h * (1 - SUM_EPS) \<le> paid ?h' + val basis" "paid ?h' + val basis \<le> paid h * (1 + SUM_EPS)"
    using mult_left_mono [OF pw(1) P] mult_left_mono [OF pw(2) P] k filter_sold [OF l']
    by (auto simp: loop_keeps_def)
  then have cost: "\<bar>paid ?h' + val basis - paid h\<bar> \<le> paid h * (3 * SUM_EPS)"
    using mult_nonneg_nonneg [OF P, of SUM_EPS]
    unfolding right_diff_distrib distrib_left mult_1_right mult.left_commute [of _ 3] by linarith
  have "length ?h' \<le> length h" using length_filter_le [of _ lots'] n by metis
  moreover have "lots_wf ?h'" using l' u wf q calculation by (auto simp: lots_wf_def less_val)
  ultimately have "sale_ok qty h ?h' basis" using u cost ok by (simp add: sale_ok_def loop_ok_def)
  then show ?thesis by (simp add: sell_in_order_def e emap_Inr_iff)
qed

lemma sell_fifo_ok: "sellable qty h \<Longrightarrow> \<exists>h' basis. sell_fifo qty h = Inr (h', basis) \<and> sale_ok qty h h' basis"
  unfolding sell_fifo_def by (rule sell_in_order_ok) (auto simp: atLeast0LessThan)

lemma sell_hifo_ok: 
  assumes "sellable qty h" shows "\<exists>h' basis. sell_hifo qty h = Inr (h', basis) \<and> sale_ok qty h h' basis"
proof -
  have "\<exists>k. emap uminus (ddiv (lot_cost l) (lot_qty l)) = Inr k" if "l \<in> set h" for l
  proof -
    have "val (lot_qty l) \<noteq> 0" using assms that by (force simp: sellable_def lots_wf_def)
    then show ?thesis using ddiv_total [of "lot_qty l" "lot_cost l"] by (auto simp: emap_Inr_iff)
  qed
  then obtain f where "\<And>l. l \<in> set h \<Longrightarrow> emap uminus (ddiv (lot_cost l) (lot_qty l)) = Inr (f l)" by metis
  then have "etraverse (\<lambda>l. emap uminus (ddiv (lot_cost l) (lot_qty l))) h = Inr (map f h)" by (rule etraverse_total)
  then show ?thesis unfolding sell_hifo_def ebind_simps
    by (simp, intro sell_in_order_ok [OF assms]) (auto simp: atLeast0LessThan)
qed

lemma paid_holding_cost:
  assumes "lots_wf h"
  shows "paid h * (1 - SUM_EPS) \<le> val (holding_cost h)" "val (holding_cost h) \<le> paid h * (1 + SUM_EPS)"
proof -
  have "paid h = (\<Sum>x\<leftarrow>map lot_cost h. val x)"
    using assms by (auto simp: paid_def lots_wf_def o_def intro!: arg_cong [of _ _ sum_list] map_cong)
  moreover have "0 \<le> val x" if "x \<in> set (map lot_cost h)" for x
    using that assms by (auto simp: lots_wf_def lot_ok_def)
  ultimately show "paid h * (1 - SUM_EPS) \<le> val (holding_cost h)" "val (holding_cost h) \<le> paid h * (1 + SUM_EPS)"
    using dsum_bounds [of "map lot_cost h"] assms by (simp_all add: holding_cost_def lots_wf_def)
qed

lemma sell_average_ok:
  assumes "sellable qty h" shows "\<exists>h' basis. sell_average qty h = Inr (h', basis) \<and> sale_ok qty h h' basis"
proof -
  have wf: "lots_wf h" "\<forall>l \<in> set h. lot_ok l" "units h \<le> 10 ^ 9"
    and q: "grid (-9) (val qty)" "0 < val qty" "val qty \<le> units h" using assms by (auto simp: sellable_def lots_wf_def)
  let ?c = "holding_cost h" let ?P = "paid h"
  have P: "0 \<le> ?P" by (rule paid_nonneg [OF wf(2)])
  note c = paid_holding_cost [OF wf(1)]
  have c0: "0 \<le> val ?c" using c(1) mult_nonneg_nonneg [OF P, of "1 - SUM_EPS"] by (simp add: SUM_EPS_def)
  have held: "val (holding_qty h) = units h" by (rule holding_qty_exact [OF wf(2,3)])
  then have h0: "0 < val (holding_qty h)" using q by simp
  obtain b where b: "ddiv (?c * qty) (holding_qty h) = Inr b" using ddiv_total h0 by (metis less_irrefl)
  note bb = part_bounds [OF b c0 less_imp_le [OF q(2)] h0]
  have rem: "val (holding_qty h - qty) = units h - val qty"
    using val_minus_exact [of "-9" "holding_qty h" qty] grid_units [OF wf(2)] q wf(3) by (simp add: held)
  show ?thesis
  proof (cases "0 < holding_qty h - qty")
    case True
    then have lt: "val qty < val (holding_qty h)" by (simp add: less_val rem held)
    obtain l ls where h: "h = l # ls" using q by (cases h) (auto simp: units_def)
    let ?h' = "[\<lparr> lot_qty = holding_qty h - qty, lot_cost = ?c - b, lot_opened = lot_opened l \<rparr>]"
    have bc: "val b \<le> val ?c"
      by (rule part_below_cost [OF b c0 less_imp_le [OF q(2)] h0 lt q(1)]) (use wf grid_units held in auto)
    note r = rnd_minus [of ?c b]
    have n: "0 \<le> val (?c - b)" using rnd_nonneg [OF r] bc by simp
    have u: "units ?h' = units h - val qty" "paid ?h' = val (?c - b)" using True by (simp_all add: units_def paid_def rem less_val)
    have wf': "lots_wf ?h'"
      using n u wf(3) q True grid_diff [OF grid_units [OF wf(2)] q(1)] by (simp add: lots_wf_def lot_ok_def rem units_def less_val)
    have e: "(val ?c - val b) * EPS \<le> val ?c * EPS" using bb(1) by (intro mult_right_mono) simp_all
    have "val ?c * EPS \<le> ?P * (1 + SUM_EPS) * EPS" using c by (intro mult_right_mono) simp_all
    also have "\<dots> = ?P * ((1 + SUM_EPS) * EPS)" by simp
    also have "\<dots> \<le> ?P * SUM_EPS" by (intro mult_left_mono [OF _ P]) (simp add: SUM_EPS_def EPS_def)
    finally have "\<bar>paid ?h' + val b - ?P\<bar> \<le> ?P * (3 * SUM_EPS)"
      using rnd_error [OF r] bc e c unfolding u distrib_left right_diff_distrib mult.left_commute [of _ 3] mult_1_right by linarith
    then have "sale_ok qty h ?h' b" using wf' u bb(1) h by (simp add: sale_ok_def)
    then show ?thesis using True h0 b h by (auto simp: sell_average_def Let_def truthy_val)
  next
    case False
    then have eq: "val qty = units h" using rem q by (simp add: less_val)
    have "val ?c * (1 + EPS) ^ 2 \<le> ?P * (1 + SUM_EPS) * (1 + EPS) ^ 2" using c by (intro mult_right_mono) simp_all
    also have "\<dots> = ?P * ((1 + SUM_EPS) * (1 + EPS) ^ 2)" by simp
    also have "\<dots> \<le> ?P * (1 + 3 * SUM_EPS)" by (intro mult_left_mono [OF _ P]) (simp add: SUM_EPS_def EPS_def power2_eq_square)
    finally have up: "val b \<le> ?P * (1 + 3 * SUM_EPS)" using bb(2) h0 by (simp add: held eq)
    have "?P * (1 - 3 * SUM_EPS) \<le> ?P * ((1 - SUM_EPS) * (1 - EPS) ^ 2)"
      by (intro mult_left_mono [OF _ P]) (simp add: SUM_EPS_def EPS_def power2_eq_square)
    also have "\<dots> = ?P * (1 - SUM_EPS) * (1 - EPS) ^ 2" by simp
    also have "\<dots> \<le> val ?c * (1 - EPS) ^ 2" using c by (intro mult_right_mono) simp_all
    finally have "?P * (1 - 3 * SUM_EPS) \<le> val b" using bb(3) h0 by (simp add: held eq)
    then have "\<bar>paid [] + val b - ?P\<bar> \<le> ?P * (3 * SUM_EPS)" using up by (simp add: paid_def right_diff_distrib distrib_left)
    then have "sale_ok qty h [] b" using bb(1) eq by (simp add: sale_ok_def lots_wf_def units_def)
    then show ?thesis using False h0 b by (auto simp: sell_average_def Let_def truthy_val)
  qed
qed

section \<open>The contract of a lot method\<close>

locale lot_policy =
  fixes sell :: "decimal \<Rightarrow> holding \<Rightarrow> (holding \<times> decimal) result"
  assumes sale: "sellable qty h \<Longrightarrow> \<exists>h' basis. sell qty h = Inr (h', basis) \<and> sale_ok qty h h' basis"
begin

lemma units_after: "sellable qty h \<Longrightarrow> sell qty h = Inr (h', basis) \<Longrightarrow> units h' = units h - val qty"
  using sale by (fastforce simp: sale_ok_def)

text \<open>Sales one after the other, as long as the total is held.\<close>

lemma sales:
  assumes "lots_wf h" "\<forall>q \<in> set qs. grid (-9) (val q) \<and> 0 < val q" "(\<Sum>q\<leftarrow>qs. val q) \<le> units h"
  shows "\<exists>h' bs. efold (\<lambda>(h, bs) q. emap (\<lambda>(h', b). (h', bs @ [b])) (sell q h)) (h, bs0) qs = Inr (h', bs) \<and>
    lots_wf h' \<and> length bs = length bs0 + length qs \<and> units h' = units h - (\<Sum>q\<leftarrow>qs. val q)"
  using assms
proof (induction qs arbitrary: h bs0)
  case (Cons q qs)
  have "0 \<le> (\<Sum>q\<leftarrow>qs. val q)" using Cons.prems(2) by (intro sum_list_nonneg) auto
  then have "sellable q h" using Cons.prems by (simp add: sellable_def)
  then obtain h' b where s: "sell q h = Inr (h', b)" "sale_ok q h h' b" using sale by blast
  from Cons.IH [of h' "bs0 @ [b]"] Cons.prems s(2) show ?case
    by (auto simp: s(1) emap_def sale_ok_def)
qed simp

end

lemma holding_sell_ok:
  assumes "sellable qty h" shows "\<exists>h' basis. holding_sell m qty h = Inr (h', basis) \<and> sale_ok qty h h' basis"
proof -
  have "val (holding_qty h) = units h"
    using assms by (intro holding_qty_exact) (auto simp: sellable_def lots_wf_def)
  then have "\<not> holding_qty h < qty" using assms by (simp add: less_val sellable_def)
  then show ?thesis
    using sell_average_ok [OF assms] sell_fifo_ok [OF assms] sell_hifo_ok [OF assms]
    by (cases m) (simp_all add: holding_sell_def)
qed

interpretation sold: lot_policy "holding_sell m" for m
  by unfold_locales (rule holding_sell_ok)

interpretation by_average: lot_policy sell_average
  by unfold_locales (rule sell_average_ok)

interpretation by_fifo: lot_policy sell_fifo
  by unfold_locales (rule sell_fifo_ok)

interpretation by_hifo: lot_policy sell_hifo
  by unfold_locales (rule sell_hifo_ok)

lemma oversell:
  "\<forall>l \<in> set h. lot_ok l \<Longrightarrow> units h \<le> 10 ^ 9 \<Longrightarrow> units h < val qty \<Longrightarrow>
   holding_sell m qty h = Inl (ValueError ''selling more than is held'')"
  by (simp add: holding_sell_def less_val holding_qty_exact)

text \<open>
  On a holding of positive lots in billionths of a share, every lot method sells any positive quantity
  up to what is held without raising: the quantity held falls by exactly that much, no empty or negative lot
  is left, the basis is not negative, and basis plus the cost of the lots left is the cost there was, up to a
  relative 3e-20. Selling more than is held raises \<open>ValueError\<close>.
\<close>

theorem holding_sell_conserves:
  assumes "lots_wf h" "grid (-9) (val qty)" "0 < val qty"
  shows "if val qty \<le> units h
    then \<exists>h' basis. holding_sell m qty h = Inr (h', basis) \<and> lots_wf h' \<and> units h' = units h - val qty \<and>
      0 \<le> val basis \<and> \<bar>paid h' + val basis - paid h\<bar> \<le> paid h * (3 * SUM_EPS)
    else holding_sell m qty h = Inl (ValueError ''selling more than is held'')"
  using sold.sale [of qty h m] oversell [of h qty m] assms by (auto simp: sellable_def sale_ok_def lots_wf_def)

theorem holding_sell_conserves_witness:
  "\<exists>h' basis. holding_sell hifo (Dec 4 0)
     [\<lparr> lot_qty = Dec 3 0, lot_cost = Dec 30 0, lot_opened = Date 2020 1 2 \<rparr>,
      \<lparr> lot_qty = Dec 2 0, lot_cost = Dec 40 0, lot_opened = Date 2021 3 4 \<rparr>] = Inr (h', basis) \<and> units h' = 1"
proof -
  let ?h = "[\<lparr> lot_qty = Dec 3 0, lot_cost = Dec 30 0, lot_opened = Date 2020 1 2 \<rparr>,
      \<lparr> lot_qty = Dec 2 0, lot_cost = Dec 40 0, lot_opened = Date 2021 3 4 \<rparr>]"
  have g: "grid (-9) (of_int k)" for k using grid_mono [OF grid_of_int [of k]] by simp
  have wf: "lots_wf ?h" using g [of 3] g [of 2] by (simp add: lots_wf_def lot_ok_def units_def val_def)
  show ?thesis using holding_sell_conserves [OF wf, of "Dec 4 0" hifo] g [of 4] by (auto simp: units_def val_def)
qed

text \<open>
  A sequence of sales by any lot method succeeds as long as their total is held, whatever each one left,
  and the quantity held at the end is exactly the quantity at the start less the total sold.
\<close>

theorem sales_conserve:
  assumes "lots_wf h" "\<forall>q \<in> set qs. grid (-9) (val q) \<and> 0 < val q" "(\<Sum>q\<leftarrow>qs. val q) \<le> units h"
  shows "\<exists>h' bs. efold (\<lambda>(h, bs) q. emap (\<lambda>(h', b). (h', bs @ [b])) (holding_sell m q h)) (h, []) qs = Inr (h', bs) \<and>
    lots_wf h' \<and> length bs = length qs \<and> units h' = units h - (\<Sum>q\<leftarrow>qs. val q)"
  using sold.sales [OF assms, of m "[]"] by simp

theorem sales_conserve_witness:
  "\<exists>h' bs. efold (\<lambda>(h, bs) q. emap (\<lambda>(h', b). (h', bs @ [b])) (holding_sell fifo q h))
     ([\<lparr> lot_qty = Dec 3 0, lot_cost = Dec 30 0, lot_opened = Date 2020 1 2 \<rparr>], []) [Dec 1 0, Dec 2 0] = Inr (h', bs) \<and>
     units h' = 0"
proof -
  have g: "grid (-9) (of_int k)" for k using grid_mono [OF grid_of_int [of k]] by simp
  have "lots_wf [\<lparr> lot_qty = Dec 3 0, lot_cost = Dec 30 0, lot_opened = Date 2020 1 2 \<rparr>]"
    using g [of 3] by (simp add: lots_wf_def lot_ok_def units_def val_def)
  from sales_conserve [OF this, of "[Dec 1 0, Dec 2 0]" fifo] g [of 1] g [of 2] show ?thesis
    by (auto simp: units_def val_def)
qed

end
