(* ===== verification/Raise_Cash.thy ===== *)
theory Raise_Cash imports Core_Alloc_Laws begin

text \<open>
  Raising cash, \<open>plan_raise_cash\<close> and its baseline \<open>plan_raise_cash_pro_rata\<close> of
  \<open>core_alloc.py\<close>. The dict of dollars to sell that the inner function \<open>take\<close> updates is an explicit
  state \<open>sold\<close>. The symbols that \<open>take\<close> is called with all come from the dict of values, so the
  lookups \<open>values[s]\<close> and \<open>qty[s]\<close> cannot raise and are written with \<open>aget\<close>.
\<close>

section \<open>Taking from a holding\<close>

definition net_rate :: "amounts \<Rightarrow> string \<Rightarrow> decimal" where
  "net_rate cost_rate s = ONE - aget 0 cost_rate s"

definition take_gross :: "amounts \<Rightarrow> amounts \<Rightarrow> string \<Rightarrow> decimal \<Rightarrow> amounts \<Rightarrow> decimal \<times> amounts" where
  "take_gross values cost_rate symbol gross0 sold =
     (let gross = min gross0 (aget 0 values symbol - aget 0 sold symbol) in
      if gross \<le> 0 then (0, sold)
      else (gross * net_rate cost_rate symbol, AList.update symbol (aget 0 sold symbol + gross) sold))"

text \<open>\<open>for s in group: raised += take(s, gross)\<close>.\<close>

definition take_each :: "amounts \<Rightarrow> amounts \<Rightarrow> decimal \<Rightarrow> string list \<Rightarrow> decimal \<times> amounts \<Rightarrow> decimal \<times> amounts" where
  "take_each values cost_rate gross members rs =
     foldl (\<lambda>(raised, sold) s. let (net, sold') = take_gross values cost_rate s gross sold in (raised + net, sold'))
       rs members"

section \<open>Water filling\<close>

text \<open>The sort key \<open>(-e, cost_rate.get(s, 0), s)\<close>.\<close>

definition over_le :: "amounts \<Rightarrow> decimal \<times> string \<Rightarrow> decimal \<times> string \<Rightarrow> bool" where
  "over_le cost_rate x y \<longleftrightarrow>
     - fst x < - fst y \<or>
     (deq (- fst x) (- fst y) \<and>
       (aget 0 cost_rate (snd x) < aget 0 cost_rate (snd y) \<or>
        (deq (aget 0 cost_rate (snd x)) (aget 0 cost_rate (snd y)) \<and> snd x \<le> snd y)))"

fun water_levels ::
  "amounts \<Rightarrow> amounts \<Rightarrow> decimal \<Rightarrow> string list \<Rightarrow> (decimal \<times> string) list \<Rightarrow> decimal \<times> amounts \<Rightarrow>
   (decimal \<times> amounts) result" where
  "water_levels values cost_rate remaining members [] rs = Inr rs"
| "water_levels values cost_rate remaining members ((current, s) # over) rs =
     (let level_next = (case over of [] \<Rightarrow> 0 | (e, _) # _ \<Rightarrow> e);
          members' = members @ [s];
          step = current - level_next;
          net_if_full = dsum (map (\<lambda>s. step * net_rate cost_rate s) members')
      in if remaining \<le> fst rs + net_if_full then
           emap (\<lambda>gross_each. take_each values cost_rate gross_each members' rs)
             (ddiv (remaining - fst rs) (dsum (map (net_rate cost_rate) members')))
         else water_levels values cost_rate remaining members' over (take_each values cost_rate step members' rs))"

definition water_fill ::
  "amounts \<Rightarrow> amounts \<Rightarrow> amounts \<Rightarrow> decimal \<Rightarrow> amounts \<Rightarrow> (decimal \<times> amounts) result" where
  "water_fill values cost_rate excess remaining sold =
     water_levels values cost_rate remaining []
       (sort_by (over_le cost_rate) (map (\<lambda>(s, e). (e, s)) (filter (\<lambda>(s, e). 0 < e) excess))) (0, sold)"

section \<open>The stages of the plan\<close>

type_synonym raise_state = "decimal \<times> amounts"

definition stage_buffer :: "amounts \<Rightarrow> amounts \<Rightarrow> string option \<Rightarrow> raise_state \<Rightarrow> raise_state result" where
  "stage_buffer values cost_rate buffer_symbol st =
     (case st of (remaining, sold) \<Rightarrow>
      case buffer_symbol of
        None \<Rightarrow> Inr st
      | Some b \<Rightarrow>
          if DONE < remaining \<and> b \<in> set (keys values) then
            ebind (ddiv remaining (net_rate cost_rate b)) (\<lambda>gross.
            let (net, sold') = take_gross values cost_rate b gross sold in Inr (remaining - net, sold'))
          else Inr st)"

definition excess_after :: "amounts \<Rightarrow> decimal \<Rightarrow> decimal \<Rightarrow> amounts \<Rightarrow> amounts \<Rightarrow> amounts" where
  "excess_after values cash_free need tgts sold =
     (let after = cash_free + dsum (vals values) - need
      in map (\<lambda>(s, v). (s, v - aget 0 sold s - aget 0 tgts s * after)) values)"

definition stage_water ::
  "amounts \<Rightarrow> amounts \<Rightarrow> decimal \<Rightarrow> decimal \<Rightarrow> amounts \<Rightarrow> raise_state \<Rightarrow> raise_state result" where
  "stage_water values cost_rate cash_free need tgts st =
     (case st of (remaining, sold) \<Rightarrow>
      if DONE < remaining then
        emap (\<lambda>(raised, sold'). (remaining - raised, sold'))
          (water_fill values cost_rate (excess_after values cash_free need tgts sold) remaining sold)
      else Inr st)"

definition pro_rata_weights :: "amounts \<Rightarrow> amounts \<Rightarrow> amounts \<Rightarrow> amounts" where
  "pro_rata_weights values tgts sold =
     (let held = map (\<lambda>(s, v). (s, v - aget 0 sold s)) values;
          weights = map (\<lambda>(s, _). (s, aget 0 tgts s)) (filter (\<lambda>(s, v). 0 < v \<and> 0 < aget 0 tgts s) held)
      in if weights = [] then filter (\<lambda>(s, v). 0 < v) held else weights)"

definition share_net :: "amounts \<Rightarrow> decimal \<Rightarrow> string \<times> decimal \<Rightarrow> decimal result" where
  "share_net cost_rate total_weight sw = emap (\<lambda>share. share * net_rate cost_rate (fst sw)) (ddiv (snd sw) total_weight)"

definition take_share ::
  "amounts \<Rightarrow> amounts \<Rightarrow> amounts \<Rightarrow> decimal \<Rightarrow> decimal \<Rightarrow> raise_state \<Rightarrow> string \<Rightarrow> raise_state result" where
  "take_share values cost_rate weights gross total_weight st s =
     ebind (ddiv (gross * aget 0 weights s) total_weight) (\<lambda>g.
     let (net, sold') = take_gross values cost_rate s g (snd st) in Inr (fst st - net, sold'))"

definition stage_pro_rata :: "amounts \<Rightarrow> amounts \<Rightarrow> amounts \<Rightarrow> raise_state \<Rightarrow> raise_state result" where
  "stage_pro_rata values cost_rate tgts st =
     (case st of (remaining, sold) \<Rightarrow>
      if DONE < remaining then
        let weights = pro_rata_weights values tgts sold;
            total_weight = dsum (vals weights)
        in ebind (etraverse (share_net cost_rate total_weight) weights) (\<lambda>nets.
           ebind (ddiv remaining (dsum nets)) (\<lambda>gross.
           efold (take_share values cost_rate weights gross total_weight) st (sort (keys weights))))
      else Inr st)"

definition take_rest :: "amounts \<Rightarrow> amounts \<Rightarrow> raise_state \<Rightarrow> string \<Rightarrow> raise_state result" where
  "take_rest values cost_rate st s =
     (if fst st \<le> DONE then Inr st
      else ebind (ddiv (fst st) (net_rate cost_rate s)) (\<lambda>gross.
           let (net, sold') = take_gross values cost_rate s gross (snd st) in Inr (fst st - net, sold')))"

definition stage_rest :: "amounts \<Rightarrow> amounts \<Rightarrow> raise_state \<Rightarrow> raise_state result" where
  "stage_rest values cost_rate st =
     (if DONE < fst st then
        efold (take_rest values cost_rate) st
          (sort_by (\<lambda>x y. - (aget 0 values x - aget 0 (snd st) x) \<le> - (aget 0 values y - aget 0 (snd st) y)) (keys values))
      else Inr st)"

text \<open>One entry of the dict of sells: nothing for dust, at least the minimum order, never more than is held.\<close>

definition sell_units ::
  "amounts \<Rightarrow> amounts \<Rightarrow> amounts \<Rightarrow> decimal \<Rightarrow> amounts \<Rightarrow> string \<times> decimal \<Rightarrow> amounts result" where
  "sell_units qty prices values min_order_usd sells0 su =
     (case su of (s, usd0) \<Rightarrow>
      if usd0 < CENT then Inr sells0
      else
        let usd = (if usd0 < min_order_usd \<and> usd0 < aget 0 values s then min min_order_usd (aget 0 values s) else usd0) in
        ebind (eget prices s) (\<lambda>price.
        ebind (ddiv usd price) (\<lambda>u.
        ebind (quantize u QTY_QUANTUM ROUND_UP_QTY) (\<lambda>units.
        Inr (AList.update s (min units (aget 0 qty s)) sells0)))))"

definition liquidation_value :: "amounts \<Rightarrow> amounts \<Rightarrow> decimal \<Rightarrow> decimal" where
  "liquidation_value values cost_rate cash_free =
     cash_free + dsum (map (\<lambda>(s, v). v * net_rate cost_rate s) values)"

definition plan_raise_cash ::
  "date \<Rightarrow> amounts \<Rightarrow> amounts \<Rightarrow> decimal \<Rightarrow> decimal \<Rightarrow> amounts \<Rightarrow> amounts \<Rightarrow> string option \<Rightarrow> decimal \<Rightarrow> plan result" where
  "plan_raise_cash on qty prices cash_free need tgts cost_rate buffer_symbol min_order_usd =
     ebind (position_values (\<lambda>q. 0 < q) qty prices) (\<lambda>values.
     if liquidation_value values cost_rate cash_free < need then Inl (ValueError ''exceeds_portfolio'')
     else
       ebind (stage_buffer values cost_rate buffer_symbol (need - min (pmax cash_free 0) need, [])) (\<lambda>st1.
       ebind (stage_water values cost_rate cash_free need tgts st1) (\<lambda>st2.
       ebind (stage_pro_rata values cost_rate tgts st2) (\<lambda>st3.
       ebind (stage_rest values cost_rate st3) (\<lambda>st4.
       ebind (efold (sell_units qty prices values min_order_usd) [] (snd st4)) (\<lambda>ss.
       Inr \<lparr> decided_on = on, targets = tgts, sells = ss, buys = [], reason = ''raise_cash'' \<rparr>))))))"

section \<open>The pro-rata baseline\<close>

definition pro_rata_units ::
  "amounts \<Rightarrow> amounts \<Rightarrow> decimal \<Rightarrow> decimal \<Rightarrow> decimal \<Rightarrow> amounts \<Rightarrow> string \<times> decimal \<Rightarrow> amounts result" where
  "pro_rata_units qty prices gross total_usd min_order_usd sells0 sv =
     (case sv of (s, v) \<Rightarrow>
      ebind (ddiv (gross * v) total_usd) (\<lambda>usd.
      if usd < CENT then Inr sells0
      else
        ebind (eget prices s) (\<lambda>price.
        ebind (ddiv (pmax usd (min min_order_usd v)) price) (\<lambda>u.
        ebind (quantize u QTY_QUANTUM ROUND_UP_QTY) (\<lambda>units.
        Inr (AList.update s (min units (aget 0 qty s)) sells0))))))"

definition plan_raise_cash_pro_rata ::
  "date \<Rightarrow> amounts \<Rightarrow> amounts \<Rightarrow> decimal \<Rightarrow> decimal \<Rightarrow> amounts \<Rightarrow> amounts \<Rightarrow> decimal \<Rightarrow> plan result" where
  "plan_raise_cash_pro_rata on qty prices cash_free need tgts cost_rate min_order_usd =
     ebind (position_values (\<lambda>q. 0 < q) qty prices) (\<lambda>values.
     let total_usd = dsum (vals values) in
     if liquidation_value values cost_rate cash_free < need then Inl (ValueError ''exceeds_portfolio'')
     else
       let remaining = need - min (pmax cash_free 0) need in
       ebind (if DONE < remaining \<and> 0 < total_usd then
                ebind (etraverse (share_net cost_rate total_usd) values) (\<lambda>nets.
                ebind (ddiv remaining (dsum nets)) (\<lambda>gross.
                efold (pro_rata_units qty prices gross total_usd min_order_usd) [] (sort_key fst values)))
              else Inr []) (\<lambda>ss.
       Inr \<lparr> decided_on = on, targets = tgts, sells = ss, buys = [], reason = ''raise_cash'' \<rparr>))"

end
