(* ===== verification/Raise_Cash_Laws.thy ===== *)
theory Raise_Cash_Laws imports Raise_Cash begin

text \<open>
  Raising cash sells only what is held: the dollars to sell stay on the symbols with a value, and the
  quantities that come out are positive and capped by the holding.
\<close>

section \<open>Only what is held is sold\<close>

definition sold_in :: "amounts \<Rightarrow> amounts \<Rightarrow> bool" where
  "sold_in hv sold \<longleftrightarrow> distinct (keys sold) \<and> set (keys sold) \<subseteq> set (keys hv)"

lemma take_gross_in:
  "sold_in hv sold \<Longrightarrow> s \<in> set (keys hv) \<Longrightarrow> sold_in hv (snd (take_gross hv r s g sold))"
  by (auto simp: take_gross_def sold_in_def Let_def keys_update distinct_keys_update)

lemma take_each_in:
  "sold_in hv (snd rs) \<Longrightarrow> set ss \<subseteq> set (keys hv) \<Longrightarrow> sold_in hv (snd (take_each hv r g ss rs))"
proof (induction ss arbitrary: rs)
  case (Cons s ss)
  let ?t = "take_gross hv r s g (snd rs)"
  have "take_each hv r g (s # ss) rs = take_each hv r g ss (fst rs + fst ?t, snd ?t)"
    by (simp add: take_each_def case_prod_unfold Let_def)
  then show ?case using Cons take_gross_in [of hv "snd rs" s r g] by simp
qed (simp add: take_each_def)

lemma water_levels_in:
  "water_levels hv r remaining ms over rs = Inr rs' \<Longrightarrow> sold_in hv (snd rs) \<Longrightarrow>
   set ms \<union> snd ` set over \<subseteq> set (keys hv) \<Longrightarrow> sold_in hv (snd rs')"
  by (induction hv r remaining ms over rs rule: water_levels.induct)
    (auto simp: Let_def emap_Inr_iff take_each_in split: if_splits)

lemma stage_buffer_in:
  "stage_buffer hv r b st = Inr st' \<Longrightarrow> sold_in hv (snd st) \<Longrightarrow> sold_in hv (snd st')"
  by (auto simp: stage_buffer_def Let_def ebind_Inr_iff case_prod_unfold take_gross_in split: option.splits if_splits)

lemma keys_excess_after [simp]: "keys (excess_after hv c n t sold) = keys hv"
  by (simp add: excess_after_def Let_def keys_def case_prod_unfold o_def)

lemma keys_pro_rata_weights: "set (keys (pro_rata_weights hv t sold)) \<subseteq> set (keys hv)"
  by (auto simp: pro_rata_weights_def Let_def keys_def intro: rev_image_eqI split: if_splits)

lemma stage_water_in:
  assumes "stage_water hv r c n t st = Inr st'" "sold_in hv (snd st)" shows "sold_in hv (snd st')"
proof (cases "DONE < fst st")
  case True
  let ?ex = "excess_after hv c n t (snd st)"
  let ?over = "sort_by (over_le r) (map (\<lambda>(s, e). (e, s)) (filter (\<lambda>(s, e). 0 < e) ?ex))"
  from True assms(1) obtain rs where rs: "water_levels hv r (fst st) [] ?over (0, snd st) = Inr rs" and st': "snd st' = snd rs"
    by (auto simp: stage_water_def water_fill_def emap_Inr_iff split: prod.splits)
  have "snd ` set ?over \<subseteq> set (keys ?ex)" by (auto simp: keys_def rev_image_eqI)
  then show ?thesis using water_levels_in [OF rs] assms(2) st' by simp
qed (use assms in \<open>auto simp: stage_water_def split: prod.splits\<close>)

lemma take_share_in:
  "take_share hv r w g t st s = Inr st' \<Longrightarrow> s \<in> set (keys hv) \<Longrightarrow> sold_in hv (snd st) \<Longrightarrow> sold_in hv (snd st')"
  by (auto simp: take_share_def Let_def ebind_Inr_iff case_prod_unfold take_gross_in)

lemma take_rest_in:
  "take_rest hv r st s = Inr st' \<Longrightarrow> s \<in> set (keys hv) \<Longrightarrow> sold_in hv (snd st) \<Longrightarrow> sold_in hv (snd st')"
  by (auto simp: take_rest_def Let_def ebind_Inr_iff case_prod_unfold take_gross_in split: if_splits)

lemma stage_pro_rata_in:
  assumes "stage_pro_rata hv r t st = Inr st'" "sold_in hv (snd st)" shows "sold_in hv (snd st')"
proof (cases "DONE < fst st")
  case True
  let ?w = "pro_rata_weights hv t (snd st)"
  from True assms(1) obtain g where g: "efold (take_share hv r ?w g (dsum (vals ?w))) st (sort (keys ?w)) = Inr st'"
    by (auto simp: stage_pro_rata_def Let_def ebind_Inr_iff split: prod.splits)
  have "set (sort (keys ?w)) \<subseteq> set (keys hv)" using keys_pro_rata_weights by simp
  with g assms(2) show ?thesis by (auto elim!: efold_invariant intro: take_share_in)
qed (use assms in \<open>auto simp: stage_pro_rata_def split: prod.splits\<close>)

lemma stage_rest_in:
  "stage_rest hv r st = Inr st' \<Longrightarrow> sold_in hv (snd st) \<Longrightarrow> sold_in hv (snd st')"
  by (auto simp: stage_rest_def elim!: efold_invariant intro: take_rest_in split: if_splits)

lemma position_values_keys:
  assumes "position_values p qty prices = Inr vs"
  shows "keys vs = keys (filter (\<lambda>(s, q). p q) qty)"
    and "map_of vs s = Some v \<Longrightarrow> \<exists>q price. (s, q) \<in> set qty \<and> p q \<and> map_of prices s = Some price \<and> v = q * price"
proof -
  have l: "list_all2 (\<lambda>x y. fst y = fst x \<and> (\<exists>price. map_of prices (fst x) = Some price \<and> y = (fst x, snd x * price)))
      (filter (\<lambda>(s, q). p q) qty) vs"
    by (rule list.rel_mono_strong [OF assms [unfolded position_values_def etraverse_Inr_iff]])
      (auto simp: emap_Inr_iff eget_Inr_iff)
  show "keys vs = keys (filter (\<lambda>(s, q). p q) qty)" by (rule list_all2_keys [OF l])
  assume "map_of vs s = Some v"
  then have "(s, v) \<in> set vs" by (rule map_of_SomeD)
  then show "\<exists>q price. (s, q) \<in> set qty \<and> p q \<and> map_of prices s = Some price \<and> v = q * price"
    using list_all2_right [OF l] by fastforce
qed

definition sells_ok :: "amounts \<Rightarrow> amounts \<Rightarrow> amounts \<Rightarrow> bool" where
  "sells_ok qty hv ss \<longleftrightarrow> distinct (keys ss) \<and> set (keys ss) \<subseteq> set (keys hv) \<and>
     (\<forall>s q. map_of ss s = Some q \<longrightarrow> 0 < val q \<and> val q \<le> val (aget 0 qty s))"

lemma units_pos:
  assumes "ddiv usd price = Inr u" "quantize u QTY_QUANTUM ROUND_UP_QTY = Inr q" "0 < val usd" "0 < val price"
  shows "0 < val q"
proof -
  have u: "0 < val u" using rnd_pos [OF rnd_ddiv(1) [OF assms(1)]] assms by simp
  then have "val u \<le> val q" using quantize_up assms(2) by (simp add: ROUND_UP_QTY_def)
  with u show ?thesis by simp
qed

lemma sell_units_ok:
  assumes "sell_units qty prices hv m ss su = Inr ss'" "sells_ok qty hv ss"
    and "fst su \<in> set (keys hv)" "0 < val (aget 0 qty (fst su))" "0 < val (aget 0 prices (fst su))"
    and "0 < val (aget 0 hv (fst su))" "0 < val m"
  shows "sells_ok qty hv ss'"
proof -
  obtain s usd where su: "su = (s, usd)" by (cases su)
  consider "ss' = ss" | usd' u q where "ddiv usd' (aget 0 prices s) = Inr u" "quantize u QTY_QUANTUM ROUND_UP_QTY = Inr q"
      "0 < val usd'" "ss' = AList.update s (min q (aget 0 qty s)) ss"
  proof (cases "usd < CENT")
    case False
    then have "0 < val usd" by (simp add: less_val)
    then have "0 < val (if usd < m \<and> usd < aget 0 hv s then min m (aget 0 hv s) else usd)"
      using assms(6,7) by (simp add: su val_min)
    then show ?thesis using assms(1) False that(2)
      by (auto simp: su sell_units_def Let_def ebind_Inr_iff eget_Inr_iff aget_map_of)
  qed (use assms(1) that(1) in \<open>auto simp: su sell_units_def\<close>)
  then show ?thesis
  proof cases
    case 2
    then have "0 < val q" using units_pos assms(5) su by simp
    then show ?thesis using 2 assms(2-4)
      by (auto simp: su sells_ok_def keys_update distinct_keys_update val_min)
  qed (use assms(2) in simp)
qed

text \<open>
  C4. A plan that raises cash has only sells. Each symbol is sold once, it is one that is held, and the
  quantity is positive and at most the quantity held; a plan exists only when the need is within the liquidation
  value after costs.
\<close>

theorem plan_raise_cash_sells_held:
  assumes plan: "plan_raise_cash on qty prices cash_free need tgts r buffer m = Inr p"
    and d: "distinct (keys qty)" and prices: "\<forall>s \<in> set (keys qty). 0 < val (aget 0 prices s)" and m: "0 < val m"
  shows "buys p = [] \<and> distinct (keys (sells p)) \<and>
    (\<forall>s q. map_of (sells p) s = Some q \<longrightarrow> s \<in> set (keys qty) \<and> 0 < val q \<and> val q \<le> val (aget 0 qty s)) \<and>
    (\<exists>hv. position_values (\<lambda>q. 0 < q) qty prices = Inr hv \<and> val need \<le> val (liquidation_value hv r cash_free))"
proof -
  from plan obtain hv st1 st2 st3 st4 ss where v: "position_values (\<lambda>q. 0 < q) qty prices = Inr hv"
    and need: "\<not> liquidation_value hv r cash_free < need"
    and st: "stage_buffer hv r buffer (need - min (pmax cash_free 0) need, []) = Inr st1"
      "stage_water hv r cash_free need tgts st1 = Inr st2" "stage_pro_rata hv r tgts st2 = Inr st3"
      "stage_rest hv r st3 = Inr st4" and ss: "efold (sell_units qty prices hv m) [] (snd st4) = Inr ss"
    and p: "p = \<lparr> decided_on = on, targets = tgts, sells = ss, buys = [], reason = ''raise_cash'' \<rparr>"
    by (auto simp: plan_raise_cash_def ebind_Inr_iff split: if_splits)
  have "sold_in hv []" by (simp add: sold_in_def)
  then have sold: "sold_in hv (snd st4)"
    using st stage_buffer_in stage_water_in stage_pro_rata_in stage_rest_in by (metis snd_conv)
  have held: "s \<in> set (keys qty) \<and> 0 < val (aget 0 qty s) \<and> 0 < val (aget 0 hv s)" if "s \<in> set (keys hv)" for s
  proof -
    from map_of_keys_Some [OF that] obtain x where x: "map_of hv s = Some x" by blast
    from position_values_keys(2) [OF v x] obtain q price where q: "(s, q) \<in> set qty" "0 < q" "map_of prices s = Some price" "x = q * price"
      by blast
    then have "aget 0 qty s = q" "s \<in> set (keys qty)" using distinct_keys_map_of [OF d] by (auto simp: aget_map_of keys_def rev_image_eqI)
    moreover have "0 < val price" using prices q(3) \<open>s \<in> set (keys qty)\<close> by (auto simp: aget_map_of)
    ultimately show ?thesis using q rnd_pos [OF rnd_times [of q price]] x by (simp add: aget_map_of less_val)
  qed
  have "sells_ok qty hv ss"
  proof (rule efold_invariant [OF ss])
    show "sells_ok qty hv []" by (simp add: sells_ok_def)
    fix t su t' assume su: "su \<in> set (snd st4)" and t: "sells_ok qty hv t" "sell_units qty prices hv m t su = Inr t'"
    have "fst su \<in> set (keys hv)" using su sold by (auto simp: sold_in_def keys_def)
    then show "sells_ok qty hv t'" using sell_units_ok [OF t(2,1)] held prices m by blast
  qed
  then show ?thesis using held v need by (auto simp: p sells_ok_def not_less_dec less_eq_val dest: map_of_in_keys)
qed

theorem plan_raise_cash_sells_held_witness:
  "\<exists>p. plan_raise_cash (Date 2024 6 28) [(''SPY'', Dec 10 0), (''BIL'', Dec 1 0)]
      [(''SPY'', Dec 500 0), (''BIL'', Dec 90 0)] (Dec 100 0) (Dec 2000 0) [(''SPY'', Dec 1 0)] []
      (Some ''BIL'') (Dec 1 0) = Inr p \<and> map_of (sells p) ''BIL'' = Some (Dec 1000000000 (-9)) \<and> buys p = []"
proof -
  have e: "plan_raise_cash (Date 2024 6 28) [(''SPY'', Dec 10 0), (''BIL'', Dec 1 0)]
      [(''SPY'', Dec 500 0), (''BIL'', Dec 90 0)] (Dec 100 0) (Dec 2000 0) [(''SPY'', Dec 1 0)] []
      (Some ''BIL'') (Dec 1 0) = Inr \<lparr> decided_on = Date 2024 6 28, targets = [(''SPY'', Dec 1 0)],
        sells = [(''BIL'', Dec 1000000000 (-9)), (''SPY'', Dec 3620000000 (-9))], buys = [], reason = ''raise_cash'' \<rparr>"
    by code_simp
  show ?thesis using plan_raise_cash_sells_held [OF e] e by (simp add: aget_def val_def)
qed

end
