(* ===== verification/Tier0_Core.thy ===== *)
theory Tier0_Core imports Core_Alloc_Laws begin

text \<open>
  \<open>tier0_core.py\<close>: the hard limits of the core's paper mode, its policy file and the checks of a plan.
  A message of the code (\<open>out.append(f"...")\<close>) is a constructor of \<open>violation\<close>; the lists of
  violations keep the code's order. The TOML parser is the standard library's: \<open>load_policy\<close> starts
  from the parsed document, with each number as what \<open>Decimal(str(...))\<close> makes of it and the date as
  what \<open>date.fromisoformat\<close> makes of it.
\<close>

section \<open>The limits\<close>

definition ALLOWED_SYMBOLS :: "string list" where
  "ALLOWED_SYMBOLS = [''VTI'', ''VXUS'', ''BND'', ''IAU'', ''VNQ'', ''BIL'', ''SPY'', ''IEF'', ''TLT'', ''GLD'', ''SGOV'', ''BTC/USD'']"
definition CRYPTO_SYMBOLS :: "string list" where "CRYPTO_SYMBOLS = [''BTC/USD'']"
definition MAX_CRYPTO_WEIGHT_PCT :: decimal where "MAX_CRYPTO_WEIGHT_PCT = Dec 10 0"
definition MAX_TURNOVER_PER_REBALANCE_PCT :: decimal where "MAX_TURNOVER_PER_REBALANCE_PCT = Dec 25 0"
definition MAX_ORDER_NOTIONAL_USD :: decimal where "MAX_ORDER_NOTIONAL_USD = Dec 100000 0"
definition MAX_FUNDED_AMOUNT_USD :: decimal where "MAX_FUNDED_AMOUNT_USD = Dec 100000 0"
definition MAX_REBALANCE_PLANS_PER_MONTH :: int where "MAX_REBALANCE_PLANS_PER_MONTH = 2"
definition MAX_TRADES_PER_WEEK :: int where "MAX_TRADES_PER_WEEK = 40"
definition MAX_TRADE_VALUE_PCT_PER_WEEK :: decimal where "MAX_TRADE_VALUE_PCT_PER_WEEK = Dec 100 0"
definition MAX_APPROVAL_THRESHOLD_USD :: decimal where "MAX_APPROVAL_THRESHOLD_USD = Dec 100000 0"
definition LIMIT_COLLAR_PCT :: decimal where "LIMIT_COLLAR_PCT = Dec 3 0"
definition MARKETABLE_BUFFER_PCT :: decimal where "MARKETABLE_BUFFER_PCT = Dec 5 (-1)"
definition SUBMIT_FROM :: time_of_day where "SUBMIT_FROM = hms 9 20 0"
definition SUBMIT_UNTIL :: time_of_day where "SUBMIT_UNTIL = hms 9 27 0"
definition DECIDE_AFTER :: time_of_day where "DECIDE_AFTER = hms 16 20 0"
definition MIN_ORDER_USD :: decimal where "MIN_ORDER_USD = Dec 1 0"
definition LADDER_SETTINGS :: "string list" where "LADDER_SETTINGS = [''off'']"

definition max_orders_per_day :: "int \<Rightarrow> int" where
  "max_orders_per_day n_symbols = 2 * n_symbols"

section \<open>The policy\<close>

record core_policy =
  pol_account :: string
  pol_registration :: string
  pol_evidence_run :: string
  pol_evidence_config :: string
  pol_effective_from :: date
  pol_funded_amount_cap_usd :: decimal
  pol_mix :: amounts
  pol_rule :: rule
  pol_buffer_symbol :: "string option"
  pol_buffer_target :: decimal
  pol_max_order_usd :: decimal
  pol_max_turnover_pct :: decimal
  pol_min_order_usd :: decimal
  pol_cash_reserve_usd :: decimal
  pol_max_trades_per_week :: int
  pol_max_trade_value_pct_per_week :: decimal
  pol_approval_needed_above_usd :: decimal
  pol_drawdown_ladder :: string
  pol_receipts_to_pfw :: bool
  pol_sha256 :: string

definition policy_symbols :: "core_policy \<Rightarrow> string list" where
  "policy_symbols p = sort (keys (pol_mix p))"

text \<open>What \<open>Decimal(str(raw[key]))\<close> can be.\<close>

datatype raw_number = Missing | Not_A_Number | Not_Finite | Number decimal

record raw_policy =
  raw_rule_name :: string
  raw_effective_from :: "date option"
  raw_mix :: "(string \<times> raw_number) list"
  raw_account :: string
  raw_registration :: string
  raw_evidence_run :: string
  raw_evidence_config :: string
  raw_buffer_symbol :: "string option"
  raw_buffer_target :: raw_number
  raw_numbers :: "(string \<times> raw_number) list"
  raw_max_trades :: "int option"
  raw_drawdown_ladder :: string
  raw_receipts_to_pfw :: bool
  raw_sha256 :: string

definition dec_of :: "string \<Rightarrow> raw_number \<Rightarrow> decimal result" where
  "dec_of key v =
     (case v of
        Number d \<Rightarrow> Inr d
      | Not_Finite \<Rightarrow> Inl (PolicyError key)
      | _ \<Rightarrow> Inl (PolicyError key))"

text \<open>\<open>raw_max_trades\<close> is None when \<open>int(...)\<close> of the entry raises; an absent entry is 0.\<close>

definition load_policy :: "raw_policy option \<Rightarrow> core_policy result" where
  "load_policy doc =
     (case doc of None \<Rightarrow> Inl (PolicyError ''not valid TOML'') | Some raw \<Rightarrow>
      let num = (\<lambda>key. dec_of key (aget Missing (raw_numbers raw) key)) in
      case map_of RULES (raw_rule_name raw) of None \<Rightarrow> Inl (PolicyError ''unknown rule'') | Some r \<Rightarrow>
      case raw_effective_from raw of None \<Rightarrow> Inl (PolicyError ''effective_from'') | Some effective \<Rightarrow>
      ebind (etraverse (\<lambda>(s, v). emap (Pair s) (dec_of s v)) (raw_mix raw)) (\<lambda>mix.
      if mix = [] then Inl (PolicyError ''[mix] is empty'')
      else
        ebind (num ''funded_amount_cap_usd'') (\<lambda>funded.
        ebind (if raw_buffer_target raw = Missing then Inr 0 else dec_of ''target'' (raw_buffer_target raw)) (\<lambda>buffer_target.
        ebind (num ''max_order_usd'') (\<lambda>max_order.
        ebind (num ''max_turnover_pct_per_rebalance'') (\<lambda>max_turnover.
        ebind (num ''min_order_usd'') (\<lambda>min_order.
        ebind (num ''cash_reserve_usd'') (\<lambda>reserve.
        ebind (case raw_max_trades raw of None \<Rightarrow> Inl (ValueError ''max_trades_per_week'') | Some n \<Rightarrow> Inr n) (\<lambda>trades.
        ebind (num ''max_trade_value_pct_per_week'') (\<lambda>value_pct.
        ebind (num ''approval_needed_above_usd'') (\<lambda>approval.
        Inr \<lparr> pol_account = raw_account raw, pol_registration = raw_registration raw,
              pol_evidence_run = raw_evidence_run raw, pol_evidence_config = raw_evidence_config raw,
              pol_effective_from = effective, pol_funded_amount_cap_usd = funded, pol_mix = mix, pol_rule = r,
              pol_buffer_symbol = raw_buffer_symbol raw, pol_buffer_target = buffer_target,
              pol_max_order_usd = max_order, pol_max_turnover_pct = max_turnover, pol_min_order_usd = min_order,
              pol_cash_reserve_usd = reserve, pol_max_trades_per_week = trades,
              pol_max_trade_value_pct_per_week = value_pct, pol_approval_needed_above_usd = approval,
              pol_drawdown_ladder = raw_drawdown_ladder raw, pol_receipts_to_pfw = raw_receipts_to_pfw raw,
              pol_sha256 = raw_sha256 raw \<rparr>)))))))))))"

section \<open>The policy against the limits\<close>

datatype violation =
    Account_Unset | Negative_Weight | Weights_Not_One | Unknown_Symbols | Crypto_Weight | Buffer_Target
  | Outside_Ceiling string | Trades_Per_Week | Min_Order | Negative_Reserve | Ladder
  | Outside_Policy | Outside_Registered | Order_Ceiling string | Equity_Not_Positive | Turnover
  | Orders_Per_Day | Plans_This_Month | Trades_In_Week | Value_In_Week | Crypto_Target

definition flag :: "bool \<Rightarrow> violation \<Rightarrow> violation list" where
  "flag b v = (if b then [v] else [])"

definition crypto_pct :: "amounts \<Rightarrow> decimal" where
  "crypto_pct weights = dsum (map snd (filter (\<lambda>(s, w). s \<in> set CRYPTO_SYMBOLS) weights)) * Dec 100 0"

definition starts_with :: "string \<Rightarrow> string \<Rightarrow> bool" where
  "starts_with p s = (take (length p) s = p)"

definition violations :: "core_policy \<Rightarrow> violation list" where
  "violations p =
     flag (pol_account p = [] \<or> pol_account p = ''UNSET'' \<or> \<not> starts_with ''PA'' (pol_account p)) Account_Unset
   @ flag (\<exists>w \<in> set (vals (pol_mix p)). w < 0) Negative_Weight
   @ flag (\<not> deq (dsum (vals (pol_mix p))) 1) Weights_Not_One
   @ flag (\<not> set (keys (pol_mix p)) \<subseteq> set ALLOWED_SYMBOLS) Unknown_Symbols
   @ flag (MAX_CRYPTO_WEIGHT_PCT < crypto_pct (pol_mix p)) Crypto_Weight
   @ flag (case pol_buffer_symbol p of None \<Rightarrow> False
           | Some b \<Rightarrow> (case map_of (pol_mix p) b of None \<Rightarrow> True | Some w \<Rightarrow> \<not> deq w (pol_buffer_target p))) Buffer_Target
   @ concat (map (\<lambda>(name, v, ceiling). flag (\<not> (0 < v \<and> v \<le> ceiling)) (Outside_Ceiling name))
       [(''max_order_usd'', pol_max_order_usd p, MAX_ORDER_NOTIONAL_USD),
        (''max_turnover_pct_per_rebalance'', pol_max_turnover_pct p, MAX_TURNOVER_PER_REBALANCE_PCT),
        (''funded_amount_cap_usd'', pol_funded_amount_cap_usd p, MAX_FUNDED_AMOUNT_USD),
        (''max_trade_value_pct_per_week'', pol_max_trade_value_pct_per_week p, MAX_TRADE_VALUE_PCT_PER_WEEK),
        (''approval_needed_above_usd'', pol_approval_needed_above_usd p, MAX_APPROVAL_THRESHOLD_USD)])
   @ flag (\<not> (0 < pol_max_trades_per_week p \<and> pol_max_trades_per_week p \<le> MAX_TRADES_PER_WEEK)) Trades_Per_Week
   @ flag (pol_min_order_usd p < MIN_ORDER_USD) Min_Order
   @ flag (pol_cash_reserve_usd p < 0) Negative_Reserve
   @ flag (pol_drawdown_ladder p \<notin> set LADDER_SETTINGS) Ladder"

section \<open>A plan against the limits\<close>

record executed =
  ex_day :: date
  ex_orders :: int
  ex_traded_usd :: decimal
  ex_redecision :: bool
  ex_initial :: bool

definition values_of :: "amounts \<Rightarrow> amounts \<Rightarrow> amounts result" where
  "values_of quantities prices = position_values (\<lambda>_. True) quantities prices"

definition in_last_week :: "date \<Rightarrow> date \<Rightarrow> bool" where
  "in_last_week today d \<longleftrightarrow> toordinal today - 7 < toordinal d \<and> d \<le> today"

definition percent_of :: "decimal \<Rightarrow> decimal \<Rightarrow> decimal result" where
  "percent_of x equity = emap (\<lambda>r. r * Dec 100 0) (ddiv x equity)"

definition plan_violations ::
  "plan \<Rightarrow> core_policy \<Rightarrow> amounts \<Rightarrow> decimal \<Rightarrow> executed list \<Rightarrow> date \<Rightarrow> bool \<Rightarrow> bool \<Rightarrow> violation list result" where
  "plan_violations pl p prices equity history0 today is_initial funded =
     (let history = filter (\<lambda>h. \<not> ex_initial h) history0;
          symbols = keys (sells pl) @ keys (buys pl);
          out1 = flag (\<not> set symbols \<subseteq> set (keys (pol_mix p))) Outside_Policy
               @ flag (\<not> set symbols \<subseteq> set ALLOWED_SYMBOLS) Outside_Registered;
          ceiling = min (pol_max_order_usd p) MAX_ORDER_NOTIONAL_USD
      in
      ebind (values_of (sells pl) prices) (\<lambda>sells_usd.
      let out2 = out1 @ concat (map (\<lambda>(s, usd). flag (ceiling < usd) (Order_Ceiling s)) (sells_usd @ buys pl)) in
      if equity \<le> 0 then Inr (out2 @ [Equity_Not_Positive])
      else
        ebind (percent_of (pmax (dsum (vals sells_usd)) (dsum (vals (buys pl)))) equity) (\<lambda>turnover.
        let orders = int (length (sells pl)) + int (length (buys pl));
            month = filter (\<lambda>h. (year (ex_day h), month (ex_day h)) = (year today, month today) \<and> \<not> ex_redecision h) history;
            week = filter (\<lambda>h. in_last_week today (ex_day h)) history;
            trades = sum_list (map ex_orders week) + orders;
            week_value = dsum (map ex_traded_usd week) + dsum (vals sells_usd) + dsum (vals (buys pl));
            out3 = out2
              @ flag (min (pol_max_turnover_pct p) MAX_TURNOVER_PER_REBALANCE_PCT < turnover \<and> \<not> (is_initial \<and> funded)) Turnover
              @ flag (max_orders_per_day (int (length (pol_mix p))) < orders) Orders_Per_Day
              @ flag (\<not> is_initial \<and> MAX_REBALANCE_PLANS_PER_MONTH \<le> int (length month)) Plans_This_Month
              @ flag (min (pol_max_trades_per_week p) MAX_TRADES_PER_WEEK < trades) Trades_In_Week
        in
        ebind (if is_initial \<and> funded then Inr False
               else emap (\<lambda>pct. min (pol_max_trade_value_pct_per_week p) MAX_TRADE_VALUE_PCT_PER_WEEK < pct)
                      (percent_of week_value equity)) (\<lambda>over_value.
        Inr (out3 @ flag over_value Value_In_Week
                  @ flag (MAX_CRYPTO_WEIGHT_PCT < crypto_pct (targets pl)) Crypto_Target)))))"

definition traded_usd :: "plan \<Rightarrow> amounts \<Rightarrow> decimal result" where
  "traded_usd pl prices = emap (\<lambda>vs. dsum (vals vs) + dsum (vals (buys pl))) (values_of (sells pl) prices)"

definition needs_approval :: "plan \<Rightarrow> core_policy \<Rightarrow> amounts \<Rightarrow> bool result" where
  "needs_approval pl p prices = emap (\<lambda>traded. pol_approval_needed_above_usd p < traded) (traded_usd pl prices)"

end
