(* ===== verification/Tier0_Core_Laws.thy ===== *)
theory Tier0_Core_Laws imports Tier0_Core Raise_Cash_Laws begin

text \<open>
  What an empty list of violations means, in the numbers of the hard limits themselves: for a policy and for a
  plan; and which exceptions reading a policy file can raise.
\<close>

lemma flag_Nil [simp]: "flag b v = [] \<longleftrightarrow> \<not> b"
  by (simp add: flag_def)

lemma limit_vals [simp]:
  "val MAX_CRYPTO_WEIGHT_PCT = 10" "val MAX_TURNOVER_PER_REBALANCE_PCT = 25" "val MAX_ORDER_NOTIONAL_USD = 100000"
  "val MAX_FUNDED_AMOUNT_USD = 100000" "val MAX_TRADE_VALUE_PCT_PER_WEEK = 100" "val MAX_APPROVAL_THRESHOLD_USD = 100000"
  "val MIN_ORDER_USD = 1" "val (Dec 100 0) = 100"
  by (simp_all add: val_def MAX_CRYPTO_WEIGHT_PCT_def MAX_TURNOVER_PER_REBALANCE_PCT_def MAX_ORDER_NOTIONAL_USD_def
      MAX_FUNDED_AMOUNT_USD_def MAX_TRADE_VALUE_PCT_PER_WEEK_def MAX_APPROVAL_THRESHOLD_USD_def MIN_ORDER_USD_def)

lemma SUM_EPS_pos: "0 < SUM_EPS"
  by (simp add: SUM_EPS_def)

lemma unround:
  assumes "0 \<le> (x::rat)" "x * (1 - EPS) * (1 - EPS) \<le> c" shows "x \<le> c * (1 + 3 * EPS)"
proof -
  have "x * 1 \<le> x * ((1 - EPS) * (1 - EPS) * (1 + 3 * EPS))"
    using assms(1) by (intro mult_left_mono) (simp_all add: EPS_def)
  also have "\<dots> = x * (1 - EPS) * (1 - EPS) * (1 + 3 * EPS)" by (simp only: mult.assoc)
  also have "\<dots> \<le> c * (1 + 3 * EPS)" using assms(2) by (intro mult_right_mono) simp_all
  finally show ?thesis by simp
qed

section \<open>The policy\<close>

definition in_ceiling :: "decimal \<Rightarrow> rat \<Rightarrow> bool" where
  "in_ceiling d c \<longleftrightarrow> 0 < val d \<and> val d \<le> c"

lemma times_100_bound:
  assumes "0 \<le> val x" "val (x * Dec 100 0) \<le> c" shows "val x * (1 - EPS) \<le> c / 100"
  using rnd_lower [OF rnd_times [of x "Dec 100 0"]] assms by simp

lemma crypto_bound:
  assumes d: "distinct (keys m)" and w: "\<forall>w \<in> set (vals m). 0 \<le> val w" and c: "\<not> MAX_CRYPTO_WEIGHT_PCT < crypto_pct m"
  shows "val (aget 0 m ''BTC/USD'') \<le> 1 / 10 * (1 + 3 * EPS)"
proof (cases "map_of m ''BTC/USD''")
  case None
  then show ?thesis by (simp add: aget_def)
next
  case (Some x)
  have f: "filter (\<lambda>(s, w). s \<in> set CRYPTO_SYMBOLS) m = [(''BTC/USD'', x)]"
    using d Some
  proof (induction m)
    case (Cons p m)
    obtain s v where p: "p = (s, v)" by (cases p)
    have "s = ''BTC/USD'' \<Longrightarrow> filter (\<lambda>(s, w). s \<in> set CRYPTO_SYMBOLS) m = []"
      using Cons.prems(1) by (auto simp: p CRYPTO_SYMBOLS_def filter_empty_conv keys_def rev_image_eqI)
    then show ?case using Cons p by (auto simp: CRYPTO_SYMBOLS_def)
  qed simp
  have x: "0 \<le> val x" using w Some by (force simp: vals_def dest: map_of_SomeD)
  have x1: "0 \<le> val (0 + x)" "val x * (1 - EPS) \<le> val (0 + x)"
    using rnd_nonneg [OF rnd_plus [of 0 x]] rnd_lower [OF rnd_plus [of 0 x]] x by simp_all
  have "val ((0 + x) * Dec 100 0) \<le> 10"
    using c by (simp add: crypto_pct_def f dsum_def not_less less_val)
  from times_100_bound [OF x1(1) this] have y: "val (0 + x) * (1 - EPS) \<le> 1 / 10" by simp
  have "val x * (1 - EPS) * (1 - EPS) \<le> val (0 + x) * (1 - EPS)"
    using x1(2) EPS_less by (intro mult_right_mono) simp_all
  then have "val x * (1 - EPS) * (1 - EPS) \<le> 1 / 10" using y by linarith
  from unround [OF x this] show ?thesis using Some by (simp add: aget_map_of)
qed

text \<open>
  A policy without violations is inside every hard limit, whatever its file says: a paper account, only
  registered symbols, non-negative weights that sum to one (up to the rounding of the sum), at most a tenth in
  crypto, the buffer at its target, and every dollar, percentage and trade ceiling below the tier-0 one.
\<close>

theorem violations_none:
  assumes ok: "violations p = []" and d: "distinct (keys (pol_mix p))"
  shows "starts_with ''PA'' (pol_account p) \<and> set (keys (pol_mix p)) \<subseteq> set ALLOWED_SYMBOLS \<and>
    (\<forall>w \<in> set (vals (pol_mix p)). 0 \<le> val w) \<and> \<bar>total_value (pol_mix p) - 1\<bar> \<le> 3 * SUM_EPS \<and>
    val (aget 0 (pol_mix p) ''BTC/USD'') \<le> 1 / 10 * (1 + 3 * EPS) \<and>
    (\<forall>b. pol_buffer_symbol p = Some b \<longrightarrow> (\<exists>w. map_of (pol_mix p) b = Some w \<and> val w = val (pol_buffer_target p))) \<and>
    in_ceiling (pol_max_order_usd p) 100000 \<and> in_ceiling (pol_max_turnover_pct p) 25 \<and>
    in_ceiling (pol_funded_amount_cap_usd p) 100000 \<and> in_ceiling (pol_max_trade_value_pct_per_week p) 100 \<and>
    in_ceiling (pol_approval_needed_above_usd p) 100000 \<and>
    0 < pol_max_trades_per_week p \<and> pol_max_trades_per_week p \<le> 40 \<and> 1 \<le> val (pol_min_order_usd p) \<and>
    0 \<le> val (pol_cash_reserve_usd p) \<and> pol_drawdown_ladder p = ''off''"
proof -
  note v = ok [unfolded violations_def append_is_Nil_conv flag_Nil]
  have w: "\<forall>w \<in> set (vals (pol_mix p)). 0 \<le> val w" using v by (auto simp: less_val not_less)
  have sub: "set (keys (pol_mix p)) \<subseteq> set ALLOWED_SYMBOLS" using v by blast
  have "length (pol_mix p) = card (set (keys (pol_mix p)))" using distinct_card [OF d] by simp
  also have "\<dots> \<le> card (set ALLOWED_SYMBOLS)" by (rule card_mono [OF _ sub]) simp
  also have "\<dots> \<le> length ALLOWED_SYMBOLS" by (rule card_length)
  also have "\<dots> \<le> 10 ^ 6" by (simp add: ALLOWED_SYMBOLS_def)
  finally have n: "length (pol_mix p) \<le> 10 ^ 6" .
  have one: "val (dsum (vals (pol_mix p))) = 1" using v by (auto simp: deq_val)
  have "1 - SUM_EPS \<le> total_value (pol_mix p) / 1 \<and> total_value (pol_mix p) / 1 \<le> 1 + 2 * SUM_EPS"
    using ratio_bounds [of 1 "total_value (pol_mix p)"] dsum_bounds [of "vals (pol_mix p)"] w n one
      total_value_nonneg [of "pol_mix p"] by simp
  then have "\<bar>total_value (pol_mix p) - 1\<bar> \<le> 3 * SUM_EPS" unfolding div_by_1 using SUM_EPS_pos by linarith
  moreover have "val (aget 0 (pol_mix p) ''BTC/USD'') \<le> 1 / 10 * (1 + 3 * EPS)"
    using crypto_bound [OF d w] v by blast
  ultimately show ?thesis using w sub v
    by (auto simp: in_ceiling_def less_val less_eq_val not_less deq_val MAX_TRADES_PER_WEEK_def LADDER_SETTINGS_def
        split: option.splits)
qed

theorem violations_none_witness:
  "violations \<lparr> pol_account = ''PA1'', pol_registration = [], pol_evidence_run = [], pol_evidence_config = [],
     pol_effective_from = Date 2026 10 5, pol_funded_amount_cap_usd = Dec 10000 0,
     pol_mix = [(''VTI'', Dec 95 (-2)), (''BIL'', Dec 5 (-2))], pol_rule = snd (mk_rule ''quarterly'' (Some Quarter) None False),
     pol_buffer_symbol = Some ''BIL'', pol_buffer_target = Dec 5 (-2), pol_max_order_usd = Dec 5000 0,
     pol_max_turnover_pct = Dec 25 0, pol_min_order_usd = Dec 1 0, pol_cash_reserve_usd = Dec 1 0,
     pol_max_trades_per_week = 20, pol_max_trade_value_pct_per_week = Dec 50 0,
     pol_approval_needed_above_usd = Dec 3000 0, pol_drawdown_ladder = ''off'', pol_receipts_to_pfw = False,
     pol_sha256 = [] \<rparr> = [] \<and> \<bar>total_value [(''VTI'', Dec 95 (-2)), (''BIL'', Dec 5 (-2))] - 1\<bar> \<le> 3 * SUM_EPS"
  (is "violations ?p = [] \<and> _")
proof -
  have v: "violations ?p = []" by code_simp
  with violations_none [OF v] show ?thesis by simp
qed

section \<open>The plan\<close>

lemma percent_bound:
  assumes r: "percent_of x e = Inr r" and x: "0 \<le> val x" and e: "0 < val e" and c: "val r \<le> c"
  shows "val x \<le> c / 100 * val e * (1 + 3 * EPS)"
proof -
  from r obtain q where q: "ddiv x e = Inr q" "r = q * Dec 100 0" by (auto simp: percent_of_def emap_Inr_iff)
  have nn: "0 \<le> val x / val e" using x e by simp
  have q0: "0 \<le> val q" "val x / val e * (1 - EPS) \<le> val q"
    using rnd_nonneg [OF rnd_ddiv(1) [OF q(1)] nn] rnd_lower [OF rnd_ddiv(1) [OF q(1)] nn] by simp_all
  have "val q * (1 - EPS) \<le> c / 100" using times_100_bound [OF q0(1)] c q(2) by simp
  moreover have "val x / val e * (1 - EPS) * (1 - EPS) \<le> val q * (1 - EPS)"
    using q0 EPS_less by (intro mult_right_mono) simp_all
  ultimately have "val x / val e * (1 - EPS) * (1 - EPS) \<le> c / 100" by linarith
  from unround [OF nn this] have "val x / val e \<le> c / 100 * (1 + 3 * EPS)" .
  then show ?thesis using e by (simp add: pos_divide_le_eq mult_ac)
qed

lemma sum_below:
  assumes "\<forall>x \<in> set xs. 0 \<le> val x" "length xs \<le> 10 ^ 6" "val (dsum xs) \<le> c * (1 + 3 * EPS)" "0 \<le> c"
  shows "(\<Sum>x\<leftarrow>xs. val x) \<le> c * (1 + 3 * SUM_EPS)"
proof -
  let ?S = "\<Sum>x\<leftarrow>xs. val x"
  have S: "0 \<le> ?S" using assms(1) by (intro sum_list_nonneg) auto
  have "?S * (1 - SUM_EPS) \<le> c * (1 + 3 * EPS)" using dsum_bounds(1) [of xs] assms by force
  then have "?S * (1 - SUM_EPS) * (1 + 2 * SUM_EPS) \<le> c * (1 + 3 * EPS) * (1 + 2 * SUM_EPS)"
    by (intro mult_right_mono) (simp_all add: SUM_EPS_def)
  moreover have "?S * 1 \<le> ?S * ((1 - SUM_EPS) * (1 + 2 * SUM_EPS))" by (rule mult_left_mono [OF _ S]) (simp add: SUM_EPS_def)
  moreover have "c * ((1 + 3 * EPS) * (1 + 2 * SUM_EPS)) \<le> c * (1 + 3 * SUM_EPS)"
    by (rule mult_left_mono [OF _ assms(4)]) (simp add: EPS_def SUM_EPS_def)
  ultimately show ?thesis by (simp only: mult.assoc mult_1_right)
qed

text \<open>
  A plan without violations obeys the hard limits whatever the policy says. Its symbols are registered and
  in the policy, no order is above 100,000 dollars, unless it is the funded initial build the sells and the
  buys are each at most a quarter of the equity, a plan that is not the initial build is at most the second of its
  month, and the trades of seven days with this plan's are at most forty.
\<close>

theorem plan_violations_none:
  assumes ok: "plan_violations pl p prices equity history today is_initial funded = Inr []"
    and usd: "values_of (sells pl) prices = Inr sells_usd" and nn: "\<forall>v \<in> set (vals sells_usd @ vals (buys pl)). 0 \<le> val v"
    and n: "length (sells pl) \<le> 1000" "length (buys pl) \<le> 1000"
  shows "0 < val equity \<and> set (keys (sells pl) @ keys (buys pl)) \<subseteq> set ALLOWED_SYMBOLS \<inter> set (keys (pol_mix p)) \<and>
    (\<forall>v \<in> set (vals sells_usd @ vals (buys pl)). val v \<le> 100000) \<and>
    (\<not> (is_initial \<and> funded) \<longrightarrow>
      total_value sells_usd \<le> val equity / 4 * (1 + 3 * SUM_EPS) \<and> total_value (buys pl) \<le> val equity / 4 * (1 + 3 * SUM_EPS)) \<and>
    (\<not> is_initial \<longrightarrow> length (filter (\<lambda>h. \<not> ex_initial h \<and> \<not> ex_redecision h \<and>
        year (ex_day h) = year today \<and> month (ex_day h) = month today) history) < 2) \<and>
    sum_list (map ex_orders (filter (\<lambda>h. \<not> ex_initial h \<and> in_last_week today (ex_day h)) history)) +
      int (length (sells pl)) + int (length (buys pl)) \<le> 40"
proof -
  have eq: "\<not> equity \<le> 0" using ok usd by (auto simp: plan_violations_def Let_def)
  from ok usd eq obtain turnover b where t: "percent_of (pmax (dsum (vals sells_usd)) (dsum (vals (buys pl)))) equity = Inr turnover"
    and rest: "\<not> \<not> set (keys (sells pl) @ keys (buys pl)) \<subseteq> set (keys (pol_mix p))"
      "\<not> \<not> set (keys (sells pl) @ keys (buys pl)) \<subseteq> set ALLOWED_SYMBOLS"
      "concat (map (\<lambda>(s, usd). flag (min (pol_max_order_usd p) MAX_ORDER_NOTIONAL_USD < usd) (Order_Ceiling s)) (sells_usd @ buys pl)) = []"
      "\<not> (min (pol_max_turnover_pct p) MAX_TURNOVER_PER_REBALANCE_PCT < turnover \<and> \<not> (is_initial \<and> funded))"
      "\<not> (\<not> is_initial \<and> MAX_REBALANCE_PLANS_PER_MONTH \<le> int (length (filter (\<lambda>h. (year (ex_day h), month (ex_day h)) =
          (year today, month today) \<and> \<not> ex_redecision h) (filter (\<lambda>h. \<not> ex_initial h) history))))"
      "\<not> min (pol_max_trades_per_week p) MAX_TRADES_PER_WEEK < sum_list (map ex_orders (filter (\<lambda>h. in_last_week today (ex_day h))
          (filter (\<lambda>h. \<not> ex_initial h) history))) + (int (length (sells pl)) + int (length (buys pl)))"
    by (simp only: plan_violations_def Let_def ebind_simps if_False ebind_Inr_iff sum.inject append_is_Nil_conv flag_Nil)
      (elim exE conjE, rule that, assumption+)
  have e: "0 < val equity" using eq by (simp add: less_eq_val)
  have u: "0 \<le> val (pmax (dsum (vals sells_usd)) (dsum (vals (buys pl))))"
    using dsum_nonneg [of "vals sells_usd"] nn by (auto simp: val_pmax)
  have lu: "length (vals sells_usd) \<le> 10 ^ 6" "length (vals (buys pl)) \<le> 10 ^ 6"
    using position_values_keys(1) [OF usd [unfolded values_of_def]] n by (simp_all flip: length_keys) 
  have "total_value sells_usd \<le> val equity / 4 * (1 + 3 * SUM_EPS) \<and> total_value (buys pl) \<le> val equity / 4 * (1 + 3 * SUM_EPS)"
    if "\<not> (is_initial \<and> funded)"
  proof -
    have "val turnover \<le> 25" using rest(4) that by (auto simp: not_less less_eq_val val_min not_le less_val)
    from percent_bound [OF t u e this]
    have "val (dsum (vals sells_usd)) \<le> val equity / 4 * (1 + 3 * EPS)" "val (dsum (vals (buys pl))) \<le> val equity / 4 * (1 + 3 * EPS)"
      by (simp_all add: val_pmax)
    then show ?thesis
      using sum_below [of "vals sells_usd" "val equity / 4"] sum_below [of "vals (buys pl)" "val equity / 4"] nn lu e by simp
  qed
  moreover have "\<forall>v \<in> set (vals sells_usd @ vals (buys pl)). val v \<le> 100000"
    using rest(3) by (force simp: vals_def less_val val_min)
  moreover have "length (filter (\<lambda>h. \<not> ex_initial h \<and> \<not> ex_redecision h \<and>
        year (ex_day h) = year today \<and> month (ex_day h) = month today) history) < 2" if "\<not> is_initial"
    using rest(5) that by (simp add: MAX_REBALANCE_PLANS_PER_MONTH_def not_le conj_ac)
  ultimately show ?thesis using e rest(1,2,6) by (simp add: MAX_TRADES_PER_WEEK_def conj_ac)
qed

theorem plan_violations_none_witness:
  "plan_violations \<lparr> decided_on = Date 2026 12 31, targets = [(''VTI'', Dec 95 (-2)), (''BIL'', Dec 5 (-2))],
       sells = [(''VTI'', Dec 2 0)], buys = [(''BIL'', Dec 500 0)], reason = ''rebalance'' \<rparr>
     \<lparr> pol_account = ''PA1'', pol_registration = [], pol_evidence_run = [], pol_evidence_config = [],
     pol_effective_from = Date 2026 10 5, pol_funded_amount_cap_usd = Dec 10000 0,
     pol_mix = [(''VTI'', Dec 95 (-2)), (''BIL'', Dec 5 (-2))], pol_rule = snd (mk_rule ''quarterly'' (Some Quarter) None False),
     pol_buffer_symbol = Some ''BIL'', pol_buffer_target = Dec 5 (-2), pol_max_order_usd = Dec 5000 0,
     pol_max_turnover_pct = Dec 25 0, pol_min_order_usd = Dec 1 0, pol_cash_reserve_usd = Dec 1 0,
     pol_max_trades_per_week = 20, pol_max_trade_value_pct_per_week = Dec 50 0,
     pol_approval_needed_above_usd = Dec 3000 0, pol_drawdown_ladder = ''off'', pol_receipts_to_pfw = False,
     pol_sha256 = [] \<rparr> [(''VTI'', Dec 250 0)] (Dec 10000 0) [] (Date 2026 12 31) False False = Inr [] \<and>
   total_value [(''VTI'', Dec 500 0)] \<le> val (Dec 10000 0) / 4 * (1 + 3 * SUM_EPS)"
  (is "plan_violations ?pl ?p ?prices ?equity _ _ _ _ = Inr [] \<and> _")
proof -
  have v: "plan_violations ?pl ?p ?prices ?equity [] (Date 2026 12 31) False False = Inr []" by code_simp
  have u: "values_of (sells ?pl) ?prices = Inr [(''VTI'', Dec 500 0)]" by code_simp
  show ?thesis using v plan_violations_none [OF v u] by (simp add: val_def [of "Dec 500 0"])
qed

section \<open>Reading the policy\<close>

lemma dec_of_Inl: "dec_of k v = Inl e \<Longrightarrow> e = PolicyError k"
  by (auto simp: dec_of_def split: raw_number.splits)

lemma etraverse_Inl: "etraverse f xs = Inl e \<Longrightarrow> \<exists>x \<in> set xs. f x = Inl e"
  by (induction xs) (auto simp: ebind_Inl_iff)



end
