(* ===== verification/Core_Paper.thy ===== *)
theory Core_Paper imports Tier0_Core begin

text \<open>
  \<open>core_paper.py\<close>, the decision the Allocator and the core router both make. What the broker answers to
  the four reads is an argument (a record of results: a read can raise). The JSON digest and the SHA-256 of
  \<open>plan_id\<close> are library calls; a plan's id is a parameter wherever it is used.
\<close>

section \<open>The snapshot\<close>

record snapshot =
  snap_session :: date
  snap_next_session :: date
  snap_qty :: amounts
  snap_cash :: decimal
  snap_closes :: amounts
  snap_forced :: bool
  snap_initial :: bool
  snap_targets :: amounts

text \<open>The broker's answers: calendar days, account cash, positions, and each symbol's bars (date, close).\<close>

record reads =
  rd_calendar :: "date list result"
  rd_cash :: "decimal result"
  rd_positions :: "(string \<times> decimal) list result"
  rd_bars :: "(string \<times> (date \<times> decimal) list) list result"

definition read_position :: "amounts \<Rightarrow> string \<times> decimal \<Rightarrow> amounts result" where
  "read_position qty p =
     (if fst p \<in> set (keys qty) then Inr (AList.update (fst p) (snd p) qty)
      else if \<not> deq (snd p) 0 then Inl (SnapshotError ''foreign_position'')
      else Inr qty)"

definition read_close :: "(string \<times> (date \<times> decimal) list) list \<Rightarrow> date \<Rightarrow> string \<Rightarrow> (string \<times> decimal) result" where
  "read_close bars session s =
     (case filter (\<lambda>b. fst b = session) (aget [] bars s) of
        [] \<Rightarrow> Inl (SnapshotError ''missing_close'')
      | b # bs \<Rightarrow> Inr (s, snd (last (b # bs))))"

definition read_snapshot :: "reads \<Rightarrow> core_policy \<Rightarrow> date \<Rightarrow> bool \<Rightarrow> amounts \<Rightarrow> snapshot result" where
  "read_snapshot rd p session forced tgts =
     ebind (rd_calendar rd) (\<lambda>days.
     let later = filter (\<lambda>d. session < d) days in
     if session \<notin> set days \<or> later = [] then Inl (SnapshotError ''not_a_session'')
     else
       ebind (rd_cash rd) (\<lambda>cash.
       ebind (rd_positions rd) (\<lambda>positions.
       ebind (efold read_position (map (\<lambda>s. (s, 0)) (policy_symbols p)) positions) (\<lambda>qty.
       ebind (rd_bars rd) (\<lambda>bars.
       ebind (etraverse (read_close bars session) (policy_symbols p)) (\<lambda>closes.
       Inr \<lparr> snap_session = session, snap_next_session = fold min (tl later) (hd later), snap_qty = qty,
             snap_cash = cash, snap_closes = closes, snap_forced = forced,
             snap_initial = (\<forall>q \<in> set (vals qty). \<not> truthy q), snap_targets = tgts \<rparr>))))))"

text \<open>\<open>last_published\<close>, given the New York wall clock at \<open>now\<close>.\<close>

definition last_published :: "date list \<Rightarrow> ny_time \<Rightarrow> date option" where
  "last_published sessions now_ny =
     (let published = filter (\<lambda>d. d < ny_date now_ny \<or> (d = ny_date now_ny \<and> DECIDE_AFTER \<le> ny_clock now_ny)) (sort sessions)
      in if published = [] then None else Some (last published))"

section \<open>The decision\<close>

definition skip_reason :: "core_policy \<Rightarrow> snapshot \<Rightarrow> bool" where
  "skip_reason p snap \<longleftrightarrow> snap_next_session snap < pol_effective_from p"

definition non_empty :: "plan \<Rightarrow> plan option" where
  "non_empty pl = (if plan_empty pl then None else Some pl)"

definition decide :: "core_policy \<Rightarrow> snapshot \<Rightarrow> plan option result" where
  "decide p snap =
     (if skip_reason p snap then Inr None
      else
        let tgts = pol_mix p;
            usable_cash = snap_cash snap - pol_cash_reserve_usd p
        in if snap_initial snap then
             emap non_empty
               (plan_rebalance (snap_session snap) (snap_qty snap) (snap_closes snap) usable_cash tgts
                  (pol_min_order_usd p) ''initial'' True)
           else
             ebind (current_weights (snap_qty snap) (snap_closes snap) (snap_cash snap)) (\<lambda>weights.
             let ends = period_ends (snap_session snap) (snap_next_session snap) in
             if \<not> rebalance_due (pol_rule p) ends weights (if snap_targets snap = [] then tgts else snap_targets snap)
                    (snap_forced snap)
             then Inr None
             else emap non_empty
               (plan_rebalance (snap_session snap) (snap_qty snap) (snap_closes snap) usable_cash tgts
                  (pol_min_order_usd p) ''rebalance'' True)))"

section \<open>Orders\<close>

definition remove_slash :: "string \<Rightarrow> string" where
  "remove_slash s = filter (\<lambda>c. c \<noteq> CHR ''/'') s"

datatype side = Buy | Sell

definition side_letter :: "side \<Rightarrow> string" where
  "side_letter sd = (case sd of Buy \<Rightarrow> ''b'' | Sell \<Rightarrow> ''s'')"

definition client_order_id :: "string \<Rightarrow> string \<Rightarrow> side \<Rightarrow> string" where
  "client_order_id pid symbol sd = ''core-'' @ pid @ ''-'' @ remove_slash symbol @ ''-'' @ side_letter sd"

definition preopen_limit :: "side \<Rightarrow> decimal \<Rightarrow> decimal result" where
  "preopen_limit sd prev_close =
     ebind (ddiv LIMIT_COLLAR_PCT (Dec 100 0)) (\<lambda>collar.
     case sd of
       Buy \<Rightarrow> quantize (prev_close * (1 + collar)) CENT ROUND_UP
     | Sell \<Rightarrow> quantize (prev_close * (1 - collar)) CENT ROUND_DOWN)"

definition marketable_buy_limit :: "decimal \<Rightarrow> decimal result" where
  "marketable_buy_limit ask =
     ebind (ddiv MARKETABLE_BUFFER_PCT (Dec 100 0)) (\<lambda>buffer. quantize (ask * (1 + buffer)) CENT ROUND_UP)"

datatype tif = day_order | ioc

definition tif_of :: "string \<Rightarrow> tif" where
  "tif_of symbol = (if symbol \<in> set CRYPTO_SYMBOLS then ioc else day_order)"

text \<open>The payload of a limit order; the numbers go out as \<open>str(...)\<close> of these decimals.\<close>

record payload =
  pay_symbol :: string
  pay_side :: side
  pay_tif :: tif
  pay_qty :: "decimal option"
  pay_notional :: "decimal option"
  pay_limit_price :: decimal
  pay_client_order_id :: string
  pay_extended_hours :: bool

definition sell_payload :: "string \<Rightarrow> string \<Rightarrow> decimal \<Rightarrow> decimal \<Rightarrow> payload result" where
  "sell_payload pid symbol qty prev_close =
     ebind (quantize qty QTY_QUANTUM ROUND_DOWN) (\<lambda>q.
     ebind (preopen_limit Sell prev_close) (\<lambda>limit.
     Inr \<lparr> pay_symbol = symbol, pay_side = Sell, pay_tif = tif_of symbol, pay_qty = Some q, pay_notional = None,
           pay_limit_price = limit, pay_client_order_id = client_order_id pid symbol Sell, pay_extended_hours = False \<rparr>))"

definition buy_payload :: "string \<Rightarrow> string \<Rightarrow> decimal \<Rightarrow> decimal \<Rightarrow> payload option result" where
  "buy_payload pid symbol notional limit =
     ebind (quantize notional CENT ROUND_DOWN) (\<lambda>dollars.
     if dollars < MIN_ORDER_USD then Inr None
     else Inr (Some \<lparr> pay_symbol = symbol, pay_side = Buy, pay_tif = tif_of symbol, pay_qty = None,
           pay_notional = Some dollars, pay_limit_price = limit,
           pay_client_order_id = client_order_id pid symbol Buy, pay_extended_hours = False \<rparr>))"

section \<open>The shadow line\<close>

record shortfall =
  vs_open_bps :: decimal
  vs_modelled_bps :: decimal

definition shortfall_bps :: "side \<Rightarrow> decimal \<Rightarrow> decimal \<Rightarrow> decimal \<Rightarrow> decimal \<Rightarrow> shortfall result" where
  "shortfall_bps sd fill_price open_price half_spread slippage =
     (let sign = (case sd of Buy \<Rightarrow> Dec 1 0 | Sell \<Rightarrow> Dec (-1) 0);
          modelled = open_price * (1 + sign * (half_spread + slippage))
      in ebind (ddiv fill_price open_price) (\<lambda>r1.
         ebind (ddiv fill_price modelled) (\<lambda>r2.
         Inr \<lparr> vs_open_bps = sign * (r1 - 1) * Dec 10000 0, vs_modelled_bps = sign * (r2 - 1) * Dec 10000 0 \<rparr>)))"

end
