(* ===== verification/Core_Paper_Laws.thy ===== *)
theory Core_Paper_Laws imports Core_Paper Tier0_Core_Laws begin

text \<open>
  What the shared decision guarantees: a snapshot is exactly what the broker reported for the session, a plan is
  made only when it is due, order limits stay in the collar, and client order ids identify orders.
\<close>

section \<open>The snapshot\<close>

lemma fold_min: "(fold min xs a :: 'a::linorder) = Min (insert a (set xs))"
  using Min.set_eq_fold [of a xs] by simp

lemma read_positions_keys:
  "efold read_position qty ps = Inr qty' \<Longrightarrow> keys qty' = keys qty"
  by (erule efold_invariant) (auto simp: read_position_def keys_update_id split: if_splits)

lemma read_positions_known:
  "efold read_position qty ps = Inr qty' \<Longrightarrow> p \<in> set ps \<Longrightarrow> fst p \<in> set (keys qty) \<or> val (snd p) = 0"
proof (induction ps arbitrary: qty)
  case (Cons a ps)
  then obtain q1 where q1: "read_position qty a = Inr q1" "efold read_position q1 ps = Inr qty'" by (auto simp: ebind_Inr_iff)
  then have "keys q1 = keys qty" "fst a \<in> set (keys qty) \<or> val (snd a) = 0"
    by (auto simp: read_position_def keys_update_id deq_val split: if_splits)
  with Cons.IH [OF q1(2)] Cons.prems(2) show ?case by auto
qed simp

lemma read_positions_last:
  "efold read_position qty ps = Inr qty' \<Longrightarrow> s \<in> set (keys qty) \<Longrightarrow>
   aget 0 qty' s = (case rev (filter (\<lambda>p. fst p = s) ps) of [] \<Rightarrow> aget 0 qty s | p # _ \<Rightarrow> snd p)"
proof (induction ps arbitrary: qty)
  case (Cons a ps)
  then obtain q1 where q1: "read_position qty a = Inr q1" "efold read_position q1 ps = Inr qty'" by (auto simp: ebind_Inr_iff)
  then have k: "keys q1 = keys qty" by (auto simp: read_position_def keys_update_id split: if_splits)
  have "aget 0 q1 s = (if fst a = s then snd a else aget 0 qty s)"
    using q1(1) Cons.prems(2) by (auto simp: read_position_def split: if_splits)
  then show ?case using Cons.IH [OF q1(2)] Cons.prems(2) k by (auto split: list.splits)
qed simp

lemma read_closes:
  assumes "etraverse (read_close bars d) ss = Inr closes"
  shows "keys closes = ss" "\<And>s c. (s, c) \<in> set closes \<Longrightarrow> (d, c) \<in> set (aget [] bars s)"
proof -
  have l: "list_all2 (\<lambda>s y. fst y = s \<and> (d, snd y) \<in> set (aget [] bars s)) ss closes"
  proof (rule list.rel_mono_strong [OF assms [unfolded etraverse_Inr_iff]])
    fix s y assume r: "read_close bars d s = Inr y"
    then obtain b bs where f: "filter (\<lambda>b. fst b = d) (aget [] bars s) = b # bs" and y: "y = (s, snd (last (b # bs)))"
      by (auto simp: read_close_def split: list.splits)
    have "last (b # bs) \<in> set (b # bs)" by (rule last_in_set) simp
    then have "last (b # bs) \<in> set (filter (\<lambda>b. fst b = d) (aget [] bars s))" by (simp only: f)
    then show "fst y = s \<and> (d, snd y) \<in> set (aget [] bars s)" by (auto simp: y simp del: last.simps)
  qed
  then show "keys closes = ss" by (auto simp: keys_def list_all2_conv_all_nth intro: nth_equalityI)
  show "(d, c) \<in> set (aget [] bars s)" if "(s, c) \<in> set closes" for s c
    using list_all2_right [OF l that] by auto
qed

text \<open>
  A snapshot is of a session the calendar lists and names the first session after it. It has exactly the
  policy's symbols, each with the quantity the broker reported last (zero when it reported none) and a close
  from a bar of that day; every other position is zero; and it is an initial build exactly when nothing is held.
\<close>

theorem read_snapshot_sound:
  assumes ok: "read_snapshot \<lparr> rd_calendar = Inr days, rd_cash = Inr cash, rd_positions = Inr ps, rd_bars = Inr bars \<rparr>
      p session forced tgts = Inr snap"
  shows "session \<in> set days \<and> snap_next_session snap = Min {d \<in> set days. session < d} \<and> session < snap_next_session snap \<and>
    keys (snap_qty snap) = policy_symbols p \<and> keys (snap_closes snap) = policy_symbols p \<and>
    (\<forall>s \<in> set (policy_symbols p). aget 0 (snap_qty snap) s =
       (case rev (filter (\<lambda>x. fst x = s) ps) of [] \<Rightarrow> 0 | x # _ \<Rightarrow> snd x)) \<and>
    (\<forall>(s, c) \<in> set (snap_closes snap). (session, c) \<in> set (aget [] bars s)) \<and>
    (\<forall>x \<in> set ps. fst x \<in> set (policy_symbols p) \<or> val (snd x) = 0) \<and>
    (snap_initial snap \<longleftrightarrow> (\<forall>q \<in> set (vals (snap_qty snap)). val q = 0))"
proof -
  let ?later = "filter (\<lambda>d. session < d) days" and ?q0 = "map (\<lambda>s. (s, 0 :: decimal)) (policy_symbols p)"
  from ok obtain qty closes where s: "session \<in> set days" "?later \<noteq> []"
    and q: "efold read_position ?q0 ps = Inr qty" and c: "etraverse (read_close bars session) (policy_symbols p) = Inr closes"
    and snap: "snap = \<lparr> snap_session = session, snap_next_session = fold min (tl ?later) (hd ?later), snap_qty = qty,
             snap_cash = cash, snap_closes = closes, snap_forced = forced,
             snap_initial = (\<forall>q \<in> set (vals qty). \<not> truthy q), snap_targets = tgts \<rparr>"
    by (auto simp: read_snapshot_def Let_def ebind_Inr_iff split: if_splits)
  have k0: "keys ?q0 = policy_symbols p" by (simp add: keys_def o_def)
  have z: "aget 0 ?q0 s = 0" for s by (auto simp: aget_def map_of_eq_None_iff dest!: map_of_SomeD split: option.splits)
  have "insert (hd ?later) (set (tl ?later)) = {d \<in> set days. session < d}"
    using s(2) by (metis list.exhaust_sel list.simps(15) set_filter)
  then have m: "snap_next_session snap = Min {d \<in> set days. session < d}" by (simp only: snap snapshot.simps fold_min)
  have "Min {d \<in> set days. session < d} \<in> {d \<in> set days. session < d}"
    using s(2) by (intro Min_in) (auto simp: filter_empty_conv)
  moreover have "aget 0 qty s = (case rev (filter (\<lambda>x. fst x = s) ps) of [] \<Rightarrow> 0 | x # _ \<Rightarrow> snd x)"
    if "s \<in> set (policy_symbols p)" for s
    using read_positions_last [OF q, of s] that unfolding k0 z .
  ultimately show ?thesis
    using s m k0 read_positions_keys [OF q] read_positions_known [OF q] read_closes [OF c]
    by (auto simp: snap truthy_val)
qed

section \<open>The decision\<close>

text \<open>
  The decision makes a plan only when the policy is in effect by the next session, the plan has orders, and
  it is the initial build or a rebalance that the policy's rule asks for at the current weights. The plan
  is for the snapshot's session and the policy's mix, and it never sells more of a symbol than the snapshot
  holds nor both sells and buys a symbol.
\<close>

theorem decide_sound:
  assumes ok: "decide p snap = Inr (Some pl)"
    and prices: "\<forall>s \<in> set (keys (snap_qty snap)) \<union> set (keys (pol_mix p)). 0 < val (aget 0 (snap_closes snap) s)"
    and m: "0 < val (pol_min_order_usd p)"
  shows "pol_effective_from p \<le> snap_next_session snap \<and> decided_on pl = snap_session snap \<and> targets pl = pol_mix p \<and>
    (sells pl \<noteq> [] \<or> buys pl \<noteq> []) \<and>
    (if snap_initial snap then reason pl = ''initial''
     else reason pl = ''rebalance'' \<and>
       (\<exists>w. current_weights (snap_qty snap) (snap_closes snap) (snap_cash snap) = Inr w \<and>
         rebalance_due (pol_rule p) (period_ends (snap_session snap) (snap_next_session snap)) w
           (if snap_targets snap = [] then pol_mix p else snap_targets snap) (snap_forced snap))) \<and>
    (\<forall>s q. map_of (sells pl) s = Some q \<longrightarrow> 0 < val q \<and> val q \<le> val (aget 0 (snap_qty snap) s)) \<and>
    set (keys (sells pl)) \<inter> set (keys (buys pl)) = {}"
proof -
  let ?plan = "\<lambda>why. plan_rebalance (snap_session snap) (snap_qty snap) (snap_closes snap)
    (snap_cash snap - pol_cash_reserve_usd p) (pol_mix p) (pol_min_order_usd p) why True"
  from ok have eff: "pol_effective_from p \<le> snap_next_session snap"
    by (auto simp: decide_def skip_reason_def not_less split: if_splits)
  from ok have cases: "(snap_initial snap \<and> ?plan ''initial'' = Inr pl) \<or> (\<not> snap_initial snap \<and> ?plan ''rebalance'' = Inr pl \<and>
      (\<exists>w. current_weights (snap_qty snap) (snap_closes snap) (snap_cash snap) = Inr w \<and>
         rebalance_due (pol_rule p) (period_ends (snap_session snap) (snap_next_session snap)) w
           (if snap_targets snap = [] then pol_mix p else snap_targets snap) (snap_forced snap)))"
    and ne: "sells pl \<noteq> [] \<or> buys pl \<noteq> []"
    by (auto simp: decide_def Let_def ebind_Inr_iff emap_Inr_iff non_empty_def plan_empty_def split: if_splits)
  then obtain why where why: "?plan why = Inr pl" "why = (if snap_initial snap then ''initial'' else ''rebalance'')" by auto
  then have f: "decided_on pl = snap_session snap" "targets pl = pol_mix p" "reason pl = why"
    by (auto simp: plan_rebalance_def ebind_Inr_iff Let_def split: if_splits)
  show ?thesis
    using plan_rebalance_orders [OF why(1) prices m] f why(2) eff cases ne by (auto simp: sell_ok_def)
qed

section \<open>Orders\<close>

lemma collar_eval:
  "ddiv LIMIT_COLLAR_PCT (Dec 100 0) = Inr (Dec 3 (-2))" "1 + Dec 3 (-2) = Dec 103 (-2)" "1 - Dec 3 (-2) = Dec 97 (-2)"
  by code_simp+

text \<open>
  A pre-open limit is the previous close with a three percent collar, rounded to the cent away from the
  close: a buy limit is at least the collar above it and less than a cent more, a sell limit the same below.
\<close>

theorem preopen_limit_bounds:
  assumes "0 < val c"
  shows "(\<forall>l. preopen_limit Buy c = Inr l \<longrightarrow> grid (-2) (val l) \<and> val c * (103 / 100) * (1 - EPS) \<le> val l \<and>
      val l < val c * (103 / 100) * (1 + EPS) + 1 / 100) \<and>
    (\<forall>l. preopen_limit Sell c = Inr l \<longrightarrow> grid (-2) (val l) \<and> val l \<le> val c * (97 / 100) * (1 + EPS) \<and>
      val c * (97 / 100) * (1 - EPS) - 1 / 100 < val l \<and> 0 \<le> val l)"
proof (intro conjI allI impI)
  have v: "val (Dec 103 (-2)) = 103 / 100" "val (Dec 97 (-2)) = 97 / 100" by (simp_all add: val_def power_int_def power_one_over)
  have nn: "0 \<le> val c * (103 / 100)" "0 \<le> val c * (97 / 100)" using assms by simp_all
  have rb: "rnd (val c * (103 / 100)) (val (c * Dec 103 (-2)))" "rnd (val c * (97 / 100)) (val (c * Dec 97 (-2)))"
    using rnd_times [of c "Dec 103 (-2)"] rnd_times [of c "Dec 97 (-2)"] by (simp_all only: v)
  note b = rnd_upper [OF rb(1) nn(1)] rnd_lower [OF rb(1) nn(1)] rnd_nonneg [OF rb(1) nn(1)]
  note s = rnd_upper [OF rb(2) nn(2)] rnd_lower [OF rb(2) nn(2)] rnd_nonneg [OF rb(2) nn(2)]
  { fix l assume "preopen_limit Buy c = Inr l"
    then have q: "quantize (c * Dec 103 (-2)) CENT ROUND_UP = Inr l" by (simp add: preopen_limit_def collar_eval)
    have "\<bar>val l - val (c * Dec 103 (-2))\<bar> < 1 / 100" using quantize_error [OF q] by (simp add: power_int_def power_one_over)
    then show "val c * (103 / 100) * (1 - EPS) \<le> val l" "val l < val c * (103 / 100) * (1 + EPS) + 1 / 100"
      using quantize_up [OF q b(3)] b by linarith+
    show "grid (-2) (val l)" using quantize_grid [OF q] by simp }
  { fix l assume "preopen_limit Sell c = Inr l"
    then have q: "quantize (c * Dec 97 (-2)) CENT ROUND_DOWN = Inr l" by (simp add: preopen_limit_def collar_eval)
    have "\<bar>val l - val (c * Dec 97 (-2))\<bar> < 1 / 100" using quantize_error [OF q] by (simp add: power_int_def power_one_over)
    then show "val l \<le> val c * (97 / 100) * (1 + EPS)" "val c * (97 / 100) * (1 - EPS) - 1 / 100 < val l"
      using quantize_down [OF q s(3)] s by linarith+
    show "grid (-2) (val l)" "0 \<le> val l" using quantize_grid [OF q] quantize_nonneg [OF q s(3)] by simp_all }
qed

theorem preopen_limit_bounds_witness: "\<exists>l. preopen_limit Buy (Dec 25017 (-2)) = Inr l \<and> val l < 25017 / 100 * (103 / 100) * (1 + EPS) + 1 / 100"
proof -
  have e: "preopen_limit Buy (Dec 25017 (-2)) = Inr (Dec 25768 (-2))" by code_simp
  have "val (Dec 25017 (-2)) = 25017 / 100" by (simp add: val_def power_int_def power_one_over)
  with preopen_limit_bounds [of "Dec 25017 (-2)"] e show ?thesis by simp
qed

text \<open>
  Client order ids identify the order: for plan ids of one length and registered symbols, equal ids mean the
  same plan, the same symbol and the same side, although the slash of a crypto symbol is removed.
\<close>

theorem client_order_id_inj:
  assumes "client_order_id pid s a = client_order_id pid' s' b" "length pid = length pid'"
    and "s \<in> set ALLOWED_SYMBOLS" "s' \<in> set ALLOWED_SYMBOLS"
  shows "pid = pid' \<and> s = s' \<and> a = b"
proof -
  have p: "pid = pid'" "remove_slash s @ ''-'' @ side_letter a = remove_slash s' @ ''-'' @ side_letter b"
    using assms(1,2) by (simp_all add: client_order_id_def)
  have "length (side_letter x) = 1" for x by (cases x) (simp_all add: side_letter_def)
  then have l: "length (''-'' @ side_letter a) = length (''-'' @ side_letter b)" by simp
  have "remove_slash s = remove_slash s'" "side_letter a = side_letter b"
    using p(2) append_eq_append_conv [of "remove_slash s" "remove_slash s'" "''-'' @ side_letter a" "''-'' @ side_letter b"] l by auto
  moreover have "distinct (map remove_slash ALLOWED_SYMBOLS)" by code_simp
  then have "inj_on remove_slash (set ALLOWED_SYMBOLS)" by (simp only: distinct_map)
  ultimately show ?thesis using p(1) assms(3,4) by (auto simp: inj_on_def side_letter_def split: side.splits)
qed

theorem client_order_id_inj_witness:
  "client_order_id ''0123456789abcdef'' ''BTC/USD'' Sell \<noteq> client_order_id ''0123456789abcdef'' ''BTC/USD'' Buy"
  using client_order_id_inj [of "''0123456789abcdef''" "''BTC/USD''" Sell "''0123456789abcdef''" "''BTC/USD''" Buy]
  by (auto simp: ALLOWED_SYMBOLS_def)

theorem read_snapshot_sound_witness:
  "\<exists>snap. read_snapshot \<lparr> rd_calendar = Inr [Date 2026 12 31, Date 2027 1 4], rd_cash = Inr (Dec 100 0),
       rd_positions = Inr [(''VTI'', Dec 2 0)], rd_bars = Inr [(''VTI'', [(Date 2026 12 31, Dec 250 0)])] \<rparr>
     \<lparr> pol_account = ''PA1'', pol_registration = [], pol_evidence_run = [], pol_evidence_config = [],
     pol_effective_from = Date 2026 10 5, pol_funded_amount_cap_usd = Dec 10000 0,
     pol_mix = [(''VTI'', Dec 1 0)], pol_rule = snd (mk_rule ''quarterly'' (Some Quarter) None False),
     pol_buffer_symbol = None, pol_buffer_target = Dec 0 0, pol_max_order_usd = Dec 5000 0,
     pol_max_turnover_pct = Dec 25 0, pol_min_order_usd = Dec 1 0, pol_cash_reserve_usd = Dec 1 0,
     pol_max_trades_per_week = 20, pol_max_trade_value_pct_per_week = Dec 50 0,
     pol_approval_needed_above_usd = Dec 3000 0, pol_drawdown_ladder = ''off'', pol_receipts_to_pfw = False,
     pol_sha256 = [] \<rparr> (Date 2026 12 31) False [] = Inr snap \<and> keys (snap_qty snap) = [''VTI''] \<and>
     Date 2026 12 31 < snap_next_session snap"
  (is "\<exists>snap. read_snapshot ?rd ?p ?d False [] = Inr snap \<and> _ \<and> _")
proof -
  have e: "read_snapshot ?rd ?p ?d False [] = Inr \<lparr> snap_session = ?d, snap_next_session = Date 2027 1 4,
      snap_qty = [(''VTI'', Dec 2 0)], snap_cash = Dec 100 0, snap_closes = [(''VTI'', Dec 250 0)], snap_forced = False,
      snap_initial = False, snap_targets = [] \<rparr>" by code_simp
  show ?thesis using read_snapshot_sound [OF e] e by (auto simp: policy_symbols_def)
qed

theorem decide_sound_witness:
  "let p = \<lparr> pol_account = ''PA1'', pol_registration = [], pol_evidence_run = [], pol_evidence_config = [],
     pol_effective_from = Date 2026 10 5, pol_funded_amount_cap_usd = Dec 10000 0,
     pol_mix = [(''VTI'', Dec 1 0)], pol_rule = snd (mk_rule ''quarterly'' (Some Quarter) None False),
     pol_buffer_symbol = None, pol_buffer_target = Dec 0 0, pol_max_order_usd = Dec 5000 0,
     pol_max_turnover_pct = Dec 25 0, pol_min_order_usd = Dec 1 0, pol_cash_reserve_usd = Dec 1 0,
     pol_max_trades_per_week = 20, pol_max_trade_value_pct_per_week = Dec 50 0,
     pol_approval_needed_above_usd = Dec 3000 0, pol_drawdown_ladder = ''off'', pol_receipts_to_pfw = False,
     pol_sha256 = [] \<rparr>;
     snap = \<lparr> snap_session = Date 2026 12 31, snap_next_session = Date 2027 1 4,
      snap_qty = [(''VTI'', Dec 2 0)], snap_cash = Dec 100 0, snap_closes = [(''VTI'', Dec 250 0)], snap_forced = False,
      snap_initial = False, snap_targets = [] \<rparr>
   in \<exists>pl. decide p snap = Inr (Some pl) \<and> buys pl = [(''VTI'', Dec 9900 (-2))] \<and> targets pl = [(''VTI'', Dec 1 0)]"
  (is "let p = ?p; snap = ?s in _")
proof -
  have e: "decide ?p ?s = Inr (Some \<lparr> decided_on = Date 2026 12 31, targets = [(''VTI'', Dec 1 0)], sells = [],
      buys = [(''VTI'', Dec 9900 (-2))], reason = ''rebalance'' \<rparr>)" by code_simp
  show ?thesis using decide_sound [OF e] e by (simp add: aget_def val_def)
qed

end
