(* ===== verification/Router_State.thy ===== *)
theory Router_State imports Dates Decimal begin

text \<open>
  \<open>risk_router/state.py\<close>: the two facts that must survive a restart, the kill switch and the breaker
  latch, with the file they are rewritten to. A store is what the process holds and what the file holds;
  a restart reads the file again.
\<close>

record state_data =
  halted_at :: "string option"
  halt_reason :: "string option"
  breaker_tripped_on :: "date option"
  breaker_detail :: "string option"

datatype state_file = No_File | Unreadable | Contents state_data

record state_store =
  store_data :: state_data
  store_file :: state_file

definition empty_data :: state_data where
  "empty_data = \<lparr> halted_at = None, halt_reason = None, breaker_tripped_on = None, breaker_detail = None \<rparr>"

definition load_data :: "state_file \<Rightarrow> state_data" where
  "load_data f =
     (case f of
        No_File \<Rightarrow> empty_data
      | Unreadable \<Rightarrow> empty_data\<lparr> halted_at := Some ''unknown'', halt_reason := Some ''state file unreadable'' \<rparr>
      | Contents d \<Rightarrow> d)"

definition open_store :: "state_file \<Rightarrow> state_store" where
  "open_store f = \<lparr> store_data = load_data f, store_file = f \<rparr>"

definition save_data :: "state_data \<Rightarrow> state_store \<Rightarrow> state_store" where
  "save_data d s = s\<lparr> store_data := d, store_file := Contents d \<rparr>"

definition halted :: "state_store \<Rightarrow> bool" where
  "halted s \<longleftrightarrow> halted_at (store_data s) \<noteq> None"

definition set_halted :: "string \<Rightarrow> string \<Rightarrow> state_store \<Rightarrow> state_store" where
  "set_halted when why s = save_data ((store_data s)\<lparr> halted_at := Some when, halt_reason := Some why \<rparr>) s"

definition trip_breaker :: "date \<Rightarrow> string \<Rightarrow> state_store \<Rightarrow> state_store" where
  "trip_breaker d detail s =
     save_data ((store_data s)\<lparr> breaker_tripped_on := Some d, breaker_detail := Some detail \<rparr>) s"

definition restart :: "state_store \<Rightarrow> state_store" where
  "restart s = open_store (store_file s)"

text \<open>The file holds what the process holds; every operation keeps that, and then a restart changes nothing.\<close>

definition synced :: "state_store \<Rightarrow> bool" where
  "synced s \<longleftrightarrow> store_data s = load_data (store_file s)"

lemma synced_ops [simp]:
  "synced (open_store f)" "synced (save_data d s)" "synced (set_halted a w s)" "synced (trip_breaker tday t s)" "synced (restart s)"
  by (simp_all add: synced_def open_store_def save_data_def set_halted_def trip_breaker_def restart_def load_data_def)

lemma restart_synced: "synced s \<Longrightarrow> restart s = s"
  by (simp add: restart_def open_store_def synced_def)

lemma halted_ops [simp]: "halted (set_halted a w s)" "halted (trip_breaker d t s) \<longleftrightarrow> halted s"
  by (simp_all add: halted_def set_halted_def trip_breaker_def save_data_def)

lemma tripped_ops [simp]:
  "breaker_tripped_on (store_data (set_halted a w s)) = breaker_tripped_on (store_data s)"
  "breaker_tripped_on (store_data (trip_breaker d t s)) = Some d"
  by (simp_all add: set_halted_def trip_breaker_def save_data_def)

lemma unreadable_halts: "halted (open_store Unreadable)"
  by (simp add: halted_def open_store_def load_data_def)

end
