(* ===== verification/Guards.thy ===== *)
theory Guards imports Router_State Tier0 begin

text \<open>
  \<open>risk_router/guards.py\<close>: the circuit breaker with its cached account read, and the execution guard that
  every order passes. What a check reads from outside is its environment: the New York trading day, two
  readings of the monotonic clock in microseconds (before and after the account read) and the account's
  answer, equity and last equity, which can be an exception. The text of a trip's detail is fixed.

  The guard's interface is the locale \<open>order_guard\<close>: what the routers rely on, interpreted on
  \<open>guard_check\<close> below.
\<close>

section \<open>The circuit breaker\<close>

definition BREAKER_CACHE :: int where "BREAKER_CACHE = 10 * 1000000"

datatype intent = OPEN | REDUCE

record guard_env =
  env_day :: date
  env_mono1 :: int
  env_mono2 :: int
  env_account :: "(decimal \<times> decimal) result"

record guard_state =
  g_store :: state_store
  g_cache :: "(int \<times> decimal) option"

definition pnl_pct :: "decimal \<Rightarrow> decimal \<Rightarrow> decimal result" where
  "pnl_pct equity last_equity =
     (if last_equity \<le> 0 then Inl (ValueError ''last_equity is not positive'')
      else emap (\<lambda>r. r * Dec 100 0) (ddiv (equity - last_equity) last_equity))"

definition daily_pnl_pct :: "guard_env \<Rightarrow> guard_state \<Rightarrow> guard_state \<times> decimal result" where
  "daily_pnl_pct e g =
     (case g_cache g of
        Some (seen, pnl) \<Rightarrow>
          if env_mono1 e - seen < BREAKER_CACHE then (g, Inr pnl)
          else
            (case ebind (env_account e) (\<lambda>(eq, last_eq). pnl_pct eq last_eq) of
               Inl x \<Rightarrow> (g, Inl x)
             | Inr pnl \<Rightarrow> (g\<lparr> g_cache := Some (env_mono2 e, pnl) \<rparr>, Inr pnl))
      | None \<Rightarrow>
          (case ebind (env_account e) (\<lambda>(eq, last_eq). pnl_pct eq last_eq) of
             Inl x \<Rightarrow> (g, Inl x)
           | Inr pnl \<Rightarrow> (g\<lparr> g_cache := Some (env_mono2 e, pnl) \<rparr>, Inr pnl)))"

definition latched_today :: "guard_env \<Rightarrow> guard_state \<Rightarrow> bool" where
  "latched_today e g \<longleftrightarrow> breaker_tripped_on (store_data (g_store g)) = Some (env_day e)"

definition check_open :: "guard_env \<Rightarrow> guard_state \<Rightarrow> guard_state \<times> unit result" where
  "check_open e g =
     (if latched_today e g then (g, Inl (GuardBlocked ''circuit_breaker''))
      else
        (case daily_pnl_pct e g of
           (g', Inl x) \<Rightarrow> (g', Inl (GuardBlocked ''breaker_unavailable''))
         | (g', Inr pnl) \<Rightarrow>
             if pnl \<le> CIRCUIT_BREAKER_DAILY_PNL_PCT then
               (g'\<lparr> g_store := trip_breaker (env_day e) ''no new positions until the next trading day'' (g_store g') \<rparr>,
                Inl (GuardBlocked ''circuit_breaker''))
             else (g', Inr ())))"

section \<open>The guard\<close>

definition guard_check :: "intent \<Rightarrow> guard_env \<Rightarrow> guard_state \<Rightarrow> guard_state \<times> unit result" where
  "guard_check i e g =
     (if halted (g_store g) then (g, Inl (GuardBlocked ''halted''))
      else case i of OPEN \<Rightarrow> check_open e g | REDUCE \<Rightarrow> (g, Inr ()))"

definition guard_halt :: "string \<Rightarrow> string \<Rightarrow> guard_state \<Rightarrow> guard_state" where
  "guard_halt when why g = g\<lparr> g_store := set_halted when why (g_store g) \<rparr>"

text \<open>A restart of the process: the store is read from its file and the cache is gone.\<close>

definition guard_restart :: "guard_state \<Rightarrow> guard_state" where
  "guard_restart g = \<lparr> g_store = restart (g_store g), g_cache = None \<rparr>"

section \<open>What an order guard promises\<close>

text \<open>A run of checks, with restarts in between.\<close>

datatype 'e guard_event = Check intent 'e | Restart

fun run_guard ::
  "(intent \<Rightarrow> 'e \<Rightarrow> 's \<Rightarrow> 's \<times> unit result) \<Rightarrow> ('s \<Rightarrow> 's) \<Rightarrow> 's \<Rightarrow> 'e guard_event list \<Rightarrow> 's \<times> (intent \<times> 'e) list" where
  "run_guard chk rst s [] = (s, [])"
| "run_guard chk rst s (Restart # evs) = run_guard chk rst (rst s) evs"
| "run_guard chk rst s (Check i e # evs) =
     (case chk i e s of (s', r) \<Rightarrow>
      case run_guard chk rst s' evs of (s'', passed) \<Rightarrow>
        (s'', if r = Inr () then (i, e) # passed else passed))"

locale order_guard =
  fixes chk :: "intent \<Rightarrow> 'e \<Rightarrow> 's \<Rightarrow> 's \<times> unit result"
    and rst :: "'s \<Rightarrow> 's"
    and stopped :: "'s \<Rightarrow> bool"
    and latched :: "'e \<Rightarrow> 's \<Rightarrow> bool"
    and same_day :: "'e \<Rightarrow> 'e \<Rightarrow> bool"
    and ok :: "'s \<Rightarrow> bool"
  assumes stopped_blocks: "stopped s \<Longrightarrow> chk i e s = (s, Inl (GuardBlocked ''halted''))"
    and latched_blocks: "latched e s \<Longrightarrow> snd (chk OPEN e s) \<noteq> Inr ()"
    and reduce_passes: "\<not> stopped s \<Longrightarrow> chk REDUCE e s = (s, Inr ())"
    and only_guard_errors: "snd (chk i e s) = Inl x \<Longrightarrow> \<exists>c. x = GuardBlocked c"
    and latch_stays: "latched e s \<Longrightarrow> same_day e e' \<Longrightarrow> latched e (fst (chk i e' s))"
    and latch_day: "latched e s \<Longrightarrow> same_day e e' \<Longrightarrow> latched e' s"
    and ok_check: "ok s \<Longrightarrow> ok (fst (chk i e s))"
    and restart_keeps: "ok s \<Longrightarrow> ok (rst s) \<and> stopped (rst s) = stopped s \<and> latched e (rst s) = latched e s"
begin

lemma stopped_run:
  "ok s \<Longrightarrow> stopped s \<Longrightarrow> snd (run_guard chk rst s evs) = []"
proof (induction evs arbitrary: s)
  case (Cons ev evs)
  then show ?case
    using restart_keeps [of s] stopped_blocks [of s] by (cases ev) (auto split: prod.splits)
qed simp

lemma latched_run:
  "ok s \<Longrightarrow> latched e s \<Longrightarrow> (\<forall>i e'. Check i e' \<in> set evs \<longrightarrow> same_day e e') \<Longrightarrow>
   OPEN \<notin> fst ` set (snd (run_guard chk rst s evs))"
proof (induction evs arbitrary: s)
  case (Cons ev evs)
  show ?case
  proof (cases ev)
    case Restart
    then show ?thesis using Cons restart_keeps by auto
  next
    case (Check i e')
    let ?s = "fst (chk i e' s)"
    have d: "same_day e e'" using Cons.prems(3) Check by simp
    have "ok ?s" "latched e ?s" using ok_check latch_stays Cons.prems d by auto
    then have ih: "OPEN \<notin> fst ` set (snd (run_guard chk rst ?s evs))" using Cons.IH Cons.prems(3) by simp
    have "i = OPEN \<Longrightarrow> snd (chk i e' s) \<noteq> Inr ()" using latched_blocks latch_day [OF Cons.prems(2) d] by blast
    with ih show ?thesis by (auto simp: Check split: prod.splits)
  qed
qed simp

end

section \<open>The execution guard keeps the promise\<close>

lemma daily_pnl_store [simp]: "g_store (fst (daily_pnl_pct e g)) = g_store g"
  by (simp add: daily_pnl_pct_def split: option.splits sum.splits prod.splits)

lemma check_open_cases:
  obtains (latched) "latched_today e g" "check_open e g = (g, Inl (GuardBlocked ''circuit_breaker''))"
  | (unavailable) g' x where "\<not> latched_today e g" "daily_pnl_pct e g = (g', Inl x)"
      "check_open e g = (g', Inl (GuardBlocked ''breaker_unavailable''))"
  | (trip) g' pnl where "\<not> latched_today e g" "daily_pnl_pct e g = (g', Inr pnl)" "pnl \<le> CIRCUIT_BREAKER_DAILY_PNL_PCT"
      "check_open e g = (g'\<lparr> g_store := trip_breaker (env_day e) ''no new positions until the next trading day'' (g_store g') \<rparr>,
        Inl (GuardBlocked ''circuit_breaker''))"
  | (pass) g' pnl where "\<not> latched_today e g" "daily_pnl_pct e g = (g', Inr pnl)" "\<not> pnl \<le> CIRCUIT_BREAKER_DAILY_PNL_PCT"
      "check_open e g = (g', Inr ())"
proof -
  obtain g' r where r: "daily_pnl_pct e g = (g', r)" by (cases "daily_pnl_pct e g")
  show ?thesis using that r by (cases "latched_today e g"; cases r) (auto simp: check_open_def)
qed

lemma check_open_store:
  "g_store (fst (check_open e g)) = g_store g \<or>
   g_store (fst (check_open e g)) = trip_breaker (env_day e) ''no new positions until the next trading day'' (g_store g)"
  using daily_pnl_store [of e g] by (cases rule: check_open_cases [of e g]) auto

interpretation exec_guard: order_guard guard_check guard_restart "\<lambda>g. halted (g_store g)" latched_today
  "\<lambda>e e'. env_day e = env_day e'" "\<lambda>g. synced (g_store g)"
proof
  fix g e e' i x
  show "halted (g_store g) \<Longrightarrow> guard_check i e g = (g, Inl (GuardBlocked ''halted''))"
    by (simp add: guard_check_def)
  show "latched_today e g \<Longrightarrow> snd (guard_check OPEN e g) \<noteq> Inr ()"
    by (simp add: guard_check_def check_open_def)
  show "\<not> halted (g_store g) \<Longrightarrow> guard_check REDUCE e g = (g, Inr ())"
    by (simp add: guard_check_def)
  show "snd (guard_check i e g) = Inl x \<Longrightarrow> \<exists>c. x = GuardBlocked c"
    by (cases rule: check_open_cases [of e g]) (auto simp: guard_check_def split: intent.splits if_splits)
  show "latched_today e g \<Longrightarrow> env_day e = env_day e' \<Longrightarrow> latched_today e (fst (guard_check i e' g))"
    using check_open_store [of e' g] by (auto simp: guard_check_def latched_today_def split: intent.splits)
  show "latched_today e g \<Longrightarrow> env_day e = env_day e' \<Longrightarrow> latched_today e' g"
    by (simp add: latched_today_def)
  show "synced (g_store g) \<Longrightarrow> synced (g_store (fst (guard_check i e g)))"
    using check_open_store [of e g] by (auto simp: guard_check_def split: intent.splits)
  show "synced (g_store g) \<Longrightarrow> synced (g_store (guard_restart g)) \<and>
      halted (g_store (guard_restart g)) = halted (g_store g) \<and> latched_today e (guard_restart g) = latched_today e g"
    by (simp add: guard_restart_def restart_synced latched_today_def)
qed

end
