(* ===== verification/Guards_Laws.thy ===== *)
theory Guards_Laws imports Guards begin

text \<open>
  What the guard guarantees over a run of checks and restarts, from its interface: a halt is permanent, a trip
  lasts the day, and an open order passes only on a figure above the limit.
\<close>

text \<open>
  Once halted, no order of any intent passes the guard again, however many checks follow, whatever the
  account says and across any number of restarts.
\<close>

theorem halt_blocks_everything:
  assumes "synced (g_store g)"
  shows "snd (run_guard guard_check guard_restart (guard_halt when why g) evs) = []"
  using exec_guard.stopped_run [of "guard_halt when why g" evs] by (simp add: guard_halt_def)

theorem halt_blocks_everything_witness:
  "snd (run_guard guard_check guard_restart (guard_halt ''t'' ''stop'' \<lparr> g_store = open_store No_File, g_cache = None \<rparr>)
     [Check REDUCE \<lparr> env_day = Date 2026 9 7, env_mono1 = 0, env_mono2 = 0, env_account = Inr (Dec 1 0, Dec 1 0) \<rparr>, Restart]) = []"
  by (rule halt_blocks_everything) simp



text \<open>
  The guard fails closed: an open order passes exactly when there is no halt, the breaker is not latched
  today, and a daily figure (from the account, or cached for less than ten seconds) is known and above -2.5
  percent. A reduce order passes exactly when there is no halt.
\<close>

theorem guard_passes_iff:
  "snd (guard_check i e g) = Inr () \<longleftrightarrow>
     \<not> halted (g_store g) \<and>
     (i = OPEN \<longrightarrow> \<not> latched_today e g \<and>
       (\<exists>pnl. snd (daily_pnl_pct e g) = Inr pnl \<and> -5 / 2 < val pnl \<and>
         ((\<exists>seen. g_cache g = Some (seen, pnl) \<and> env_mono1 e - seen < 10000000) \<or>
          (\<exists>eq last_eq. env_account e = Inr (eq, last_eq) \<and> pnl_pct eq last_eq = Inr pnl))))"
proof -
  have b: "val CIRCUIT_BREAKER_DAILY_PNL_PCT = -5 / 2"
    by (simp add: CIRCUIT_BREAKER_DAILY_PNL_PCT_def val_def power_int_def power_one_over)
  have src: "snd (daily_pnl_pct e g) = Inr pnl \<Longrightarrow> (\<exists>seen. g_cache g = Some (seen, pnl) \<and> env_mono1 e - seen < 10000000) \<or>
          (\<exists>eq last_eq. env_account e = Inr (eq, last_eq) \<and> pnl_pct eq last_eq = Inr pnl)" for pnl
    by (auto simp: daily_pnl_pct_def ebind_Inr_iff BREAKER_CACHE_def split: option.splits if_splits sum.splits prod.splits)
  show ?thesis
    using src by (cases i; cases rule: check_open_cases [of e g]) (auto simp: guard_check_def less_eq_val b not_le)
qed

theorem guard_passes_iff_witness:
  "snd (guard_check OPEN \<lparr> env_day = Date 2026 9 7, env_mono1 = 0, env_mono2 = 5, env_account = Inr (Dec 990 0, Dec 1000 0) \<rparr>
     \<lparr> g_store = open_store No_File, g_cache = None \<rparr>) = Inr ()"
proof -
  have p: "pnl_pct (Dec 990 0) (Dec 1000 0) = Inr (Dec (-100) (-2))" by code_simp
  show ?thesis
    by (subst guard_passes_iff)
      (simp add: p halted_def open_store_def load_data_def empty_data_def latched_today_def daily_pnl_pct_def val_def
        power_int_def power_one_over)
qed

end
