(* ===== verification/Text_Forms.thy ===== *)
theory Text_Forms imports Decimal Dates begin

text \<open>
  The text forms numbers and dates travel in: \<open>str(Decimal)\<close> and \<open>Decimal(str)\<close> for finite
  decimals (scientific notation outside the usual range, as the standard library does it), \<open>date.isoformat\<close>
  and \<open>date.fromisoformat\<close>. Reading a text that is not of the form is an exception. NaN, infinities,
  underscores and surrounding blanks are not modelled. Both pairs are round trips.
\<close>

section \<open>Digits\<close>

definition digit_char :: "int \<Rightarrow> char" where
  "digit_char d = char_of (48 + d)"

definition is_digit :: "char \<Rightarrow> bool" where
  "is_digit c \<longleftrightarrow> 48 \<le> (of_char c :: int) \<and> (of_char c :: int) \<le> 57"

definition digit_val :: "char \<Rightarrow> int" where
  "digit_val c = of_char c - 48"

text \<open>The digits of a non-negative integer.\<close>

function nat_str :: "int \<Rightarrow> string" where
  "nat_str n = (if n < 10 then [digit_char n] else nat_str (n div 10) @ [digit_char (n mod 10)])"
  by pat_completeness auto
termination by (relation "measure nat") auto

declare nat_str.simps [simp del]

definition str_nat :: "string \<Rightarrow> int" where
  "str_nat cs = foldl (\<lambda>a c. 10 * a + digit_val c) 0 cs"

lemma of_char_digit: "0 \<le> d \<Longrightarrow> d < 10 \<Longrightarrow> (of_char (digit_char d) :: int) = 48 + d"
  by (simp add: digit_char_def)

lemma digit_char_props [simp]:
  assumes "0 \<le> d" "d < 10" shows "is_digit (digit_char d)" "digit_val (digit_char d) = d"
  using of_char_digit [OF assms] assms by (simp_all add: is_digit_def digit_val_def)

lemma is_digit_not [simp]:
  "\<not> is_digit (CHR ''.'')" "\<not> is_digit (CHR ''E'')" "\<not> is_digit (CHR ''-'')" "\<not> is_digit (CHR ''+'')" "\<not> is_digit (CHR ''e'')"
  by (simp_all add: is_digit_def)

lemma nat_str_digits: "0 \<le> n \<Longrightarrow> list_all is_digit (nat_str n)"
  by (induction n rule: nat_str.induct) (subst nat_str.simps, auto)

lemma nat_str_not_Nil [simp]: "nat_str n \<noteq> []"
  by (subst nat_str.simps) simp

lemma str_nat_snoc: "str_nat (cs @ [c]) = 10 * str_nat cs + digit_val c"
  by (simp add: str_nat_def)

lemma str_nat_nat_str [simp]: "0 \<le> n \<Longrightarrow> str_nat (nat_str n) = n"
proof (induction n rule: nat_str.induct)
  case (1 n)
  then show ?case by (subst nat_str.simps) (auto simp: str_nat_snoc, simp add: str_nat_def)
qed

lemma str_nat_zeros: "str_nat (replicate k (digit_char 0) @ cs) = str_nat cs"
  by (induction k) (simp_all add: str_nat_def)

text \<open>\<open>%0<w>d\<close>: at least \<open>w\<close> digits.\<close>

definition pad_str :: "nat \<Rightarrow> int \<Rightarrow> string" where
  "pad_str w n = (let cs = nat_str n in replicate (w - length cs) (digit_char 0) @ cs)"

lemma pad_str_props: "0 \<le> n \<Longrightarrow> list_all is_digit (pad_str w n)" "0 \<le> n \<Longrightarrow> str_nat (pad_str w n) = n"
  using nat_str_digits [of n] by (auto simp: pad_str_def Let_def str_nat_zeros list_all_iff set_replicate_conv_if)

lemma length_nat_str_le: "n < 10 ^ w \<Longrightarrow> 0 < w \<Longrightarrow> length (nat_str n) \<le> w"
proof (induction n arbitrary: w rule: nat_str.induct)
  case (1 n)
  show ?case
  proof (cases "n < 10")
    case True
    then show ?thesis using 1(3) by (subst nat_str.simps) simp
  next
    case False
    have w: "1 < w"
    proof (rule ccontr)
      assume "\<not> 1 < w"
      with 1(3) have "w = 1" by simp
      with 1(2) False show False by simp
    qed
    then obtain v where v: "w = Suc v" "0 < v" by (cases w) auto
    have "n div 10 < 10 ^ v" using 1(2) v(1) by auto
    from 1(1) [OF False this v(2)] False v show ?thesis by (subst nat_str.simps) simp
  qed
qed

lemma length_pad_str: "n < 10 ^ w \<Longrightarrow> 0 < w \<Longrightarrow> length (pad_str w n) = w"
  using length_nat_str_le [of n w] by (simp add: pad_str_def Let_def)

section \<open>Decimals\<close>

definition sign_str :: "int \<Rightarrow> string" where
  "sign_str i = (if i < 0 then ''-'' else [])"

definition dec_str :: "decimal \<Rightarrow> string" where
  "dec_str d =
     (let digits = nat_str \<bar>coef d\<bar>;
          n = int (length digits);
          leftdigits = dexp d + n;
          dotplace = (if dexp d \<le> 0 \<and> -6 < leftdigits then leftdigits else 1);
          (intpart, fracpart) =
            (if dotplace \<le> 0 then (''0'', ''.'' @ replicate (nat (- dotplace)) (digit_char 0) @ digits)
             else if n \<le> dotplace then (digits @ replicate (nat (dotplace - n)) (digit_char 0), [])
             else (take (nat dotplace) digits, ''.'' @ drop (nat dotplace) digits));
          ex = (if leftdigits = dotplace then []
                else ''E'' @ (if leftdigits < dotplace then ''-'' else ''+'') @ nat_str \<bar>leftdigits - dotplace\<bar>)
      in sign_str (coef d) @ intpart @ fracpart @ ex)"

definition split_sign :: "string \<Rightarrow> bool \<times> string" where
  "split_sign s =
     (case s of [] \<Rightarrow> (False, [])
      | c # cs \<Rightarrow> if c = CHR ''-'' then (True, cs) else if c = CHR ''+'' then (False, cs) else (False, s))"

definition signed :: "bool \<Rightarrow> int \<Rightarrow> int" where
  "signed neg n = (if neg then - n else n)"

definition int_parse :: "string \<Rightarrow> int option" where
  "int_parse s =
     (case split_sign s of (neg, ds) \<Rightarrow>
      if ds \<noteq> [] \<and> list_all is_digit ds then Some (signed neg (str_nat ds)) else None)"

text \<open>\<open>d.normalize()\<close> and \<open>format(d, "f")\<close>.\<close>

definition normalize :: "decimal \<Rightarrow> decimal" where
  "normalize d = (let r = dfix d in if coef r = 0 then Dec 0 0 else strip_zeros (ndigits (coef r)) (coef r) (dexp r))"

definition dec_plain :: "decimal \<Rightarrow> string" where
  "dec_plain d =
     (if 0 \<le> dexp d then sign_str (coef d) @ nat_str (\<bar>coef d\<bar> * 10 ^ nat (dexp d))
      else let n = nat (- dexp d); digits = pad_str (Suc n) \<bar>coef d\<bar>; k = length digits - n
           in sign_str (coef d) @ take k digits @ ''.'' @ drop k digits)"

definition is_exp_mark :: "char \<Rightarrow> bool" where
  "is_exp_mark c \<longleftrightarrow> c = CHR ''E'' \<or> c = CHR ''e''"

definition dec_parse :: "string \<Rightarrow> decimal result" where
  "dec_parse s =
     (case split_sign s of (neg, body) \<Rightarrow>
      let mant = takeWhile (\<lambda>c. \<not> is_exp_mark c) body;
          ex = dropWhile (\<lambda>c. \<not> is_exp_mark c) body;
          intpart = takeWhile (\<lambda>c. c \<noteq> CHR ''.'') mant;
          frac = drop 1 (dropWhile (\<lambda>c. c \<noteq> CHR ''.'') mant);
          digits = intpart @ frac
      in if digits = [] \<or> \<not> list_all is_digit digits then Inl InvalidOperation
         else
           (case (if ex = [] then Some 0 else int_parse (tl ex)) of
              None \<Rightarrow> Inl InvalidOperation
            | Some e \<Rightarrow> Inr (Dec (signed neg (str_nat digits)) (e - int (length frac)))))"

lemma not_mark: "is_digit c \<Longrightarrow> \<not> is_exp_mark c \<and> c \<noteq> CHR ''.''"
  by (auto simp: is_exp_mark_def)

text \<open>Reading back the three shapes: with a point, without one, each with or without an exponent.\<close>

lemma split_sign_digit: "list_all is_digit cs \<Longrightarrow> cs \<noteq> [] \<Longrightarrow> split_sign (sign_str i @ cs @ r) = (i < 0, cs @ r)"
  by (cases cs) (auto simp: split_sign_def sign_str_def)

lemma int_parse_exp: "0 \<le> n \<Longrightarrow> int_parse ((if neg then ''-'' else ''+'') @ nat_str n) = Some (signed neg n)"
  using nat_str_digits [of n] by (simp add: int_parse_def split_sign_def)

lemma while_append:
  assumes "\<forall>c \<in> set m. P c" "r = [] \<or> \<not> P (hd r)"
  shows "takeWhile P (m @ r) = m" "dropWhile P (m @ r) = r"
  using assms by (induction m) (cases r; simp)+

lemma dec_parse_shape:
  assumes ip: "list_all is_digit ip" "ip \<noteq> []" and fp: "list_all is_digit fp"
    and e: "ex = [] \<and> e = 0 \<or> (\<exists>neg n. ex = ''E'' @ (if neg then ''-'' else ''+'') @ nat_str n \<and> e = signed neg n \<and> 0 \<le> n)"
  shows "dec_parse (sign_str i @ ip @ (if fp = [] then [] else ''.'' @ fp) @ ex) =
    Inr (Dec (signed (i < 0) (str_nat (ip @ fp))) (e - int (length fp)))"
proof -
  let ?m = "ip @ (if fp = [] then [] else ''.'' @ fp)"
  have m: "\<forall>c \<in> set ?m. \<not> is_exp_mark c" and ip': "\<forall>c \<in> set ip. c \<noteq> CHR ''.''"
  proof -
    show "\<forall>c \<in> set ip. c \<noteq> CHR ''.''" using ip(1) not_mark by (simp add: list_all_iff)
    have "\<not> is_exp_mark (CHR ''.'')" by (simp add: is_exp_mark_def)
    then show "\<forall>c \<in> set ?m. \<not> is_exp_mark c" using ip(1) fp not_mark by (simp add: list_all_iff ball_Un)
  qed
  have "is_exp_mark (CHR ''E'')" by (simp add: is_exp_mark_def)
  then have ex: "ex = [] \<or> \<not> \<not> is_exp_mark (hd ex)" using e by (elim disjE exE conjE) simp_all
  note tw = while_append [of ?m "\<lambda>c. \<not> is_exp_mark c", OF m ex]
  have dot: "takeWhile (\<lambda>c. c \<noteq> CHR ''.'') ?m = ip" "drop 1 (dropWhile (\<lambda>c. c \<noteq> CHR ''.'') ?m) = fp"
  proof -
    define r where "r = (if fp = [] then [] else ''.'' @ fp)"
    have r: "r = [] \<or> \<not> (hd r \<noteq> CHR ''.'')" "drop 1 r = fp" by (cases fp; simp add: r_def)+
    show "takeWhile (\<lambda>c. c \<noteq> CHR ''.'') ?m = ip" "drop 1 (dropWhile (\<lambda>c. c \<noteq> CHR ''.'') ?m) = fp"
      unfolding r_def [symmetric] by (simp_all only: while_append [OF ip' r(1)] r(2))
  qed
  have s: "split_sign (sign_str i @ ?m @ ex) = (i < 0, ?m @ ex)"
    using split_sign_digit [OF ip, of i "(if fp = [] then [] else ''.'' @ fp) @ ex"] by simp
  have x: "(if ex = [] then Some 0 else int_parse (tl ex)) = Some e"
    using e by (elim disjE exE conjE) (simp_all only: list.simps append.simps list.sel if_False if_True int_parse_exp simp_thms not_Cons_self2)
  have "dec_parse (sign_str i @ ?m @ ex) = Inr (Dec (signed (i < 0) (str_nat (ip @ fp))) (e - int (length fp)))"
  proof -
    have d: "ip @ fp \<noteq> []" "list_all is_digit (ip @ fp)" using ip fp by simp_all
    show ?thesis by (simp only: dec_parse_def s prod.case Let_def tw dot x option.case d not_True_eq_False simp_thms if_False)
  qed
  then show ?thesis by simp
qed


lemma signed_abs: "signed (i < 0) \<bar>i\<bar> = i"
  by (simp add: signed_def)

theorem dec_parse_dec_str: "dec_parse (dec_str d) = Inr d"
proof -
  define ds where "ds = nat_str \<bar>coef d\<bar>"
  define n where "n = int (length ds)"
  define l where "l = dexp d + n"
  define p where "p = (if dexp d \<le> 0 \<and> -6 < l then l else 1)"
  define ex where "ex = (if l = p then [] else ''E'' @ (if l < p then ''-'' else ''+'') @ nat_str \<bar>l - p\<bar>)"
  have dg: "list_all is_digit ds" "ds \<noteq> []" "str_nat ds = \<bar>coef d\<bar>" using nat_str_digits [of "\<bar>coef d\<bar>"] by (simp_all add: ds_def)
  have n: "0 < n" using dg(2) by (simp add: n_def)
  have e: "ex = [] \<and> l - p = 0 \<or> (\<exists>neg k. ex = ''E'' @ (if neg then ''-'' else ''+'') @ nat_str k \<and> l - p = signed neg k \<and> 0 \<le> k)"
  proof (cases "l = p")
    case False
    then have "ex = ''E'' @ (if l < p then ''-'' else ''+'') @ nat_str \<bar>l - p\<bar> \<and> l - p = signed (l < p) \<bar>l - p\<bar> \<and> 0 \<le> \<bar>l - p\<bar>"
      by (simp add: ex_def signed_def)
    then show ?thesis by blast
  qed (simp add: ex_def)
  have str: "dec_str d = (case
      (if p \<le> 0 then (''0'', ''.'' @ replicate (nat (- p)) (digit_char 0) @ ds)
       else if n \<le> p then (ds @ replicate (nat (p - n)) (digit_char 0), [])
       else (take (nat p) ds, ''.'' @ drop (nat p) ds)) of (intpart, fracpart) \<Rightarrow> sign_str (coef d) @ intpart @ fracpart @ ex)"
    unfolding dec_str_def Let_def ds_def [symmetric] n_def [symmetric] l_def [symmetric] p_def [symmetric] ex_def [symmetric] ..
  have z: "is_digit (CHR ''0'')" "list_all is_digit (replicate k (digit_char 0))" for k
    by (simp_all add: is_digit_def list_all_iff digit_char_def)
  show ?thesis
  proof (cases "p \<le> 0")
    case True
    then have p: "p = l" "dexp d \<le> 0" by (auto simp: p_def split: if_splits)
    let ?fp = "replicate (nat (- p)) (digit_char 0) @ ds"
    have "''0'' = replicate 1 (digit_char 0)" by code_simp
    then have v: "str_nat (''0'' @ ?fp) = \<bar>coef d\<bar>" by (metis str_nat_zeros dg(3))
    have "dec_str d = sign_str (coef d) @ ''0'' @ (if ?fp = [] then [] else ''.'' @ ?fp) @ ex"
      using str True dg(2) by simp
    moreover have "l - p - int (length ?fp) = dexp d" using True p n_def by (simp add: l_def)
    ultimately show ?thesis
      using dec_parse_shape [of "''0''" ?fp ex "l - p" "coef d"] z dg e v signed_abs [of "coef d"] by (cases d) simp
  next
    case False
    show ?thesis
    proof (cases "n \<le> p")
      case True
      have p: "p = n" "dexp d = l - p"
        using True n by (auto simp: p_def l_def split: if_splits)
      then have "dec_str d = sign_str (coef d) @ ds @ (if [] = ([] :: string) then [] else ''.'' @ []) @ ex"
        using str False by simp
      then show ?thesis
        using dec_parse_shape [of ds "[]" ex "l - p" "coef d"] dg e p(2) signed_abs [of "coef d"] by (cases d) simp
    next
      case gt: False
      have tk: "take (nat p) ds \<noteq> []" "drop (nat p) ds \<noteq> []" "list_all is_digit (take (nat p) ds)" "list_all is_digit (drop (nat p) ds)"
        using False gt dg by (auto simp: n_def list_all_iff dest: in_set_takeD in_set_dropD)
      have "l - p - int (length (drop (nat p) ds)) = dexp d" using False gt by (simp add: n_def l_def of_nat_diff)
      moreover have "dec_str d = sign_str (coef d) @ take (nat p) ds @ (if drop (nat p) ds = [] then [] else ''.'' @ drop (nat p) ds) @ ex"
        using str False gt tk by simp
      ultimately show ?thesis
        using dec_parse_shape [OF tk(3,1,4) e, of "coef d"] dg(3) signed_abs [of "coef d"] by (cases d) simp
    qed
  qed
qed

section \<open>Dates\<close>

definition date_str :: "date \<Rightarrow> string" where
  "date_str d = pad_str 4 (year d) @ ''-'' @ pad_str 2 (month d) @ ''-'' @ pad_str 2 (day d)"

definition date_parse :: "string \<Rightarrow> date result" where
  "date_parse s =
     (let y = take 4 s; m = take 2 (drop 5 s); d = take 2 (drop 8 s);
          r = Date (str_nat y) (str_nat m) (str_nat d)
      in if length s = 10 \<and> s ! 4 = CHR ''-'' \<and> s ! 7 = CHR ''-'' \<and> list_all is_digit (y @ m @ d) \<and> valid_date r
         then Inr r else Inl (ValueError ''Invalid isoformat string''))"

lemma iso_slices:
  assumes "length y = 4" "length m = 2" "length d = 2"
  shows "take 4 (y @ ''-'' @ m @ ''-'' @ d) = y" "take 2 (drop 5 (y @ ''-'' @ m @ ''-'' @ d)) = m"
    "take 2 (drop 8 (y @ ''-'' @ m @ ''-'' @ d)) = d" "length (y @ ''-'' @ m @ ''-'' @ d) = 10"
    "(y @ ''-'' @ m @ ''-'' @ d) ! 4 = CHR ''-''" "(y @ ''-'' @ m @ ''-'' @ d) ! 7 = CHR ''-''"
  using assms by (simp_all add: nth_append)

theorem date_parse_date_str:
  assumes "valid_date d" "year d \<le> 9999" shows "date_parse (date_str d) = Inr d"
proof -
  have b: "year d < 10 ^ 4" "month d < 10 ^ 2" "day d < 10 ^ 2" "0 \<le> year d" "0 \<le> month d" "0 \<le> day d"
    using assms by (auto simp: valid_date_def days_in_month_def split: if_splits)
  have l: "length (pad_str 4 (year d)) = 4" "length (pad_str 2 (month d)) = 2" "length (pad_str 2 (day d)) = 2"
    by (rule length_pad_str; use b in simp)+
  have "list_all is_digit (pad_str 4 (year d) @ pad_str 2 (month d) @ pad_str 2 (day d))"
    using b by (simp add: pad_str_props)
  then show ?thesis
    unfolding date_parse_def date_str_def Let_def iso_slices [OF l] pad_str_props(2) [OF b(4)] pad_str_props(2) [OF b(5)] pad_str_props(2) [OF b(6)] date.collapse using assms(1) by simp
qed

end
