(* ===== verification/Core_Json.thy ===== *)
theory Core_Json imports Core_Paper Text_Forms begin

text \<open>
  The JSON form of a plan (\<open>core_paper.plan_to_json\<close>, \<open>plan_from_json\<close>), in which the Allocator
  proposes it and the router stores it: the dicts in key order, every number and date as text.
\<close>

record plan_json =
  pj_decided_on :: string
  pj_reason :: string
  pj_targets :: "(string \<times> string) list"
  pj_sells :: "(string \<times> string) list"
  pj_buys :: "(string \<times> string) list"

definition sorted_items :: "(string \<times> 'v) list \<Rightarrow> (string \<times> 'v) list" where
  "sorted_items d = sort_by (\<lambda>x y. fst x \<le> fst y) d"

definition amounts_to_json :: "amounts \<Rightarrow> (string \<times> string) list" where
  "amounts_to_json d = map (\<lambda>(s, v). (s, dec_str v)) d"

definition amounts_from_json :: "(string \<times> string) list \<Rightarrow> amounts result" where
  "amounts_from_json d = etraverse (\<lambda>(s, v). emap (Pair s) (dec_parse v)) d"

definition plan_to_json :: "plan \<Rightarrow> plan_json" where
  "plan_to_json p =
     \<lparr> pj_decided_on = date_str (decided_on p), pj_reason = reason p, pj_targets = amounts_to_json (sorted_items (targets p)),
       pj_sells = amounts_to_json (sorted_items (sells p)), pj_buys = amounts_to_json (sorted_items (buys p)) \<rparr>"

definition plan_from_json :: "plan_json \<Rightarrow> plan result" where
  "plan_from_json raw =
     ebind (date_parse (pj_decided_on raw)) (\<lambda>d.
     ebind (amounts_from_json (pj_targets raw)) (\<lambda>ts.
     ebind (amounts_from_json (pj_sells raw)) (\<lambda>ss.
     ebind (amounts_from_json (pj_buys raw)) (\<lambda>bs.
     Inr \<lparr> decided_on = d, targets = ts, sells = ss, buys = bs, reason = pj_reason raw \<rparr>))))"

lemma amounts_round_trip [simp]: "amounts_from_json (amounts_to_json d) = Inr d"
  by (induction d) (auto simp: amounts_from_json_def amounts_to_json_def emap_def dec_parse_dec_str)

lemma set_sorted_items [simp]: "set (sorted_items d) = set d"
  by (simp add: sorted_items_def)

text \<open>The plan as it is read back: the same plan with its dicts in key order.\<close>

definition plan_sorted :: "plan \<Rightarrow> plan" where
  "plan_sorted p = p\<lparr> targets := sorted_items (targets p), sells := sorted_items (sells p), buys := sorted_items (buys p) \<rparr>"

lemma plan_from_to_json:
  "valid_date (decided_on p) \<Longrightarrow> year (decided_on p) \<le> 9999 \<Longrightarrow> plan_from_json (plan_to_json p) = Inr (plan_sorted p)"
  by (simp add: plan_from_json_def plan_to_json_def date_parse_date_str plan_sorted_def)



end
