(* ===== verification/Actions.thy ===== *)
theory Actions imports Prelude begin

text \<open>
  Code that changes state and can raise: an action takes the state and returns the new state with a result. A
  raise keeps what was changed before it, as in Python, so the state is returned on both paths.
  \<open>keeps P m\<close> says that an action keeps an invariant on every path, the raising ones too.
\<close>

type_synonym ('s, 'a) act = "'s \<Rightarrow> 's \<times> 'a result"

definition ret :: "'a \<Rightarrow> ('s, 'a) act" where
  "ret x s = (s, Inr x)"

definition raise :: "exn \<Rightarrow> ('s, 'a) act" where
  "raise e s = (s, Inl e)"

definition lift :: "'a result \<Rightarrow> ('s, 'a) act" where
  "lift r s = (s, r)"

definition gets :: "('s \<Rightarrow> 'a) \<Rightarrow> ('s, 'a) act" where
  "gets f s = (s, Inr (f s))"

definition update :: "('s \<Rightarrow> 's) \<Rightarrow> ('s, unit) act" where
  "update f s = (f s, Inr ())"

definition bind :: "('s, 'a) act \<Rightarrow> ('a \<Rightarrow> ('s, 'b) act) \<Rightarrow> ('s, 'b) act" where
  "bind m f s = (case m s of (s', Inl e) \<Rightarrow> (s', Inl e) | (s', Inr x) \<Rightarrow> f x s')"

definition seq :: "('s, 'a) act \<Rightarrow> ('s, 'b) act \<Rightarrow> ('s, 'b) act" where
  "seq m n = bind m (\<lambda>_. n)"

text \<open>\<open>try m except\<close>: the handler takes the exceptions it names, the others pass.\<close>

definition handle :: "('s, 'a) act \<Rightarrow> (exn \<Rightarrow> ('s, 'a) act option) \<Rightarrow> ('s, 'a) act" where
  "handle m h s =
     (case m s of
        (s', Inr x) \<Rightarrow> (s', Inr x)
      | (s', Inl e) \<Rightarrow> (case h e of None \<Rightarrow> (s', Inl e) | Some n \<Rightarrow> n s'))"

text \<open>The same with an \<open>else\<close> branch, whose exceptions are not handled.\<close>

definition attempt :: "('s, 'a) act \<Rightarrow> (exn \<Rightarrow> ('s, 'b) act option) \<Rightarrow> ('a \<Rightarrow> ('s, 'b) act) \<Rightarrow> ('s, 'b) act" where
  "attempt m h k s =
     (case m s of
        (s', Inr x) \<Rightarrow> k x s'
      | (s', Inl e) \<Rightarrow> (case h e of None \<Rightarrow> (s', Inl e) | Some n \<Rightarrow> n s'))"

fun foreach :: "('a \<Rightarrow> ('s, unit) act) \<Rightarrow> 'a list \<Rightarrow> ('s, unit) act" where
  "foreach f [] = ret ()"
| "foreach f (x # xs) = seq (f x) (foreach f xs)"

section \<open>Invariants of actions\<close>

named_theorems keeps_rules

definition keeps :: "('s \<Rightarrow> bool) \<Rightarrow> ('s, 'a) act \<Rightarrow> bool" where
  "keeps P m \<longleftrightarrow> (\<forall>s. P s \<longrightarrow> P (fst (m s)))"

lemma keepsD: "keeps P m \<Longrightarrow> P s \<Longrightarrow> m s = (s', r) \<Longrightarrow> P s'"
  unfolding keeps_def by (metis fst_conv)

lemma keeps_ret [keeps_rules]: "keeps P (ret x)"
  by (simp add: keeps_def ret_def)

lemma keeps_raise [keeps_rules]: "keeps P (raise e)"
  by (simp add: keeps_def raise_def)

lemma keeps_lift [keeps_rules]: "keeps P (lift r)"
  by (simp add: keeps_def lift_def)

lemma keeps_gets [keeps_rules]: "keeps P (gets f)"
  by (simp add: keeps_def gets_def)

lemma keeps_update: "(\<And>s. P s \<Longrightarrow> P (f s)) \<Longrightarrow> keeps P (update f)"
  by (simp add: keeps_def update_def)

lemma keeps_bind [keeps_rules]: "keeps P m \<Longrightarrow> (\<And>x. keeps P (f x)) \<Longrightarrow> keeps P (bind m f)"
  unfolding keeps_def bind_def by (auto split: prod.splits sum.splits)

lemma keeps_seq [keeps_rules]: "keeps P m \<Longrightarrow> keeps P n \<Longrightarrow> keeps P (seq m n)"
  by (simp add: seq_def keeps_bind)

lemma keeps_handle [keeps_rules]:
  "keeps P m \<Longrightarrow> (\<And>e n. h e = Some n \<Longrightarrow> keeps P n) \<Longrightarrow> keeps P (handle m h)"
  unfolding keeps_def handle_def by (auto split: prod.splits sum.splits option.splits)

lemma keeps_attempt [keeps_rules]:
  "keeps P m \<Longrightarrow> (\<And>e n. h e = Some n \<Longrightarrow> keeps P n) \<Longrightarrow> (\<And>x. keeps P (k x)) \<Longrightarrow> keeps P (attempt m h k)"
  unfolding keeps_def attempt_def by (auto split: prod.splits sum.splits option.splits)

lemma keeps_foreach [keeps_rules]: "(\<And>x. x \<in> set xs \<Longrightarrow> keeps P (f x)) \<Longrightarrow> keeps P (foreach f xs)"
  by (induction xs) (simp_all add: keeps_rules)

lemma keeps_if [keeps_rules]: "(b \<Longrightarrow> keeps P m) \<Longrightarrow> (\<not> b \<Longrightarrow> keeps P n) \<Longrightarrow> keeps P (if b then m else n)"
  by simp

lemma keeps_option [keeps_rules]:
  "(v = None \<Longrightarrow> keeps P m) \<Longrightarrow> (\<And>x. v = Some x \<Longrightarrow> keeps P (f x)) \<Longrightarrow> keeps P (case v of None \<Rightarrow> m | Some x \<Rightarrow> f x)"
  by (cases v) simp_all

lemma keeps_conj: "keeps P m \<Longrightarrow> keeps Q m \<Longrightarrow> keeps (\<lambda>s. P s \<and> Q s) m"
  by (simp add: keeps_def)

section \<open>Evaluation\<close>

lemma act_simps [simp]:
  "ret x s = (s, Inr x)" "raise e s = (s, Inl e)" "lift r s = (s, r)" "gets f s = (s, Inr (f s))" "update u s = (u s, Inr ())"
  by (simp_all add: ret_def raise_def lift_def gets_def update_def)

lemma bind_simps [simp]:
  "bind (ret x) f s = f x s" "bind (raise e) f s = (s, Inl e)" "bind (gets g) f s = f (g s) s" "bind (update u) k s = k () (u s)"
  "bind (lift (Inr x)) f s = f x s" "bind (lift (Inl e)) f s = (s, Inl e)"
  by (simp_all add: bind_def)

lemma seq_simps [simp]: "seq (update u) n s = n (u s)" "seq (ret x) n s = n s"
  by (simp_all add: seq_def)

lemma bind_Inr: "m s = (s', Inr x) \<Longrightarrow> bind m f s = f x s'"
  by (simp add: bind_def)

lemma bind_Inl: "m s = (s', Inl e) \<Longrightarrow> bind m f s = (s', Inl e)"
  by (simp add: bind_def)

lemma seq_Inr: "m s = (s', Inr x) \<Longrightarrow> seq m n s = n s'"
  by (simp add: seq_def bind_def)

lemma seq_Inl: "m s = (s', Inl e) \<Longrightarrow> seq m n s = (s', Inl e)"
  by (simp add: seq_def bind_def)

lemma attempt_Inr: "m s = (s', Inr x) \<Longrightarrow> attempt m h k s = k x s'"
  by (simp add: attempt_def)

lemma attempt_Inl: "m s = (s', Inl e) \<Longrightarrow> attempt m h k s = (case h e of None \<Rightarrow> (s', Inl e) | Some n \<Rightarrow> n s')"
  by (simp add: attempt_def)

lemma bind_cases:
  assumes "bind m f s = (t, r)"
  obtains (raised) e where "m s = (t, Inl e)" "r = Inl e" | (ok) s' x where "m s = (s', Inr x)" "f x s' = (t, r)"
  using assms by (auto simp: bind_def split: prod.splits sum.splits)

lemma seq_cases:
  assumes "seq m n s = (t, r)"
  obtains (raised) e where "m s = (t, Inl e)" "r = Inl e" | (ok) s' x where "m s = (s', Inr x)" "n s' = (t, r)"
  using assms unfolding seq_def by (elim bind_cases) auto

lemma seq_unitE:
  assumes "seq m n s = (t, Inr y)" obtains s' where "m s = (s', Inr (() :: unit))" "n s' = (t, Inr y)"
  using assms by (elim seq_cases) auto

section \<open>Before and after\<close>

text \<open>From \<open>P\<close>, a normal return ends in \<open>Q\<close> of the result and a raise in \<open>E\<close>.\<close>

definition hoare :: "('s \<Rightarrow> bool) \<Rightarrow> ('s, 'a) act \<Rightarrow> ('a \<Rightarrow> 's \<Rightarrow> bool) \<Rightarrow> ('s \<Rightarrow> bool) \<Rightarrow> bool" where
  "hoare P m Q E \<longleftrightarrow> (\<forall>s. P s \<longrightarrow> (case m s of (t, Inl e) \<Rightarrow> E t | (t, Inr x) \<Rightarrow> Q x t))"

lemma hoareD: "hoare P m Q E \<Longrightarrow> P s \<Longrightarrow> m s = (t, r) \<Longrightarrow> (case r of Inl e \<Rightarrow> E t | Inr x \<Rightarrow> Q x t)"
  unfolding hoare_def by (metis (mono_tags, lifting) case_prod_conv)

lemma hoareI: "(\<And>s t r. P s \<Longrightarrow> m s = (t, r) \<Longrightarrow> (case r of Inl e \<Rightarrow> E t | Inr x \<Rightarrow> Q x t)) \<Longrightarrow> hoare P m Q E"
  unfolding hoare_def by (auto split: prod.split)

lemma hoare_conseq:
  assumes "hoare P' m Q' E'" "\<And>s. P s \<Longrightarrow> P' s" "\<And>x s. Q' x s \<Longrightarrow> Q x s" "\<And>s. E' s \<Longrightarrow> E s"
  shows "hoare P m Q E"
proof (rule hoareI)
  fix s t r assume "P s" "m s = (t, r)"
  with hoareD [OF assms(1) assms(2)] assms(3,4) show "case r of Inl e \<Rightarrow> E t | Inr x \<Rightarrow> Q x t" by (fastforce split: sum.splits)
qed

lemma hoare_keeps: "keeps P m \<Longrightarrow> (\<And>s. P s \<Longrightarrow> E s) \<Longrightarrow> hoare P m (\<lambda>_. P) E"
  by (rule hoareI) (auto simp: keeps_def split: sum.splits dest: spec)

lemma hoare_ret: "(\<And>s. P s \<Longrightarrow> Q x s) \<Longrightarrow> hoare P (ret x) Q E"
  by (rule hoareI) auto

lemma hoare_update: "(\<And>s. P s \<Longrightarrow> Q () (u s)) \<Longrightarrow> hoare P (update u) Q E"
  by (rule hoareI) auto

lemma hoare_bind: "hoare P m R E \<Longrightarrow> (\<And>x. hoare (R x) (f x) Q E) \<Longrightarrow> hoare P (bind m f) Q E"
  by (rule hoareI, erule bind_cases) (fastforce dest: hoareD)+

lemma hoare_seq: "hoare P m R E \<Longrightarrow> (\<And>x. hoare (R x) n Q E) \<Longrightarrow> hoare P (seq m n) Q E"
  unfolding seq_def by (rule hoare_bind)

lemma hoare_attempt:
  assumes "hoare P m R F" "\<And>e n. h e = Some n \<Longrightarrow> hoare F n Q E" "\<And>x. hoare (R x) (k x) Q E" "\<And>s. F s \<Longrightarrow> E s"
  shows "hoare P (attempt m h k) Q E"
proof (rule hoareI)
  fix s t r assume P: "P s" and a: "attempt m h k s = (t, r)"
  obtain s1 x where m: "m s = (s1, x)" by fastforce
  show "case r of Inl e \<Rightarrow> E t | Inr x \<Rightarrow> Q x t"
  proof (cases x)
    case (Inr y)
    then show ?thesis using hoareD [OF assms(3)] hoareD [OF assms(1) P m] a m by (simp add: attempt_Inr)
  next
    case (Inl e)
    then have F: "F s1" using hoareD [OF assms(1) P m] by simp
    show ?thesis
    proof (cases "h e")
      case None
      then show ?thesis using a m Inl F assms(4) by (auto simp: attempt_Inl)
    next
      case (Some n)
      then show ?thesis using a m Inl hoareD [OF assms(2) F] by (simp add: attempt_Inl)
    qed
  qed
qed

lemma hoare_if: "(b \<Longrightarrow> hoare P m Q E) \<Longrightarrow> (\<not> b \<Longrightarrow> hoare P n Q E) \<Longrightarrow> hoare P (if b then m else n) Q E"
  by simp

end
