(* ===== verification/Router_Policy.thy ===== *)
theory Router_Policy imports Tier0 Dates begin

text \<open>
  \<open>risk_router/policy.py\<close>: the portfolio snapshot built from Alpaca's answers and the limits checked
  before a buy. A JSON object is a record of the fields the code reads, \<open>None\<close> for an absent or null one.
\<close>

record position =
  pos_symbol :: string
  pos_side :: "string option"
  pos_market_value :: "decimal option"
  pos_qty :: "decimal option"
  pos_qty_available :: "decimal option"
  pos_avg_entry_price :: decimal
  pos_current_price :: decimal

record order =
  ord_symbol :: string
  ord_side :: "string option"
  ord_status :: "string option"
  ord_notional :: "decimal option"
  ord_limit_price :: "decimal option"
  ord_qty :: "decimal option"
  ord_filled_qty :: "decimal option"
  ord_submitted_at :: "instant option"
  ord_filled_at :: "instant option"

record portfolio =
  pf_positions :: "(string \<times> decimal) list"
  pf_working_buys :: "(string \<times> decimal) list"
  pf_working_sells :: "string list"
  pf_buys_today :: int
  pf_last_sell_at :: "(string \<times> instant) list"

definition dec_or_0 :: "decimal option \<Rightarrow> decimal" where
  "dec_or_0 v = (case v of None \<Rightarrow> 0 | Some d \<Rightarrow> d)"

definition held_values :: "position list \<Rightarrow> (string \<times> decimal) list" where
  "held_values ps = foldl (\<lambda>d p. AList.update (pos_symbol p) \<bar>dec_or_0 (pos_market_value p)\<bar> d) [] ps"

definition remaining_notional :: "order \<Rightarrow> decimal" where
  "remaining_notional o' =
     (case ord_notional o' of
        Some n \<Rightarrow> n
      | None \<Rightarrow>
          (case ord_limit_price o' of
             Some l \<Rightarrow> (dec_or_0 (ord_qty o') - dec_or_0 (ord_filled_qty o')) * l
           | None \<Rightarrow> MAX_NOTIONAL_USD))"

definition add_open_order :: "(string \<times> decimal) list \<times> string list \<Rightarrow> order \<Rightarrow> (string \<times> decimal) list \<times> string list" where
  "add_open_order acc o' =
     (case acc of (wbuys, wsells) \<Rightarrow>
      if ord_side o' = Some ''sell'' then (wbuys, List.insert (ord_symbol o') wsells)
      else (AList.update (ord_symbol o') (aget 0 wbuys (ord_symbol o') + remaining_notional o') wbuys, wsells))"

definition add_recent_order :: "instant \<Rightarrow> int \<times> (string \<times> instant) list \<Rightarrow> order \<Rightarrow> int \<times> (string \<times> instant) list" where
  "add_recent_order day_start acc o' =
     (case acc of (n, last_sell) \<Rightarrow>
      if ord_side o' = Some ''buy'' then
        (if ord_status o' \<noteq> Some ''rejected'' \<and> (case ord_submitted_at o' of None \<Rightarrow> False | Some t \<Rightarrow> day_start \<le> t)
         then n + 1 else n, last_sell)
      else
        (case ord_filled_at o' of
           None \<Rightarrow> (n, last_sell)
         | Some t \<Rightarrow>
             (n, case map_of last_sell (ord_symbol o') of
                   None \<Rightarrow> AList.update (ord_symbol o') t last_sell
                 | Some t0 \<Rightarrow> if t0 < t then AList.update (ord_symbol o') t last_sell else last_sell)))"

definition from_alpaca :: "position list \<Rightarrow> order list \<Rightarrow> order list \<Rightarrow> instant \<Rightarrow> portfolio" where
  "from_alpaca ps open_orders recent_orders day_start =
     (let (wbuys, wsells) = foldl add_open_order ([], []) open_orders;
          (n, last_sell) = foldl (add_recent_order day_start) (0, []) recent_orders
      in \<lparr> pf_positions = held_values ps, pf_working_buys = wbuys, pf_working_sells = wsells,
           pf_buys_today = n, pf_last_sell_at = last_sell \<rparr>)"

definition gross_exposure :: "portfolio \<Rightarrow> decimal" where
  "gross_exposure p = dsum (vals (pf_positions p)) + dsum (vals (pf_working_buys p))"

definition symbols_exposed :: "portfolio \<Rightarrow> string list" where
  "symbols_exposed p = remdups (keys (pf_positions p) @ keys (pf_working_buys p))"

definition check_can_open :: "portfolio \<Rightarrow> string \<Rightarrow> instant \<Rightarrow> unit result" where
  "check_can_open p symbol now =
     (if \<not> ALLOW_PYRAMIDING \<and> symbol \<in> set (symbols_exposed p) then Inl (PolicyRejection ''duplicate_accumulation'')
      else if MAX_OPEN_POSITIONS < int (length (List.insert symbol (symbols_exposed p)))
        then Inl (PolicyRejection ''max_open_positions'')
      else if MAX_GROSS_EXPOSURE_USD < gross_exposure p + MAX_NOTIONAL_USD then Inl (PolicyRejection ''gross_exposure'')
      else if MAX_NEW_BUYS_PER_DAY \<le> pf_buys_today p then Inl (PolicyRejection ''daily_buy_limit'')
      else
        (case map_of (pf_last_sell_at p) symbol of
           None \<Rightarrow> Inr ()
         | Some last_sell \<Rightarrow>
             if now < last_sell + seconds REENTRY_COOLDOWN_SECONDS then Inl (PolicyRejection ''reentry_cooldown'')
             else Inr ()))"

end
