(* ===== verification/Core_Router.thy ===== *)
theory Core_Router imports Core_Json Actions Guards Raise_Cash Router_Policy begin

text \<open>
  \<open>risk_router/core_gatekeeper.py\<close>, the state: the plan record with its orders, what survives a restart
  (\<open>CoreState\<close>), the journal's entries, and the world the router asks. Alpaca, the clock and the two
  hashes are not part of the program: a \<open>core_cfg\<close> holds them as functions on an abstract world \<open>'w\<close>.
  Dates and decimals the state file stores as text are kept as values, except the plan, which is stored and
  read back in its JSON form. The journal's hash chain is in \<open>Core_Journal\<close>.
\<close>

section \<open>Constants\<close>

definition SELL_DEADLINE_MINUTES :: int where "SELL_DEADLINE_MINUTES = 30"
definition BUY_DEADLINE_MINUTES :: int where "BUY_DEADLINE_MINUTES = 90"
definition EXECUTION_CUTOFF :: time_of_day where "EXECUTION_CUTOFF = hms 15 30 0"
definition FEE_ALLOWANCE :: decimal where "FEE_ALLOWANCE = Dec 1 (-5)"
definition RAISE_CASH_COST_RATE :: decimal where "RAISE_CASH_COST_RATE = Dec 7 (-4)"
definition TERMINAL :: "string list" where "TERMINAL = [''filled'', ''canceled'', ''expired'', ''rejected'']"
definition TICK_FAILURES_BEFORE_ALERT :: int where "TICK_FAILURES_BEFORE_ALERT = 3"
definition TICK_FAILURES_REPEAT_EVERY :: int where "TICK_FAILURES_REPEAT_EVERY = 240"

section \<open>The plan record\<close>

datatype plan_kind = Initial | Rebalance | Raise_Cash

datatype plan_status =
    Awaiting_Approval | Approved | Selling | Buying
  | Done | Expired | Abandoned | Deferred | Halted

text \<open>An entry of \<open>record["orders"]\<close>. The quantity and price are None until Alpaca was asked (or gave an empty price).\<close>

record core_order =
  co_symbol :: string
  co_side :: side
  co_status :: string
  co_payload :: payload
  co_filled_qty :: "decimal option"
  co_filled_price :: "decimal option"

record plan_record =
  pr_id :: string
  pr_kind :: plan_kind
  pr_status :: plan_status
  pr_plan :: plan_json
  pr_decided_on :: date
  pr_execute_on :: date
  pr_closes :: amounts
  pr_redecision :: bool
  pr_orders :: "(string \<times> core_order) list"
  pr_buys_scaled :: "amounts option"
  pr_blocked :: bool

record history_entry =
  he_day :: date
  he_orders :: int
  he_kind :: plan_kind
  he_traded_usd :: decimal
  he_redecision :: bool
  he_status :: plan_status

record core_state =
  cs_plan :: "plan_record option"
  cs_history :: "history_entry list"
  cs_targets :: amounts
  cs_forced :: bool
  cs_initial_incomplete :: bool

text \<open>\<open>CoreStore.executed\<close>: the history as the limits read it.\<close>

definition executed_of :: "core_state \<Rightarrow> executed list" where
  "executed_of st = map (\<lambda>h. \<lparr> ex_day = he_day h, ex_orders = he_orders h, ex_traded_usd = he_traded_usd h,
      ex_redecision = he_redecision h, ex_initial = (he_kind h = Initial) \<rparr>) (cs_history st)"

datatype event =
    Plan_Mismatch date bool
  | No_Plan date bool
  | Over_Funded
  | Plan_Rejected string "violation list"
  | Plan_Superseded string string
  | Plan_Accepted string plan_kind plan_status date bool
  | Plan_Approved string bool
  | Tick_Failed int
  | Order_Rejected string string side
  | Order_Submitted string payload string
  | Sells_Cancelled string
  | Buys_Cancelled string
  | Buy_Blocked string string
  | Plan_Closed string plan_status plan_kind "(string \<times> core_order) list"
  | Started string

section \<open>The router and what it asks\<close>

text \<open>What \<open>order_by_client_id\<close> answers of an order.\<close>

record order_view =
  ov_status :: string
  ov_filled_qty :: "decimal option"
  ov_filled_avg_price :: "decimal option"

record 'w core_cfg =
  cc_policy :: core_policy
  cc_digest :: "snapshot \<Rightarrow> string"
  cc_plan_id :: "plan_json \<Rightarrow> string \<Rightarrow> string"
  cc_now :: "'w \<Rightarrow> 'w \<times> ny_time"
  cc_guard_env :: "'w \<Rightarrow> 'w \<times> guard_env"
  cc_account_number :: "'w \<Rightarrow> 'w \<times> string result"
  cc_cash :: "'w \<Rightarrow> 'w \<times> decimal result"
  cc_reads :: "date \<Rightarrow> 'w \<Rightarrow> 'w \<times> reads"
  cc_calendar :: "'w \<Rightarrow> 'w \<times> date list result"
  cc_ask :: "string \<Rightarrow> 'w \<Rightarrow> 'w \<times> decimal result"
  cc_submit :: "payload \<Rightarrow> 'w \<Rightarrow> 'w \<times> string result"
  cc_lookup :: "string \<Rightarrow> 'w \<Rightarrow> 'w \<times> order_view option result"
  cc_cancel :: "'w \<Rightarrow> 'w \<times> unit result"

text \<open>\<open>rt_data\<close> is the state in memory and \<open>rt_disk\<close> what the state file holds.\<close>

record 'w core_rt =
  rt_data :: core_state
  rt_disk :: core_state
  rt_guard :: guard_state
  rt_world :: 'w
  rt_journal :: "event list"
  rt_tick_failures :: int
  rt_last_tick :: "ny_time option"

type_synonym ('w, 'a) core_act = "('w core_rt, 'a) act"

definition ask :: "('w \<Rightarrow> 'w \<times> 'a result) \<Rightarrow> ('w, 'a) core_act" where
  "ask f s = (case f (rt_world s) of (w, r) \<Rightarrow> (s\<lparr> rt_world := w \<rparr>, r))"

definition now_ny :: "'w core_cfg \<Rightarrow> ('w, ny_time) core_act" where
  "now_ny c s = (case cc_now c (rt_world s) of (w, t) \<Rightarrow> (s\<lparr> rt_world := w \<rparr>, Inr t))"

definition check_guard :: "'w core_cfg \<Rightarrow> intent \<Rightarrow> ('w, unit) core_act" where
  "check_guard c i s =
     (case cc_guard_env c (rt_world s) of (w, e) \<Rightarrow>
      case guard_check i e (rt_guard s) of (g, r) \<Rightarrow> (s\<lparr> rt_world := w, rt_guard := g \<rparr>, r))"

definition save :: "('w, unit) core_act" where
  "save = update (\<lambda>s. s\<lparr> rt_disk := rt_data s \<rparr>)"

text \<open>\<open>Journal.write\<close> appends the entry and saves the state with the new head.\<close>

definition journal :: "event \<Rightarrow> ('w, unit) core_act" where
  "journal ev = seq (update (\<lambda>s. s\<lparr> rt_journal := rt_journal s @ [ev] \<rparr>)) save"

definition set_data :: "(core_state \<Rightarrow> core_state) \<Rightarrow> ('w, unit) core_act" where
  "set_data f = update (\<lambda>s. s\<lparr> rt_data := f (rt_data s) \<rparr>)"

text \<open>\<open>record\<close> is the object in \<open>store.data.plan\<close>, read and changed in place.\<close>

definition the_record :: "('w, plan_record) core_act" where
  "the_record s = (s, case cs_plan (rt_data s) of None \<Rightarrow> Inl KeyError | Some r \<Rightarrow> Inr r)"

definition set_record :: "(plan_record \<Rightarrow> plan_record) \<Rightarrow> ('w, unit) core_act" where
  "set_record f = set_data (\<lambda>d. d\<lparr> cs_plan := map_option f (cs_plan d) \<rparr>)"

lemma journal_eq: "journal ev s = (s\<lparr> rt_journal := rt_journal s @ [ev], rt_disk := rt_data s \<rparr>, Inr ())"
  by (simp add: journal_def save_def)

lemma set_data_eq: "set_data f s = (s\<lparr> rt_data := f (rt_data s) \<rparr>, Inr ())"
  by (simp add: set_data_def)

lemma save_eq: "save s = (s\<lparr> rt_disk := rt_data s \<rparr>, Inr ())"
  by (simp add: save_def)

lemma seq_unit [simp]: "m s = (s', Inr x) \<Longrightarrow> seq m n s = n s'"
  by (simp add: seq_Inr)

section \<open>Orders and their fills\<close>

definition add_fill :: "decimal \<Rightarrow> core_order \<Rightarrow> decimal" where
  "add_fill usd x =
     (case (co_filled_qty x, co_filled_price x) of
        (Some qty, Some price) \<Rightarrow> if 0 < qty then usd + qty * price else usd
      | _ \<Rightarrow> usd)"

definition filled_usd :: "(string \<times> core_order) list \<Rightarrow> decimal" where
  "filled_usd orders = foldl add_fill 0 (vals orders)"

definition in_flight :: "plan_record option \<Rightarrow> bool" where
  "in_flight plan =
     (case plan of None \<Rightarrow> False
      | Some r \<Rightarrow> pr_status r = Selling \<or> pr_status r = Buying \<or> pr_orders r \<noteq> [])"

definition see_order :: "order_view \<Rightarrow> core_order \<Rightarrow> core_order" where
  "see_order v x = x\<lparr> co_status := ov_status v, co_filled_qty := Some (dec_or_0 (ov_filled_qty v)),
      co_filled_price := ov_filled_avg_price v \<rparr>"

definition refresh_one :: "'w core_cfg \<Rightarrow> side \<Rightarrow> string \<Rightarrow> ('w, unit) core_act" where
  "refresh_one c sd cid =
     bind the_record (\<lambda>r.
     case map_of (pr_orders r) cid of None \<Rightarrow> ret () | Some x \<Rightarrow>
     if co_side x \<noteq> sd \<or> co_status x = ''rejected'' then ret ()
     else
       bind (ask (cc_lookup c cid)) (\<lambda>latest.
       case latest of None \<Rightarrow> ret ()
       | Some v \<Rightarrow> set_record (\<lambda>r. r\<lparr> pr_orders := AList.update cid (see_order v x) (pr_orders r) \<rparr>)))"

definition refresh :: "'w core_cfg \<Rightarrow> side \<Rightarrow> ('w, core_order list) core_act" where
  "refresh c sd =
     bind the_record (\<lambda>r0.
     seq (foreach (refresh_one c sd) (keys (pr_orders r0)))
     (bind the_record (\<lambda>r. ret (filter (\<lambda>x. co_side x = sd) (vals (pr_orders r))))))"

section \<open>Closing a plan\<close>

definition incomplete :: "plan_record \<Rightarrow> bool" where
  "incomplete r \<longleftrightarrow> pr_blocked r \<or> (\<exists>x \<in> set (vals (pr_orders r)). co_status x \<noteq> ''filled'')"

definition record_history :: "plan_record \<Rightarrow> plan_status \<Rightarrow> ('w, unit) core_act" where
  "record_history r st =
     bind (lift (quantize (filled_usd (pr_orders r)) CENT ROUND_DOWN)) (\<lambda>traded.
     set_data (\<lambda>d. d\<lparr> cs_history := cs_history d @
         [\<lparr> he_day = pr_execute_on r, he_orders = int (length (pr_orders r)), he_kind = pr_kind r, he_traded_usd = traded,
            he_redecision = pr_redecision r, he_status = st \<rparr>],
       cs_initial_incomplete := (if pr_kind r = Initial then incomplete r \<or> st = Abandoned else cs_initial_incomplete d) \<rparr>))"

definition close_plan :: "plan_status \<Rightarrow> bool option \<Rightarrow> ('w, unit) core_act" where
  "close_plan st forced_arg =
     seq (set_record (\<lambda>r. r\<lparr> pr_status := st \<rparr>))
     (bind the_record (\<lambda>r.
      let forced = (case forced_arg of Some b \<Rightarrow> b | None \<Rightarrow> if st = Done then incomplete r else False) in
      seq (if st = Done \<or> st = Abandoned then record_history r st else ret ())
     (seq (if st = Done \<and> \<not> incomplete r \<and> pr_kind r \<noteq> Raise_Cash
           then bind (lift (plan_from_json (pr_plan r))) (\<lambda>p. set_data (\<lambda>d. d\<lparr> cs_targets := targets p \<rparr>))
           else ret ())
     (seq (set_data (\<lambda>d. d\<lparr> cs_forced := forced, cs_plan := None \<rparr>))
     (seq save
          (journal (Plan_Closed (pr_id r) st (pr_kind r) (pr_orders r))))))))"

text \<open>\<open>_abandon\<close>: whatever cancelling and reading raise is logged and put into the reason.\<close>

definition abandon :: "'w core_cfg \<Rightarrow> bool \<Rightarrow> ('w, unit) core_act" where
  "abandon c forced =
     seq (handle (seq (ask (cc_cancel c)) (seq (refresh c Sell) (seq (refresh c Buy) (ret ())))) (\<lambda>_. Some (ret ())))
     (bind the_record (\<lambda>r.
      if pr_status r = Buying \<and> \<not> pr_blocked r \<and> pr_orders r \<noteq> [] \<and> (\<forall>x \<in> set (vals (pr_orders r)). co_status x = ''filled'')
      then close_plan Done None
      else close_plan Abandoned (Some forced)))"

definition reconcile :: "'w core_cfg \<Rightarrow> ('w, unit) core_act" where
  "reconcile c =
     bind (gets (\<lambda>s. cs_plan (rt_data s))) (\<lambda>plan.
     case plan of None \<Rightarrow> ret ()
     | Some r \<Rightarrow>
         bind (now_ny c) (\<lambda>now.
         if pr_status r = Approved \<or> pr_status r = Awaiting_Approval then
           (if pr_execute_on r < ny_date now \<or> (ny_date now = pr_execute_on r \<and> SUBMIT_UNTIL < ny_clock now) then
              (if pr_orders r \<noteq> [] then abandon c True else close_plan Expired (Some True))
            else ret ())
         else if pr_status r = Selling \<or> pr_status r = Buying then
           (if pr_execute_on r < ny_date now \<or> (ny_date now = pr_execute_on r \<and> EXECUTION_CUTOFF \<le> ny_clock now)
            then abandon c True else ret ())
         else ret ()))"

end
