(* ===== verification/Core_Execution.thy ===== *)
theory Core_Execution imports Core_Router begin

text \<open>
  \<open>risk_router/core_gatekeeper.py\<close>, the operations: verifying and admitting a proposal, approvals, raising
  cash, and the execution that the tick drives. Each runs under the router's lock, so it is one action.
\<close>

section \<open>Start-up and the snapshot\<close>

definition check_account :: "'w core_cfg \<Rightarrow> ('w, unit) core_act" where
  "check_account c =
     (if violations (cc_policy c) \<noteq> [] then raise (PlanRejected ''policy_invalid'')
      else
        bind (ask (cc_account_number c)) (\<lambda>number.
        if number \<noteq> pol_account (cc_policy c) then raise (PlanRejected ''wrong_account'') else ret ()))"

definition as_rejection :: "exn \<Rightarrow> exn" where
  "as_rejection e = (case e of SnapshotError code \<Rightarrow> PlanRejected code | _ \<Rightarrow> e)"

definition snapshot_of :: "'w core_cfg \<Rightarrow> date \<Rightarrow> ('w, snapshot) core_act" where
  "snapshot_of c session s =
     (case cc_reads c session (rt_world s) of (w, rd) \<Rightarrow>
      (s\<lparr> rt_world := w \<rparr>,
       case read_snapshot rd (cc_policy c) session (cs_forced (rt_data s)) (cs_targets (rt_data s)) of
         Inl e \<Rightarrow> Inl (as_rejection e) | Inr snap \<Rightarrow> Inr snap))"

section \<open>Admission\<close>

datatype reply = Reply_No_Plan bool | Reply_Plan plan_status string date

text \<open>\<open>snap.cash + sum((q * snap.closes[s] for ...), Decimal(0))\<close>\<close>

definition account_value :: "snapshot \<Rightarrow> decimal result" where
  "account_value snap =
     ebind (etraverse (\<lambda>(s, q). emap (\<lambda>p. q * p) (eget (snap_closes snap) s)) (snap_qty snap)) (\<lambda>vs.
     Inr (snap_cash snap + dsum vs))"

definition plan_id_of :: "'w core_cfg \<Rightarrow> plan \<Rightarrow> snapshot \<Rightarrow> string" where
  "plan_id_of c p snap = cc_plan_id c (plan_to_json p) (cc_digest c snap)"

definition new_record :: "string \<Rightarrow> plan_kind \<Rightarrow> bool \<Rightarrow> plan \<Rightarrow> snapshot \<Rightarrow> plan_record" where
  "new_record pid kind needs p snap =
     \<lparr> pr_id = pid, pr_kind = kind, pr_status = (if needs then Awaiting_Approval else Approved), pr_plan = plan_to_json p,
       pr_decided_on = snap_session snap, pr_execute_on = snap_next_session snap, pr_closes = snap_closes snap,
       pr_redecision = snap_forced snap, pr_orders = [], pr_buys_scaled = None, pr_blocked = False \<rparr>"

definition admit :: "'w core_cfg \<Rightarrow> plan \<Rightarrow> snapshot \<Rightarrow> plan_kind \<Rightarrow> ('w, reply) core_act" where
  "admit c p snap kind =
     (if kind = Initial \<and> pol_funded_amount_cap_usd (cc_policy c) < snap_cash snap
      then seq (journal Over_Funded) (raise (PlanRejected ''over_funded''))
      else
        bind (lift (account_value snap)) (\<lambda>equity.
        bind (gets (\<lambda>s. executed_of (rt_data s))) (\<lambda>history.
        bind (lift (plan_violations p (cc_policy c) (snap_closes snap) equity history (snap_session snap) (kind = Initial) (kind = Initial)))
          (\<lambda>problems.
        let pid = plan_id_of c p snap in
        if problems \<noteq> [] then seq (journal (Plan_Rejected pid problems)) (raise (PlanRejected ''limits''))
        else
          bind (if kind = Initial \<or> kind = Raise_Cash then ret True
                else lift (needs_approval p (cc_policy c) (snap_closes snap))) (\<lambda>needs.
          let r = new_record pid kind needs p snap in
          bind (gets (\<lambda>s. cs_plan (rt_data s))) (\<lambda>replaced.
          seq (case replaced of None \<Rightarrow> ret ()
               | Some r0 \<Rightarrow> if pr_id r0 \<noteq> pid then journal (Plan_Superseded (pr_id r0) pid) else ret ())
         (seq (set_data (\<lambda>d. d\<lparr> cs_plan := Some r, cs_forced := False \<rparr>))
         (seq save
         (seq (journal (Plan_Accepted pid kind (pr_status r) (pr_execute_on r) (pr_redecision r)))
              (ret (Reply_Plan (pr_status r) pid (pr_execute_on r))))))))))))"

record proposal =
  prop_session :: date
  prop_plan :: "plan_json option"
  prop_inputs :: string

text \<open>\<open>_receive_plan\<close> in three parts: the plan against the current one, the comparison with the proposal, the whole.\<close>

definition take_plan :: "'w core_cfg \<Rightarrow> plan \<Rightarrow> snapshot \<Rightarrow> ('w, reply) core_act" where
  "take_plan c p snap =
     bind (gets rt_data) (\<lambda>d.
     let pid = plan_id_of c p snap;
         kind = (if snap_initial snap \<or> cs_initial_incomplete d then Initial else Rebalance)
     in case cs_plan d of
          None \<Rightarrow> admit c p snap kind
        | Some r \<Rightarrow>
            if in_flight (Some r) then raise (PlanRejected ''plan_in_flight'')
            else if pr_id r = pid \<and> (pr_status r = Awaiting_Approval \<or> pr_status r = Approved)
              then ret (Reply_Plan (pr_status r) pid (pr_execute_on r))
            else admit c p snap kind)"

definition take_proposal :: "'w core_cfg \<Rightarrow> proposal \<Rightarrow> snapshot \<Rightarrow> plan option \<Rightarrow> plan option \<Rightarrow> ('w, reply) core_act" where
  "take_proposal c prop snap mine theirs =
     (if cc_digest c snap \<noteq> prop_inputs prop \<or> map_option plan_to_json mine \<noteq> map_option plan_to_json theirs
      then seq (journal (Plan_Mismatch (prop_session prop) (cc_digest c snap = prop_inputs prop))) (raise (PlanRejected ''plan_mismatch''))
      else
        (case mine of
           None \<Rightarrow>
             seq (if snap_forced snap then seq (set_data (\<lambda>d. d\<lparr> cs_forced := False \<rparr>)) save else ret ())
            (seq (journal (No_Plan (prop_session prop) (skip_reason (cc_policy c) snap)))
                 (ret (Reply_No_Plan (skip_reason (cc_policy c) snap))))
         | Some p \<Rightarrow> take_plan c p snap))"

definition receive_plan :: "'w core_cfg \<Rightarrow> proposal \<Rightarrow> ('w, reply) core_act" where
  "receive_plan c prop =
     seq (reconcile c)
     (bind (snapshot_of c (prop_session prop)) (\<lambda>snap.
      bind (lift (decide (cc_policy c) snap)) (\<lambda>mine.
      bind (lift (case prop_plan prop of None \<Rightarrow> Inr None | Some j \<Rightarrow> emap Some (plan_from_json j)))
        (take_proposal c prop snap mine))))"

section \<open>Approval and raising cash\<close>

definition approve :: "'w core_cfg \<Rightarrow> string \<Rightarrow> bool \<Rightarrow> ('w, reply) core_act" where
  "approve c pid fund =
     seq (reconcile c)
     (bind (gets (\<lambda>s. cs_plan (rt_data s))) (\<lambda>plan.
      case plan of None \<Rightarrow> raise (PlanRejected ''no_such_plan'')
      | Some r \<Rightarrow>
          if pr_id r \<noteq> pid \<or> pr_status r \<noteq> Awaiting_Approval then raise (PlanRejected ''no_such_plan'')
          else
            seq (if pr_kind r \<noteq> Initial then ret ()
                 else if \<not> fund then raise (PlanRejected ''fund_required'')
                 else bind (ask (cc_cash c)) (\<lambda>cash.
                   if pol_funded_amount_cap_usd (cc_policy c) < cash then raise (PlanRejected ''over_funded'') else ret ()))
           (seq (set_record (\<lambda>r. r\<lparr> pr_status := Approved \<rparr>))
           (seq save
           (seq (journal (Plan_Approved pid fund))
                (ret (Reply_Plan Approved pid (pr_execute_on r))))))))"

text \<open>\<open>_raise_cash\<close>: the sells-only plan of a snapshot, the checks before it, the whole.\<close>

definition cash_plan :: "'w core_cfg \<Rightarrow> decimal \<Rightarrow> snapshot \<Rightarrow> plan result" where
  "cash_plan c amount snap =
     (let held = filter (\<lambda>(s, q). truthy q) (snap_qty snap) in
      ebind (etraverse (\<lambda>(s, q). emap (Pair s) (eget (snap_closes snap) s)) held) (\<lambda>prices.
      case plan_raise_cash (snap_session snap) held prices (snap_cash snap - pol_cash_reserve_usd (cc_policy c)) amount
             (pol_mix (cc_policy c)) (map (\<lambda>(s, q). (s, RAISE_CASH_COST_RATE)) held) (pol_buffer_symbol (cc_policy c))
             (pol_min_order_usd (cc_policy c)) of
        Inl (ValueError m) \<Rightarrow> Inl (PlanRejected ''exceeds_portfolio'')
      | r \<Rightarrow> r))"

definition cash_refusal :: "'w core_cfg \<Rightarrow> date \<Rightarrow> ny_time \<Rightarrow> snapshot \<Rightarrow> plan_record option \<Rightarrow> string option" where
  "cash_refusal c need_by now snap current =
     (if skip_reason (cc_policy c) snap then Some ''not_effective''
      else if snap_next_session snap < ny_date now \<or> (snap_next_session snap = ny_date now \<and> SUBMIT_UNTIL < ny_clock now)
        then Some ''ask_after_the_close''
      else if in_flight current then Some ''plan_in_flight''
      else if need_by < snap_next_session snap then Some ''too_late''
      else None)"

definition raise_cash :: "'w core_cfg \<Rightarrow> decimal \<Rightarrow> date \<Rightarrow> ('w, reply) core_act" where
  "raise_cash c amount need_by =
     seq (reconcile c)
     (bind (now_ny c) (\<lambda>now.
      bind (ask (cc_calendar c)) (\<lambda>sessions.
      bind (now_ny c) (\<lambda>now2.
      case last_published sessions now2 of None \<Rightarrow> raise (PlanRejected ''not_a_session'')
      | Some session \<Rightarrow>
          bind (snapshot_of c session) (\<lambda>snap.
          bind (gets (\<lambda>s. cs_plan (rt_data s))) (\<lambda>current.
          case cash_refusal c need_by now snap current of
            Some code \<Rightarrow> raise (PlanRejected code)
          | None \<Rightarrow> bind (lift (cash_plan c amount snap)) (\<lambda>p. admit c p snap Raise_Cash)))))))"

section \<open>Sending orders\<close>

definition new_order :: "payload \<Rightarrow> string \<Rightarrow> core_order" where
  "new_order pay st = \<lparr> co_symbol = pay_symbol pay, co_side = pay_side pay, co_status = st, co_payload = pay,
      co_filled_qty = None, co_filled_price = None \<rparr>"

definition add_order :: "payload \<Rightarrow> string \<Rightarrow> ('w, unit) core_act" where
  "add_order pay st = set_record (\<lambda>r. r\<lparr> pr_orders := AList.update (pay_client_order_id pay) (new_order pay st) (pr_orders r) \<rparr>)"

definition intent_of :: "payload \<Rightarrow> intent" where
  "intent_of pay = (case pay_side pay of Buy \<Rightarrow> OPEN | Sell \<Rightarrow> REDUCE)"

definition submit :: "'w core_cfg \<Rightarrow> payload \<Rightarrow> ('w, unit) core_act" where
  "submit c pay =
     bind the_record (\<lambda>r.
     if pay_client_order_id pay \<in> set (keys (pr_orders r)) then ret ()
     else
       seq (check_guard c (intent_of pay))
      (attempt (ask (cc_submit c pay))
        (\<lambda>e. if e = OrderRejected
              then Some (seq (add_order pay ''rejected'') (seq save (journal (Order_Rejected (pr_id r) (pay_symbol pay) (pay_side pay)))))
              else None)
        (\<lambda>st. seq (add_order pay st) (seq save (journal (Order_Submitted (pr_id r) pay st))))))"

text \<open>The buys of \<open>_buy\<close>: below the minimum or too small for a payload is skipped, a block ends the loop.\<close>

fun buy_loop :: "'w core_cfg \<Rightarrow> string \<Rightarrow> amounts \<Rightarrow> bool \<Rightarrow> amounts \<Rightarrow> ('w, unit) core_act" where
  "buy_loop c pid closes preopen [] = ret ()"
| "buy_loop c pid closes preopen ((s, notional) # rest) =
     (if notional < pol_min_order_usd (cc_policy c) then buy_loop c pid closes preopen rest
      else
        bind (if preopen then lift (ebind (eget closes s) (preopen_limit Buy))
              else bind (ask (cc_ask c s)) (\<lambda>ask_price. lift (marketable_buy_limit ask_price))) (\<lambda>limit.
        bind (lift (buy_payload pid s notional limit)) (\<lambda>pay.
        case pay of
          None \<Rightarrow> buy_loop c pid closes preopen rest
        | Some p \<Rightarrow>
            attempt (submit c p)
              (\<lambda>e. case e of
                     GuardBlocked code \<Rightarrow> Some (seq (set_record (\<lambda>r. r\<lparr> pr_blocked := True \<rparr>)) (journal (Buy_Blocked pid code)))
                   | _ \<Rightarrow> None)
              (\<lambda>_. buy_loop c pid closes preopen rest))))"

text \<open>Sized once, from the cash the account has then; a resumed attempt reuses the amounts.\<close>

definition scaled_buys :: "'w core_cfg \<Rightarrow> plan \<Rightarrow> ('w, amounts) core_act" where
  "scaled_buys c p =
     bind the_record (\<lambda>r.
     case pr_buys_scaled r of
       Some bs \<Rightarrow> ret bs
     | None \<Rightarrow>
         bind (ask (cc_cash c)) (\<lambda>cash.
         let allowance = CENT * Dec (4 * int (length (buys p)) + 4) 0 in
         bind (lift (scale_buys (buys p) (cash - pol_cash_reserve_usd (cc_policy c) - allowance)
                       (map (\<lambda>(s, n). (s, FEE_ALLOWANCE)) (buys p)) True)) (\<lambda>bs.
         seq (set_record (\<lambda>r. r\<lparr> pr_buys_scaled := Some bs \<rparr>)) (ret bs))))"

definition blocked_buy :: "exn \<Rightarrow> (('w, unit) core_act) option" where
  "blocked_buy e =
     (case e of
        GuardBlocked code \<Rightarrow>
          Some (bind the_record (\<lambda>r.
            seq (journal (Buy_Blocked (pr_id r) code))
                (close_plan (if pr_orders r \<noteq> [] then Abandoned else Deferred) (Some (code \<noteq> ''halted'')))))
      | _ \<Rightarrow> None)"

definition buy :: "'w core_cfg \<Rightarrow> plan \<Rightarrow> amounts \<Rightarrow> bool \<Rightarrow> ('w, unit) core_act" where
  "buy c p closes preopen =
     (if buys p = [] then close_plan Done None
      else
        attempt (check_guard c OPEN) blocked_buy
          (\<lambda>_. bind (scaled_buys c p) (\<lambda>bs.
           bind the_record (\<lambda>r.
           seq (buy_loop c (pr_id r) closes preopen (sorted_items bs))
               (set_record (\<lambda>r. r\<lparr> pr_status := Buying \<rparr>))))))"

section \<open>The tick\<close>

definition submit_sell :: "'w core_cfg \<Rightarrow> plan_record \<Rightarrow> string \<times> decimal \<Rightarrow> ('w, unit) core_act" where
  "submit_sell c r sq =
     bind (lift (ebind (eget (pr_closes r) (fst sq)) (sell_payload (pr_id r) (fst sq) (snd sq)))) (submit c)"

definition blocked_start :: "'w core_cfg \<Rightarrow> exn \<Rightarrow> (('w, unit) core_act) option" where
  "blocked_start c e =
     (case e of
        GuardBlocked code \<Rightarrow>
          Some (bind the_record (\<lambda>r.
            if pr_orders r \<noteq> [] then abandon c (code \<noteq> ''halted'')
            else close_plan (if code \<noteq> ''halted'' then Deferred else Halted) (Some (code \<noteq> ''halted''))))
      | _ \<Rightarrow> None)"

definition blocked_sell :: "'w core_cfg \<Rightarrow> exn \<Rightarrow> (('w, unit) core_act) option" where
  "blocked_sell c e = (case e of GuardBlocked code \<Rightarrow> Some (abandon c (code \<noteq> ''halted'')) | _ \<Rightarrow> None)"

definition start :: "'w core_cfg \<Rightarrow> ('w, unit) core_act" where
  "start c =
     bind the_record (\<lambda>r.
     bind (lift (plan_from_json (pr_plan r))) (\<lambda>p.
     attempt (check_guard c (if buys p \<noteq> [] then OPEN else REDUCE)) (blocked_start c)
       (\<lambda>_. attempt (foreach (submit_sell c r) (sorted_items (sells p))) (blocked_sell c)
         (\<lambda>_. seq (if sells p \<noteq> [] then set_record (\<lambda>r. r\<lparr> pr_status := Selling \<rparr>) else buy c p (pr_closes r) True)
                   save))))"

definition all_terminal :: "core_order list \<Rightarrow> bool" where
  "all_terminal xs \<longleftrightarrow> (\<forall>x \<in> set xs. co_status x \<in> set TERMINAL)"

definition OPEN_AT :: time_of_day where "OPEN_AT = hms 9 30 0"

definition after_sells :: "'w core_cfg \<Rightarrow> ny_time \<Rightarrow> ('w, unit) core_act" where
  "after_sells c now =
     bind (refresh c Sell) (\<lambda>xs.
     let done = all_terminal xs in
     if \<not> done \<and> ny_clock now < OPEN_AT + minutes SELL_DEADLINE_MINUTES then save
     else
       bind the_record (\<lambda>r.
       seq (if done then ret ()
            else seq (ask (cc_cancel c)) (bind (refresh c Sell) (\<lambda>_. journal (Sells_Cancelled (pr_id r)))))
      (bind the_record (\<lambda>r.
       bind (lift (plan_from_json (pr_plan r))) (\<lambda>p.
       seq (buy c p (pr_closes r) False) save)))))"

definition after_buys :: "'w core_cfg \<Rightarrow> ny_time \<Rightarrow> ('w, unit) core_act" where
  "after_buys c now =
     bind (refresh c Buy) (\<lambda>xs.
     let done = all_terminal xs in
     if \<not> done \<and> ny_clock now < OPEN_AT + minutes BUY_DEADLINE_MINUTES then save
     else
       bind the_record (\<lambda>r.
       seq (if done then ret ()
            else seq (ask (cc_cancel c)) (bind (refresh c Buy) (\<lambda>_. journal (Buys_Cancelled (pr_id r)))))
           (close_plan Done None)))"

definition tick :: "'w core_cfg \<Rightarrow> ('w, unit) core_act" where
  "tick c =
     seq (reconcile c)
     (bind (gets (\<lambda>s. cs_plan (rt_data s))) (\<lambda>plan.
      case plan of None \<Rightarrow> ret ()
      | Some r \<Rightarrow>
          bind (now_ny c) (\<lambda>now.
          if ny_date now \<noteq> pr_execute_on r then ret ()
          else if pr_status r = Approved \<and> SUBMIT_FROM \<le> ny_clock now \<and> ny_clock now \<le> SUBMIT_UNTIL then start c
          else if pr_status r = Selling then after_sells c now
          else if pr_status r = Buying then after_buys c now
          else ret ())))"

text \<open>\<open>run_tick\<close>: a failure is counted and journaled at the third and every 240th in a row, never raised.\<close>

definition count_failure :: "('w, unit) core_act" where
  "count_failure =
     seq (update (\<lambda>s. s\<lparr> rt_tick_failures := rt_tick_failures s + 1 \<rparr>))
     (bind (gets rt_tick_failures) (\<lambda>n.
      if n = TICK_FAILURES_BEFORE_ALERT \<or> n mod TICK_FAILURES_REPEAT_EVERY = 0 then journal (Tick_Failed n) else ret ()))"

definition run_tick :: "'w core_cfg \<Rightarrow> ('w, unit) core_act" where
  "run_tick c =
     attempt (tick c) (\<lambda>_. Some count_failure)
       (\<lambda>_. seq (update (\<lambda>s. s\<lparr> rt_tick_failures := 0 \<rparr>))
            (bind (now_ny c) (\<lambda>now. update (\<lambda>s. s\<lparr> rt_last_tick := Some now \<rparr>))))"

section \<open>The shadow line\<close>

definition order_shortfall :: "core_order \<Rightarrow> decimal \<Rightarrow> decimal \<Rightarrow> decimal \<Rightarrow> shortfall option result" where
  "order_shortfall x open_price half_spread slippage =
     (case co_filled_price x of
        None \<Rightarrow> Inr None
      | Some price \<Rightarrow>
          if co_status x \<noteq> ''filled'' then Inr None
          else emap Some (shortfall_bps (co_side x) price open_price half_spread slippage))"

end
