(* ===== verification/Core_Demo.thy ===== *)
theory Core_Demo imports Core_Execution begin

text \<open>
  A small broker for concrete runs of the core router: its answers come from scripts, its orders are the ones it
  was sent. Used by the witnesses, and to show what a run of the code does where it does not do what it means to.
\<close>

section \<open>The policy and the broker\<close>

definition demo_policy :: core_policy where
  "demo_policy =
     \<lparr> pol_account = ''PA1'', pol_registration = ''r'', pol_evidence_run = ''e'', pol_evidence_config = ''c'',
       pol_effective_from = Date 2026 1 1, pol_funded_amount_cap_usd = Dec 1000 0,
       pol_mix = [(''VTI'', Dec 5 (-1)), (''BND'', Dec 3 (-1)), (''VXUS'', Dec 2 (-1))],
       pol_rule = \<lparr> rule_name = ''monthly'', rule_period = Some Month, rule_band = None, rule_never = False \<rparr>,
       pol_buffer_symbol = Some ''BND'', pol_buffer_target = Dec 3 (-1), pol_max_order_usd = Dec 1000 0, pol_max_turnover_pct = Dec 25 0,
       pol_min_order_usd = Dec 1 0, pol_cash_reserve_usd = 0, pol_max_trades_per_week = 40,
       pol_max_trade_value_pct_per_week = Dec 100 0, pol_approval_needed_above_usd = Dec 500 0, pol_drawdown_ladder = ''off'',
       pol_receipts_to_pfw = False, pol_sha256 = ''sha'' \<rparr>"

record demo_world =
  dw_now :: ny_time
  dw_orders :: "(string \<times> order_view) list"
  dw_quotes :: "decimal result list"
  dw_envs :: "guard_env list"
  dw_cash :: decimal
  dw_positions :: "(string \<times> decimal) list"

definition demo_env :: "int \<Rightarrow> decimal \<Rightarrow> guard_env" where
  "demo_env t equity = \<lparr> env_day = Date 2026 9 8, env_mono1 = t, env_mono2 = t, env_account = Inr (equity, Dec 1000 0) \<rparr>"

definition demo_view :: "string \<Rightarrow> order_view" where
  "demo_view st = \<lparr> ov_status = st, ov_filled_qty = None, ov_filled_avg_price = None \<rparr>"

definition demo_reads :: "date \<Rightarrow> demo_world \<Rightarrow> demo_world \<times> reads" where
  "demo_reads d w =
     (w, \<lparr> rd_calendar = Inr [Date 2026 8 31, Date 2026 9 1, Date 2026 9 7, Date 2026 9 8], rd_cash = Inr (dw_cash w),
           rd_positions = Inr (dw_positions w),
           rd_bars = Inr (map (\<lambda>s. (s, [(d, Dec 10 0)])) [''VTI'', ''BND'', ''VXUS'']) \<rparr>)"

definition demo_cfg :: "demo_world core_cfg" where
  "demo_cfg =
     \<lparr> cc_policy = demo_policy, cc_digest = (\<lambda>snap. ''d''), cc_plan_id = (\<lambda>j d. pj_reason j @ d), cc_now = (\<lambda>w. (w, dw_now w)),
       cc_guard_env = (\<lambda>w. (w\<lparr> dw_envs := tl (dw_envs w) \<rparr>, hd (dw_envs w))),
       cc_account_number = (\<lambda>w. (w, Inr ''PA1'')), cc_cash = (\<lambda>w. (w, Inr (dw_cash w))), cc_reads = demo_reads,
       cc_calendar = (\<lambda>w. (w, Inr [Date 2026 8 31, Date 2026 9 1, Date 2026 9 7])),
       cc_ask = (\<lambda>s w. (w\<lparr> dw_quotes := tl (dw_quotes w) \<rparr>, hd (dw_quotes w))),
       cc_submit = (\<lambda>p w. (w\<lparr> dw_orders := dw_orders w @ [(pay_client_order_id p, demo_view ''new'')] \<rparr>, Inr ''new'')),
       cc_lookup = (\<lambda>cid w. (w, Inr (map_of (dw_orders w) cid))),
       cc_cancel = (\<lambda>w. (w\<lparr> dw_orders := map (\<lambda>(i, v). (i, if ov_status v = ''new'' then demo_view ''canceled'' else v)) (dw_orders w) \<rparr>, Inr ())) \<rparr>"

text \<open>A plan that sells VTI and buys two others: its sell has been sent, and filled.\<close>

definition demo_plan :: plan where
  "demo_plan = \<lparr> decided_on = Date 2026 9 7, targets = pol_mix demo_policy, sells = [(''VTI'', Dec 10 0)],
     buys = [(''BND'', Dec 60 0), (''VXUS'', Dec 40 0)], reason = ''rebalance'' \<rparr>"

definition demo_sell :: payload where
  "demo_sell = \<lparr> pay_symbol = ''VTI'', pay_side = Sell, pay_tif = day_order, pay_qty = Some (Dec 10 0), pay_notional = None,
     pay_limit_price = Dec 97 (-1), pay_client_order_id = ''core-p-VTI-s'', pay_extended_hours = False \<rparr>"

definition demo_record :: "plan_status \<Rightarrow> (string \<times> core_order) list \<Rightarrow> plan_record" where
  "demo_record st os =
     \<lparr> pr_id = ''p'', pr_kind = Rebalance, pr_status = st, pr_plan = plan_to_json demo_plan, pr_decided_on = Date 2026 9 7,
       pr_execute_on = Date 2026 9 8, pr_closes = [(''VTI'', Dec 10 0), (''BND'', Dec 10 0), (''VXUS'', Dec 10 0)],
       pr_redecision = False, pr_orders = os, pr_buys_scaled = None, pr_blocked = False \<rparr>"

definition demo_data :: "plan_record option \<Rightarrow> core_state" where
  "demo_data r = \<lparr> cs_plan = r, cs_history = [], cs_targets = [], cs_forced = False, cs_initial_incomplete = False \<rparr>"

definition demo_rt :: "'w \<Rightarrow> plan_record option \<Rightarrow> 'w core_rt" where
  "demo_rt w r =
     \<lparr> rt_data = demo_data r, rt_disk = demo_data r, rt_guard = \<lparr> g_store = open_store No_File, g_cache = None \<rparr>,
       rt_world = w, rt_journal = [], rt_tick_failures = 0, rt_last_tick = None \<rparr>"

definition demo_filled :: order_view where
  "demo_filled = \<lparr> ov_status = ''filled'', ov_filled_qty = Some (Dec 10 0), ov_filled_avg_price = Some (Dec 10 0) \<rparr>"

end
