(* ===== verification/Core_Once.thy ===== *)
theory Core_Once imports Core_Demo begin

text \<open>
  At most once: over any run of ticks, however many of them fail part-way and however often the process is
  restarted from its state file in between, no client order id of a plan is answered twice by the broker. The
  broker is wrapped in a log of the ids it answered (with an order or a refusal); a submission whose outcome is
  unknown is not in the log, and is what \<open>Alpaca_Submit_Laws\<close> is about.
\<close>

section \<open>The log of answers\<close>

definition beside :: "('w \<Rightarrow> 'w \<times> 'a) \<Rightarrow> string list \<times> 'w \<Rightarrow> (string list \<times> 'w) \<times> 'a" where
  "beside f w = (case f (snd w) of (w', x) \<Rightarrow> ((fst w, w'), x))"

definition answered :: "'a result \<Rightarrow> bool" where
  "answered r \<longleftrightarrow> (\<forall>e. r = Inl e \<longrightarrow> e = OrderRejected)"

definition counting :: "'w core_cfg \<Rightarrow> (string list \<times> 'w) core_cfg" where
  "counting c =
     \<lparr> cc_policy = cc_policy c, cc_digest = cc_digest c, cc_plan_id = cc_plan_id c, cc_now = beside (cc_now c),
       cc_guard_env = beside (cc_guard_env c), cc_account_number = beside (cc_account_number c), cc_cash = beside (cc_cash c),
       cc_reads = (\<lambda>d. beside (cc_reads c d)), cc_calendar = beside (cc_calendar c), cc_ask = (\<lambda>s. beside (cc_ask c s)),
       cc_submit = (\<lambda>pay w. case cc_submit c pay (snd w) of
          (w', r) \<Rightarrow> ((if answered r then fst w @ [pay_client_order_id pay] else fst w, w'), r)),
       cc_lookup = (\<lambda>cid. beside (cc_lookup c cid)), cc_cancel = beside (cc_cancel c) \<rparr>"

definition answers :: "(string list \<times> 'w) core_rt \<Rightarrow> string list" where
  "answers s = fst (rt_world s)"

text \<open>Every answer is in the orders of the plan, in memory and on disk, and none is there twice.\<close>

definition known :: "string set \<Rightarrow> core_state \<Rightarrow> bool" where
  "known ids d \<longleftrightarrow> (\<forall>r. cs_plan d = Some r \<longrightarrow> ids \<subseteq> set (keys (pr_orders r)))"

text \<open>\<open>sent\<close> are the ids the plan had orders for at the start, \<open>old\<close> the answers before it.\<close>

definition once :: "string set \<Rightarrow> string list \<Rightarrow> (string list \<times> 'w) core_rt \<Rightarrow> bool" where
  "once sent old s \<longleftrightarrow>
     (\<exists>new. answers s = old @ new \<and> distinct new \<and> set new \<inter> sent = {} \<and>
        known (sent \<union> set new) (rt_data s) \<and> known (sent \<union> set new) (rt_disk s))"

lemma beside_fst: "beside f w = (w', x) \<Longrightarrow> fst w' = fst w"
  by (auto simp: beside_def split: prod.splits)

section \<open>Every action keeps it\<close>

lemma once_world [simp]: "once sent old (s\<lparr> rt_world := (fst (rt_world s), w) \<rparr>) = once sent old s"
  "once sent old (s\<lparr> rt_world := (fst (rt_world s), w), rt_guard := g \<rparr>) = once sent old s"
  by (simp_all add: once_def answers_def)

lemma keeps_ask_beside [keeps_rules]: "keeps (once sent old) (ask (beside f))"
  by (simp add: keeps_def ask_def beside_def split: prod.split)

lemma counting_sel [simp]:
  "cc_policy (counting c) = cc_policy c" "cc_now (counting c) = beside (cc_now c)" "cc_guard_env (counting c) = beside (cc_guard_env c)"
  "cc_account_number (counting c) = beside (cc_account_number c)" "cc_cash (counting c) = beside (cc_cash c)"
  "cc_calendar (counting c) = beside (cc_calendar c)" "cc_ask (counting c) ticker = beside (cc_ask c ticker)"
  "cc_lookup (counting c) cid = beside (cc_lookup c cid)" "cc_cancel (counting c) = beside (cc_cancel c)"
  "cc_submit (counting c) pay w = (case cc_submit c pay (snd w) of
     (w', r) \<Rightarrow> ((if answered r then fst w @ [pay_client_order_id pay] else fst w, w'), r))"
  by (simp_all add: counting_def)

lemma keeps_asks [keeps_rules]:
  "keeps (once sent old) (ask (cc_account_number (counting c)))" "keeps (once sent old) (ask (cc_cash (counting c)))"
  "keeps (once sent old) (ask (cc_calendar (counting c)))" "keeps (once sent old) (ask (cc_ask (counting c) x))"
  "keeps (once sent old) (ask (cc_lookup (counting c) cid))" "keeps (once sent old) (ask (cc_cancel (counting c)))"
  by (simp_all add: keeps_ask_beside)

lemma keeps_now [keeps_rules]: "keeps (once sent old) (now_ny (counting (c :: 'w core_cfg)))"
proof (unfold keeps_def, intro allI impI)
  fix s :: "(string list \<times> 'w) core_rt" assume "once sent old s"
  moreover obtain w t where "cc_now c (snd (rt_world s)) = (w, t)" by fastforce
  ultimately show "once sent old (fst (now_ny (counting c) s))" by (simp add: now_ny_def beside_def)
qed

lemma keeps_check_guard [keeps_rules]: "keeps (once sent old) (check_guard (counting (c :: 'w core_cfg)) i)"
proof (unfold keeps_def, intro allI impI)
  fix s :: "(string list \<times> 'w) core_rt" assume "once sent old s"
  moreover obtain w e where "cc_guard_env c (snd (rt_world s)) = (w, e)" by fastforce
  moreover obtain g x where "guard_check i e (rt_guard s) = (g, x)" by fastforce
  ultimately show "once sent old (fst (check_guard (counting c) i s))" by (simp add: check_guard_def beside_def)
qed

lemma keeps_the_record [keeps_rules]: "keeps P the_record"
  by (simp add: keeps_def the_record_def)

lemma once_data:
  assumes "once sent old s" "\<And>ids. known ids (rt_data s) \<Longrightarrow> known ids d"
  shows "once sent old (s\<lparr> rt_data := d \<rparr>)"
proof -
  from assms(1) obtain new where new: "answers s = old @ new" "distinct new" "set new \<inter> sent = {}"
    "known (sent \<union> set new) (rt_data s)" "known (sent \<union> set new) (rt_disk s)" unfolding once_def by blast
  show ?thesis unfolding once_def by (intro exI [of _ new]) (use new assms(2) in \<open>simp add: answers_def\<close>)
qed

lemma keeps_set_data [keeps_rules]:
  assumes "\<And>d. cs_plan (f d) = None \<or> cs_plan (f d) = cs_plan d" shows "keeps (once sent old) (set_data f)"
  unfolding set_data_def
proof (rule keeps_update, erule once_data)
  fix s :: "(string list \<times> 'a) core_rt" and ids
  show "known ids (rt_data s) \<Longrightarrow> known ids (f (rt_data s))" using assms [of "rt_data s"] unfolding known_def by auto
qed

lemma keeps_set_record [keeps_rules]:
  assumes "\<And>r. set (keys (pr_orders r)) \<subseteq> set (keys (pr_orders (f r)))" shows "keeps (once sent old) (set_record f)"
  unfolding set_record_def set_data_def
proof (rule keeps_update, erule once_data)
  fix s :: "(string list \<times> 'a) core_rt" and ids
  show "known ids (rt_data s) \<Longrightarrow> known ids (rt_data s\<lparr> cs_plan := map_option f (cs_plan (rt_data s)) \<rparr>)"
    using assms unfolding known_def by fastforce
qed

lemma keeps_save [keeps_rules]: "keeps (once sent old) save"
  unfolding save_def by (rule keeps_update) (simp add: once_def answers_def, blast)

lemma keeps_journal [keeps_rules]: "keeps (once sent old) (journal ev)"
  unfolding journal_def by (intro keeps_rules keeps_update) (simp add: once_def answers_def)

lemma check_guard_rt:
  "check_guard (counting c) i s = (s', r) \<Longrightarrow> rt_data s' = rt_data s \<and> rt_disk s' = rt_disk s \<and> answers s' = answers s"
proof -
  assume a: "check_guard (counting c) i s = (s', r)"
  obtain w e where w: "cc_guard_env c (snd (rt_world s)) = (w, e)" by fastforce
  obtain g x where "guard_check i e (rt_guard s) = (g, x)" by fastforce
  with a w show ?thesis by (auto simp: check_guard_def answers_def beside_def)
qed

lemma add_order_known: "known ids d \<Longrightarrow>
    known (insert (pay_client_order_id pay) ids)
      (d\<lparr> cs_plan := map_option (\<lambda>r. r\<lparr> pr_orders := AList.update (pay_client_order_id pay) x (pr_orders r) \<rparr>) (cs_plan d) \<rparr>)"
  by (auto simp: known_def keys_update)

definition send_payload :: "'w core_cfg \<Rightarrow> payload \<Rightarrow> string \<Rightarrow> ('w, unit) core_act" where
  "send_payload c pay pid =
     attempt (ask (cc_submit c pay))
        (\<lambda>e. if e = OrderRejected
              then Some (seq (add_order pay ''rejected'') (seq save (journal (Order_Rejected pid (pay_symbol pay) (pay_side pay)))))
              else None)
        (\<lambda>st. seq (add_order pay st) (seq save (journal (Order_Submitted pid pay st))))"

lemma submit_eq:
  assumes "cs_plan (rt_data s) = Some r"
  shows "submit c pay s = (if pay_client_order_id pay \<in> set (keys (pr_orders r)) then (s, Inr ())
    else seq (check_guard c (intent_of pay)) (send_payload c pay (pr_id r)) s)"
  using assms by (simp add: submit_def bind_def the_record_def send_payload_def)

lemma submit_sends:
  assumes "check_guard (counting c) (intent_of pay) s = (s1, Inr ())" "cs_plan (rt_data s) = Some r"
    and "pay_client_order_id pay \<notin> set (keys (pr_orders r))"
    and "cc_submit c pay (snd (rt_world s1)) = (w, x)"
  shows "submit (counting c) pay s =
    (if answered x then
       seq (add_order pay (case x of Inl e \<Rightarrow> ''rejected'' | Inr st \<Rightarrow> st))
         (seq save (journal (case x of Inl e \<Rightarrow> Order_Rejected (pr_id r) (pay_symbol pay) (pay_side pay) | Inr st \<Rightarrow> Order_Submitted (pr_id r) pay st)))
         (s1\<lparr> rt_world := (answers s1 @ [pay_client_order_id pay], w) \<rparr>)
     else (s1\<lparr> rt_world := (answers s1, w) \<rparr>, Inl (projl x)))"
proof -
  have a: "ask (cc_submit (counting c) pay) s1 =
      (s1\<lparr> rt_world := (if answered x then answers s1 @ [pay_client_order_id pay] else answers s1, w) \<rparr>, x)"
    using assms(4) by (simp add: ask_def answers_def)
  have "submit (counting c) pay s = send_payload (counting c) pay (pr_id r) s1"
    using assms(1,3) by (simp add: submit_eq [OF assms(2)] seq_Inr)
  also have "\<dots> = (if answered x then
       seq (add_order pay (case x of Inl e \<Rightarrow> ''rejected'' | Inr st \<Rightarrow> st))
         (seq save (journal (case x of Inl e \<Rightarrow> Order_Rejected (pr_id r) (pay_symbol pay) (pay_side pay) | Inr st \<Rightarrow> Order_Submitted (pr_id r) pay st)))
         (s1\<lparr> rt_world := (answers s1 @ [pay_client_order_id pay], w) \<rparr>)
     else (s1\<lparr> rt_world := (answers s1, w) \<rparr>, Inl (projl x)))"
  proof (cases x)
    case (Inl e)
    then show ?thesis using a by (simp add: attempt_Inl send_payload_def answered_def)
  next
    case (Inr st)
    then show ?thesis using a by (simp add: attempt_Inr send_payload_def answered_def)
  qed
  finally show ?thesis .
qed

lemma keeps_submit [keeps_rules]: "keeps (once sent old) (submit (counting (c :: 'w core_cfg)) pay)"
proof (unfold keeps_def, intro allI impI)
  fix s :: "(string list \<times> 'w) core_rt"
  assume s: "once sent old s"
  let ?cid = "pay_client_order_id pay"
  show "once sent old (fst (submit (counting c) pay s))"
  proof (cases "\<exists>r s1. cs_plan (rt_data s) = Some r \<and> ?cid \<notin> set (keys (pr_orders r)) \<and> check_guard (counting c) (intent_of pay) s = (s1, Inr ())")
    case False
    obtain s1 y where g: "check_guard (counting c) (intent_of pay) s = (s1, y)" by (cases "check_guard (counting c) (intent_of pay) s")
    have "fst (submit (counting c) pay s) = s \<or> fst (submit (counting c) pay s) = s1"
      using False g by (cases y) (auto simp: submit_def bind_def seq_def the_record_def split: option.splits)
    moreover have "once sent old s1" using keeps_check_guard [of sent old c "intent_of pay"] s g unfolding keeps_def by (metis fst_conv)
    ultimately show ?thesis using s by auto
  next
    case True
    then obtain r s1 where r: "cs_plan (rt_data s) = Some r" "?cid \<notin> set (keys (pr_orders r))"
      and g: "check_guard (counting c) (intent_of pay) s = (s1, Inr ())" by blast
    obtain w x where x: "cc_submit c pay (snd (rt_world s1)) = (w, x)" by (cases "cc_submit c pay (snd (rt_world s1))")
    note S = submit_sends [OF g r x] and G = check_guard_rt [OF g]
    from s obtain new where new: "answers s = old @ new" "distinct new" "set new \<inter> sent = {}"
      "known (sent \<union> set new) (rt_data s)" "known (sent \<union> set new) (rt_disk s)" by (auto simp: once_def)
    have fresh: "?cid \<notin> sent \<union> set new" using new(4) r by (auto simp: known_def)
    show ?thesis
    proof (cases "answered x")
      case False
      then show ?thesis unfolding S using new G by (auto simp: once_def answers_def)
    next
      case True
      have "known (insert ?cid (sent \<union> set new)) (rt_data s\<lparr> cs_plan := map_option (\<lambda>r. r\<lparr> pr_orders := AList.update ?cid y (pr_orders r) \<rparr>) (cs_plan (rt_data s)) \<rparr>)" for y
        using new(4) by (rule add_order_known)
      then have "\<exists>n. old @ new @ [?cid] = old @ n \<and> distinct n \<and> set n \<inter> sent = {} \<and>
          known (sent \<union> set n) (rt_data s\<lparr> cs_plan := map_option (\<lambda>r. r\<lparr> pr_orders := AList.update ?cid y (pr_orders r) \<rparr>) (cs_plan (rt_data s)) \<rparr>)" for y
        by (intro exI [of _ "new @ [?cid]"]) (use new fresh in auto)
      then show ?thesis unfolding S using True G new(1)
        by (simp add: add_order_def set_record_def set_data_def save_def journal_def seq_def bind_def once_def answers_def)
    qed
  qed
qed

lemma keeps_refresh [keeps_rules]: "keeps (once sent old) (refresh (counting c) sd)"
  unfolding refresh_def refresh_one_def by (intro keeps_rules) (auto simp: keys_update)

lemma keeps_close [keeps_rules]: "keeps (once sent old) (close_plan st f)"
  unfolding close_plan_def record_history_def Let_def by (intro keeps_rules) auto

lemma keeps_abandon [keeps_rules]: "keeps (once sent old) (abandon (counting c) f)"
  unfolding abandon_def by (intro keeps_rules) (auto intro: keeps_rules)

lemma keeps_reconcile [keeps_rules]: "keeps (once sent old) (reconcile (counting c))"
  unfolding reconcile_def by (intro keeps_rules)

lemma keeps_blocked:
  "blocked_buy e = Some m \<Longrightarrow> keeps (once sent old) m"
  "blocked_start (counting c) e = Some m \<Longrightarrow> keeps (once sent old) m"
  "blocked_sell (counting c) e = Some m \<Longrightarrow> keeps (once sent old) m"
  by (auto simp: blocked_buy_def blocked_start_def blocked_sell_def intro!: keeps_rules split: exn.splits)

lemma keeps_buy_loop [keeps_rules]: "keeps (once sent old) (buy_loop (counting c) pid closes preopen bs)"
proof (induction bs)
  case (Cons b bs)
  obtain s n where b: "b = (s, n)" by fastforce
  show ?case unfolding b buy_loop.simps
    by (intro keeps_rules Cons; (simp split: exn.splits)?) (elim subst; intro keeps_rules; simp)+
qed (simp only: buy_loop.simps keeps_ret)

lemma keeps_scaled_buys [keeps_rules]: "keeps (once sent old) (scaled_buys (counting c) p)"
  unfolding scaled_buys_def Let_def by (intro keeps_rules) auto

lemma keeps_buy [keeps_rules]: "keeps (once sent old) (buy (counting c) p closes preopen)"
  unfolding buy_def by (intro keeps_rules; (erule keeps_blocked | simp))

lemma keeps_start [keeps_rules]: "keeps (once sent old) (start (counting c))"
  unfolding start_def submit_sell_def by (intro keeps_rules; (erule keeps_blocked | simp))

lemma keeps_after [keeps_rules]:
  "keeps (once sent old) (after_sells (counting c) now)" "keeps (once sent old) (after_buys (counting c) now)"
  unfolding after_sells_def after_buys_def Let_def by (intro keeps_rules)+

lemma keeps_bookkeeping [keeps_rules]:
  "keeps (once sent old) (update (\<lambda>s. s\<lparr> rt_tick_failures := f s \<rparr>))" "keeps (once sent old) (update (\<lambda>s. s\<lparr> rt_last_tick := g s \<rparr>))"
  by (rule keeps_update, simp add: once_def answers_def)+

lemma keeps_run_tick: "keeps (once sent old) (run_tick (counting c))"
  unfolding run_tick_def tick_def count_failure_def Let_def
  by (intro keeps_rules; (clarify; intro keeps_rules)?)

section \<open>Over a run\<close>

text \<open>A run is ticks and restarts: a restart reads the state and the kill switch from their files.\<close>

datatype run_event = Tick | Crash

definition crash :: "'w core_rt \<Rightarrow> 'w core_rt" where
  "crash s = s\<lparr> rt_data := rt_disk s, rt_guard := guard_restart (rt_guard s), rt_tick_failures := 0, rt_last_tick := None \<rparr>"

fun run :: "'w core_cfg \<Rightarrow> run_event list \<Rightarrow> 'w core_rt \<Rightarrow> 'w core_rt" where
  "run c [] s = s"
| "run c (Tick # evs) s = run c evs (fst (run_tick c s))"
| "run c (Crash # evs) s = run c evs (crash s)"

lemma crash_once: "once sent old s \<Longrightarrow> once sent old (crash s)"
  unfolding once_def crash_def answers_def by auto

lemma run_once: "once sent old s \<Longrightarrow> once sent old (run (counting c) evs s)"
proof (induction evs arbitrary: s)
  case (Cons ev evs)
  show ?case
  proof (cases ev)
    case Tick
    have "once sent old (fst (run_tick (counting c) s))" using keeps_run_tick Cons.prems unfolding keeps_def by blast
    with Cons.IH show ?thesis by (simp add: Tick)
  next
    case Crash
    from Cons.IH [OF crash_once [OF Cons.prems]] show ?thesis by (simp add: Crash)
  qed
qed simp

text \<open>
  C11. An order is answered at most once. From the moment a plan is on disk, over any number of ticks (each
  may fail at any request and is retried by the next) and any number of restarts in between, the broker answers
  each client order id at most once, and none of those the plan already has an order for.
\<close>

theorem orders_answered_once:
  assumes "cs_plan (rt_data s) = Some r" "rt_disk s = rt_data s"
  shows "\<exists>new. answers (run (counting c) evs s) = answers s @ new \<and> distinct new \<and> set new \<inter> set (keys (pr_orders r)) = {}"
proof -
  have "once (set (keys (pr_orders r))) (answers s) s" using assms by (simp add: once_def known_def)
  from run_once [OF this] show ?thesis unfolding once_def by blast
qed

theorem orders_answered_once_witness:
  "\<exists>new. answers (run (counting demo_cfg) [Tick, Crash, Tick] (demo_rt ([], \<lparr> dw_now = \<lparr> ny_date = Date 2026 9 8, ny_clock = hms 9 40 0 \<rparr>,
      dw_orders = [], dw_quotes = [Inl TransportError, Inr (Dec 10 0), Inr (Dec 10 0)], dw_envs = replicate 9 (demo_env 0 (Dec 1000 0)),
      dw_cash = Dec 100 0, dw_positions = [] \<rparr>) (Some (demo_record Selling [])))) = new \<and> distinct new"
  using orders_answered_once [of "demo_rt ([], \<lparr> dw_now = \<lparr> ny_date = Date 2026 9 8, ny_clock = hms 9 40 0 \<rparr>,
      dw_orders = [], dw_quotes = [Inl TransportError, Inr (Dec 10 0), Inr (Dec 10 0)], dw_envs = replicate 9 (demo_env 0 (Dec 1000 0)),
      dw_cash = Dec 100 0, dw_positions = [] \<rparr>) (Some (demo_record Selling []))" "demo_record Selling []" demo_cfg "[Tick, Crash, Tick]"]
  by (auto simp: demo_rt_def demo_data_def answers_def)

end
