(* ===== verification/Core_Lifecycle.thy ===== *)
theory Core_Lifecycle imports Core_Demo begin

text \<open>
  The lifecycle that the module's documentation draws, as a step relation, and the proof that the execution
  refines it: a tick moves a plan's status only along it, and ends a plan only in one of its final states.
\<close>

section \<open>The documented lifecycle\<close>

inductive lifecycle :: "plan_status \<Rightarrow> plan_status \<Rightarrow> bool" where
  approve: "lifecycle Awaiting_Approval Approved"
| window_passed: "st = Awaiting_Approval \<or> st = Approved \<Longrightarrow> lifecycle st Expired"
| blocked: "lifecycle Approved Deferred"
| switched_off: "lifecycle Approved Halted"
| send_sells: "lifecycle Approved Selling"
| send_buys: "st = Approved \<or> st = Selling \<Longrightarrow> lifecycle st Buying"
| finish: "st = Approved \<or> st = Selling \<or> st = Buying \<Longrightarrow> lifecycle st Done"
| give_up: "st = Awaiting_Approval \<or> st = Approved \<or> st = Selling \<or> st = Buying \<Longrightarrow> lifecycle st Abandoned"

code_pred lifecycle .

inductive_cases lifecycleE: "lifecycle st st'"
inductive_simps lifecycle_from: "lifecycle Awaiting_Approval st" "lifecycle Approved st" "lifecycle Selling st" "lifecycle Buying st" "lifecycle Done st"
  "lifecycle Expired st" "lifecycle Abandoned st" "lifecycle Deferred st" "lifecycle Halted st"

definition final :: "plan_status \<Rightarrow> bool" where
  "final st \<longleftrightarrow> st \<in> {Done, Expired, Abandoned, Deferred, Halted}"

lemma final_iff: "final st \<longleftrightarrow> (\<forall>st'. \<not> lifecycle st st')"
  by (cases st) (auto simp: final_def lifecycle_from intro: exI [of _ Done])

text \<open>The lifecycle is a finite tree of depth four: it ends.\<close>

lemma lifecycle_terminates: "wfP (\<lambda>b a. lifecycle a b)"
proof -
  let ?rank = "\<lambda>st. case st of Awaiting_Approval \<Rightarrow> 4 | Approved \<Rightarrow> 3 | Selling \<Rightarrow> 2 | Buying \<Rightarrow> 1 | _ \<Rightarrow> (0::nat)"
  have "lifecycle a b \<Longrightarrow> ?rank b < ?rank a" for a b by (cases rule: lifecycleE) auto
  then show ?thesis by (intro wfp_if_convertible_to_nat [of _ ?rank]) auto
qed

section \<open>What a tick keeps\<close>

text \<open>
  \<open>live i st j\<close>: plan \<open>i\<close> is there with status \<open>st\<close>, and a plan that sells has an order; \<open>j\<close> is a
  prefix of the journal. \<open>reached\<close>: the plan is there with a status the lifecycle reaches, or it was closed in such a
  status, and one that says that nothing was sent was closed without orders.
\<close>

definition live :: "string \<Rightarrow> plan_status \<Rightarrow> event list \<Rightarrow> 'w core_rt \<Rightarrow> bool" where
  "live i st j s \<longleftrightarrow>
     (\<exists>r. cs_plan (rt_data s) = Some r \<and> pr_id r = i \<and> pr_status r = st \<and> (st = Selling \<longrightarrow> pr_orders r \<noteq> [])) \<and>
     (\<exists>new. rt_journal s = j @ new)"

definition closed_as :: "string \<Rightarrow> plan_status \<Rightarrow> event list \<Rightarrow> bool" where
  "closed_as i st evs \<longleftrightarrow> (\<exists>st' k os. Plan_Closed i st' k os \<in> set evs \<and> lifecycle\<^sup>*\<^sup>* st st' \<and> final st' \<and>
      (st' \<in> {Expired, Deferred, Halted} \<longrightarrow> os = []))"

definition reached :: "string \<Rightarrow> plan_status \<Rightarrow> event list \<Rightarrow> 'w core_rt \<Rightarrow> bool" where
  "reached i st j s \<longleftrightarrow>
     (\<exists>new. rt_journal s = j @ new \<and>
       (case cs_plan (rt_data s) of
          Some r \<Rightarrow> pr_id r = i \<and> lifecycle\<^sup>*\<^sup>* st (pr_status r) \<and> (pr_status r = Selling \<longrightarrow> pr_orders r \<noteq> [])
        | None \<Rightarrow> closed_as i st new))"

lemma live_reached: "live i st' j s \<Longrightarrow> lifecycle\<^sup>*\<^sup>* st st' \<Longrightarrow> reached i st j s"
  by (auto simp: live_def reached_def)

lemma live_world [simp]: "live i st j (s\<lparr> rt_world := w \<rparr>) = live i st j s" "live i st j (s\<lparr> rt_world := w, rt_guard := g \<rparr>) = live i st j s"
  by (simp_all add: live_def)

lemma live_ask [keeps_rules]: "keeps (live i st j) (ask f)"
  by (simp add: keeps_def ask_def split: prod.split)

lemma live_now [keeps_rules]: "keeps (live i st j) (now_ny (c :: 'w core_cfg))"
proof (unfold keeps_def, intro allI impI)
  fix s :: "'w core_rt" assume "live i st j s"
  moreover obtain w t where "cc_now c (rt_world s) = (w, t)" by fastforce
  ultimately show "live i st j (fst (now_ny c s))" by (simp add: now_ny_def)
qed

lemma live_guard [keeps_rules]: "keeps (live i st j) (check_guard (c :: 'w core_cfg) k)"
proof (unfold keeps_def, intro allI impI)
  fix s :: "'w core_rt" assume "live i st j s"
  moreover obtain w e where "cc_guard_env c (rt_world s) = (w, e)" by fastforce
  moreover obtain g x where "guard_check k e (rt_guard s) = (g, x)" by fastforce
  ultimately show "live i st j (fst (check_guard c k s))" by (simp add: check_guard_def)
qed

lemma live_record [keeps_rules]: "keeps P the_record"
  by (simp add: keeps_def the_record_def)

lemma live_save [keeps_rules]: "keeps (live i st j) save"
  unfolding save_def by (rule keeps_update) (simp add: live_def)

lemma live_journal [keeps_rules]: "keeps (live i st j) (journal ev)"
  unfolding journal_def by (intro keeps_rules keeps_update) (auto simp: live_def)

lemma live_set_record [keeps_rules]:
  "(\<And>r. pr_id (f r) = pr_id r \<and> pr_status (f r) = pr_status r \<and> (pr_orders r \<noteq> [] \<longrightarrow> pr_orders (f r) \<noteq> [])) \<Longrightarrow> keeps (live i st j) (set_record f)"
  unfolding set_record_def set_data_def by (rule keeps_update) (auto simp: live_def)

lemma update_not_Nil [simp]: "AList.update k v d \<noteq> []"
  by (cases d) auto

lemma live_refresh [keeps_rules]: "keeps (live i st j) (refresh c sd)"
  unfolding refresh_def refresh_one_def by (intro keeps_rules) auto

lemma live_submit [keeps_rules]: "keeps (live i st j) (submit c pay)"
  unfolding submit_def add_order_def by (intro keeps_rules) (auto split: if_splits intro!: keeps_rules)

section \<open>Orders that are there\<close>

definition has_orders :: "'w core_rt \<Rightarrow> bool" where
  "has_orders s \<longleftrightarrow> (\<exists>r. cs_plan (rt_data s) = Some r \<and> pr_orders r \<noteq> [])"

lemma orders_ask [keeps_rules]: "keeps has_orders (ask f)"
  by (simp add: keeps_def ask_def has_orders_def split: prod.split)

lemma orders_guard [keeps_rules]: "keeps has_orders (check_guard (c :: 'w core_cfg) k)"
proof (unfold keeps_def, intro allI impI)
  fix s :: "'w core_rt" assume "has_orders s"
  moreover obtain w e where "cc_guard_env c (rt_world s) = (w, e)" by fastforce
  moreover obtain g x where "guard_check k e (rt_guard s) = (g, x)" by fastforce
  ultimately show "has_orders (fst (check_guard c k s))" by (simp add: check_guard_def has_orders_def)
qed

lemma orders_files [keeps_rules]: "keeps has_orders save" "keeps has_orders (journal ev)"
  unfolding journal_def save_def by (intro keeps_rules keeps_update; simp add: has_orders_def)+

lemma orders_set_record [keeps_rules]: "(\<And>r. pr_orders r \<noteq> [] \<Longrightarrow> pr_orders (f r) \<noteq> []) \<Longrightarrow> keeps has_orders (set_record f)"
  unfolding set_record_def set_data_def by (rule keeps_update) (auto simp: has_orders_def)

lemma orders_submit [keeps_rules]: "keeps has_orders (submit c pay)"
  unfolding submit_def add_order_def by (intro keeps_rules) (auto split: if_splits intro!: keeps_rules)

lemma live_has_orders: "hoare (live i st j) (add_order pay x) (\<lambda>_. has_orders) E"
  unfolding add_order_def set_record_def set_data_def by (rule hoare_update) (auto simp: live_def has_orders_def)

lemma submit_orders: "hoare (live i st j) (submit c pay) (\<lambda>_ s. live i st j s \<and> has_orders s) (live i st j)"
proof -
  have "hoare (live i st j) (submit c pay) (\<lambda>_. has_orders) (\<lambda>_. True)"
    unfolding submit_def
  proof (rule hoare_bind)
    show "hoare (live i st j) the_record (\<lambda>r s. live i st j s \<and> cs_plan (rt_data s) = Some r) (\<lambda>_. True)"
      by (rule hoareI) (auto simp: the_record_def live_def)
  next
    fix r
    let ?p = "\<lambda>s :: 'a core_rt. live i st j s \<and> cs_plan (rt_data s) = Some r"
    have g: "hoare ?p (check_guard c (intent_of pay)) (\<lambda>_. live i st j) (\<lambda>_. True)"
      by (rule hoare_conseq [OF hoare_keeps [OF live_guard]]) auto
    have add: "hoare (live i st j) (seq (add_order pay x) (seq save (journal ev))) (\<lambda>_. has_orders) (\<lambda>_. True)" for x ev
      by (rule hoare_seq [OF live_has_orders]) (intro hoare_keeps keeps_rules, simp)
    show "hoare ?p (if pay_client_order_id pay \<in> set (keys (pr_orders r)) then ret ()
        else seq (check_guard c (intent_of pay)) (attempt (ask (cc_submit c pay))
          (\<lambda>e. if e = OrderRejected
              then Some (seq (add_order pay ''rejected'') (seq save (journal (Order_Rejected (pr_id r) (pay_symbol pay) (pay_side pay)))))
              else None)
          (\<lambda>st. seq (add_order pay st) (seq save (journal (Order_Submitted (pr_id r) pay st)))))) (\<lambda>_. has_orders) (\<lambda>_. True)"
    proof (rule hoare_if)
      assume "pay_client_order_id pay \<in> set (keys (pr_orders r))"
      then show "hoare ?p (ret ()) (\<lambda>_. has_orders) (\<lambda>_. True)"
        by (intro hoare_ret) (auto simp: has_orders_def)
    next
      show "hoare ?p (seq (check_guard c (intent_of pay)) (attempt (ask (cc_submit c pay))
          (\<lambda>e. if e = OrderRejected
              then Some (seq (add_order pay ''rejected'') (seq save (journal (Order_Rejected (pr_id r) (pay_symbol pay) (pay_side pay)))))
              else None)
          (\<lambda>st. seq (add_order pay st) (seq save (journal (Order_Submitted (pr_id r) pay st)))))) (\<lambda>_. has_orders) (\<lambda>_. True)"
        by (rule hoare_seq [OF g], rule hoare_attempt [OF hoare_keeps [OF live_ask, where E = "live i st j"]]) (auto split: if_splits intro: add)
    qed
  qed
  then show ?thesis
    using live_submit [of i st j c pay] unfolding hoare_def keeps_def by (fastforce split: prod.splits sum.splits)
qed

lemma submit_sells_orders:
  "xs \<noteq> [] \<Longrightarrow> hoare (live i st j) (foreach (submit_sell c r) xs) (\<lambda>_ s. live i st j s \<and> has_orders s) (live i st j)"
proof (induction xs)
  case (Cons x xs)
  have one: "hoare (live i st j) (submit_sell c r x) (\<lambda>_ s. live i st j s \<and> has_orders s) (live i st j)"
    unfolding submit_sell_def by (rule hoare_bind [OF hoare_keeps [OF keeps_lift]]) (auto intro: submit_orders)
  have "keeps (\<lambda>s. live i st j s \<and> has_orders s) (foreach (submit_sell c r) xs)"
    unfolding submit_sell_def by (rule keeps_conj; intro keeps_rules)
  then have "hoare (\<lambda>s. live i st j s \<and> has_orders s) (foreach (submit_sell c r) xs) (\<lambda>_ s. live i st j s \<and> has_orders s) (live i st j)"
    by (rule hoare_keeps) simp
  with one show ?case by (simp only: foreach.simps) (rule hoare_seq)
qed simp

section \<open>The operations\<close>

lemma close_plan_either:
  assumes "close_plan st f s = (t, x)" "cs_plan (rt_data s) = Some r"
  shows "(cs_plan (rt_data t) = None \<and> rt_journal t = rt_journal s @ [Plan_Closed (pr_id r) st (pr_kind r) (pr_orders r)]) \<or>
    (cs_plan (rt_data t) = Some (r\<lparr> pr_status := st \<rparr>) \<and> rt_journal t = rt_journal s)"
proof (cases "quantize (filled_usd (pr_orders r)) CENT ROUND_DOWN")
  case (Inl e)
  then show ?thesis using assms
    by (auto simp: close_plan_def set_record_def set_data_def the_record_def bind_def seq_def record_history_def Let_def
        journal_def save_def lift_def ret_def update_def split: if_splits sum.splits)
next
  case (Inr v)
  then show ?thesis using assms
    by (cases "plan_from_json (pr_plan r)")
      (auto simp: close_plan_def set_record_def set_data_def the_record_def bind_def seq_def record_history_def Let_def
        journal_def save_def lift_def ret_def update_def split: if_splits sum.splits)
qed

lemma close_closes: "close_plan st f s = (t, Inr y) \<Longrightarrow> cs_plan (rt_data t) = None"
  unfolding close_plan_def by (auto elim!: seq_cases bind_cases simp: Let_def set_data_def save_def journal_def)

lemma abandon_closes: "abandon c f s = (t, Inr y) \<Longrightarrow> cs_plan (rt_data t) = None"
  unfolding abandon_def by (auto elim!: seq_cases bind_cases dest!: close_closes split: if_splits)

lemma hoare_close:
  assumes "lifecycle\<^sup>*\<^sup>* st0 st" "final st"
  shows "hoare (\<lambda>s. live i st1 j s \<and> (st \<in> {Expired, Deferred, Halted} \<longrightarrow> \<not> has_orders s)) (close_plan st f)
    (\<lambda>_. reached i st0 j) (reached i st0 j)"
proof (rule hoareI)
  fix s t and x :: "unit result"
  assume s: "live i st1 j s \<and> (st \<in> {Expired, Deferred, Halted} \<longrightarrow> \<not> has_orders s)" and c: "close_plan st f s = (t, x)"
  then obtain r new where r: "cs_plan (rt_data s) = Some r" "pr_id r = i" "rt_journal s = j @ new" by (auto simp: live_def)
  from close_plan_either [OF c r(1)] have "reached i st0 j t"
  proof
    assume a: "cs_plan (rt_data t) = None \<and> rt_journal t = rt_journal s @ [Plan_Closed (pr_id r) st (pr_kind r) (pr_orders r)]"
    have "closed_as i st0 (new @ [Plan_Closed (pr_id r) st (pr_kind r) (pr_orders r)])"
      unfolding closed_as_def using s r assms by (intro exI [of _ st] exI [of _ "pr_kind r"] exI [of _ "pr_orders r"]) (auto simp: has_orders_def)
    then show ?thesis using a r by (auto simp: reached_def)
  next
    assume "cs_plan (rt_data t) = Some (r\<lparr> pr_status := st \<rparr>) \<and> rt_journal t = rt_journal s"
    then show ?thesis using r assms by (auto simp: reached_def final_def)
  qed
  then show "case x of Inl e \<Rightarrow> reached i st0 j t | Inr y \<Rightarrow> reached i st0 j t" by (simp split: sum.splits)
qed

lemma hoare_abandon:
  assumes "lifecycle\<^sup>*\<^sup>* st0 Abandoned" "st = Buying \<Longrightarrow> lifecycle\<^sup>*\<^sup>* st0 Done"
  shows "hoare (live i st j) (abandon c f) (\<lambda>_. reached i st0 j) (reached i st0 j)"
proof -
  let ?m = "seq (ask (cc_cancel c)) (seq (refresh c Sell) (seq (refresh c Buy) (ret ())))"
  have m: "keeps (live i st j) (handle ?m (\<lambda>_. Some (ret ())))"
    by (intro keeps_rules) (auto intro: keeps_rules)
  have rec: "hoare (live i st j) the_record (\<lambda>r s. live i st j s \<and> pr_status r = st) (reached i st0 j)"
    by (rule hoareI) (auto simp: the_record_def live_def)
  have never: "handle ?m (\<lambda>_. Some (ret ())) s = (t, x) \<Longrightarrow> \<exists>y. x = Inr y" for s t x
    by (auto simp: handle_def split: prod.splits sum.splits)
  have h: "hoare (live i st j) (handle ?m (\<lambda>_. Some (ret ()))) (\<lambda>_. live i st j) (reached i st0 j)"
  proof (rule hoareI)
    fix s t x assume l: "live i st j s" and e: "handle ?m (\<lambda>_. Some (ret ())) s = (t, x)"
    obtain y where "x = Inr y" using never [OF e] by blast
    moreover have "live i st j t" using m l e unfolding keeps_def by (metis fst_conv)
    ultimately show "case x of Inl e \<Rightarrow> reached i st0 j t | Inr y \<Rightarrow> live i st j t" by simp
  qed
  show ?thesis
    unfolding abandon_def
  proof (rule hoare_seq [OF h], rule hoare_bind [OF rec], rule hoare_if)
    fix r
    assume b: "pr_status r = Buying \<and> \<not> pr_blocked r \<and> pr_orders r \<noteq> [] \<and> (\<forall>x \<in> set (vals (pr_orders r)). co_status x = ''filled'')"
    show "hoare (\<lambda>s. live i st j s \<and> pr_status r = st) (close_plan Done None) (\<lambda>_. reached i st0 j) (reached i st0 j)"
    proof (cases "st = Buying")
      case True
      show ?thesis by (rule hoare_conseq [OF hoare_close [OF assms(2) [OF True]]]) (auto simp: final_def)
    next
      case False
      with b show ?thesis by (intro hoareI) auto
    qed
  next
    fix r
    show "hoare (\<lambda>s. live i st j s \<and> pr_status r = st) (close_plan Abandoned (Some f)) (\<lambda>_. reached i st0 j) (reached i st0 j)"
      by (rule hoare_conseq [OF hoare_close [OF assms(1)]]) (auto simp: final_def)
  qed
qed

lemma steps:
  "lifecycle\<^sup>*\<^sup>* st st" "lifecycle\<^sup>*\<^sup>* Approved Done" "lifecycle\<^sup>*\<^sup>* Selling Done" "lifecycle\<^sup>*\<^sup>* Buying Done" "lifecycle\<^sup>*\<^sup>* Approved Abandoned"
  "lifecycle\<^sup>*\<^sup>* Selling Abandoned" "lifecycle\<^sup>*\<^sup>* Buying Abandoned" "lifecycle\<^sup>*\<^sup>* Awaiting_Approval Abandoned" "lifecycle\<^sup>*\<^sup>* Approved Deferred"
  "lifecycle\<^sup>*\<^sup>* Approved Halted" "lifecycle\<^sup>*\<^sup>* Approved Selling" "lifecycle\<^sup>*\<^sup>* Approved Buying" "lifecycle\<^sup>*\<^sup>* Selling Buying"
  "lifecycle\<^sup>*\<^sup>* Approved Expired" "lifecycle\<^sup>*\<^sup>* Awaiting_Approval Expired"
  by (auto intro: r_into_rtranclp lifecycle.intros)

lemma hoare_close_any:
  "lifecycle\<^sup>*\<^sup>* st0 st \<Longrightarrow> st = Done \<or> st = Abandoned \<Longrightarrow> hoare (live i st1 j) (close_plan st f) (\<lambda>_. reached i st0 j) (reached i st0 j)"
  by (rule hoare_conseq [OF hoare_close]) (auto simp: final_def)

lemma live_buy_loop [keeps_rules]: "keeps (live i st j) (buy_loop c pid closes preopen bs)"
proof (induction bs)
  case (Cons b bs)
  obtain s n where b: "b = (s, n)" by fastforce
  show ?case unfolding b buy_loop.simps
    by (intro keeps_rules Cons; (simp split: exn.splits)?) (elim subst; intro keeps_rules; simp)+
qed (simp only: buy_loop.simps keeps_ret)

lemma live_scaled_buys [keeps_rules]: "keeps (live i st j) (scaled_buys c p)"
  unfolding scaled_buys_def Let_def by (intro keeps_rules) auto

lemma hoare_live: "keeps (live i st j) m \<Longrightarrow> hoare (live i st j) m (\<lambda>_. live i st j) (reached i st j)"
  by (erule hoare_keeps) (rule live_reached [OF _ steps(1)])

lemma hoare_buy:
  assumes "st = Approved \<or> st = Selling"
  shows "hoare (live i st j) (buy c p closes preopen) (\<lambda>_. reached i st j) (reached i st j)"
proof -
  have ok: "lifecycle\<^sup>*\<^sup>* st Done" "lifecycle\<^sup>*\<^sup>* st Abandoned" "lifecycle\<^sup>*\<^sup>* st Buying" "lifecycle\<^sup>*\<^sup>* st st" "st = Approved \<Longrightarrow> lifecycle\<^sup>*\<^sup>* st Deferred"
    using assms steps by auto
  have b: "hoare (live i st j) n (\<lambda>_. reached i st j) (reached i st j)" if n: "blocked_buy e = Some n" for e and n :: "('a, unit) core_act"
  proof -
    from n obtain code where "n = bind the_record (\<lambda>r. seq (journal (Buy_Blocked (pr_id r) code))
        (close_plan (if pr_orders r \<noteq> [] then Abandoned else Deferred) (Some (code \<noteq> ''halted''))))"
      by (auto simp: blocked_buy_def split: exn.splits)
    moreover have "hoare (live i st j) the_record (\<lambda>r s. live i st j s \<and> (pr_orders r = [] \<longrightarrow> st = Approved \<and> \<not> has_orders s)) (reached i st j)"
      using assms by (intro hoareI) (auto simp: the_record_def live_def has_orders_def)
    moreover have "hoare (\<lambda>s. live i st j s \<and> (pr_orders r = [] \<longrightarrow> st = Approved \<and> \<not> has_orders s))
        (seq (journal (Buy_Blocked (pr_id r) code)) (close_plan (if pr_orders r \<noteq> [] then Abandoned else Deferred) (Some f)))
        (\<lambda>_. reached i st j) (reached i st j)" for r f
    proof (rule hoare_seq)
      show "hoare (\<lambda>s. live i st j s \<and> (pr_orders r = [] \<longrightarrow> st = Approved \<and> \<not> has_orders s)) (journal (Buy_Blocked (pr_id r) code))
          (\<lambda>_ s. live i st j s \<and> (pr_orders r = [] \<longrightarrow> st = Approved \<and> \<not> has_orders s)) (reached i st j)"
        by (rule hoareI) (auto simp: journal_def save_def live_def has_orders_def)
      show "hoare (\<lambda>s. live i st j s \<and> (pr_orders r = [] \<longrightarrow> st = Approved \<and> \<not> has_orders s))
          (close_plan (if pr_orders r \<noteq> [] then Abandoned else Deferred) (Some f)) (\<lambda>_. reached i st j) (reached i st j)" for x
      proof (cases "pr_orders r = []")
        case True
        show ?thesis
        proof (cases "st = Approved")
          case a: True
          have "hoare (\<lambda>s. live i st j s \<and> (Deferred \<in> {Expired, Deferred, Halted} \<longrightarrow> \<not> has_orders s)) (close_plan Deferred (Some f))
              (\<lambda>_. reached i st j) (reached i st j)"
            by (rule hoare_close [OF ok(5) [OF a]]) (simp add: final_def)
          moreover have "(if pr_orders r \<noteq> [] then Abandoned else Deferred) = Deferred" using True by simp
          ultimately show ?thesis by (simp only:) (erule hoare_conseq; use True a in auto)
        next
          case False
          with True show ?thesis by (intro hoareI) auto
        qed
      next
        case False
        have "hoare (live i st j) (close_plan Abandoned (Some f)) (\<lambda>_. reached i st j) (reached i st j)"
          by (rule hoare_close_any [OF ok(2)]) simp
        then show ?thesis unfolding if_P [OF False] by (rule hoare_conseq) (use False in simp_all)
      qed
    qed
    ultimately show ?thesis by (auto intro: hoare_bind)
  qed
  have set: "hoare (live i st j) (set_record (\<lambda>r. r\<lparr> pr_status := Buying \<rparr>)) (\<lambda>_. reached i st j) (reached i st j)"
    unfolding set_record_def set_data_def by (rule hoare_update) (use ok(3) in \<open>auto simp: live_def reached_def\<close>)
  show ?thesis
    unfolding buy_def
    by (rule hoare_if, rule hoare_close_any [OF ok(1)], simp,
        rule hoare_attempt [OF hoare_keeps [OF live_guard, where E = "live i st j"]], simp, erule b,
        rule hoare_bind [OF hoare_live [OF live_scaled_buys]], rule hoare_bind [OF hoare_live [OF live_record]],
        rule hoare_seq [OF hoare_live [OF live_buy_loop]], rule set, erule live_reached [OF _ ok(4)])
qed

lemma reached_files [keeps_rules]: "keeps (reached i st j) save" "keeps (reached i st j) (journal ev)"
proof -
  show s: "keeps (reached i st j) save" unfolding save_def by (rule keeps_update) (simp add: reached_def)
  have "closed_as i st new \<Longrightarrow> closed_as i st (new @ [ev])" for new by (auto simp: closed_as_def)
  then have "keeps (reached i st j) (update (\<lambda>s. s\<lparr> rt_journal := rt_journal s @ [ev] \<rparr>))"
    by (intro keeps_update) (auto simp: reached_def split: option.splits)
  then show "keeps (reached i st j) (journal ev)" unfolding journal_def by (rule keeps_seq) (rule s)
qed

lemma blocked_start_reached:
  assumes "blocked_start c e = Some n" shows "hoare (live i Approved j) n (\<lambda>_. reached i Approved j) (reached i Approved j)"
proof -
  from assms obtain b where n: "n = bind the_record (\<lambda>r. if pr_orders r \<noteq> [] then abandon c b
      else close_plan (if b then Deferred else Halted) (Some b))"
    by (auto simp: blocked_start_def split: exn.splits)
  have rec: "hoare (live i Approved j) the_record (\<lambda>r s. live i Approved j s \<and> (pr_orders r = [] \<longrightarrow> \<not> has_orders s)) (reached i Approved j)"
    by (rule hoareI) (auto simp: the_record_def live_def has_orders_def)
  show ?thesis
    unfolding n
  proof (rule hoare_bind [OF rec], rule hoare_if)
    fix r
    show "hoare (\<lambda>s. live i Approved j s \<and> (pr_orders r = [] \<longrightarrow> \<not> has_orders s)) (abandon c b) (\<lambda>_. reached i Approved j) (reached i Approved j)"
      by (rule hoare_conseq [OF hoare_abandon]) (use steps in auto)
    assume "\<not> pr_orders r \<noteq> []"
    then show "hoare (\<lambda>s. live i Approved j s \<and> (pr_orders r = [] \<longrightarrow> \<not> has_orders s)) (close_plan (if b then Deferred else Halted) (Some b))
        (\<lambda>_. reached i Approved j) (reached i Approved j)"
      by (intro hoare_conseq [OF hoare_close [where ?st1.0 = Approved]]) (use steps in \<open>auto simp: final_def\<close>)
  qed
qed

lemma hoare_start: "hoare (live i Approved j) (start c) (\<lambda>_. reached i Approved j) (reached i Approved j)"
proof -
  have sells: "hoare (live i Approved j) (foreach (submit_sell c r) (sorted_items (sells p)))
      (\<lambda>_ s. live i Approved j s \<and> (sells p \<noteq> [] \<longrightarrow> has_orders s)) (live i Approved j)" for r p
  proof (cases "sells p = []")
    case True
    then show ?thesis by (simp add: sorted_items_def sort_by_def hoare_ret)
  next
    case False
    then have "sorted_items (sells p) \<noteq> []" using set_sorted_items [of "sells p"] by force
    from submit_sells_orders [OF this] show ?thesis by (rule hoare_conseq) auto
  qed
  have blocked: "hoare (live i Approved j) n (\<lambda>_. reached i Approved j) (reached i Approved j)" if "blocked_sell c e = Some n" for e n
    using that hoare_abandon [where ?st0.0 = Approved and st = Approved] steps by (auto simp: blocked_sell_def split: exn.splits)
  have selling: "hoare (\<lambda>s. live i Approved j s \<and> has_orders s) (set_record (\<lambda>r. r\<lparr> pr_status := Selling \<rparr>)) (\<lambda>_. reached i Approved j) (reached i Approved j)"
    unfolding set_record_def set_data_def by (rule hoare_update) (use steps in \<open>auto simp: live_def reached_def has_orders_def\<close>)
  have step: "hoare (\<lambda>s. live i Approved j s \<and> (sells p \<noteq> [] \<longrightarrow> has_orders s))
      (if sells p \<noteq> [] then set_record (\<lambda>r. r\<lparr> pr_status := Selling \<rparr>) else buy c p closes True)
      (\<lambda>_. reached i Approved j) (reached i Approved j)" for p closes
  proof (cases "sells p = []")
    case True
    then show ?thesis by (simp add: hoare_buy)
  next
    case False
    then show ?thesis using selling by simp
  qed
  have fin: "hoare (reached i Approved j) save (\<lambda>_. reached i Approved j) (reached i Approved j)"
    by (rule hoare_keeps [OF reached_files(1)])
  show ?thesis
    unfolding start_def
    by (rule hoare_bind [OF hoare_live [OF live_record]], rule hoare_bind [OF hoare_live [OF keeps_lift]],
        rule hoare_attempt [OF hoare_keeps [OF live_guard, where E = "live i Approved j"]], simp, erule blocked_start_reached,
        rule hoare_attempt [OF sells], erule blocked, rule hoare_seq [OF step fin],
        erule live_reached [OF _ steps(1)], erule live_reached [OF _ steps(1)])
qed

lemma hoare_after_sells: "hoare (live i Selling j) (after_sells c now) (\<lambda>_. reached i Selling j) (reached i Selling j)"
proof -
  have w: "keeps (live i Selling j) (if b then ret () else seq (ask (cc_cancel c)) (bind (refresh c Sell) (\<lambda>_. journal (Sells_Cancelled k))))" for b k
    by (intro keeps_rules)
  have s: "hoare (live i Selling j) save (\<lambda>_. reached i Selling j) (reached i Selling j)"
    by (rule hoare_conseq [OF hoare_live [OF live_save]]) (auto intro: live_reached [OF _ steps(1)])
  have fin: "hoare (reached i Selling j) save (\<lambda>_. reached i Selling j) (reached i Selling j)"
    by (rule hoare_keeps [OF reached_files(1)])
  have b: "hoare (live i Selling j) (buy c p closes False) (\<lambda>_. reached i Selling j) (reached i Selling j)" for p closes
    by (rule hoare_buy) simp
  show ?thesis
    unfolding after_sells_def Let_def
    by (rule hoare_bind [OF hoare_live [OF live_refresh]], rule hoare_if, rule s,
        rule hoare_bind [OF hoare_live [OF live_record]], rule hoare_seq [OF hoare_live [OF w]],
        rule hoare_bind [OF hoare_live [OF live_record]], rule hoare_bind [OF hoare_live [OF keeps_lift]], rule hoare_seq [OF b fin])
qed

lemma hoare_after_buys: "hoare (live i Buying j) (after_buys c now) (\<lambda>_. reached i Buying j) (reached i Buying j)"
proof -
  have w: "keeps (live i Buying j) (if b then ret () else seq (ask (cc_cancel c)) (bind (refresh c Buy) (\<lambda>_. journal (Buys_Cancelled k))))" for b k
    by (intro keeps_rules)
  have s: "hoare (live i Buying j) save (\<lambda>_. reached i Buying j) (reached i Buying j)"
    by (rule hoare_conseq [OF hoare_live [OF live_save]]) (auto intro: live_reached [OF _ steps(1)])
  have d: "hoare (live i Buying j) (close_plan Done None) (\<lambda>_. reached i Buying j) (reached i Buying j)"
    by (rule hoare_close_any) (use steps in auto)
  show ?thesis
    unfolding after_buys_def Let_def
    by (rule hoare_bind [OF hoare_live [OF live_refresh]], rule hoare_if, rule s,
        rule hoare_bind [OF hoare_live [OF live_record]], rule hoare_seq [OF hoare_live [OF w] d])
qed

section \<open>The tick\<close>

lemma live_cases:
  assumes "live i st j s" obtains r where "cs_plan (rt_data s) = Some r" "pr_id r = i" "pr_status r = st"
  using assms by (auto simp: live_def)

text \<open>After \<open>reconcile\<close> the plan is as it was, or closed.\<close>

lemma hoare_reconcile:
  "hoare (live i st j) (reconcile c) (\<lambda>_ s. live i st j s \<or> (cs_plan (rt_data s) = None \<and> reached i st j s)) (reached i st j)"
proof (rule hoareI)
  fix s t and x :: "unit result"
  assume l: "live i st j s" and e: "reconcile c s = (t, x)"
  from l obtain r where r: "cs_plan (rt_data s) = Some r" "pr_id r = i" "pr_status r = st" by (rule live_cases)
  obtain w now where n: "cc_now c (rt_world s) = (w, now)" by fastforce
  let ?s = "s\<lparr> rt_world := w \<rparr>"
  have nn: "now_ny c s = (?s, Inr now)" by (simp add: now_ny_def n)
  have ls: "live i st j ?s" using l by simp
  have run: "reconcile c s = (if pr_status r = Approved \<or> pr_status r = Awaiting_Approval then
           (if pr_execute_on r < ny_date now \<or> (ny_date now = pr_execute_on r \<and> SUBMIT_UNTIL < ny_clock now) then
              (if pr_orders r \<noteq> [] then abandon c True else close_plan Expired (Some True))
            else ret ())
         else if pr_status r = Selling \<or> pr_status r = Buying then
           (if pr_execute_on r < ny_date now \<or> (ny_date now = pr_execute_on r \<and> EXECUTION_CUTOFF \<le> ny_clock now)
            then abandon c True else ret ())
         else ret ()) ?s"
    by (simp add: reconcile_def r bind_Inr nn)
  consider (same) "t = ?s" "x = Inr ()"
    | (abandon) "abandon c True ?s = (t, x)" "st \<in> {Approved, Awaiting_Approval, Selling, Buying}"
    | (expire) "close_plan Expired (Some True) ?s = (t, x)" "st \<in> {Approved, Awaiting_Approval}" "pr_orders r = []"
    using e r(3) unfolding run by (auto split: if_splits)
  then show "case x of Inl e \<Rightarrow> reached i st j t | Inr y \<Rightarrow> live i st j t \<or> (cs_plan (rt_data t) = None \<and> reached i st j t)"
  proof cases
    case same
    then show ?thesis using ls by simp
  next
    case abandon
    have "hoare (live i st j) (Core_Router.abandon c True) (\<lambda>_. reached i st j) (reached i st j)"
      using abandon(2) by (intro hoare_abandon) (use steps in auto)
    from hoareD [OF this ls abandon(1)] have re: "reached i st j t" by (simp split: sum.splits)
    have "x = Inr y \<Longrightarrow> cs_plan (rt_data t) = None" for y
      using abandon(1) abandon_closes by blast
    with re show ?thesis by (simp split: sum.splits)
  next
    case expire
    have no: "\<not> has_orders ?s" using r expire(3) by (simp add: has_orders_def)
    have "hoare (\<lambda>s. live i st j s \<and> (Expired \<in> {Expired, Deferred, Halted} \<longrightarrow> \<not> has_orders s)) (close_plan Expired (Some True)) (\<lambda>_. reached i st j) (reached i st j)"
      using expire(2) by (intro hoare_close) (use steps in \<open>auto simp: final_def\<close>)
    from hoareD [OF this _ expire(1)] ls no have re: "reached i st j t" by (simp split: sum.splits)
    have "x = Inr y \<Longrightarrow> cs_plan (rt_data t) = None" for y
      using expire(1) close_closes by blast
    with re show ?thesis by (simp split: sum.splits)
  qed
qed

lemma reached_count [keeps_rules]: "keeps (reached i st j) count_failure"
proof -
  have "keeps (reached i st j) (update (\<lambda>s. s\<lparr> rt_tick_failures := rt_tick_failures s + 1 \<rparr>))"
    by (rule keeps_update) (simp add: reached_def)
  then show ?thesis unfolding count_failure_def by (intro keeps_rules)
qed

lemma hoare_tick: "hoare (live i st j) (tick c) (\<lambda>_. reached i st j) (reached i st j)"
proof -
  have rest: "hoare (\<lambda>s. live i st j s \<or> (cs_plan (rt_data s) = None \<and> reached i st j s))
     (bind (gets (\<lambda>s. cs_plan (rt_data s))) (\<lambda>plan.
      case plan of None \<Rightarrow> ret ()
      | Some r \<Rightarrow>
          bind (now_ny c) (\<lambda>now.
          if ny_date now \<noteq> pr_execute_on r then ret ()
          else if pr_status r = Approved \<and> SUBMIT_FROM \<le> ny_clock now \<and> ny_clock now \<le> SUBMIT_UNTIL then start c
          else if pr_status r = Selling then after_sells c now
          else if pr_status r = Buying then after_buys c now
          else ret ()))) (\<lambda>_. reached i st j) (reached i st j)"
  proof (rule hoareI)
    fix s t and x :: "unit result"
    assume l: "live i st j s \<or> (cs_plan (rt_data s) = None \<and> reached i st j s)" and
      e: "bind (gets (\<lambda>s. cs_plan (rt_data s))) (\<lambda>plan.
      case plan of None \<Rightarrow> ret ()
      | Some r \<Rightarrow>
          bind (now_ny c) (\<lambda>now.
          if ny_date now \<noteq> pr_execute_on r then ret ()
          else if pr_status r = Approved \<and> SUBMIT_FROM \<le> ny_clock now \<and> ny_clock now \<le> SUBMIT_UNTIL then start c
          else if pr_status r = Selling then after_sells c now
          else if pr_status r = Buying then after_buys c now
          else ret ())) s = (t, x)"
    have "reached i st j t"
    proof (cases "cs_plan (rt_data s)")
      case None
      then have "t = s" using e by simp
      then show ?thesis using l None by (auto simp: live_def)
    next
      case (Some r)
      then have ls: "live i st j s" and st: "pr_status r = st" using l by (auto simp: live_def)
      obtain w now where n: "cc_now c (rt_world s) = (w, now)" by fastforce
      let ?s = "s\<lparr> rt_world := w \<rparr>"
      have nn: "now_ny c s = (?s, Inr now)" by (simp add: now_ny_def n)
      have l2: "live i st j ?s" using ls by simp
      consider (same) "t = ?s" | (start) "st = Approved" "start c ?s = (t, x)" | (sells) "st = Selling" "after_sells c now ?s = (t, x)"
        | (buys) "st = Buying" "after_buys c now ?s = (t, x)"
        using e Some st by (auto simp: bind_Inr nn split: if_splits)
      then show ?thesis
      proof cases
        case same
        then show ?thesis using l2 by (auto intro: live_reached [OF _ steps(1)])
      next
        case start
        from hoareD [OF hoare_start l2 [unfolded start(1)] start(2)] show ?thesis by (simp add: start(1) split: sum.splits)
      next
        case sells
        from hoareD [OF hoare_after_sells l2 [unfolded sells(1)] sells(2)] show ?thesis by (simp add: sells(1) split: sum.splits)
      next
        case buys
        from hoareD [OF hoare_after_buys l2 [unfolded buys(1)] buys(2)] show ?thesis by (simp add: buys(1) split: sum.splits)
      qed
    qed
    then show "case x of Inl e \<Rightarrow> reached i st j t | Inr y \<Rightarrow> reached i st j t" by (simp split: sum.splits)
  qed
  show ?thesis unfolding tick_def by (rule hoare_seq [OF hoare_reconcile rest])
qed

lemma hoare_run_tick: "hoare (live i st j) (run_tick c) (\<lambda>_. reached i st j) (reached i st j)"
proof -
  have "hoare (reached i st j) count_failure (\<lambda>_. reached i st j) (reached i st j)"
    by (rule hoare_keeps [OF reached_count])
  moreover have "hoare (reached i st j) (seq (update (\<lambda>s. s\<lparr> rt_tick_failures := 0 \<rparr>))
      (bind (now_ny c) (\<lambda>now. update (\<lambda>s. s\<lparr> rt_last_tick := Some now \<rparr>)))) (\<lambda>_. reached i st j) (reached i st j)"
    by (rule hoareI) (auto simp: bind_def now_ny_def reached_def split: prod.splits)
  ultimately show ?thesis unfolding run_tick_def by (intro hoare_attempt [OF hoare_tick]) auto
qed

section \<open>Refinement\<close>

text \<open>
  C12. The execution refines the documented lifecycle. Whatever a tick meets (refusals, lost answers, blocks, any clock),
  the plan it leaves has the same id and a status the lifecycle reaches from the old one, or it was closed in a final state of
  the lifecycle that the journal names, and without a single order when that state is expired, deferred or halted.
\<close>

theorem tick_refines_lifecycle:
  assumes "cs_plan (rt_data s) = Some r" "pr_status r = Selling \<longrightarrow> pr_orders r \<noteq> []" "run_tick c s = (t, x)"
  shows "(\<exists>r'. cs_plan (rt_data t) = Some r' \<and> pr_id r' = pr_id r \<and> lifecycle\<^sup>*\<^sup>* (pr_status r) (pr_status r') \<and>
            (pr_status r' = Selling \<longrightarrow> pr_orders r' \<noteq> [])) \<or>
    (cs_plan (rt_data t) = None \<and>
      (\<exists>new st k os. rt_journal t = rt_journal s @ new \<and> Plan_Closed (pr_id r) st k os \<in> set new \<and>
         lifecycle\<^sup>*\<^sup>* (pr_status r) st \<and> (\<forall>st'. \<not> lifecycle st st') \<and> (st \<in> {Expired, Deferred, Halted} \<longrightarrow> os = [])))"
proof -
  have "live (pr_id r) (pr_status r) (rt_journal s) s" using assms(1,2) by (simp add: live_def)
  from hoareD [OF hoare_run_tick this assms(3)] have "reached (pr_id r) (pr_status r) (rt_journal s) t" by (simp split: sum.splits)
  then show ?thesis
    by (cases "cs_plan (rt_data t)") (auto simp: reached_def closed_as_def final_iff)
qed

definition demo_approved :: "demo_world core_rt" where
  "demo_approved = demo_rt \<lparr> dw_now = \<lparr> ny_date = Date 2026 9 8, ny_clock = hms 9 25 0 \<rparr>, dw_orders = [], dw_quotes = [],
     dw_envs = [demo_env 0 (Dec 970 0)], dw_cash = Dec 100 0, dw_positions = [] \<rparr> (Some (demo_record Approved []))"

theorem tick_refines_lifecycle_witness:
  "\<exists>st. lifecycle\<^sup>*\<^sup>* Approved st \<and>
     ((\<exists>r. cs_plan (rt_data (fst (run_tick demo_cfg demo_approved))) = Some r \<and> pr_status r = st) \<or>
      (\<exists>k os. Plan_Closed ''p'' st k os \<in> set (rt_journal (fst (run_tick demo_cfg demo_approved)))))"
proof -
  have "cs_plan (rt_data demo_approved) = Some (demo_record Approved [])" "rt_journal demo_approved = []"
    "pr_id (demo_record Approved []) = ''p''" "pr_status (demo_record Approved []) = Approved"
    by (simp_all add: demo_approved_def demo_rt_def demo_data_def demo_record_def)
  with tick_refines_lifecycle [of demo_approved "demo_record Approved []" demo_cfg "fst (run_tick demo_cfg demo_approved)" "snd (run_tick demo_cfg demo_approved)"]
  show ?thesis by auto
qed

section \<open>Approval\<close>

lemma no_submit [simp]:
  "refresh_one (c\<lparr> cc_submit := f \<rparr>) sd cid = refresh_one c sd cid" "refresh (c\<lparr> cc_submit := f \<rparr>) sd = refresh c sd"
  "now_ny (c\<lparr> cc_submit := f \<rparr>) = now_ny c" "abandon (c\<lparr> cc_submit := f \<rparr>) b = abandon c b" "reconcile (c\<lparr> cc_submit := f \<rparr>) = reconcile c"
proof -
  show a: "refresh_one (c\<lparr> cc_submit := f \<rparr>) sd cid = refresh_one c sd cid" for sd cid by (simp add: refresh_one_def cong: option.case_cong if_cong)
  have e: "refresh_one (c\<lparr> cc_submit := f \<rparr>) sd = refresh_one c sd" for sd by (rule ext) (rule a)
  show b: "refresh (c\<lparr> cc_submit := f \<rparr>) sd = refresh c sd" for sd by (simp add: refresh_def e)
  show n: "now_ny (c\<lparr> cc_submit := f \<rparr>) = now_ny c" by (rule ext) (simp add: now_ny_def)
  show d: "abandon (c\<lparr> cc_submit := f \<rparr>) k = abandon c k" for k by (simp add: abandon_def b)
  show "reconcile (c\<lparr> cc_submit := f \<rparr>) = reconcile c" unfolding reconcile_def n d by (rule refl)
qed

lemma tick_awaiting:
  assumes "live i Awaiting_Approval j s" shows "tick (c\<lparr> cc_submit := f \<rparr>) s = tick c s"
proof -
  obtain s1 x where r: "reconcile c s = (s1, x)" by fastforce
  show ?thesis
  proof (cases x)
    case (Inl e)
    then show ?thesis using r by (simp add: tick_def seq_Inl)
  next
    case (Inr u)
    from hoareD [OF hoare_reconcile assms r] have l: "live i Awaiting_Approval j s1 \<or> cs_plan (rt_data s1) = None" by (auto simp: Inr)
    show ?thesis
    proof (cases "cs_plan (rt_data s1)")
      case None
      then show ?thesis using r Inr by (simp add: tick_def seq_Inr)
    next
      case (Some r')
      then have st: "pr_status r' = Awaiting_Approval" using l by (auto simp: live_def)
      obtain w now where "cc_now c (rt_world s1) = (w, now)" by fastforce
      then have n: "now_ny c s1 = (s1\<lparr> rt_world := w \<rparr>, Inr now)" by (simp add: now_ny_def)
      show ?thesis using r Inr Some st by (simp add: tick_def seq_Inr bind_Inr [where s' = "s1\<lparr> rt_world := w \<rparr>"] n)
    qed
  qed
qed

lemma approve_ok:
  assumes "approve c pid fund s = (t, Inr rep)"
  shows "\<exists>s1 r1. reconcile c s = (s1, Inr ()) \<and> cs_plan (rt_data s1) = Some r1 \<and> pr_id r1 = pid \<and> pr_status r1 = Awaiting_Approval \<and>
    (pr_kind r1 = Initial \<longrightarrow> fund \<and> (\<exists>w cash. cc_cash c (rt_world s1) = (w, Inr cash) \<and> val cash \<le> val (pol_funded_amount_cap_usd (cc_policy c)))) \<and>
    cs_plan (rt_data t) = Some (r1\<lparr> pr_status := Approved \<rparr>) \<and> rt_disk t = rt_data t"
proof -
  let ?chk = "\<lambda>r. if pr_kind r \<noteq> Initial then ret ()
                 else if \<not> fund then raise (PlanRejected ''fund_required'')
                 else bind (ask (cc_cash c)) (\<lambda>cash.
                   if pol_funded_amount_cap_usd (cc_policy c) < cash then raise (PlanRejected ''over_funded'') else ret ())"
  obtain s1 where s1: "reconcile c s = (s1, Inr ())" using assms unfolding approve_def by (elim seq_cases) auto
  with assms obtain r1 where r1: "cs_plan (rt_data s1) = Some r1" "pr_id r1 = pid" "pr_status r1 = Awaiting_Approval"
    by (auto simp: approve_def seq_Inr split: option.splits if_splits)
  have full: "seq (?chk r1) (seq (set_record (\<lambda>r. r\<lparr> pr_status := Approved \<rparr>)) (seq save (seq (journal (Plan_Approved pid fund))
      (ret (Reply_Plan Approved pid (pr_execute_on r1)))))) s1 = (t, Inr rep)"
    using assms s1 r1 by (simp add: approve_def seq_Inr)
  obtain s2 where s2: "?chk r1 s1 = (s2, Inr ())" and k: "seq (set_record (\<lambda>r. r\<lparr> pr_status := Approved \<rparr>)) (seq save
      (seq (journal (Plan_Approved pid fund)) (ret (Reply_Plan Approved pid (pr_execute_on r1))))) s2 = (t, Inr rep)"
    by (rule seq_unitE [OF full])
  have c: "rt_data s2 = rt_data s1 \<and> (pr_kind r1 = Initial \<longrightarrow> fund \<and>
      (\<exists>w cash. cc_cash c (rt_world s1) = (w, Inr cash) \<and> val cash \<le> val (pol_funded_amount_cap_usd (cc_policy c))))"
    using s2 by (auto simp: ask_def bind_def less_val split: if_splits prod.splits sum.splits)
  have "rt_data t = (rt_data s2)\<lparr> cs_plan := map_option (\<lambda>r. r\<lparr> pr_status := Approved \<rparr>) (cs_plan (rt_data s2)) \<rparr> \<and> rt_disk t = rt_data t"
    using k by (auto simp: set_record_def set_data_eq save_eq journal_eq)
  with c s1 r1 show ?thesis by auto
qed


definition demo_waiting :: "demo_world core_rt" where
  "demo_waiting = demo_approved\<lparr> rt_data := demo_data (Some (demo_record Awaiting_Approval [])) \<rparr>"


end
