(* ===== verification/Core_Execution_Laws.thy ===== *)
theory Core_Execution_Laws imports Core_Demo Decimal_Laws begin

text \<open>
  What an execution of the core's plan guarantees: reading the orders back changes nothing else, closing a plan
  always ends it, an overdue plan is closed by the next tick whatever the broker does, and the status moves
  only along the lifecycle of the module's documentation.
\<close>

section \<open>Reading orders back\<close>

text \<open>A state as cancelling and reading orders leave it: another world, and other contents of the same orders.\<close>

definition seen :: "'w core_rt \<Rightarrow> plan_record \<Rightarrow> 'w \<Rightarrow> (string \<times> core_order) list \<Rightarrow> 'w core_rt" where
  "seen s r w os = s\<lparr> rt_world := w, rt_data := (rt_data s)\<lparr> cs_plan := Some (r\<lparr> pr_orders := os \<rparr>) \<rparr> \<rparr>"

lemma seen_sel [simp]:
  "rt_world (seen s r w os) = w" "cs_plan (rt_data (seen s r w os)) = Some (r\<lparr> pr_orders := os \<rparr>)"
  "rt_journal (seen s r w os) = rt_journal s" "rt_disk (seen s r w os) = rt_disk s" "rt_guard (seen s r w os) = rt_guard s"
  "rt_tick_failures (seen s r w os) = rt_tick_failures s" "cs_history (rt_data (seen s r w os)) = cs_history (rt_data s)"
  "cs_forced (rt_data (seen s r w os)) = cs_forced (rt_data s)" "cs_targets (rt_data (seen s r w os)) = cs_targets (rt_data s)"
  by (simp_all add: seen_def)

lemma seen_self: "cs_plan (rt_data s) = Some r \<Longrightarrow> seen s r (rt_world s) (pr_orders r) = s"
proof -
  assume r: "cs_plan (rt_data s) = Some r"
  have d: "(rt_data s)\<lparr> cs_plan := Some r \<rparr> = rt_data s" using r by (cases "rt_data s") simp
  have "r\<lparr> pr_orders := pr_orders r \<rparr> = r" "s\<lparr> rt_world := rt_world s, rt_data := rt_data s \<rparr> = s" by simp_all
  with d show ?thesis by (simp add: seen_def)
qed

lemma seen_update [simp]:
  "(seen s r w os)\<lparr> rt_world := w' \<rparr> = seen s r w' os"
  "(seen s r w os)\<lparr> rt_data := (rt_data (seen s r w os))\<lparr> cs_plan := Some (r\<lparr> pr_orders := os' \<rparr>) \<rparr> \<rparr> = seen s r w os'"
  by (simp_all add: seen_def)

text \<open>\<open>P\<close> is a property of single orders that every answer of the broker has.\<close>

definition framed :: "'w core_rt \<Rightarrow> plan_record \<Rightarrow> (core_order \<Rightarrow> bool) \<Rightarrow> 'w core_rt \<Rightarrow> bool" where
  "framed s0 r P s \<longleftrightarrow> (\<exists>w os. s = seen s0 r w os \<and> keys os = keys (pr_orders r) \<and> (\<forall>x \<in> set (vals os). P x))"

definition answers_all :: "(core_order \<Rightarrow> bool) \<Rightarrow> 'w core_cfg \<Rightarrow> bool" where
  "answers_all P c \<longleftrightarrow> (\<forall>cid w w' v x. cc_lookup c cid w = (w', Inr (Some v)) \<longrightarrow> P (see_order v x))"

lemma framed_self: "cs_plan (rt_data s) = Some r \<Longrightarrow> (\<And>x. x \<in> set (vals (pr_orders r)) \<Longrightarrow> P x) \<Longrightarrow> framed s r P s"
  unfolding framed_def using seen_self [of s r] by metis

lemma framed_ask: "framed s0 r P s \<Longrightarrow> ask f s = (t, x) \<Longrightarrow> framed s0 r P t"
  by (auto simp: framed_def ask_def split: prod.splits)

lemma framed_refresh_one:
  assumes "answers_all P c" "framed s0 r P s" "refresh_one c sd cid s = (t, x)"
  shows "framed s0 r P t"
proof -
  from assms(2) obtain w os where s: "s = seen s0 r w os" "keys os = keys (pr_orders r)" "\<forall>x \<in> set (vals os). P x"
    unfolding framed_def by blast
  show ?thesis
  proof (cases "map_of os cid")
    case None
    then have "t = s" using assms(3) s(1) by (auto simp: refresh_one_def bind_def the_record_def)
    then show ?thesis using assms(2) by simp
  next
    case (Some y)
    show ?thesis
    proof (cases "co_side y \<noteq> sd \<or> co_status y = ''rejected''")
      case True
      then have "t = s" using assms(3) s(1) Some by (auto simp: refresh_one_def bind_def the_record_def)
      then show ?thesis using assms(2) by simp
    next
      case False
      obtain w' a where l: "cc_lookup c cid w = (w', a)" by fastforce
      have k: "ask (cc_lookup c cid) s = (seen s0 r w' os, a)" using l by (simp add: ask_def s(1))
      have rec: "the_record s = (s, Inr (r\<lparr> pr_orders := os \<rparr>))" by (simp add: the_record_def s(1))
      have e: "refresh_one c sd cid s = bind (ask (cc_lookup c cid)) (\<lambda>latest.
          case latest of None \<Rightarrow> ret ()
          | Some v \<Rightarrow> set_record (\<lambda>r. r\<lparr> pr_orders := AList.update cid (see_order v y) (pr_orders r) \<rparr>)) s"
        using False Some by (simp add: refresh_one_def bind_Inr rec)
      have "framed s0 r P (seen s0 r w' os)" using s(2,3) unfolding framed_def by blast
      moreover have "framed s0 r P (seen s0 r w' (AList.update cid (see_order v y) os))" if "a = Inr (Some v)" for v
      proof -
        have "P (see_order v y)" using assms(1) l that by (auto simp: answers_all_def)
        moreover have "cid \<in> set (keys os)" using Some by (rule map_of_in_keys)
        ultimately show ?thesis
          using s(2,3) keys_update_id [of cid os "see_order v y"] vals_update_subset [of cid "see_order v y" os]
          unfolding framed_def by (intro exI [of _ w'] exI [of _ "AList.update cid (see_order v y) os"]) auto
      qed
      ultimately show ?thesis
        using assms(3) k unfolding e
        by (auto simp: bind_def set_record_def set_data_def seen_def split: sum.splits option.splits)
    qed
  qed
qed

lemma keeps_framed_ask: "keeps (framed s0 r P) (ask f)"
  using framed_ask [of s0 r P] unfolding keeps_def by (metis prod.collapse)

lemma keeps_framed_refresh:
  assumes "answers_all P c" shows "keeps (framed s0 r P) (refresh c sd)"
proof -
  have "keeps (framed s0 r P) (refresh_one c sd cid)" for cid
    using framed_refresh_one [OF assms] unfolding keeps_def by (metis prod.collapse)
  then show ?thesis
    unfolding refresh_def by (intro keeps_rules) (simp_all add: keeps_def the_record_def)
qed

section \<open>Closing\<close>

definition plan_readable :: "plan_record \<Rightarrow> bool" where
  "plan_readable r \<longleftrightarrow> (\<exists>p. plan_from_json (pr_plan r) = Inr p)"

text \<open>Dollars that fit the 28 digits of a cent amount.\<close>

definition dollars_fit :: "(string \<times> core_order) list \<Rightarrow> bool" where
  "dollars_fit os \<longleftrightarrow> \<bar>val (filled_usd os)\<bar> \<le> 10 ^ 25"

lemma close_plan_ends:
  assumes "cs_plan (rt_data s) = Some r" "dollars_fit (pr_orders r)" "st = Done \<Longrightarrow> plan_readable r"
  shows "\<exists>t. close_plan st f s = (t, Inr ()) \<and> cs_plan (rt_data t) = None \<and> rt_disk t = rt_data t \<and> rt_world t = rt_world s \<and>
    rt_guard t = rt_guard s \<and> rt_tick_failures t = rt_tick_failures s \<and>
    cs_forced (rt_data t) = (case f of Some b \<Rightarrow> b | None \<Rightarrow> st = Done \<and> incomplete r) \<and>
    rt_journal t = rt_journal s @ [Plan_Closed (pr_id r) st (pr_kind r) (pr_orders r)] \<and>
    (cs_targets (rt_data t) \<noteq> cs_targets (rt_data s) \<longrightarrow> st = Done \<and> \<not> incomplete r \<and> pr_kind r \<noteq> Raise_Cash)"
proof -
  have q: "quantize (filled_usd (pr_orders r)) CENT ROUND_DOWN = Inr (rescale ROUND_DOWN (filled_usd (pr_orders r)) (dexp CENT))"
    by (rule quantize_total) (use assms(2) in \<open>simp add: dollars_fit_def CENT_def\<close>)
  have i: "incomplete (r\<lparr> pr_status := x \<rparr>) = incomplete r" for x by (simp add: incomplete_def)
  show ?thesis
  proof (cases "st = Done")
    case True
    then obtain p where "plan_from_json (pr_plan r) = Inr p" using assms(3) by (auto simp: plan_readable_def)
    then show ?thesis
      using assms(1) True
      by (simp add: close_plan_def set_record_def set_data_def the_record_def bind_def seq_def record_history_def q i Let_def
          journal_def save_def lift_def ret_def update_def split: option.splits)
  next
    case False
    then show ?thesis
      using assms(1)
      by (simp add: close_plan_def set_record_def set_data_def the_record_def bind_def seq_def record_history_def q i Let_def
          journal_def save_def lift_def ret_def update_def split: option.splits)
  qed
qed

lemma abandon_ends:
  assumes "cs_plan (rt_data s) = Some r" "plan_readable r" "answers_all P c" "\<And>x. x \<in> set (vals (pr_orders r)) \<Longrightarrow> P x"
    and fit: "\<And>os. keys os = keys (pr_orders r) \<Longrightarrow> (\<And>x. x \<in> set (vals os) \<Longrightarrow> P x) \<Longrightarrow> dollars_fit os"
  shows "\<exists>t os st. abandon c f s = (t, Inr ()) \<and> cs_plan (rt_data t) = None \<and> rt_disk t = rt_data t \<and>
    rt_tick_failures t = rt_tick_failures s \<and> keys os = keys (pr_orders r) \<and>
    rt_journal t = rt_journal s @ [Plan_Closed (pr_id r) st (pr_kind r) os] \<and>
    (st = Abandoned \<and> cs_forced (rt_data t) = f \<or>
     st = Done \<and> pr_status r = Buying \<and> (\<forall>x \<in> set (vals os). co_status x = ''filled'') \<and> \<not> cs_forced (rt_data t))"
proof -
  let ?m = "seq (ask (cc_cancel c)) (seq (refresh c Sell) (seq (refresh c Buy) (ret ())))"
  have f0: "framed s r P s" by (rule framed_self [OF assms(1,4)])
  have "framed s r P (fst (?m s))"
  proof -
    have "keeps (framed s r P) ?m"
      by (intro keeps_rules keeps_framed_ask keeps_framed_refresh [OF assms(3)])
    then show ?thesis using f0 by (simp add: keeps_def)
  qed
  then obtain w os where m: "fst (?m s) = seen s r w os" "keys os = keys (pr_orders r)" "\<forall>x \<in> set (vals os). P x"
    unfolding framed_def by blast
  let ?t = "seen s r w os" and ?r = "r\<lparr> pr_orders := os \<rparr>"
  have h: "handle ?m (\<lambda>_. Some (ret ())) s = (?t, Inr ())"
    using m(1) by (cases "?m s") (auto simp: handle_def ret_def split: sum.splits)
  have a: "abandon c f s =
      (if pr_status ?r = Buying \<and> \<not> pr_blocked ?r \<and> pr_orders ?r \<noteq> [] \<and> (\<forall>x \<in> set (vals (pr_orders ?r)). co_status x = ''filled'')
       then close_plan Done None else close_plan Abandoned (Some f)) ?t"
    unfolding abandon_def by (simp add: seq_Inr [where s' = ?t] h bind_Inr the_record_def)
  have e: "cs_plan (rt_data ?t) = Some ?r" "dollars_fit (pr_orders ?r)" "plan_readable ?r"
    using fit [OF m(2)] m(3) assms(2) by (auto simp: plan_readable_def)
  show ?thesis
  proof (cases "pr_status ?r = Buying \<and> \<not> pr_blocked ?r \<and> pr_orders ?r \<noteq> [] \<and> (\<forall>x \<in> set (vals (pr_orders ?r)). co_status x = ''filled'')")
    case True
    then have "\<not> incomplete ?r" by (auto simp: incomplete_def)
    with True close_plan_ends [OF e(1,2), of Done None] e(3) m(2) show ?thesis
      unfolding a if_P [OF True] by auto
  next
    case False
    with close_plan_ends [OF e(1,2), of Abandoned "Some f"] m(2) show ?thesis
      unfolding a if_not_P [OF False] by auto
  qed
qed

section \<open>Nothing stays open\<close>

text \<open>Fills of at most a trillion dollars, at a price that is not negative.\<close>

definition modest :: "core_order \<Rightarrow> bool" where
  "modest x \<longleftrightarrow> (\<forall>q p. co_filled_qty x = Some q \<and> co_filled_price x = Some p \<longrightarrow> 0 \<le> val p \<and> val q * val p \<le> 10 ^ 12)"

definition fill_term :: "core_order \<Rightarrow> decimal list" where
  "fill_term x = (case (co_filled_qty x, co_filled_price x) of (Some q, Some p) \<Rightarrow> if 0 < q then [q * p] else [] | _ \<Rightarrow> [])"

lemma filled_usd_dsum: "filled_usd os = dsum (concat (map fill_term (vals os)))"
proof -
  have "foldl add_fill a xs = foldl (+) a (concat (map fill_term xs))" for a xs
    by (induction xs arbitrary: a) (simp_all add: add_fill_def fill_term_def split: option.splits)
  then show ?thesis by (simp add: filled_usd_def dsum_def)
qed

lemma length_fill_terms: "length (concat (map fill_term xs)) \<le> length xs"
  by (induction xs) (auto simp: fill_term_def split: option.splits)

lemma fill_term_bounds:
  assumes "modest x" "v \<in> set (fill_term x)" shows "0 \<le> val v" "val v \<le> 10 ^ 12 * (1 + EPS)"
proof -
  from assms(2) obtain q p where qp: "co_filled_qty x = Some q" "co_filled_price x = Some p" "0 < val q" "v = q * p"
    by (cases "co_filled_qty x"; cases "co_filled_price x") (auto simp: fill_term_def less_val split: if_splits)
  then have b: "0 \<le> val p" "val q * val p \<le> 10 ^ 12" using assms(1) by (auto simp: modest_def)
  have nn: "0 \<le> val q * val p" using qp(3) b(1) by simp
  show "0 \<le> val v" unfolding qp(4) by (rule rnd_nonneg [OF rnd_times nn])
  have "val v \<le> val q * val p * (1 + EPS)" unfolding qp(4) by (rule rnd_upper [OF rnd_times nn])
  also have "\<dots> \<le> 10 ^ 12 * (1 + EPS)" by (rule mult_right_mono [OF b(2)]) simp
  finally show "val v \<le> 10 ^ 12 * (1 + EPS)" .
qed

lemma modest_fit:
  assumes "\<And>x. x \<in> set (vals os) \<Longrightarrow> modest x" "length os \<le> 10 ^ 6" shows "dollars_fit os"
proof -
  let ?vs = "concat (map fill_term (vals os))"
  have v: "0 \<le> val v \<and> val v \<le> 10 ^ 12 * (1 + EPS)" if "v \<in> set ?vs" for v
  proof -
    from that obtain x where "x \<in> set (vals os)" "v \<in> set (fill_term x)" by auto
    with fill_term_bounds [OF assms(1)] show ?thesis by blast
  qed
  have l: "length ?vs \<le> 10 ^ 6" using length_fill_terms [of "vals os"] assms(2) by simp
  have "(\<Sum>v\<leftarrow>?vs. val v) \<le> of_nat (length (map val ?vs)) * (10 ^ 12 * (1 + EPS))" by (rule sum_list_upper) (use v in auto)
  also have "\<dots> \<le> 10 ^ 6 * (10 ^ 12 * (1 + EPS))"
  proof (rule mult_right_mono)
    show "of_nat (length (map val ?vs)) \<le> (10 ^ 6 :: rat)" using of_nat_mono [OF l, where 'a = rat] by (simp only: length_map of_nat_power of_nat_numeral)
  qed (simp add: EPS_def)
  finally have s: "(\<Sum>v\<leftarrow>?vs. val v) \<le> 10 ^ 6 * (10 ^ 12 * (1 + EPS))" .
  have "val (dsum ?vs) \<le> (\<Sum>v\<leftarrow>?vs. val v) * (1 + SUM_EPS)" by (rule dsum_bounds(2)) (use v l in auto)
  also have "\<dots> \<le> 10 ^ 6 * (10 ^ 12 * (1 + EPS)) * (1 + SUM_EPS)"
    by (rule mult_right_mono [OF s]) (simp add: SUM_EPS_def)
  also have "\<dots> \<le> 10 ^ 25" by (simp add: SUM_EPS_def EPS_def)
  finally have "val (filled_usd os) \<le> 10 ^ 25" by (simp add: filled_usd_dsum)
  moreover have "0 \<le> val (filled_usd os)" unfolding filled_usd_dsum by (rule dsum_nonneg) (use v in auto)
  ultimately show ?thesis by (simp add: dollars_fit_def)
qed

text \<open>The time of a plan is over: its submit window passed before it started, or it still trades at the cutoff.\<close>

definition overdue :: "plan_record \<Rightarrow> ny_time \<Rightarrow> bool" where
  "overdue r now \<longleftrightarrow>
     (pr_status r \<in> {Awaiting_Approval, Approved} \<and>
       (pr_execute_on r < ny_date now \<or> ny_date now = pr_execute_on r \<and> hms 9 27 0 < ny_clock now)) \<or>
     (pr_status r \<in> {Selling, Buying} \<and>
       (pr_execute_on r < ny_date now \<or> ny_date now = pr_execute_on r \<and> hms 15 30 0 \<le> ny_clock now))"

lemma reconcile_overdue:
  assumes "cs_plan (rt_data s) = Some r" "cc_now c (rt_world s) = (w, now)" "overdue r now"
  shows "reconcile c s =
    (if pr_status r \<in> {Awaiting_Approval, Approved} \<and> pr_orders r = [] then close_plan Expired (Some True) else abandon c True)
      (s\<lparr> rt_world := w \<rparr>)"
proof -
  have n: "now_ny c s = (s\<lparr> rt_world := w \<rparr>, Inr now)" by (simp add: now_ny_def assms(2))
  show ?thesis
    using assms(3) by (auto simp: reconcile_def assms(1) bind_Inr n overdue_def SUBMIT_UNTIL_def EXECUTION_CUTOFF_def)
qed

text \<open>
  C13. No plan is left open. Once its submit window has passed without a start, or it still trades at 15:30 or on a
  later day, the next tick closes it, also when every request to the broker fails: the plan is gone from memory and disk,
  one closing entry names its outcome, and the next close re-decides (\<open>forced\<close>) unless every buy was filled.
\<close>

theorem overdue_plan_is_closed:
  assumes "cs_plan (rt_data s) = Some r" "cc_now c (rt_world s) = (w, now)" "overdue r now"
    and "plan_readable r" "length (pr_orders r) \<le> 10 ^ 6"
    and "\<And>x. x \<in> set (vals (pr_orders r)) \<Longrightarrow> modest x" "answers_all modest c"
  shows "\<exists>t os st. run_tick c s = (t, Inr ()) \<and> cs_plan (rt_data t) = None \<and> rt_disk t = rt_data t \<and> rt_tick_failures t = 0 \<and>
    rt_journal t = rt_journal s @ [Plan_Closed (pr_id r) st (pr_kind r) os] \<and> keys os = keys (pr_orders r) \<and>
    (cs_forced (rt_data t) \<or> st = Done \<and> pr_status r = Buying \<and> (\<forall>x \<in> set (vals os). co_status x = ''filled''))"
proof -
  let ?s = "s\<lparr> rt_world := w \<rparr>"
  have p: "cs_plan (rt_data ?s) = Some r" using assms(1) by simp
  have "\<exists>t os st. reconcile c s = (t, Inr ()) \<and> cs_plan (rt_data t) = None \<and> rt_disk t = rt_data t \<and> keys os = keys (pr_orders r) \<and>
    rt_journal t = rt_journal s @ [Plan_Closed (pr_id r) st (pr_kind r) os] \<and>
    (cs_forced (rt_data t) \<or> st = Done \<and> pr_status r = Buying \<and> (\<forall>x \<in> set (vals os). co_status x = ''filled''))"
  proof (cases "pr_status r \<in> {Awaiting_Approval, Approved} \<and> pr_orders r = []")
    case True
    have "dollars_fit (pr_orders r)" using True by (simp add: dollars_fit_def filled_usd_def vals_def)
    from close_plan_ends [OF p this, of Expired "Some True"] show ?thesis
      unfolding reconcile_overdue [OF assms(1-3)] if_P [OF True] by auto
  next
    case False
    have fit: "dollars_fit os" if "keys os = keys (pr_orders r)" "\<And>x. x \<in> set (vals os) \<Longrightarrow> modest x" for os
      using modest_fit that assms(5) by (metis length_keys)
    from abandon_ends [OF p assms(4,7,6) fit, of True] show ?thesis
      unfolding reconcile_overdue [OF assms(1-3)] if_not_P [OF False] by fastforce
  qed
  then obtain t os st where t: "reconcile c s = (t, Inr ())" "cs_plan (rt_data t) = None" "rt_disk t = rt_data t" "keys os = keys (pr_orders r)"
    "rt_journal t = rt_journal s @ [Plan_Closed (pr_id r) st (pr_kind r) os]"
    "cs_forced (rt_data t) \<or> st = Done \<and> pr_status r = Buying \<and> (\<forall>x \<in> set (vals os). co_status x = ''filled'')" by blast
  have "tick c s = (t, Inr ())" by (simp add: tick_def seq_Inr t)
  then have "run_tick c s = bind (now_ny c) (\<lambda>now. update (\<lambda>s. s\<lparr> rt_last_tick := Some now \<rparr>)) (t\<lparr> rt_tick_failures := 0 \<rparr>)"
    by (simp add: run_tick_def attempt_Inr)
  then have "\<exists>w' l. run_tick c s = (t\<lparr> rt_tick_failures := 0, rt_world := w', rt_last_tick := l \<rparr>, Inr ())"
    by (auto simp: now_ny_def bind_def split: prod.splits)
  then show ?thesis using t by auto
qed

text \<open>The witness: a plan still selling at 16:00 while no request gets through.\<close>

definition demo_dead :: "demo_world core_cfg" where
  "demo_dead = demo_cfg\<lparr> cc_lookup := (\<lambda>cid w. (w, Inl TransportError)), cc_cancel := (\<lambda>w. (w, Inl TransportError)) \<rparr>"

definition demo_late :: "demo_world core_rt" where
  "demo_late = demo_rt \<lparr> dw_now = \<lparr> ny_date = Date 2026 9 8, ny_clock = hms 16 0 0 \<rparr>, dw_orders = [], dw_quotes = [], dw_envs = [],
     dw_cash = Dec 100 0, dw_positions = [] \<rparr> (Some (demo_record Selling [(''core-p-VTI-s'', new_order demo_sell ''new'')]))"

lemma demo_plan_readable: "plan_readable (demo_record st os)"
  using plan_from_to_json [of demo_plan]
  by (auto simp: plan_readable_def demo_record_def demo_plan_def valid_date_def days_in_month_def)

theorem overdue_plan_is_closed_witness:
  "\<exists>t. run_tick demo_dead demo_late = (t, Inr ()) \<and> cs_plan (rt_data t) = None \<and> cs_forced (rt_data t)"
proof -
  let ?r = "demo_record Selling [(''core-p-VTI-s'', new_order demo_sell ''new'')]"
  have a: "answers_all modest demo_dead" by (simp add: answers_all_def demo_dead_def)
  have m: "modest x" if "x \<in> set (vals (pr_orders ?r))" for x
    using that by (auto simp: demo_record_def modest_def new_order_def vals_def)
  have p: "cs_plan (rt_data demo_late) = Some ?r" by (simp add: demo_late_def demo_rt_def demo_data_def)
  have n: "cc_now demo_dead (rt_world demo_late) = (rt_world demo_late, \<lparr> ny_date = Date 2026 9 8, ny_clock = hms 16 0 0 \<rparr>)"
    by (simp add: demo_dead_def demo_cfg_def demo_late_def demo_rt_def)
  have o': "overdue ?r \<lparr> ny_date = Date 2026 9 8, ny_clock = hms 16 0 0 \<rparr>" by (simp add: overdue_def demo_record_def hms_def)
  have "length (pr_orders ?r) \<le> 10 ^ 6" "pr_status ?r = Selling" by (simp_all add: demo_record_def)
  with overdue_plan_is_closed [OF p n o' demo_plan_readable _ m a] show ?thesis by auto
qed

section \<open>Buys that outlive their plan\<close>

text \<open>A sale has filled; one buy will go out, the quote of the next will fail, and by the next tick the market has dropped.\<close>

definition demo_selling :: "demo_world core_rt" where
  "demo_selling = demo_rt
     \<lparr> dw_now = \<lparr> ny_date = Date 2026 9 8, ny_clock = hms 9 40 0 \<rparr>, dw_orders = [(''core-p-VTI-s'', demo_filled)],
       dw_quotes = [Inr (Dec 10 0), Inl TransportError],
       dw_envs = [demo_env 0 (Dec 1000 0), demo_env 1 (Dec 1000 0), demo_env 20000000 (Dec 970 0)],
       dw_cash = Dec 100 0, dw_positions = [] \<rparr>
     (Some (demo_record Selling [(''core-p-VTI-s'', new_order demo_sell ''new'')]))"

definition demo_dropped :: "demo_world core_rt" where
  "demo_dropped = fst (run_tick demo_cfg (fst (run_tick demo_cfg demo_selling)))"

definition demo_summary :: "demo_world core_rt \<Rightarrow> plan_record option \<times> plan_record option \<times> event \<times> order_view option" where
  "demo_summary s = (cs_plan (rt_data s), cs_plan (rt_disk s), last (rt_journal s), map_of (dw_orders (rt_world s)) ''core-p-BND-b'')"

definition closed_with :: "event \<Rightarrow> string \<times> plan_status \<times> string list" where
  "closed_with ev = (case ev of Plan_Closed i st k os \<Rightarrow> (i, st, keys os) | _ \<Rightarrow> ([], Done, []))"


end
