(* ===== verification/Core_Admission_Laws.thy ===== *)
theory Core_Admission_Laws imports Core_Execution Core_Demo begin

text \<open>
  What gets a plan into the router's state: the router's own recomputation, the hard limits, and the owner's
  approval where it is needed. A refusal changes nothing but the journal.
\<close>

section \<open>Admitting\<close>

lemma admit_ok:
  assumes "admit c p snap kind s = (t, Inr rep)"
  shows "\<exists>equity needs.
    (kind = Initial \<longrightarrow> \<not> pol_funded_amount_cap_usd (cc_policy c) < snap_cash snap) \<and>
    account_value snap = Inr equity \<and>
    plan_violations p (cc_policy c) (snap_closes snap) equity (executed_of (rt_data s)) (snap_session snap) (kind = Initial) (kind = Initial) = Inr [] \<and>
    (if kind = Rebalance then needs_approval p (cc_policy c) (snap_closes snap) = Inr needs else needs) \<and>
    rt_data t = (rt_data s)\<lparr> cs_plan := Some (new_record (plan_id_of c p snap) kind needs p snap), cs_forced := False \<rparr> \<and>
    rt_disk t = rt_data t \<and> rt_world t = rt_world s \<and>
    rep = Reply_Plan (if needs then Awaiting_Approval else Approved) (plan_id_of c p snap) (snap_next_session snap)"
proof -
  let ?pid = "plan_id_of c p snap"
  let ?v = "plan_violations p (cc_policy c) (snap_closes snap)"
  have cap: "\<not> (kind = Initial \<and> pol_funded_amount_cap_usd (cc_policy c) < snap_cash snap)"
    using assms by (auto simp: admit_def journal_eq)
  obtain equity where eq: "account_value snap = Inr equity"
    using assms cap by (cases "account_value snap") (auto simp: admit_def split: if_splits)
  obtain problems where pr: "?v equity (executed_of (rt_data s)) (snap_session snap) (kind = Initial) (kind = Initial) = Inr problems"
    using assms cap eq by (cases "?v equity (executed_of (rt_data s)) (snap_session snap) (kind = Initial) (kind = Initial)") (auto simp: admit_def split: if_splits)
  have np: "problems = []"
    using assms cap eq pr by (auto simp: admit_def journal_eq Let_def split: if_splits)
  obtain needs where needs: "(if kind = Initial \<or> kind = Raise_Cash then ret True else lift (needs_approval p (cc_policy c) (snap_closes snap))) s = (s, Inr needs)"
    using assms cap eq pr np
    by (cases "needs_approval p (cc_policy c) (snap_closes snap)") (auto simp: admit_def Let_def split: if_splits)
  let ?r = "new_record ?pid kind needs p snap"
  have rest: "bind (gets (\<lambda>s. cs_plan (rt_data s))) (\<lambda>replaced.
          seq (case replaced of None \<Rightarrow> ret ()
               | Some r0 \<Rightarrow> if pr_id r0 \<noteq> ?pid then journal (Plan_Superseded (pr_id r0) ?pid) else ret ())
         (seq (set_data (\<lambda>d. d\<lparr> cs_plan := Some ?r, cs_forced := False \<rparr>))
         (seq save
         (seq (journal (Plan_Accepted ?pid kind (pr_status ?r) (pr_execute_on ?r) (pr_redecision ?r)))
              (ret (Reply_Plan (pr_status ?r) ?pid (pr_execute_on ?r))))))) s = (t, Inr rep)"
    using assms cap eq pr np needs by (cases kind) (auto simp: admit_def Let_def)
  have "rt_data t = (rt_data s)\<lparr> cs_plan := Some ?r, cs_forced := False \<rparr> \<and> rt_disk t = rt_data t \<and> rt_world t = rt_world s \<and>
      rep = Reply_Plan (pr_status ?r) ?pid (pr_execute_on ?r)"
    using rest by (auto simp: journal_eq set_data_eq save_eq split: option.splits if_splits)
  moreover have "if kind = Rebalance then needs_approval p (cc_policy c) (snap_closes snap) = Inr needs else needs"
    using needs by (cases kind) auto
  ultimately show ?thesis
    using cap eq pr np by (intro exI [of _ equity] exI [of _ needs]) (auto simp: new_record_def)
qed

lemma admit_refused:
  assumes "admit c p snap kind s = (t, Inl e)" shows "rt_data t = rt_data s"
  using assms
  by (auto simp: admit_def Let_def bind_def lift_def gets_def raise_def seq_def ret_def journal_eq set_data_eq save_eq
      split: if_splits sum.splits option.splits)

lemma snapshot_rt: "snapshot_of c d s = (s', r) \<Longrightarrow> rt_data s' = rt_data s \<and> rt_disk s' = rt_disk s"
  by (auto simp: snapshot_of_def split: prod.splits)

lemma lift_result [simp]: "lift r s = (s', x) \<longleftrightarrow> s' = s \<and> x = r"
  by auto

lemma take_plan_cases:
  assumes "take_plan c p snap s = (t, r)"
  obtains (refused) e where "rt_data t = rt_data s" "r = Inl e"
  | (kept) rec where "cs_plan (rt_data s) = Some rec" "pr_id rec = plan_id_of c p snap" "t = s"
      "r = Inr (Reply_Plan (pr_status rec) (pr_id rec) (pr_execute_on rec))"
  | (admitted) rep where "\<not> in_flight (cs_plan (rt_data s))" "r = Inr rep"
      "admit c p snap (if snap_initial snap \<or> cs_initial_incomplete (rt_data s) then Initial else Rebalance) s = (t, Inr rep)"
proof (cases "cs_plan (rt_data s)")
  case None
  then have a: "admit c p snap (if snap_initial snap \<or> cs_initial_incomplete (rt_data s) then Initial else Rebalance) s = (t, r)"
    using assms by (simp add: take_plan_def Let_def)
  show thesis
  proof (cases r)
    case (Inl e)
    then show thesis using admit_refused a by (intro refused) auto
  next
    case (Inr rep)
    then show thesis using a None by (intro admitted) (auto simp: in_flight_def)
  qed
next
  case (Some rec)
  consider (a) "in_flight (Some rec)" | (b) "\<not> in_flight (Some rec)" "pr_id rec = plan_id_of c p snap \<and> (pr_status rec = Awaiting_Approval \<or> pr_status rec = Approved)"
    | (c) "\<not> in_flight (Some rec)" "\<not> (pr_id rec = plan_id_of c p snap \<and> (pr_status rec = Awaiting_Approval \<or> pr_status rec = Approved))" by blast
  then show thesis
  proof cases
    case a
    then show thesis using assms Some by (intro refused) (auto simp: take_plan_def Let_def)
  next
    case b
    then show thesis using assms Some by (intro kept) (auto simp: take_plan_def Let_def)
  next
    case c
    then have a: "admit c p snap (if snap_initial snap \<or> cs_initial_incomplete (rt_data s) then Initial else Rebalance) s = (t, r)"
      using assms Some by (auto simp: take_plan_def Let_def)
    show thesis
    proof (cases r)
      case (Inl e)
      then show thesis using admit_refused a by (intro refused) auto
    next
      case (Inr rep)
      then show thesis using a Some c(1) by (intro admitted) auto
    qed
  qed
qed

lemma receive_plan_ok:
  assumes "receive_plan c prop s = (t, Inr (Reply_Plan st pid d))"
  obtains s1 s2 snap p q where "reconcile c s = (s1, Inr ())" "snapshot_of c (prop_session prop) s1 = (s2, Inr snap)"
    "decide (cc_policy c) snap = Inr (Some p)" "cc_digest c snap = prop_inputs prop"
    "map_option plan_from_json (prop_plan prop) = Some (Inr q)" "plan_to_json q = plan_to_json p"
    "take_plan c p snap s2 = (t, Inr (Reply_Plan st pid d))"
proof -
  let ?theirs = "case prop_plan prop of None \<Rightarrow> Inr None | Some j \<Rightarrow> emap Some (plan_from_json j)"
  obtain s1 where s1: "reconcile c s = (s1, Inr ())" and k1: "bind (snapshot_of c (prop_session prop)) (\<lambda>snap.
      bind (lift (decide (cc_policy c) snap)) (\<lambda>mine. bind (lift ?theirs) (take_proposal c prop snap mine))) s1 = (t, Inr (Reply_Plan st pid d))"
    using assms unfolding receive_plan_def by (elim seq_cases) auto
  from k1 obtain s2 snap where s2: "snapshot_of c (prop_session prop) s1 = (s2, Inr snap)" and
    k2: "bind (lift (decide (cc_policy c) snap)) (\<lambda>mine. bind (lift ?theirs) (take_proposal c prop snap mine)) s2 = (t, Inr (Reply_Plan st pid d))"
    by (elim bind_cases) auto
  from k2 obtain mine theirs where m: "decide (cc_policy c) snap = Inr mine" "?theirs = Inr theirs"
    and k3: "take_proposal c prop snap mine theirs s2 = (t, Inr (Reply_Plan st pid d))"
    by (elim bind_cases) auto
    from k3 obtain p where p: "cc_digest c snap = prop_inputs prop" "mine = Some p" "map_option plan_to_json theirs = Some (plan_to_json p)"
      "take_plan c p snap s2 = (t, Inr (Reply_Plan st pid d))"
      by (cases mine; cases theirs) (auto simp: take_proposal_def journal_eq set_data_eq save_eq split: if_splits)
    then obtain q where "theirs = Some q" "plan_to_json q = plan_to_json p" by auto
    moreover from this(1) m(2) have "map_option plan_from_json (prop_plan prop) = Some (Inr q)"
      by (auto simp: emap_def ebind_def split: option.splits sum.splits)
    ultimately show thesis using that [OF s1 s2] m(1) p by blast
qed

text \<open>
  C15. Nothing enters the router but its own decision. A proposal is accepted only if the inputs' digest and the
  plan equal what the router recomputes from its own reads, no plan is in flight, the plan breaks no hard limit and an
  initial build is within the funded cap; it is stored exactly, on disk too, and waits for the owner if it is the
  initial build or trades above the threshold. Otherwise the plan that is there is kept as it is.
\<close>

theorem receive_plan_accepts_own_decision:
  assumes "receive_plan c prop s = (t, Inr (Reply_Plan st pid d))"
  shows "\<exists>s1 s2 snap p q kind equity needs.
    reconcile c s = (s1, Inr ()) \<and> snapshot_of c (prop_session prop) s1 = (s2, Inr snap) \<and>
    decide (cc_policy c) snap = Inr (Some p) \<and> cc_digest c snap = prop_inputs prop \<and>
    map_option plan_from_json (prop_plan prop) = Some (Inr q) \<and> plan_to_json q = plan_to_json p \<and> pid = plan_id_of c p snap \<and>
    ((\<exists>r. cs_plan (rt_data s1) = Some r \<and> pr_id r = pid \<and> rt_data t = rt_data s1 \<and> st = pr_status r) \<or>
     (\<not> in_flight (cs_plan (rt_data s1)) \<and> kind \<noteq> Raise_Cash \<and> (snap_initial snap \<longrightarrow> kind = Initial) \<and>
      (kind = Initial \<longrightarrow> val (snap_cash snap) \<le> val (pol_funded_amount_cap_usd (cc_policy c))) \<and>
      plan_violations p (cc_policy c) (snap_closes snap) equity (executed_of (rt_data s1)) (snap_session snap) (kind = Initial) (kind = Initial) = Inr [] \<and>
      account_value snap = Inr equity \<and>
      (kind = Rebalance \<longrightarrow> needs_approval p (cc_policy c) (snap_closes snap) = Inr needs) \<and> (kind = Initial \<longrightarrow> needs) \<and>
      cs_plan (rt_data t) = Some (new_record pid kind needs p snap) \<and> rt_disk t = rt_data t \<and>
      st = (if needs then Awaiting_Approval else Approved)))"
proof -
  from receive_plan_ok [OF assms] obtain s1 s2 snap p q where R: "reconcile c s = (s1, Inr ())"
    "snapshot_of c (prop_session prop) s1 = (s2, Inr snap)"
    "decide (cc_policy c) snap = Inr (Some p)" "cc_digest c snap = prop_inputs prop"
    "map_option plan_from_json (prop_plan prop) = Some (Inr q)" "plan_to_json q = plan_to_json p"
    and tp: "take_plan c p snap s2 = (t, Inr (Reply_Plan st pid d))" by metis
  have s2: "rt_data s2 = rt_data s1" using snapshot_rt [OF R(2)] by simp
  from tp show ?thesis
  proof (cases rule: take_plan_cases)
    case refused
    then show ?thesis by simp
  next
    case (kept rec)
    then show ?thesis using R s2 by auto
  next
    case (admitted rep)
    define kind where "kind = (if snap_initial snap \<or> cs_initial_incomplete (rt_data s2) then Initial else Rebalance)"
    have k: "kind \<noteq> Raise_Cash" "snap_initial snap \<longrightarrow> kind = Initial" "kind = Rebalance \<or> kind = Initial" by (auto simp: kind_def)
    from admit_ok [OF admitted(3) [folded kind_def]] obtain equity needs where A:
      "kind = Initial \<longrightarrow> \<not> pol_funded_amount_cap_usd (cc_policy c) < snap_cash snap" "account_value snap = Inr equity"
      "plan_violations p (cc_policy c) (snap_closes snap) equity (executed_of (rt_data s2)) (snap_session snap) (kind = Initial) (kind = Initial) = Inr []"
      "if kind = Rebalance then needs_approval p (cc_policy c) (snap_closes snap) = Inr needs else needs"
      "rt_data t = (rt_data s2)\<lparr> cs_plan := Some (new_record (plan_id_of c p snap) kind needs p snap), cs_forced := False \<rparr>"
      "rt_disk t = rt_data t" "rep = Reply_Plan (if needs then Awaiting_Approval else Approved) (plan_id_of c p snap) (snap_next_session snap)"
      by (elim exE conjE)
    have "rep = Reply_Plan st pid d" using admitted(2) by simp
    then have pid: "pid = plan_id_of c p snap" "st = (if needs then Awaiting_Approval else Approved)" using A(7) by simp_all
    show ?thesis
      by (rule exI [of _ s1], rule exI [of _ s2], rule exI [of _ snap], rule exI [of _ p], rule exI [of _ q], rule exI [of _ kind],
          rule exI [of _ equity], rule exI [of _ needs], intro conjI R disjI2)
        (use A k admitted(1) s2 pid in \<open>simp_all add: less_val not_less\<close>)
  qed
qed

text \<open>The initial build of the demo policy, proposed as the router computes it.\<close>

definition demo_start :: "demo_world core_rt" where
  "demo_start = demo_rt \<lparr> dw_now = \<lparr> ny_date = Date 2026 9 7, ny_clock = hms 17 0 0 \<rparr>, dw_orders = [], dw_quotes = [], dw_envs = [],
     dw_cash = Dec 1000 0, dw_positions = [] \<rparr> None"

definition demo_snap :: snapshot where
  "demo_snap = \<lparr> snap_session = Date 2026 9 7, snap_next_session = Date 2026 9 8, snap_qty = [(''BND'', 0), (''VTI'', 0), (''VXUS'', 0)],
     snap_cash = Dec 1000 0, snap_closes = [(''BND'', Dec 10 0), (''VTI'', Dec 10 0), (''VXUS'', Dec 10 0)], snap_forced = False,
     snap_initial = True, snap_targets = [] \<rparr>"

definition demo_build :: plan where
  "demo_build = \<lparr> decided_on = Date 2026 9 7, targets = pol_mix demo_policy, sells = [],
     buys = [(''BND'', Dec 30000 (-2)), (''VTI'', Dec 50000 (-2)), (''VXUS'', Dec 20000 (-2))], reason = ''initial'' \<rparr>"

definition demo_proposal :: proposal where
  "demo_proposal = \<lparr> prop_session = Date 2026 9 7, prop_plan = Some (plan_to_json demo_build), prop_inputs = ''d'' \<rparr>"

lemma demo_facts:
  "snd (snapshot_of demo_cfg (Date 2026 9 7) demo_start) = Inr demo_snap"
  "decide demo_policy demo_snap = Inr (Some demo_build)" "account_value demo_snap = Inr (Dec 1000 0)"
  "plan_violations demo_build demo_policy (snap_closes demo_snap) (Dec 1000 0) [] (Date 2026 9 7) True True = Inr []"
  by code_simp+

lemma demo_build_json: "plan_from_json (plan_to_json demo_build) = Inr (plan_sorted demo_build)" "plan_to_json (plan_sorted demo_build) = plan_to_json demo_build"
proof -
  show "plan_from_json (plan_to_json demo_build) = Inr (plan_sorted demo_build)"
    by (rule plan_from_to_json) (simp_all add: demo_build_def valid_date_def days_in_month_def)
  have "sorted_items (targets (plan_sorted demo_build)) = sorted_items (targets demo_build)" "sorted_items (sells (plan_sorted demo_build)) = sorted_items (sells demo_build)"
    "sorted_items (buys (plan_sorted demo_build)) = sorted_items (buys demo_build)"
    by code_simp+
  moreover have "decided_on (plan_sorted demo_build) = decided_on demo_build" "reason (plan_sorted demo_build) = reason demo_build"
    by (simp_all add: plan_sorted_def)
  ultimately show "plan_to_json (plan_sorted demo_build) = plan_to_json demo_build" by (simp add: plan_to_json_def)
qed

lemma demo_receive:
  "\<exists>t. receive_plan demo_cfg demo_proposal demo_start =
    (t, Inr (Reply_Plan Awaiting_Approval (plan_id_of demo_cfg demo_build demo_snap) (Date 2026 9 8)))"
proof -
  have s: "snapshot_of demo_cfg (Date 2026 9 7) demo_start = (demo_start, Inr demo_snap)"
    using demo_facts(1) by (auto simp: snapshot_of_def demo_cfg_def demo_reads_def split: prod.splits)
  have p: "cs_plan (rt_data demo_start) = None" "executed_of (rt_data demo_start) = []" "cs_initial_incomplete (rt_data demo_start) = False"
    by (simp_all add: demo_start_def demo_rt_def demo_data_def executed_of_def)
  have r: "reconcile demo_cfg demo_start = (demo_start, Inr ())" by (simp add: reconcile_def p)
  have c: "cc_policy demo_cfg = demo_policy" "cc_digest demo_cfg demo_snap = ''d''" by (simp_all add: demo_cfg_def)
  have f: "snap_initial demo_snap" "snap_session demo_snap = Date 2026 9 7" "snap_next_session demo_snap = Date 2026 9 8"
    "\<not> pol_funded_amount_cap_usd demo_policy < snap_cash demo_snap"
    by (simp_all add: demo_snap_def demo_policy_def)
  have admit: "\<exists>t. admit demo_cfg demo_build demo_snap Initial demo_start =
      (t, Inr (Reply_Plan Awaiting_Approval (plan_id_of demo_cfg demo_build demo_snap) (Date 2026 9 8)))"
    by (simp add: admit_def c f p demo_facts Let_def set_data_eq save_eq journal_eq new_record_def)
  show ?thesis
    using admit
    by (simp add: receive_plan_def demo_proposal_def r s c f p demo_facts demo_build_json emap_def bind_Inr seq_Inr take_proposal_def take_plan_def)
qed

theorem receive_plan_accepts_own_decision_witness:
  "\<exists>s1 s2 snap p. reconcile demo_cfg demo_start = (s1, Inr ()) \<and> snapshot_of demo_cfg (prop_session demo_proposal) s1 = (s2, Inr snap) \<and>
     decide (cc_policy demo_cfg) snap = Inr (Some p) \<and> plan_id_of demo_cfg demo_build demo_snap = plan_id_of demo_cfg p snap"
proof -
  obtain t where "receive_plan demo_cfg demo_proposal demo_start =
      (t, Inr (Reply_Plan Awaiting_Approval (plan_id_of demo_cfg demo_build demo_snap) (Date 2026 9 8)))"
    using demo_receive by blast
  from receive_plan_accepts_own_decision [OF this] show ?thesis by (elim exE conjE) (intro exI conjI)
qed

section \<open>Raising cash over a re-decision\<close>

lemma snapshot_forced: "snapshot_of c d s = (s', Inr snap) \<Longrightarrow> snap_forced snap = cs_forced (rt_data s)"
  by (auto simp: snapshot_of_def read_snapshot_def Let_def ebind_Inr_iff split: prod.splits sum.splits if_splits)

lemma ask_data: "ask f s = (s', r) \<Longrightarrow> rt_data s' = rt_data s"
  by (auto simp: ask_def split: prod.splits)

lemma now_data: "now_ny c s = (s', r) \<Longrightarrow> rt_data s' = rt_data s"
  by (cases "cc_now c (rt_world s)") (auto simp: now_ny_def)

lemma raise_cash_ok:
  assumes "raise_cash c amount need_by s = (t, Inr rep)"
  obtains s1 s2 snap p where "reconcile c s = (s1, Inr ())" "\<not> in_flight (cs_plan (rt_data s1))" "rt_data s2 = rt_data s1"
    "snap_forced snap = cs_forced (rt_data s1)" "\<not> need_by < snap_next_session snap" "\<not> skip_reason (cc_policy c) snap"
    "admit c p snap Raise_Cash s2 = (t, Inr rep)"
proof -
  from assms obtain s1 s2 s3 s4 now sessions now2 where s1: "reconcile c s = (s1, Inr ())"
    and w: "now_ny c s1 = (s2, Inr now)" "ask (cc_calendar c) s2 = (s3, Inr sessions)" "now_ny c s3 = (s4, Inr now2)"
    and k: "(case last_published sessions now2 of None \<Rightarrow> raise (PlanRejected ''not_a_session'')
      | Some session \<Rightarrow>
          bind (snapshot_of c session) (\<lambda>snap.
          bind (gets (\<lambda>s. cs_plan (rt_data s))) (\<lambda>current.
          case cash_refusal c need_by now snap current of
            Some code \<Rightarrow> raise (PlanRejected code)
          | None \<Rightarrow> bind (lift (cash_plan c amount snap)) (\<lambda>p. admit c p snap Raise_Cash)))) s4 = (t, Inr rep)"
    unfolding raise_cash_def by (elim seq_cases bind_cases) auto
  have d4: "rt_data s4 = rt_data s1" using now_data [OF w(1)] ask_data [OF w(2)] now_data [OF w(3)] by simp
  from k obtain session where "last_published sessions now2 = Some session" by (cases "last_published sessions now2") auto
  with k obtain s5 snap where s5: "snapshot_of c session s4 = (s5, Inr snap)"
    and k5: "(case cash_refusal c need_by now snap (cs_plan (rt_data s5)) of
            Some code \<Rightarrow> raise (PlanRejected code)
          | None \<Rightarrow> bind (lift (cash_plan c amount snap)) (\<lambda>p. admit c p snap Raise_Cash)) s5 = (t, Inr rep)"
    by (auto elim: bind_cases)
  then have ok: "cash_refusal c need_by now snap (cs_plan (rt_data s5)) = None" by (auto split: option.splits)
  with k5 obtain p where p: "admit c p snap Raise_Cash s5 = (t, Inr rep)" by (auto elim: bind_cases)
  have "rt_data s5 = rt_data s1" "snap_forced snap = cs_forced (rt_data s1)"
    using snapshot_rt [OF s5] snapshot_forced [OF s5] d4 by simp_all
  with that [OF s1 _ _ _ _ _ p] ok show thesis by (auto simp: cash_refusal_def split: if_splits)
qed

text \<open>
  Raising cash drops a pending re-decision. A plan that re-decides an incomplete one is accepted with
  \<open>forced\<close> reset, so when the owner raises cash before it starts, the plan that replaces it is not a re-decision
  and \<open>forced\<close> is False: nothing remembers that the incomplete plan was never finished.
\<close>

theorem raise_cash_drops_redecision:
  assumes "raise_cash c amount need_by s = (t, Inr rep)" "reconcile c s = (s1, Inr ())"
    and "cs_plan (rt_data s1) = Some r0" "pr_redecision r0" "\<not> cs_forced (rt_data s1)"
  shows "pr_orders r0 = [] \<and> \<not> cs_forced (rt_data t) \<and> cs_history (rt_data t) = cs_history (rt_data s1) \<and>
    (\<exists>r. cs_plan (rt_data t) = Some r \<and> pr_kind r = Raise_Cash \<and> \<not> pr_redecision r \<and> rt_disk t = rt_data t)"
proof -
  from raise_cash_ok [OF assms(1)] assms(2) obtain s2 snap p where
    R: "\<not> in_flight (cs_plan (rt_data s1))" "rt_data s2 = rt_data s1" "snap_forced snap = cs_forced (rt_data s1)"
      "admit c p snap Raise_Cash s2 = (t, Inr rep)"
    by (metis Pair_inject)
  from admit_ok [OF R(4)] R assms(3,5) show ?thesis by (auto simp: new_record_def in_flight_def)
qed

definition demo_holding :: "demo_world core_rt" where
  "demo_holding = demo_rt \<lparr> dw_now = \<lparr> ny_date = Date 2026 9 7, ny_clock = hms 17 0 0 \<rparr>, dw_orders = [], dw_quotes = [], dw_envs = [],
     dw_cash = 0, dw_positions = [(''VTI'', Dec 50 0), (''BND'', Dec 30 0), (''VXUS'', Dec 20 0)] \<rparr>
     (Some ((demo_record Awaiting_Approval [])\<lparr> pr_redecision := True \<rparr>))"

definition demo_held :: snapshot where
  "demo_held = demo_snap\<lparr> snap_qty := [(''BND'', Dec 30 0), (''VTI'', Dec 50 0), (''VXUS'', Dec 20 0)], snap_cash := 0, snap_initial := False \<rparr>"

definition demo_cash_plan :: plan where
  "demo_cash_plan = \<lparr> decided_on = Date 2026 9 7, targets = pol_mix demo_policy, sells = [(''BND'', Dec 10007004904 (-9))], buys = [],
     reason = ''raise_cash'' \<rparr>"

lemma demo_cash_facts:
  "last_published [Date 2026 8 31, Date 2026 9 1, Date 2026 9 7] \<lparr> ny_date = Date 2026 9 7, ny_clock = hms 17 0 0 \<rparr> = Some (Date 2026 9 7)"
  "snd (snapshot_of demo_cfg (Date 2026 9 7) demo_holding) = Inr demo_held"
  "cash_plan demo_cfg (Dec 100 0) demo_held = Inr demo_cash_plan" "account_value demo_held = Inr (Dec 1000 0)"
  "plan_violations demo_cash_plan demo_policy (snap_closes demo_held) (Dec 1000 0) [] (Date 2026 9 7) False False = Inr []"
  by code_simp+

lemma demo_cash_refusal:
  "cash_refusal demo_cfg (Date 2026 9 9) \<lparr> ny_date = Date 2026 9 7, ny_clock = hms 17 0 0 \<rparr> demo_held (cs_plan (rt_data demo_holding)) = None"
  by (simp add: cash_refusal_def skip_reason_def demo_cfg_def demo_policy_def demo_held_def demo_snap_def demo_holding_def demo_rt_def
      demo_data_def demo_record_def in_flight_def less_date_def)

theorem raise_cash_drops_redecision_witness:
  "\<exists>t r. fst (raise_cash demo_cfg (Dec 100 0) (Date 2026 9 9) demo_holding) = t \<and> cs_plan (rt_data t) = Some r \<and> \<not> pr_redecision r \<and> \<not> cs_forced (rt_data t)"
proof -
  have r: "reconcile demo_cfg demo_holding = (demo_holding, Inr ())"
    by (simp add: reconcile_def now_ny_def demo_holding_def demo_rt_def demo_data_def demo_record_def demo_cfg_def bind_def less_date_def
        SUBMIT_UNTIL_def)
  have n: "now_ny demo_cfg demo_holding = (demo_holding, Inr \<lparr> ny_date = Date 2026 9 7, ny_clock = hms 17 0 0 \<rparr>)"
    "ask (cc_calendar demo_cfg) demo_holding = (demo_holding, Inr [Date 2026 8 31, Date 2026 9 1, Date 2026 9 7])"
    by (simp_all add: now_ny_def ask_def demo_holding_def demo_rt_def demo_cfg_def)
  have s: "snapshot_of demo_cfg (Date 2026 9 7) demo_holding = (demo_holding, Inr demo_held)"
    using demo_cash_facts(2) by (auto simp: snapshot_of_def demo_cfg_def demo_reads_def split: prod.splits)
  have c: "cc_policy demo_cfg = demo_policy" "snap_session demo_held = Date 2026 9 7" by (simp_all add: demo_cfg_def demo_held_def demo_snap_def)
  have p: "cs_plan (rt_data demo_holding) = Some ((demo_record Awaiting_Approval [])\<lparr> pr_redecision := True \<rparr>)"
    "executed_of (rt_data demo_holding) = []" "\<not> cs_forced (rt_data demo_holding)"
    by (simp_all add: demo_holding_def demo_rt_def demo_data_def executed_of_def)
  have "\<exists>t rep. admit demo_cfg demo_cash_plan demo_held Raise_Cash demo_holding = (t, Inr rep)"
    by (simp add: admit_def c p demo_cash_facts Let_def set_data_eq save_eq journal_eq new_record_def demo_record_def)
  then obtain t rep where "raise_cash demo_cfg (Dec 100 0) (Date 2026 9 9) demo_holding = (t, Inr rep)"
    by (auto simp: raise_cash_def r n s demo_cash_facts demo_cash_refusal bind_Inr seq_Inr)
  from raise_cash_drops_redecision [OF this r p(1) _ p(3)] this show ?thesis by auto
qed

end
