(* ===== verification/Core_Journal.thy ===== *)
theory Core_Journal imports Prelude begin

text \<open>
  \<open>risk_router/core_gatekeeper.py\<close>, \<open>Journal\<close>: the append-only file whose entries each carry the hash of
  the line before, and the anchor in the state file. A line is a value of an abstract type: \<open>mk\<close> is
  \<open>json.dumps\<close> of an entry with its \<open>prev\<close>, \<open>prev_of\<close> the \<open>prev\<close> of a parsed line (None when it
  does not parse or has none), \<open>hash\<close> the SHA-256, whose hex digest is never the empty string. What the
  chain shows rests on \<open>hash\<close> having no collisions, stated where it is used. The anchor is the empty
  string until the first entry.
\<close>

record 'l journal_store =
  jr_lines :: "'l list"
  jr_head :: string
  jr_anchor :: string

definition tail_hash :: "('l \<Rightarrow> string) \<Rightarrow> 'l list \<Rightarrow> string" where
  "tail_hash hash ls = (if ls = [] then [] else hash (last ls))"

text \<open>Opening the journal takes the head from the file.\<close>

definition open_journal :: "('l \<Rightarrow> string) \<Rightarrow> 'l list \<Rightarrow> string \<Rightarrow> 'l journal_store" where
  "open_journal hash ls anchor = \<lparr> jr_lines = ls, jr_head = tail_hash hash ls, jr_anchor = anchor \<rparr>"

definition journal_write :: "('l \<Rightarrow> string) \<Rightarrow> (string \<Rightarrow> 'e \<Rightarrow> 'l) \<Rightarrow> 'e \<Rightarrow> 'l journal_store \<Rightarrow> 'l journal_store" where
  "journal_write hash mk e s =
     (let line = mk (jr_head s) e in
      \<lparr> jr_lines = jr_lines s @ [line], jr_head = hash line, jr_anchor = hash line \<rparr>)"

text \<open>A crash after the line is on disk and before the anchor is saved; the next start opens the file again.\<close>

definition crashed_write :: "('l \<Rightarrow> string) \<Rightarrow> (string \<Rightarrow> 'e \<Rightarrow> 'l) \<Rightarrow> 'e \<Rightarrow> 'l journal_store \<Rightarrow> 'l journal_store" where
  "crashed_write hash mk e s = open_journal hash (jr_lines s @ [mk (jr_head s) e]) (jr_anchor s)"

text \<open>\<open>verify\<close>: a line without a readable \<open>prev\<close> raises, which \<open>status\<close> treats as a broken chain.\<close>

fun verify_from :: "('l \<Rightarrow> string) \<Rightarrow> ('l \<Rightarrow> string option) \<Rightarrow> string \<Rightarrow> 'l list \<Rightarrow> bool result" where
  "verify_from hash prev_of head [] = Inr True"
| "verify_from hash prev_of head (l # ls) =
     (case prev_of l of
        None \<Rightarrow> Inl (ValueError ''journal'')
      | Some p \<Rightarrow> if p \<noteq> head then Inr False else verify_from hash prev_of (hash l) ls)"

definition verify :: "('l \<Rightarrow> string) \<Rightarrow> ('l \<Rightarrow> string option) \<Rightarrow> 'l list \<Rightarrow> bool result" where
  "verify hash prev_of ls = verify_from hash prev_of [] ls"

datatype trust = Trusted | Chain_Broken | Anchor_Mismatch

definition journal_status :: "('l \<Rightarrow> string) \<Rightarrow> ('l \<Rightarrow> string option) \<Rightarrow> bool \<Rightarrow> 'l journal_store \<Rightarrow> 'l journal_store \<times> trust" where
  "journal_status hash prev_of repair s =
     (let ls = jr_lines s; anchor = jr_anchor s;
          (chain_ok, last_prev) =
            (case (if ls = [] then Inr True else verify hash prev_of ls) of
               Inl e \<Rightarrow> (False, [])
             | Inr ok \<Rightarrow> (ok, if ls = [] then [] else case prev_of (last ls) of None \<Rightarrow> [] | Some p \<Rightarrow> p))
      in if \<not> chain_ok then (s, Chain_Broken)
         else if anchor \<noteq> [] \<and> anchor \<noteq> jr_head s \<and> anchor \<noteq> last_prev then (s, Anchor_Mismatch)
         else (if repair \<and> anchor \<noteq> jr_head s then s\<lparr> jr_anchor := jr_head s \<rparr> else s, Trusted))"

section \<open>The chain\<close>

definition chained :: "('l \<Rightarrow> string) \<Rightarrow> ('l \<Rightarrow> string option) \<Rightarrow> 'l list \<Rightarrow> bool" where
  "chained hash prev_of ls \<longleftrightarrow> verify hash prev_of ls = Inr True"

lemma verify_from_append:
  "verify_from hash prev_of h (xs @ ys) = Inr True \<longleftrightarrow>
     verify_from hash prev_of h xs = Inr True \<and> verify_from hash prev_of (if xs = [] then h else hash (last xs)) ys = Inr True"
  by (induction xs arbitrary: h) (auto split: option.splits)

lemma chained_snoc:
  "chained hash prev_of (ls @ [l]) \<longleftrightarrow> chained hash prev_of ls \<and> prev_of l = Some (tail_hash hash ls)"
  by (auto simp: chained_def verify_def verify_from_append tail_hash_def split: option.splits if_splits)

lemma chained_Nil [simp]: "chained hash prev_of []"
  by (simp add: chained_def verify_def)

text \<open>A reader that gives back what was written.\<close>

definition reads_back :: "(string \<Rightarrow> 'e \<Rightarrow> 'l) \<Rightarrow> ('l \<Rightarrow> string option) \<Rightarrow> bool" where
  "reads_back mk prev_of \<longleftrightarrow> (\<forall>h e. prev_of (mk h e) = Some h)"

definition sound_journal :: "('l \<Rightarrow> string) \<Rightarrow> ('l \<Rightarrow> string option) \<Rightarrow> 'l journal_store \<Rightarrow> bool" where
  "sound_journal hash prev_of s \<longleftrightarrow> chained hash prev_of (jr_lines s) \<and> jr_head s = tail_hash hash (jr_lines s)"

lemma status_eval:
  assumes "sound_journal hash prev_of s" "jr_lines s = ls @ [l]"
  shows "journal_status hash prev_of repair s =
    (if jr_anchor s \<noteq> [] \<and> jr_anchor s \<noteq> jr_head s \<and> jr_anchor s \<noteq> tail_hash hash ls then (s, Anchor_Mismatch)
     else (if repair \<and> jr_anchor s \<noteq> jr_head s then s\<lparr> jr_anchor := jr_head s \<rparr> else s, Trusted))"
proof -
  have v: "verify hash prev_of (ls @ [l]) = Inr True" "prev_of l = Some (tail_hash hash ls)"
    using assms chained_snoc [of hash prev_of ls l] by (simp_all add: sound_journal_def chained_def)
  show ?thesis by (simp add: journal_status_def Let_def assms(2) v)
qed

lemma status_trusted:
  assumes "sound_journal hash prev_of s"
    and "jr_anchor s = [] \<or> jr_anchor s = jr_head s \<or> (\<exists>ls l. jr_lines s = ls @ [l] \<and> jr_anchor s = tail_hash hash ls)"
  shows "journal_status hash prev_of repair s = (if repair then s\<lparr> jr_anchor := jr_head s \<rparr> else s, Trusted)"
proof -
  have v: "(if jr_lines s = [] then Inr True else verify hash prev_of (jr_lines s)) = Inr True"
    using assms(1) by (simp add: sound_journal_def chained_def)
  have "prev_of l = Some (tail_hash hash ls)" if "jr_lines s = ls @ [l]" for ls l
    using assms(1) that by (simp add: sound_journal_def chained_snoc)
  then show ?thesis
    using assms(2) v by (auto simp: journal_status_def Let_def)
qed

lemma chained_unique:
  assumes inj: "inj hash" "\<And>l. hash l \<noteq> []"
  shows "chained hash prev_of xs \<Longrightarrow> chained hash prev_of ys \<Longrightarrow> tail_hash hash xs = tail_hash hash ys \<Longrightarrow> xs = ys"
proof (induction xs arbitrary: ys rule: rev_induct)
  case Nil
  then show ?case using inj(2) [of "last ys"] by (cases "ys = []") (simp_all add: tail_hash_def)
next
  case (snoc x xs)
  then have "ys \<noteq> []" using inj(2) [of x] by (auto simp: tail_hash_def)
  then obtain zs z where ys: "ys = zs @ [z]" by (cases ys rule: rev_cases) auto
  have "x = z" using snoc.prems(3) inj(1) by (simp add: ys tail_hash_def inj_eq)
  then have "tail_hash hash xs = tail_hash hash zs" using snoc.prems(1,2) by (simp add: ys chained_snoc)
  with snoc ys \<open>x = z\<close> show ?case by (simp add: chained_snoc)
qed

lemma write_sound: "reads_back mk prev_of \<Longrightarrow> sound_journal hash prev_of s \<Longrightarrow> sound_journal hash prev_of (journal_write hash mk e s)"
  by (simp add: sound_journal_def journal_write_def Let_def chained_snoc reads_back_def) (simp add: tail_hash_def)

lemma crashed_sound: "reads_back mk prev_of \<Longrightarrow> sound_journal hash prev_of s \<Longrightarrow> sound_journal hash prev_of (crashed_write hash mk e s)"
  by (simp add: sound_journal_def crashed_write_def open_journal_def chained_snoc reads_back_def)


text \<open>
  The crash window. A journal that was written normally is trusted; a crash between an entry and its anchor is
  not taken for tampering and the next status catches the anchor up. But it is when the next write crashes there
  too and no status ran in between: the anchor is then two entries behind, and an honest journal is reported.
\<close>

theorem journal_crash_window:
  assumes "inj hash" "\<And>l. hash l \<noteq> []" "reads_back mk prev_of"
    and s: "sound_journal hash prev_of s" "jr_anchor s = jr_head s" "jr_lines s \<noteq> []"
  shows "snd (journal_status hash prev_of r (journal_write hash mk e s)) = Trusted \<and>
    (let t = crashed_write hash mk e s in snd (journal_status hash prev_of r t) = Trusted \<and>
       jr_anchor (fst (journal_status hash prev_of True t)) = jr_head t) \<and>
    snd (journal_status hash prev_of r (crashed_write hash mk e' (crashed_write hash mk e s))) = Anchor_Mismatch"
proof (intro conjI)
  have w: "jr_anchor (journal_write hash mk e s) = jr_head (journal_write hash mk e s)" by (simp add: journal_write_def Let_def)
  show "snd (journal_status hash prev_of r (journal_write hash mk e s)) = Trusted"
    using status_trusted [OF write_sound [OF assms(3) s(1), where e = e]] w by simp
  let ?t = "crashed_write hash mk e s" and ?u = "crashed_write hash mk e' (crashed_write hash mk e s)"
  have t: "sound_journal hash prev_of ?t" "sound_journal hash prev_of ?u" using assms(3) s(1) by (simp_all add: crashed_sound)
  have "jr_lines ?t = jr_lines s @ [mk (jr_head s) e]" "jr_anchor ?t = tail_hash hash (jr_lines s)"
    using s by (simp_all add: crashed_write_def open_journal_def sound_journal_def)
  then have "journal_status hash prev_of k ?t = (if k then ?t\<lparr> jr_anchor := jr_head ?t \<rparr> else ?t, Trusted)" for k
    using t(1) by (intro status_trusted) auto
  then show "let t = ?t in snd (journal_status hash prev_of r t) = Trusted \<and> jr_anchor (fst (journal_status hash prev_of True t)) = jr_head t"
    by (simp add: Let_def)
  have c: "chained hash prev_of (jr_lines s)" "chained hash prev_of (jr_lines ?t)" "chained hash prev_of (jr_lines ?u)"
    using s(1) t by (simp_all add: sound_journal_def)
  have l: "jr_lines ?t = jr_lines s @ [mk (jr_head s) e]" "jr_lines ?u = jr_lines ?t @ [mk (jr_head ?t) e']"
    by (simp_all add: crashed_write_def open_journal_def)
  have "tail_hash hash (jr_lines ?t) \<noteq> tail_hash hash (jr_lines s)" "tail_hash hash (jr_lines ?u) \<noteq> tail_hash hash (jr_lines s)"
    using chained_unique [OF assms(1,2) c(2) c(1)] chained_unique [OF assms(1,2) c(3) c(1)] l by auto
  moreover have "jr_head ?u = tail_hash hash (jr_lines ?u)" "jr_head ?t = tail_hash hash (jr_lines ?t)" "jr_anchor ?u = tail_hash hash (jr_lines s)"
    using t s by (simp_all add: sound_journal_def crashed_write_def open_journal_def)
  moreover have "jr_anchor ?u \<noteq> []" using s assms(2) by (simp add: crashed_write_def open_journal_def sound_journal_def tail_hash_def)
  ultimately show "snd (journal_status hash prev_of r ?u) = Anchor_Mismatch"
    by (simp add: status_eval [OF t(2) l(2)])
qed

text \<open>A hash for the witnesses: a line is its \<open>prev\<close> and its entry, and hashes to both, the first with its length.\<close>

definition toy_hash :: "string \<times> string \<Rightarrow> string" where
  "toy_hash l = replicate (length (fst l)) CHR ''#'' @ ''.'' @ fst l @ snd l"

lemma toy_hash_inj: "inj toy_hash" "toy_hash l \<noteq> []"
proof (rule injI)
  fix a b assume e: "toy_hash a = toy_hash b"
  have t: "takeWhile (\<lambda>c. c = CHR ''#'') (toy_hash x) = replicate (length (fst x)) CHR ''#''" for x
    by (simp add: toy_hash_def takeWhile_append)
  have n: "length (fst a) = length (fst b)" using t [of a] t [of b] e by (metis length_replicate)
  with e show "a = b" by (auto simp: toy_hash_def prod_eq_iff)
qed (simp add: toy_hash_def)

definition toy_journal :: "(string \<times> string) journal_store" where
  "toy_journal = journal_write toy_hash Pair ''start'' (open_journal toy_hash [] [])"

lemma toy_sound: "sound_journal toy_hash (\<lambda>l. Some (fst l)) toy_journal" "jr_anchor toy_journal = jr_head toy_journal" "jr_lines toy_journal \<noteq> []"
  "reads_back Pair (\<lambda>l. Some (fst l))"
proof -
  show r: "reads_back Pair (\<lambda>l. Some (fst l))" by (simp add: reads_back_def)
  have "sound_journal toy_hash (\<lambda>l. Some (fst l)) (open_journal toy_hash [] [])" by (simp add: sound_journal_def open_journal_def)
  from write_sound [OF r this] show "sound_journal toy_hash (\<lambda>l. Some (fst l)) toy_journal" by (simp add: toy_journal_def)
qed (simp_all add: toy_journal_def journal_write_def Let_def)


theorem journal_crash_window_witness:
  "snd (journal_status toy_hash (\<lambda>l. Some (fst l)) True (crashed_write toy_hash Pair ''b'' (crashed_write toy_hash Pair ''a'' toy_journal))) = Anchor_Mismatch"
  using journal_crash_window [OF toy_hash_inj toy_sound(4,1,2,3), of True "''a''" "''b''"] by blast

end
