(* ===== verification/Alpaca_Submit.thy ===== *)
theory Alpaca_Submit imports Prelude begin

text \<open>
  \<open>AsyncAlpaca.submit_order\<close> and \<open>_lookup_quietly\<close> (\<open>risk_router/alpaca_async.py\<close>).
  Alpaca is not part of the program: its state is an abstract world \<open>'w\<close>, and the two requests are
  parameters, \<open>post\<close> for the order and \<open>query\<close> for the lookup by client order id. A request can
  fail in transit whether or not it reached Alpaca. The waiting between attempts is left out. The
  \<open>status_code\<close> and the text that exceptions carry are for the log.
\<close>

section \<open>Requests and their answers\<close>

datatype 'o post_answer = Transport_Failure | Success 'o | Refused int bool

datatype 'o find_answer = Found 'o | Not_Found | Find_Failed

type_synonym ('w, 'p, 'o) post = "'p \<Rightarrow> 'w \<Rightarrow> 'w \<times> 'o post_answer"
type_synonym ('w, 'o) query = "string \<Rightarrow> 'w \<Rightarrow> 'w \<times> 'o find_answer"

definition SUBMIT_ATTEMPTS :: nat where "SUBMIT_ATTEMPTS = 3"

definition lookup_quietly :: "('w, 'o) query \<Rightarrow> string \<Rightarrow> 'w \<Rightarrow> 'w \<times> 'o option" where
  "lookup_quietly query cid w =
     (case query cid w of
        (w', Found x) \<Rightarrow> (w', Some x)
      | (w', Not_Found) \<Rightarrow> (w', None)
      | (w', Find_Failed) \<Rightarrow> (w', None))"

text \<open>What is done with the answer to one POST: return, raise, or go on to the next attempt.\<close>

datatype 'o verdict = Return 'o | Raise exn | Again

definition judge :: "('w, 'o) query \<Rightarrow> string \<Rightarrow> 'o post_answer \<Rightarrow> 'w \<Rightarrow> 'w \<times> 'o verdict" where
  "judge query cid a w =
     (case a of
        Transport_Failure \<Rightarrow> (w, Again)
      | Success x \<Rightarrow> (w, Return x)
      | Refused status names_id \<Rightarrow>
          (case (if status = 422 \<and> names_id then lookup_quietly query cid w else (w, None)) of
             (w', Some x) \<Rightarrow> (w', Return x)
           | (w', None) \<Rightarrow> (w', if status = 429 \<or> 500 \<le> status then Again else Raise OrderRejected)))"

text \<open>The attempts left, the first of which is not preceded by a lookup; then a last lookup.\<close>

fun attempts ::
  "('w, 'p, 'o) post \<Rightarrow> ('w, 'o) query \<Rightarrow> string \<Rightarrow> 'p \<Rightarrow> nat \<Rightarrow> bool \<Rightarrow> 'w \<Rightarrow> 'w \<times> 'o result" where
  "attempts post query cid p 0 is_first w =
     (case lookup_quietly query cid w of
        (w', Some x) \<Rightarrow> (w', Inr x)
      | (w', None) \<Rightarrow> (w', Inl OrderOutcomeUnknown))"
| "attempts post query cid p (Suc n) is_first w =
     (case (if is_first then (w, None) else lookup_quietly query cid w) of
        (w1, Some x) \<Rightarrow> (w1, Inr x)
      | (w1, None) \<Rightarrow>
          (case post p w1 of (w2, a) \<Rightarrow>
           case judge query cid a w2 of
             (w3, Return x) \<Rightarrow> (w3, Inr x)
           | (w3, Raise e) \<Rightarrow> (w3, Inl e)
           | (w3, Again) \<Rightarrow> attempts post query cid p n False w3))"

definition submit_order ::
  "('w, 'p, 'o) post \<Rightarrow> ('w, 'o) query \<Rightarrow> string \<Rightarrow> 'p \<Rightarrow> 'w \<Rightarrow> 'w \<times> 'o result" where
  "submit_order post query cid p w = attempts post query cid p SUBMIT_ATTEMPTS True w"

section \<open>What Alpaca documents\<close>

text \<open>
  \<open>placed w\<close> are the client order ids of the orders Alpaca has taken. Alpaca takes at most the one order of
  a request, refuses a client order id it already has, answers a success only with the order placed, answers
  a 4xx only without placing it, and a lookup changes nothing, finds only what is there and says 404 only for what is not.
\<close>

definition documented ::
  "('w, 'p, 'o) post \<Rightarrow> ('w, 'o) query \<Rightarrow> ('p \<Rightarrow> string) \<Rightarrow> ('w \<Rightarrow> string list) \<Rightarrow> bool" where
  "documented post query cid_of placed \<longleftrightarrow>
     (\<forall>p w. let (w', a) = post p w in
        (placed w' = placed w \<or> (placed w' = cid_of p # placed w \<and> cid_of p \<notin> set (placed w))) \<and>
        (\<forall>x. a = Success x \<longrightarrow> cid_of p \<in> set (placed w')) \<and>
        (\<forall>st b. a = Refused st b \<and> st < 500 \<longrightarrow> placed w' = placed w)) \<and>
     (\<forall>c w. let (w', a) = query c w in
        placed w' = placed w \<and> (\<forall>x. a = Found x \<longrightarrow> c \<in> set (placed w)) \<and> (a = Not_Found \<longrightarrow> c \<notin> set (placed w)))"

end
