(* ===== verification/Alpaca_Submit_Laws.thy ===== *)
theory Alpaca_Submit_Laws imports Alpaca_Submit begin

text \<open>
  At-most-once submission, for every Alpaca that behaves as documented, and where it ends: a rejection that
  is not one.
\<close>

lemma lookup_placed:
  assumes "documented post query cid_of placed" "lookup_quietly query c w = (w', r)"
  shows "placed w' = placed w" "r = Some x \<Longrightarrow> c \<in> set (placed w)"
  using assms(1)[unfolded documented_def, THEN conjunct2, rule_format, of c w] assms(2)
  by (auto simp: lookup_quietly_def Let_def split: prod.splits find_answer.splits)

lemma judge_placed:
  assumes "documented post query cid_of placed" "judge query c a w = (w', v)"
  shows "placed w' = placed w" "v = Return x \<Longrightarrow> (\<exists>y. a = Success y) \<or> c \<in> set (placed w)" "v = Raise e \<Longrightarrow> e = OrderRejected \<and> (\<exists>st b. a = Refused st b)"
  using assms(2) lookup_placed [OF assms(1), of c w]
  by (auto simp: judge_def split: post_answer.splits prod.splits option.splits if_splits)

lemma post_placed:
  assumes "documented post query cid_of placed" "post p w = (w', a)"
  shows "placed w' = placed w \<or> (placed w' = cid_of p # placed w \<and> cid_of p \<notin> set (placed w))"
    "a = Success x \<Longrightarrow> cid_of p \<in> set (placed w')" "a = Refused st b \<Longrightarrow> st < 500 \<Longrightarrow> placed w' = placed w"
  using assms(1)[unfolded documented_def, THEN conjunct1, rule_format, of p w] assms(2) by auto

lemma attempts_placed:
  assumes d: "documented post query cid_of placed" and c: "cid_of p = c"
  shows "attempts post query c p n b w = (w', r) \<Longrightarrow>
    (placed w' = placed w \<or> (placed w' = c # placed w \<and> c \<notin> set (placed w))) \<and>
    (\<forall>x. r = Inr x \<longrightarrow> c \<in> set (placed w')) \<and> (\<forall>e. r = Inl e \<longrightarrow> e = OrderRejected \<or> e = OrderOutcomeUnknown)"
proof (induction n arbitrary: b w)
  case 0
  then show ?case using lookup_placed [OF d] by (fastforce split: prod.splits option.splits)
next
  case (Suc n)
  obtain w1 l where l: "(if b then (w, None) else lookup_quietly query c w) = (w1, l)" by (metis surj_pair)
  then have w1: "placed w1 = placed w" "l = Some x \<Longrightarrow> c \<in> set (placed w)" for x
    using lookup_placed [OF d] by (auto split: if_splits)
  show ?case
  proof (cases l)
    case (Some x)
    then show ?thesis using Suc.prems l w1 by auto
  next
    case None
    obtain w2 a where p: "post p w1 = (w2, a)" by (cases "post p w1")
    obtain w3 v where j: "judge query c a w2 = (w3, v)" by (cases "judge query c a w2")
    note P = post_placed [OF d p, unfolded c] and J = judge_placed [OF d j]
    show ?thesis
    proof (cases v)
      case Again
      then have "attempts post query c p n False w3 = (w', r)" using Suc.prems l None p j by simp
      from Suc.IH [OF this] P(1) J(1) w1(1) show ?thesis by auto
    next
      case (Return x)
      then have "w' = w3" "r = Inr x" using Suc.prems l None p j by auto
      then show ?thesis using P J Return w1(1) by fastforce
    next
      case (Raise e)
      then have "w' = w3" "r = Inl e" using Suc.prems l None p j by auto
      then show ?thesis using P J Raise w1(1) by auto
    qed
  qed
qed


text \<open>An Alpaca for the witnesses: the world is the placed ids and a script of which requests lose their answer.\<close>

definition demo_post :: "string \<Rightarrow> string list \<times> bool list \<Rightarrow> (string list \<times> bool list) \<times> string post_answer" where
  "demo_post p w = (case w of (ids, script) \<Rightarrow>
     let lost = (script \<noteq> [] \<and> hd script); w' = (if p \<in> set ids then ids else p # ids, tl script) in
     (w', if lost then Transport_Failure else if p \<in> set ids then Refused 422 True else Success p))"

definition demo_find :: "string \<Rightarrow> string list \<times> bool list \<Rightarrow> (string list \<times> bool list) \<times> string find_answer" where
  "demo_find c w = (case w of (ids, script) \<Rightarrow>
     ((ids, tl script), if script \<noteq> [] \<and> hd script then Find_Failed else if c \<in> set ids then Found c else Not_Found))"

lemma demo_documented: "documented demo_post demo_find (\<lambda>p. p) fst"
  by (auto simp: documented_def demo_post_def demo_find_def Let_def split: if_splits)


text \<open>
  C8. \<open>OrderRejected\<close> does not mean that there is no order. When the answer to the first attempt is lost
  after Alpaca took the order, and the lookups before and after the second attempt fail, the duplicate refusal is
  reported as a rejection although the order is live.
\<close>

theorem rejected_order_can_be_live:
  "\<exists>(post :: (string list \<times> bool list, string, string) post) query cid_of placed w w'.
     documented post query cid_of placed \<and> c \<notin> set (placed w) \<and>
     submit_order post query c c w = (w', Inl OrderRejected) \<and> cid_of c = c \<and> c \<in> set (placed w')"
proof (intro exI conjI)
  show "documented demo_post demo_find (\<lambda>p. p) fst" by (rule demo_documented)
  show "submit_order demo_post demo_find c c ([], [True, True, False, True]) = (([c], []), Inl OrderRejected)"
    by (simp add: submit_order_def SUBMIT_ATTEMPTS_def eval_nat_numeral demo_post_def demo_find_def lookup_quietly_def judge_def)
qed auto

end
