(* ===== verification/Gatekeeper.thy ===== *)
theory Gatekeeper imports Router_Policy Guards Alpaca_Submit begin

text \<open>
  \<open>risk_router/gatekeeper.py\<close> and the signal of \<open>schemas.py\<close>: \<open>RiskRouter\<close>, the one component
  of the swarm that places orders. A decision runs under one lock, so it is one function of the router's
  state: the guard's state and the world that \<open>submit\<close> changes (\<open>AsyncAlpaca.submit_order\<close>, a parameter
  here). What the decision reads is an argument: the signal, the clock's and the broker's answers, and the two
  environments of the two guard checks. Probabilities and moves are floats in the signal and are compared as
  the decimals \<open>Decimal(str(x))\<close>; numbers in a payload go out as text of the same value.
\<close>

section \<open>Signals, payloads, decisions\<close>

record signal =
  sig_id :: string
  sig_symbol :: string
  sig_prob_up :: decimal
  sig_predicted_move_pct :: decimal
  sig_atr :: "decimal option"
  sig_created_at :: instant

definition MAX_SIGNAL_AGE :: instant where "MAX_SIGNAL_AGE = seconds 120"
definition MAX_QUOTE_AGE :: instant where "MAX_QUOTE_AGE = seconds 60"

record news_payload =
  np_symbol :: string
  np_qty :: decimal
  np_side :: order_side
  np_limit_price :: "decimal option"
  np_stop_price :: "decimal option"
  np_client_order_id :: string

definition buy_order_payload :: "execution_plan \<Rightarrow> news_payload" where
  "buy_order_payload p =
     \<lparr> np_symbol = ep_symbol p, np_qty = ep_quantity p, np_side = BUY, np_limit_price = Some (ep_limit_price p),
       np_stop_price = (if ep_stop_loss_kind p = NATIVE_OTO then Some (ep_stop_price p) else None),
       np_client_order_id = ep_client_order_id p \<rparr>"

definition exit_order_payload :: "string \<Rightarrow> string \<Rightarrow> decimal \<Rightarrow> news_payload" where
  "exit_order_payload fresh symbol qty =
     \<lparr> np_symbol = symbol, np_qty = qty, np_side = SELL, np_limit_price = None, np_stop_price = None,
       np_client_order_id = ''rx-'' @ fresh \<rparr>"

datatype 'o outcome = Rejected string | Accepted string 'o "execution_plan option"

text \<open>\<open>Decision\<close>: its outcome, symbol and intent.\<close>

record 'o decision =
  dec_outcome :: "'o outcome"
  dec_symbol :: string
  dec_intent :: intent

record 'w router =
  r_guard :: guard_state
  r_world :: 'w

definition reject :: "string \<Rightarrow> string \<Rightarrow> intent \<Rightarrow> 'o decision result" where
  "reject code symbol i = Inr \<lparr> dec_outcome = Rejected code, dec_symbol = symbol, dec_intent = i \<rparr>"

section \<open>The one place that sends orders\<close>

definition submit_guarded ::
  "(news_payload \<Rightarrow> 'w \<Rightarrow> 'w \<times> 'o result) \<Rightarrow> news_payload \<Rightarrow> intent \<Rightarrow> guard_env \<Rightarrow> 'w router \<Rightarrow> 'w router \<times> 'o result" where
  "submit_guarded submit p i e r =
     (case guard_check i e (r_guard r) of
        (g, Inl x) \<Rightarrow> (r\<lparr> r_guard := g \<rparr>, Inl x)
      | (g, Inr _) \<Rightarrow>
          (case submit p (r_world r) of (w, res) \<Rightarrow> (r\<lparr> r_guard := g, r_world := w \<rparr>, res)))"

section \<open>Opening\<close>

record quote =
  q_bid :: decimal
  q_ask :: decimal
  q_timestamp :: instant

record clock =
  cl_is_open :: bool
  cl_next_close :: "instant option"

text \<open>What \<open>handle_signal\<close> reads, in the order it reads it.\<close>

record open_env =
  oe_guard1 :: guard_env
  oe_now :: instant
  oe_clock :: "clock result"
  oe_day_start :: instant
  oe_positions :: "position list result"
  oe_open_orders :: "order list result"
  oe_recent_orders :: "order list result"
  oe_quote :: "quote result"
  oe_guard2 :: guard_env

definition entry_gate :: "decimal \<Rightarrow> signal \<Rightarrow> instant \<Rightarrow> string option" where
  "entry_gate min_prob_up s now =
     (if MAX_SIGNAL_AGE < now - sig_created_at s then Some ''stale_signal''
      else if sig_prob_up s < min_prob_up then Some ''below_min_prob''
      else if sig_predicted_move_pct s \<le> 0 then Some ''non_positive_edge''
      else None)"

fun rejection_text :: "rejection_code \<Rightarrow> string" where
  "rejection_text BELOW_MIN_GAIN = ''below_min_gain''"
| "rejection_text NON_FINITE_SIGNAL = ''non_finite_signal''"
| "rejection_text INVALID_QUOTE = ''invalid_quote''"
| "rejection_text NOTIONAL_TOO_SMALL = ''notional_too_small''"
| "rejection_text CAP_BREACH = ''cap_breach''"

text \<open>Everything between the first guard check and the submission: a rejection code, or the plan to submit.\<close>

definition decide_open :: "(string \<Rightarrow> string) \<Rightarrow> decimal \<Rightarrow> signal \<Rightarrow> open_env \<Rightarrow> (string + execution_plan) result" where
  "decide_open cid_of min_prob_up s e =
     (let symbol = sig_symbol s; now = oe_now e in
      case entry_gate min_prob_up s now of Some code \<Rightarrow> Inr (Inl code) | None \<Rightarrow>
      ebind (oe_clock e) (\<lambda>cl.
      if \<not> cl_is_open cl then Inr (Inl ''market_closed'')
      else if (case cl_next_close cl of None \<Rightarrow> False
               | Some closes_at \<Rightarrow> closes_at - seconds LAST_ENTRY_BEFORE_CLOSE_SECONDS \<le> now)
        then Inr (Inl ''entry_window_closed'')
      else
        ebind (oe_positions e) (\<lambda>ps.
        ebind (oe_open_orders e) (\<lambda>open_orders.
        ebind (oe_recent_orders e) (\<lambda>recent_orders.
        ebind (oe_quote e) (\<lambda>q.
        case check_can_open (from_alpaca ps open_orders recent_orders (oe_day_start e)) symbol now of
          Inl (PolicyRejection code) \<Rightarrow> Inr (Inl code)
        | Inl x \<Rightarrow> Inl x
        | Inr _ \<Rightarrow>
            if MAX_QUOTE_AGE < now - q_timestamp q then Inr (Inl ''stale_quote'')
            else
              (case plan_buy symbol (q_bid q) (q_ask q) (sig_atr s) (Some (cid_of (sig_id s))) [] of
                 Inl (Tier0Rejection code) \<Rightarrow> Inr (Inl (rejection_text code))
               | Inl x \<Rightarrow> Inl x
               | Inr p \<Rightarrow> Inr (Inr p))))))))"

text \<open>\<open>cid_of\<close> is \<open>buy_client_order_id\<close>, a SHA-256; \<open>notify\<close> is the receipt hook, run after the order.\<close>

definition handle_signal ::
  "(news_payload \<Rightarrow> 'w \<Rightarrow> 'w \<times> 'o result) \<Rightarrow> (execution_plan \<Rightarrow> signal \<Rightarrow> 'o \<Rightarrow> 'w \<Rightarrow> 'w \<times> unit result) option \<Rightarrow>
   (string \<Rightarrow> string) \<Rightarrow> decimal \<Rightarrow> signal \<Rightarrow> open_env \<Rightarrow> 'w router \<Rightarrow> 'w router \<times> 'o decision result" where
  "handle_signal submit notify cid_of min_prob_up s e r =
     (case guard_check OPEN (oe_guard1 e) (r_guard r) of
        (g, Inl x) \<Rightarrow> (r\<lparr> r_guard := g \<rparr>, Inl x)
      | (g, Inr _) \<Rightarrow>
          (let r1 = r\<lparr> r_guard := g \<rparr> in
           case decide_open cid_of min_prob_up s e of
             Inl x \<Rightarrow> (r1, Inl x)
           | Inr (Inl code) \<Rightarrow> (r1, reject code (sig_symbol s) OPEN)
           | Inr (Inr p) \<Rightarrow>
               (case submit_guarded submit (buy_order_payload p) OPEN (oe_guard2 e) r1 of
                  (r2, Inl x) \<Rightarrow> (r2, Inl x)
                | (r2, Inr ord) \<Rightarrow>
                    (case (case notify of None \<Rightarrow> (r_world r2, Inr ()) | Some f \<Rightarrow> f p s ord (r_world r2)) of
                       (w, Inl x) \<Rightarrow> (r2\<lparr> r_world := w \<rparr>, Inl x)
                     | (w, Inr _) \<Rightarrow>
                         (r2\<lparr> r_world := w \<rparr>,
                          Inr \<lparr> dec_outcome = Accepted ''submitted'' ord (Some p), dec_symbol = sig_symbol s, dec_intent = OPEN \<rparr>)))))"

section \<open>Reducing\<close>

definition exit_reason :: "position \<Rightarrow> string option result" where
  "exit_reason p =
     (let entry = pos_avg_entry_price p; current = pos_current_price p in
      if entry \<le> 0 then Inr None
      else
        ebind (ddiv (current - entry) entry) (\<lambda>r.
        let change_pct = r * Dec 100 0 in
        if change_pct \<le> - STOP_LOSS_PCT then Inr (Some ''stop_loss'')
        else if TAKE_PROFIT_PCT \<le> change_pct then Inr (Some ''take_profit'')
        else Inr None))"

definition available_qty :: "position \<Rightarrow> decimal" where
  "available_qty p = (case pos_qty_available p of Some q \<Rightarrow> q | None \<Rightarrow> dec_or_0 (pos_qty p))"

definition exit_locked ::
  "(news_payload \<Rightarrow> 'w \<Rightarrow> 'w \<times> 'o result) \<Rightarrow> string \<Rightarrow> guard_env \<Rightarrow> position \<Rightarrow> order list \<Rightarrow> string \<Rightarrow> 'w router \<Rightarrow>
   'w router \<times> 'o decision result" where
  "exit_locked submit fresh ge p open_orders why r =
     (let symbol = pos_symbol p; qty = available_qty p in
      if (case pos_side p of None \<Rightarrow> False | Some sd \<Rightarrow> sd \<noteq> ''long'') then (r, reject ''not_long'' symbol REDUCE)
      else if \<exists>o' \<in> set open_orders. ord_symbol o' = symbol \<and> ord_side o' = Some ''sell'' then (r, reject ''exit_in_flight'' symbol REDUCE)
      else if qty \<le> 0 then (r, reject ''nothing_available'' symbol REDUCE)
      else
        (case submit_guarded submit (exit_order_payload fresh symbol qty) REDUCE ge r of
           (r', Inl x) \<Rightarrow> (r', Inl x)
         | (r', Inr ord) \<Rightarrow>
             (r', Inr \<lparr> dec_outcome = Accepted why ord None, dec_symbol = symbol, dec_intent = REDUCE \<rparr>)))"

record close_env =
  ce_guard1 :: guard_env
  ce_clock :: "clock result"
  ce_positions :: "position list result"
  ce_open_orders :: "order list result"
  ce_guard2 :: guard_env
  ce_fresh :: string

text \<open>\<open>symbol\<close> has been stripped and put in upper case.\<close>

definition close_position ::
  "(news_payload \<Rightarrow> 'w \<Rightarrow> 'w \<times> 'o result) \<Rightarrow> string \<Rightarrow> string \<Rightarrow> close_env \<Rightarrow> 'w router \<Rightarrow> 'w router \<times> 'o decision result" where
  "close_position submit symbol why e r =
     (case guard_check REDUCE (ce_guard1 e) (r_guard r) of
        (g, Inl x) \<Rightarrow> (r\<lparr> r_guard := g \<rparr>, Inl x)
      | (g, Inr _) \<Rightarrow>
          (let r1 = r\<lparr> r_guard := g \<rparr> in
           case ebind (ce_clock e) (\<lambda>cl. ebind (ce_positions e) (\<lambda>ps. ebind (ce_open_orders e) (\<lambda>os. Inr (cl, ps, os)))) of
             Inl x \<Rightarrow> (r1, Inl x)
           | Inr (cl, ps, os) \<Rightarrow>
               if \<not> cl_is_open cl then (r1, reject ''market_closed'' symbol REDUCE)
               else
                 (case filter (\<lambda>p. pos_symbol p = symbol) ps of
                    [] \<Rightarrow> (r1, reject ''no_position'' symbol REDUCE)
                  | p # _ \<Rightarrow> exit_locked submit (ce_fresh e) (ce_guard2 e) p os why r1)))"

record exit_env =
  xe_clock :: "clock result"
  xe_now :: instant
  xe_positions :: "position list result"
  xe_open_orders :: "order list result"
  xe_guard :: "nat \<Rightarrow> guard_env"
  xe_fresh :: "nat \<Rightarrow> string"

text \<open>\<open>AlpacaError\<close> and its subclasses, which the sweep logs and passes over.\<close>

definition is_alpaca_error :: "exn \<Rightarrow> bool" where
  "is_alpaca_error x \<longleftrightarrow> x \<in> {AlpacaError, OrderRejected, OrderOutcomeUnknown}"

text \<open>The loop over the positions; \<open>n\<close> counts them for the guard's environment and the fresh id of each.\<close>

fun exit_positions ::
  "(news_payload \<Rightarrow> 'w \<Rightarrow> 'w \<times> 'o result) \<Rightarrow> exit_env \<Rightarrow> bool \<Rightarrow> order list \<Rightarrow> nat \<Rightarrow> position list \<Rightarrow> 'w router \<Rightarrow>
   'o decision list \<Rightarrow> 'w router \<times> 'o decision list result" where
  "exit_positions submit e closing os n [] r ds = (r, Inr ds)"
| "exit_positions submit e closing os n (p # ps) r ds =
     (case exit_reason p of
        Inl x \<Rightarrow> (r, Inl x)
      | Inr reason \<Rightarrow>
          (case (case reason of Some w \<Rightarrow> Some w | None \<Rightarrow> if closing then Some ''session_close'' else None) of
             None \<Rightarrow> exit_positions submit e closing os (Suc n) ps r ds
           | Some why \<Rightarrow>
               (case exit_locked submit (xe_fresh e n) (xe_guard e n) p os why r of
                  (r', Inr d) \<Rightarrow> exit_positions submit e closing os (Suc n) ps r' (ds @ [d])
                | (r', Inl x) \<Rightarrow>
                    if is_alpaca_error x then exit_positions submit e closing os (Suc n) ps r' ds else (r', Inl x))))"

definition run_exit_pass ::
  "(news_payload \<Rightarrow> 'w \<Rightarrow> 'w \<times> 'o result) \<Rightarrow> exit_env \<Rightarrow> 'w router \<Rightarrow> 'w router \<times> 'o decision list result" where
  "run_exit_pass submit e r =
     (if halted (g_store (r_guard r)) then (r, Inr [])
      else
        (case xe_clock e of
           Inl x \<Rightarrow> (r, Inl x)
         | Inr cl \<Rightarrow>
             if \<not> cl_is_open cl then (r, Inr [])
             else
               let closing = (case cl_next_close cl of None \<Rightarrow> False
                              | Some t \<Rightarrow> t - seconds SESSION_EXIT_BEFORE_CLOSE_SECONDS \<le> xe_now e)
               in (case ebind (xe_positions e) (\<lambda>ps. ebind (xe_open_orders e) (\<lambda>os. Inr (ps, os))) of
                     Inl x \<Rightarrow> (r, Inl x)
                   | Inr (ps, os) \<Rightarrow> exit_positions submit e closing os 0 ps r [])))"

end
