(* ===== verification/Gatekeeper_Laws.thy ===== *)
theory Gatekeeper_Laws imports Gatekeeper begin

text \<open>
  What the router of the news agent sends. The broker is wrapped in a log of the payloads it was handed, so
  that a statement can name every order of a call, whether or not it changed the broker's world.
\<close>

section \<open>The log of submissions\<close>

definition logged :: "(news_payload \<Rightarrow> 'w \<Rightarrow> 'w \<times> 'o result) \<Rightarrow> news_payload \<Rightarrow>
    news_payload list \<times> 'w \<Rightarrow> (news_payload list \<times> 'w) \<times> 'o result" where
  "logged submit p w = (case submit p (snd w) of (w', x) \<Rightarrow> ((fst w @ [p], w'), x))"

definition unlogged :: "(execution_plan \<Rightarrow> signal \<Rightarrow> 'o \<Rightarrow> 'w \<Rightarrow> 'w \<times> unit result) \<Rightarrow> execution_plan \<Rightarrow> signal \<Rightarrow> 'o \<Rightarrow>
    news_payload list \<times> 'w \<Rightarrow> (news_payload list \<times> 'w) \<times> unit result" where
  "unlogged notify p s x w = (case notify p s x (snd w) of (w', res) \<Rightarrow> ((fst w, w'), res))"

abbreviation sent :: "(news_payload list \<times> 'w) router \<Rightarrow> news_payload list" where
  "sent r \<equiv> fst (r_world r)"

lemma submit_guarded_sent:
  "submit_guarded (logged submit) p i e r = (r', res) \<Longrightarrow>
    (if snd (guard_check i e (r_guard r)) = Inr () then sent r' = sent r @ [p] else sent r' = sent r \<and> (\<exists>c. res = Inl (GuardBlocked c)))"
  using exec_guard.only_guard_errors [of i e "r_guard r"]
  by (auto simp: submit_guarded_def logged_def split: prod.splits sum.splits)

section \<open>Entries\<close>

lemma check_can_open_passes:
  "check_can_open p symbol now = Inr u \<longleftrightarrow>
     symbol \<notin> set (symbols_exposed p) \<and> length (symbols_exposed p) < 5 \<and> gross_exposure p + MAX_NOTIONAL_USD \<le> MAX_GROSS_EXPOSURE_USD \<and>
     pf_buys_today p < 10 \<and> (\<forall>t. map_of (pf_last_sell_at p) symbol = Some t \<longrightarrow> t + seconds REENTRY_COOLDOWN_SECONDS \<le> now)"
  by (auto simp: check_can_open_def less_val less_eq_val ALLOW_PYRAMIDING_def MAX_OPEN_POSITIONS_def MAX_NEW_BUYS_PER_DAY_def not_less not_le split: option.splits)

text \<open>The two places of \<open>decide_open\<close> that turn an exception into a rejection.\<close>

lemma policy_case:
  "(case c of Inl (PolicyRejection code) \<Rightarrow> Inr (Inl code) | Inl x \<Rightarrow> Inl x | Inr _ \<Rightarrow> k) = Inr (Inr p) \<longleftrightarrow>
     c = Inr () \<and> k = Inr (Inr p)"
  by (auto split: sum.splits exn.splits)

lemma tier0_case:
  "(case c of Inl (Tier0Rejection code) \<Rightarrow> Inr (Inl (rejection_text code)) | Inl x \<Rightarrow> Inl x | Inr v \<Rightarrow> Inr (Inr v)) = Inr (Inr p) \<longleftrightarrow>
     c = Inr p"
  by (auto split: sum.splits exn.splits)

lemma stop_if: "(if b then Inr (Inl c) else k) = Inr (Inr p) \<longleftrightarrow> \<not> b \<and> k = Inr (Inr p)"
  by simp

lemma decide_open_plan:
  assumes "decide_open cid mp s e = Inr (Inr p)"
  shows "\<exists>cl ps os rs q pf.
    entry_gate mp s (oe_now e) = None \<and>
    oe_clock e = Inr cl \<and> cl_is_open cl \<and> (\<forall>t. cl_next_close cl = Some t \<longrightarrow> oe_now e < t - seconds LAST_ENTRY_BEFORE_CLOSE_SECONDS) \<and>
    oe_positions e = Inr ps \<and> oe_open_orders e = Inr os \<and> oe_recent_orders e = Inr rs \<and> oe_quote e = Inr q \<and>
    pf = from_alpaca ps os rs (oe_day_start e) \<and> check_can_open pf (sig_symbol s) (oe_now e) = Inr () \<and>
    oe_now e - q_timestamp q \<le> MAX_QUOTE_AGE \<and>
    plan_buy (sig_symbol s) (q_bid q) (q_ask q) (sig_atr s) (Some (cid (sig_id s))) [] = Inr p"
proof -
  have g: "entry_gate mp s (oe_now e) = None"
    using assms by (auto simp: decide_open_def Let_def split: option.splits)
  show ?thesis
    using assms unfolding decide_open_def Let_def g option.case ebind_Inr_iff stop_if policy_case tier0_case
    by (auto simp: g not_le not_less split: option.splits)
qed

lemma handle_signal_sent:
  assumes "handle_signal (logged submit) (map_option unlogged notify) cid mp s e r = (r', res)"
  shows "sent r' = sent r \<or>
    (\<exists>p. sent r' = sent r @ [buy_order_payload p] \<and> decide_open cid mp s e = Inr (Inr p) \<and>
      snd (guard_check OPEN (oe_guard1 e) (r_guard r)) = Inr () \<and>
      snd (guard_check OPEN (oe_guard2 e) (fst (guard_check OPEN (oe_guard1 e) (r_guard r)))) = Inr ())"
proof (cases "guard_check OPEN (oe_guard1 e) (r_guard r)")
  case g: (Pair g x)
  show ?thesis
  proof (cases x)
    case (Inl y)
    then show ?thesis using assms g by (auto simp: handle_signal_def)
  next
    case x: (Inr u)
    let ?r1 = "r\<lparr> r_guard := g \<rparr>"
    show ?thesis
    proof (cases "decide_open cid mp s e")
      case (Inl y)
      then show ?thesis using assms g x by (auto simp: handle_signal_def)
    next
      case d: (Inr v)
      show ?thesis
      proof (cases v)
        case (Inl c)
        then show ?thesis using assms g x d by (auto simp: handle_signal_def)
      next
        case v: (Inr p)
        obtain r2 y where s: "submit_guarded (logged submit) (buy_order_payload p) OPEN (oe_guard2 e) ?r1 = (r2, y)"
          by (cases "submit_guarded (logged submit) (buy_order_payload p) OPEN (oe_guard2 e) ?r1")
        have "sent r' = sent r2" using assms g x d v s
          by (auto simp: handle_signal_def unlogged_def split: sum.splits option.splits prod.splits)
        then show ?thesis using submit_guarded_sent [OF s] g x d v by (auto split: if_splits)
      qed
    qed
  qed
qed


text \<open>A signal that is sent, for the witness: nothing held, a calm account, an open market.\<close>

definition demo_guard_env :: guard_env where
  "demo_guard_env = \<lparr> env_day = Date 2026 9 7, env_mono1 = 0, env_mono2 = 5, env_account = Inr (Dec 1000 0, Dec 1000 0) \<rparr>"

definition demo_open_env :: open_env where
  "demo_open_env = \<lparr> oe_guard1 = demo_guard_env, oe_now = seconds 1000, oe_clock = Inr \<lparr> cl_is_open = True, cl_next_close = Some (seconds 9000) \<rparr>,
     oe_day_start = seconds 0, oe_positions = Inr [], oe_open_orders = Inr [], oe_recent_orders = Inr [],
     oe_quote = Inr \<lparr> q_bid = Dec 99 0, q_ask = Dec 100 0, q_timestamp = seconds 990 \<rparr>, oe_guard2 = demo_guard_env \<rparr>"

definition demo_router :: "(news_payload list \<times> unit) router" where
  "demo_router = \<lparr> r_guard = \<lparr> g_store = open_store No_File, g_cache = None \<rparr>, r_world = ([], ()) \<rparr>"

definition demo_signal :: signal where
  "demo_signal = \<lparr> sig_id = ''s1'', sig_symbol = ''AAPL'', sig_prob_up = Dec 7 (-1), sig_predicted_move_pct = Dec 2 0,
     sig_atr = None, sig_created_at = seconds 950 \<rparr>"

definition demo_sent :: "(news_payload list \<times> unit) router \<times> unit decision result" where
  "demo_sent = handle_signal (logged (\<lambda>p w. (w, Inr ()))) None (\<lambda>i. ''news-'' @ i) ROUTER_MIN_PROB_UP demo_signal demo_open_env demo_router"


section \<open>Exits\<close>

text \<open>What one sweep has to sell: a position with a reason to go, that is long, with units free and no sale working.\<close>

definition exit_due :: "bool \<Rightarrow> order list \<Rightarrow> position \<Rightarrow> bool" where
  "exit_due closing os p \<longleftrightarrow>
     (closing \<or> (\<exists>w. exit_reason p = Inr (Some w))) \<and>
     (pos_side p = None \<or> pos_side p = Some ''long'') \<and>
     (\<forall>x \<in> set os. ord_symbol x = pos_symbol p \<longrightarrow> ord_side x \<noteq> Some ''sell'') \<and> 0 < val (available_qty p)"

definition sale :: "news_payload \<Rightarrow> string \<times> decimal \<times> order_side \<times> decimal option" where
  "sale p = (np_symbol p, np_qty p, np_side p, np_limit_price p)"

definition sale_of :: "position \<Rightarrow> string \<times> decimal \<times> order_side \<times> decimal option" where
  "sale_of p = (pos_symbol p, available_qty p, SELL, None)"

text \<open>The broker only fails with the errors of its client.\<close>

definition fails_softly :: "(news_payload \<Rightarrow> 'w \<Rightarrow> 'w \<times> 'o result) \<Rightarrow> bool" where
  "fails_softly submit \<longleftrightarrow> (\<forall>p w x. snd (submit p w) = Inl x \<longrightarrow> is_alpaca_error x)"

lemma exit_reason_total: "\<exists>w. exit_reason p = Inr w"
proof (cases "pos_avg_entry_price p \<le> 0")
  case False
  then have "val (pos_avg_entry_price p) \<noteq> 0" by (auto simp: less_eq_val)
  from ddiv_total [OF this, of "pos_current_price p - pos_avg_entry_price p"] show ?thesis
    by (auto simp: exit_reason_def Let_def)
qed (simp add: exit_reason_def Let_def)

lemma exit_locked_sent:
  assumes "exit_locked (logged submit) fresh ge p os why r = (r', res)" "\<not> halted (g_store (r_guard r))"
    and ok: "fails_softly submit"
  shows "r_guard r' = r_guard r" and "exit_due True os p \<Longrightarrow> \<exists>n. sent r' = sent r @ [n] \<and> sale n = sale_of p"
    and "\<not> exit_due True os p \<Longrightarrow> sent r' = sent r" and "res = Inl x \<Longrightarrow> is_alpaca_error x"
proof -
  have g: "guard_check REDUCE ge (r_guard r) = (r_guard r, Inr ())" using assms(2) by (rule exec_guard.reduce_passes)
  have s: "submit_guarded (logged submit) n REDUCE ge r =
      (r\<lparr> r_world := (sent r @ [n], fst (submit n (snd (r_world r)))) \<rparr>, snd (submit n (snd (r_world r))))" for n
    by (simp add: submit_guarded_def g logged_def split: prod.splits)
  have e: "sale (exit_order_payload fresh (pos_symbol p) (available_qty p)) = sale_of p"
    by (simp add: sale_def sale_of_def exit_order_payload_def)
  note all = assms(1)[unfolded exit_locked_def Let_def s reject_def] ok[unfolded fails_softly_def] e
  show "r_guard r' = r_guard r" and "exit_due True os p \<Longrightarrow> \<exists>n. sent r' = sent r @ [n] \<and> sale n = sale_of p"
    "\<not> exit_due True os p \<Longrightarrow> sent r' = sent r" "res = Inl x \<Longrightarrow> is_alpaca_error x"
    using all by (auto simp: exit_due_def less_eq_val split: if_splits option.splits sum.splits)
qed

lemma exit_positions_sent:
  assumes "exit_positions (logged submit) e closing os n ps r ds = (r', res)" "\<not> halted (g_store (r_guard r))"
    and ok: "fails_softly submit"
  shows "(\<exists>new. sent r' = sent r @ new \<and> map sale new = map sale_of (filter (exit_due closing os) ps)) \<and> (\<exists>ds'. res = Inr ds')"
  using assms(1,2)
proof (induction ps arbitrary: n r ds)
  case (Cons p ps)
  obtain reason where reason: "exit_reason p = Inr reason" using exit_reason_total by blast
  show ?case
  proof (cases "closing \<or> reason \<noteq> None")
    case False
    then have "\<not> exit_due closing os p" using reason by (simp add: exit_due_def)
    then show ?thesis using Cons reason False by simp
  next
    case True
    then obtain why where why: "(case reason of Some w \<Rightarrow> Some w | None \<Rightarrow> if closing then Some ''session_close'' else None) = Some why"
      by (cases reason) auto
    have due: "exit_due closing os p = exit_due True os p" using True reason by (auto simp: exit_due_def)
    obtain r1 x where x: "exit_locked (logged submit) (xe_fresh e n) (xe_guard e n) p os why r = (r1, x)"
      by (cases "exit_locked (logged submit) (xe_fresh e n) (xe_guard e n) p os why r")
    note L = exit_locked_sent [OF x Cons.prems(2) ok]
    obtain ds1 where "exit_positions (logged submit) e closing os (Suc n) ps r1 ds1 = (r', res)"
      using Cons.prems(1) reason why x L(4) by (auto split: sum.splits if_splits)
    from Cons.IH [OF this] L(1) Cons.prems(2) obtain new where "sent r' = sent r1 @ new" "map sale new = map sale_of (filter (exit_due closing os) ps)" "\<exists>ds'. res = Inr ds'"
      by auto
    with L(2,3) due show ?thesis by (cases "exit_due True os p") auto
  qed
qed auto

text \<open>
  C10. A sweep sells exactly what is due. With the market open and no halt it sends one market sell of the
  available units for every position that hit its stop or target (or any position, ten minutes before the
  close) that is long, has units free and no sale working, in the order of the positions and nothing else; an
  order the broker fails or refuses does not stop the others. Halted or with the market closed it sends nothing.
\<close>

theorem run_exit_pass_sells_due:
  assumes "run_exit_pass (logged submit) e r = (r', res)"
    and "xe_clock e = Inr cl" "xe_positions e = Inr ps" "xe_open_orders e = Inr os"
    and "fails_softly submit"
  shows "\<exists>new ds. sent r' = sent r @ new \<and> res = Inr ds \<and>
    map sale new =
      (if halted (g_store (r_guard r)) \<or> \<not> cl_is_open cl then []
       else map sale_of (filter (exit_due (\<exists>t. cl_next_close cl = Some t \<and> t - seconds 600 \<le> xe_now e) os) ps))"
proof -
  have c: "(case cl_next_close cl of None \<Rightarrow> False | Some t \<Rightarrow> t - seconds SESSION_EXIT_BEFORE_CLOSE_SECONDS \<le> xe_now e) =
      (\<exists>t. cl_next_close cl = Some t \<and> t - seconds 600 \<le> xe_now e)"
    by (simp add: SESSION_EXIT_BEFORE_CLOSE_SECONDS_def split: option.splits)
  show ?thesis
    using assms(1) exit_positions_sent [OF _ _ assms(5), where e = e and os = os and ps = ps and r = r and r' = r' and res = res]
    by (auto simp: run_exit_pass_def assms(2-4) c split: if_splits)
qed

definition demo_positions :: "position list" where
  "demo_positions =
     [\<lparr> pos_symbol = ''AAPL'', pos_side = Some ''long'', pos_market_value = None, pos_qty = Some (Dec 3 0), pos_qty_available = None,
        pos_avg_entry_price = Dec 100 0, pos_current_price = Dec 94 0 \<rparr>,
      \<lparr> pos_symbol = ''MSFT'', pos_side = Some ''long'', pos_market_value = None, pos_qty = Some (Dec 2 0), pos_qty_available = None,
        pos_avg_entry_price = Dec 100 0, pos_current_price = Dec 101 0 \<rparr>]"

definition demo_exit_env :: exit_env where
  "demo_exit_env = \<lparr> xe_clock = Inr \<lparr> cl_is_open = True, cl_next_close = None \<rparr>, xe_now = seconds 0, xe_positions = Inr demo_positions,
     xe_open_orders = Inr [], xe_guard = (\<lambda>_. demo_guard_env), xe_fresh = (\<lambda>_. ''x'') \<rparr>"

definition demo_exit :: "(news_payload list \<times> unit) router \<times> unit decision list result" where
  "demo_exit = run_exit_pass (logged (\<lambda>p w. (w, Inl AlpacaError))) demo_exit_env demo_router"

theorem run_exit_pass_sells_due_witness:
  "map sale (sent (fst demo_exit)) = [(''AAPL'', Dec 3 0, SELL, None)]"
proof -
  have f: "map sale_of (filter (exit_due False []) demo_positions) = [(''AAPL'', Dec 3 0, SELL, None)]"
  proof -
    have "exit_reason (demo_positions ! 0) = Inr (Some ''stop_loss'')" "exit_reason (demo_positions ! 1) = Inr None" by code_simp+
    then show ?thesis by (simp add: demo_positions_def exit_due_def sale_of_def available_qty_def dec_or_0_def val_def)
  qed
  have h: "\<not> halted (g_store (r_guard demo_router))" "sent demo_router = []"
    by (simp_all add: demo_router_def halted_def open_store_def load_data_def empty_data_def)
  have "fails_softly (\<lambda>p w. (w, Inl AlpacaError) :: unit \<times> unit result)" by (simp add: fails_softly_def is_alpaca_error_def)
  from run_exit_pass_sells_due [OF prod.collapse [symmetric] _ _ _ this, of demo_exit_env _ demo_positions "[]" demo_router, folded demo_exit_def] f h
  show ?thesis by (fastforce simp: demo_exit_env_def)
qed

end
