(* ===== verification/Exchange_Calendar.thy ===== *)
theory Exchange_Calendar imports Dates begin

text \<open>
  \<open>backtest/calendar.py\<close>: the exchange's sessions and the lookups over them. The lookups are binary
  searches (the standard library's \<open>bisect\<close>, written here as its loop); the lemmas show that on the
  sorted lists of a calendar they find what a scan of the sessions would find.

  A session's times are UTC instants. The New York text of an instant (\<open>astimezone(NEW_YORK).isoformat()\<close>)
  and the instant of a New York wall-clock time need the time-zone database and are arguments.
  \<open>Calendar.load\<close> reads the sessions from a parquet file and is left out.
\<close>

section \<open>Binary search\<close>

function bisect_right_from :: "'a::linorder list \<Rightarrow> 'a \<Rightarrow> nat \<Rightarrow> nat \<Rightarrow> nat" where
  "bisect_right_from xs x lo hi =
     (if lo < hi then
        let mid = (lo + hi) div 2
        in if x < xs ! mid then bisect_right_from xs x lo mid else bisect_right_from xs x (Suc mid) hi
      else lo)"
  by pat_completeness auto
termination by (relation "measure (\<lambda>(xs, x, lo, hi). hi - lo)") auto

function bisect_left_from :: "'a::linorder list \<Rightarrow> 'a \<Rightarrow> nat \<Rightarrow> nat \<Rightarrow> nat" where
  "bisect_left_from xs x lo hi =
     (if lo < hi then
        let mid = (lo + hi) div 2
        in if xs ! mid < x then bisect_left_from xs x (Suc mid) hi else bisect_left_from xs x lo mid
      else lo)"
  by pat_completeness auto
termination by (relation "measure (\<lambda>(xs, x, lo, hi). hi - lo)") auto

declare bisect_right_from.simps [simp del] bisect_left_from.simps [simp del]

definition bisect_right :: "'a::linorder list \<Rightarrow> 'a \<Rightarrow> nat" where
  "bisect_right xs x = bisect_right_from xs x 0 (length xs)"

definition bisect_left :: "'a::linorder list \<Rightarrow> 'a \<Rightarrow> nat" where
  "bisect_left xs x = bisect_left_from xs x 0 (length xs)"

text \<open>A position splits a list at a predicate: it holds before the position and nowhere from it on.\<close>

definition splits :: "('a \<Rightarrow> bool) \<Rightarrow> 'a list \<Rightarrow> nat \<Rightarrow> bool" where
  "splits P xs n \<longleftrightarrow> n \<le> length xs \<and> (\<forall>i < n. P (xs ! i)) \<and> (\<forall>i. n \<le> i \<and> i < length xs \<longrightarrow> \<not> P (xs ! i))"

lemma splits_unique: "splits P xs n \<Longrightarrow> splits P xs m \<Longrightarrow> n = m"
  by (cases n m rule: linorder_cases) (auto simp: splits_def)

lemma splits_bisect_right_from:
  assumes "sorted xs" "lo \<le> hi" "hi \<le> length xs"
    "\<forall>i < lo. xs ! i \<le> x" "\<forall>i. hi \<le> i \<and> i < length xs \<longrightarrow> x < xs ! i"
  shows "splits (\<lambda>y. y \<le> x) xs (bisect_right_from xs x lo hi)"
  using assms
proof (induction xs x lo hi rule: bisect_right_from.induct)
  case (1 xs x lo hi)
  show ?case
  proof (cases "lo < hi")
    case True
    define mid where "mid = (lo + hi) div 2"
    have mid: "lo \<le> mid" "mid < hi" using True by (auto simp: mid_def)
    show ?thesis
    proof (cases "x < xs ! mid")
      case lt: True
      have "\<forall>i. mid \<le> i \<and> i < length xs \<longrightarrow> x < xs ! i"
        using lt "1.prems"(1) sorted_nth_mono [of xs mid] by fastforce
      with 1 True mid lt show ?thesis by (simp add: bisect_right_from.simps [of xs x lo hi] Let_def mid_def)
    next
      case ge: False
      have "\<forall>i < Suc mid. xs ! i \<le> x"
        using ge mid "1.prems"(1,3) sorted_nth_mono [of xs _ mid] by (fastforce simp: less_Suc_eq_le not_less)
      with 1 True mid ge show ?thesis by (simp add: bisect_right_from.simps [of xs x lo hi] Let_def mid_def)
    qed
  next
    case False
    with "1.prems" show ?thesis by (auto simp: bisect_right_from.simps splits_def not_le)
  qed
qed

lemma splits_bisect_left_from:
  assumes "sorted xs" "lo \<le> hi" "hi \<le> length xs"
    "\<forall>i < lo. xs ! i < x" "\<forall>i. hi \<le> i \<and> i < length xs \<longrightarrow> x \<le> xs ! i"
  shows "splits (\<lambda>y. y < x) xs (bisect_left_from xs x lo hi)"
  using assms
proof (induction xs x lo hi rule: bisect_left_from.induct)
  case (1 xs x lo hi)
  show ?case
  proof (cases "lo < hi")
    case True
    define mid where "mid = (lo + hi) div 2"
    have mid: "lo \<le> mid" "mid < hi" using True by (auto simp: mid_def)
    show ?thesis
    proof (cases "xs ! mid < x")
      case lt: True
      have "\<forall>i < Suc mid. xs ! i < x"
        using lt mid "1.prems"(1,3) sorted_nth_mono [of xs _ mid] by (fastforce simp: less_Suc_eq_le)
      with 1 True mid lt show ?thesis by (simp add: bisect_left_from.simps [of xs x lo hi] Let_def mid_def)
    next
      case ge: False
      have "\<forall>i. mid \<le> i \<and> i < length xs \<longrightarrow> x \<le> xs ! i"
        using ge "1.prems"(1) sorted_nth_mono [of xs mid] by fastforce
      with 1 True mid ge show ?thesis by (simp add: bisect_left_from.simps [of xs x lo hi] Let_def mid_def)
    qed
  next
    case False
    with "1.prems" show ?thesis by (auto simp: bisect_left_from.simps splits_def not_less)
  qed
qed

lemma splits_bisect_right: "sorted xs \<Longrightarrow> splits (\<lambda>y. y \<le> x) xs (bisect_right xs x)"
  unfolding bisect_right_def by (rule splits_bisect_right_from) auto

lemma splits_bisect_left: "sorted xs \<Longrightarrow> splits (\<lambda>y. y < x) xs (bisect_left xs x)"
  unfolding bisect_left_def by (rule splits_bisect_left_from) auto

section \<open>Sessions\<close>

record session =
  sess_date :: date
  open_at :: instant
  close_at :: instant
  half_day :: bool

definition contains :: "session \<Rightarrow> instant \<Rightarrow> bool" where
  "contains s ts \<longleftrightarrow> open_at s \<le> ts \<and> ts < close_at s"

definition session_minutes :: "session \<Rightarrow> int" where
  "session_minutes s = (close_at s - open_at s) div minutes 1"

section \<open>The calendar\<close>

type_synonym calendar = "session list"

definition mk_calendar :: "session list \<Rightarrow> calendar" where
  "mk_calendar ss = sort_key sess_date ss"

definition dates_of :: "calendar \<Rightarrow> date list" where
  "dates_of c = map sess_date c"

text \<open>The dict comprehensions over the sessions: a date that repeats keeps its last entry.\<close>

definition by_date :: "calendar \<Rightarrow> date \<Rightarrow> session option" where
  "by_date c = map_of (rev (map (\<lambda>s. (sess_date s, s)) c))"

definition index_of :: "calendar \<Rightarrow> date \<Rightarrow> nat option" where
  "index_of c = map_of (rev (zip (dates_of c) [0..<length c]))"

definition nth_opt :: "'a list \<Rightarrow> int \<Rightarrow> 'a option" where
  "nth_opt xs i = (if 0 \<le> i \<and> i < int (length xs) then Some (xs ! nat i) else None)"

definition session_at :: "calendar \<Rightarrow> instant \<Rightarrow> session option" where
  "session_at c ts =
     (case nth_opt c (int (bisect_right (map open_at c) ts) - 1) of
        None \<Rightarrow> None
      | Some s \<Rightarrow> if contains s ts then Some s else None)"

definition next_session :: "calendar \<Rightarrow> instant \<Rightarrow> session option" where
  "next_session c ts = nth_opt c (int (bisect_right (map open_at c) ts))"

definition previous_session :: "calendar \<Rightarrow> instant \<Rightarrow> session option" where
  "previous_session c ts = nth_opt c (int (bisect_right (map close_at c) ts) - 1)"

definition sessions_between :: "calendar \<Rightarrow> date \<Rightarrow> date \<Rightarrow> session list" where
  "sessions_between c a b = drop (bisect_left (dates_of c) a) (take (bisect_right (dates_of c) b) c)"

definition shift :: "calendar \<Rightarrow> session \<Rightarrow> int \<Rightarrow> session option result" where
  "shift c s n =
     (case index_of c (sess_date s) of
        None \<Rightarrow> Inl KeyError
      | Some i \<Rightarrow> Inr (nth_opt c (int i + n)))"

record clock =
  ck_timestamp :: string
  ck_is_open :: bool
  ck_next_open :: "string option"
  ck_next_close :: "string option"

definition clock_at :: "(instant \<Rightarrow> string) \<Rightarrow> calendar \<Rightarrow> instant \<Rightarrow> clock" where
  "clock_at ny_iso c ts =
     (let current = session_at c ts;
          upcoming = next_session c ts;
          next_close = (case current of Some s \<Rightarrow> Some (close_at s) | None \<Rightarrow> map_option close_at upcoming)
      in \<lparr> ck_timestamp = ny_iso ts, ck_is_open = current \<noteq> None,
           ck_next_open = map_option (\<lambda>s. ny_iso (open_at s)) upcoming,
           ck_next_close = map_option ny_iso next_close \<rparr>)"

text \<open>\<open>d + timedelta(days=1)\<close>, up to the last date Python has.\<close>

definition MAX_DATE :: date where "MAX_DATE = Date 9999 12 31"

definition next_day :: "date \<Rightarrow> date" where
  "next_day d =
     (if day d < days_in_month (year d) (month d) then Date (year d) (month d) (day d + 1)
      else if month d < 12 then Date (year d) (month d + 1) 1
      else Date (year d + 1) 1 1)"

definition add_day :: "date \<Rightarrow> date result" where
  "add_day d = (if d = MAX_DATE then Inl OverflowError else Inr (next_day d))"

definition weekday :: "date \<Rightarrow> int" where
  "weekday d = (toordinal d + 6) mod 7"

definition weekday_session :: "(date \<Rightarrow> time_of_day \<Rightarrow> instant) \<Rightarrow> date \<Rightarrow> session" where
  "weekday_session ny_utc d =
     \<lparr> sess_date = d, open_at = ny_utc d (hms 9 30 0), close_at = ny_utc d (hms 16 0 0), half_day = False \<rparr>"

text \<open>
  \<open>weekday_rule\<close>'s \<open>while d <= end\<close>, one day a round: the fuel is the number of days it may visit.
\<close>

fun weekday_loop :: "nat \<Rightarrow> (date \<Rightarrow> time_of_day \<Rightarrow> instant) \<Rightarrow> date \<Rightarrow> date \<Rightarrow> session list \<Rightarrow> session list result option" where
  "weekday_loop 0 ny_utc d stop acc = (if d \<le> stop then None else Some (Inr acc))"
| "weekday_loop (Suc n) ny_utc d stop acc =
     (if d \<le> stop then
        let acc' = (if weekday d < 5 then acc @ [weekday_session ny_utc d] else acc)
        in case add_day d of Inl e \<Rightarrow> Some (Inl e) | Inr d' \<Rightarrow> weekday_loop n ny_utc d' stop acc'
      else Some (Inr acc))"

definition weekday_rule :: "nat \<Rightarrow> (date \<Rightarrow> time_of_day \<Rightarrow> instant) \<Rightarrow> date \<Rightarrow> date \<Rightarrow> calendar result option" where
  "weekday_rule fuel ny_utc start stop = map_option (emap mk_calendar) (weekday_loop fuel ny_utc start stop [])"

section \<open>The lookups find what a scan finds\<close>

definition cal_ok :: "calendar \<Rightarrow> bool" where
  "cal_ok c \<longleftrightarrow> (\<forall>s \<in> set c. open_at s < close_at s) \<and> sorted_wrt (\<lambda>s t. close_at s \<le> open_at t) c \<and> sorted (dates_of c)"

lemma cal_ok_nth:
  assumes "cal_ok c" "i < j" "j < length c"
  shows "close_at (c ! i) \<le> open_at (c ! j)" "open_at (c ! i) < open_at (c ! j)" "close_at (c ! i) < close_at (c ! j)"
proof -
  have a: "close_at (c ! i) \<le> open_at (c ! j)"
    using assms by (simp add: cal_ok_def sorted_wrt_iff_nth_less)
  moreover have "open_at (c ! i) < close_at (c ! i)" "open_at (c ! j) < close_at (c ! j)"
    using assms by (simp_all add: cal_ok_def)
  ultimately show "close_at (c ! i) \<le> open_at (c ! j)" "open_at (c ! i) < open_at (c ! j)" "close_at (c ! i) < close_at (c ! j)"
    by simp_all
qed

lemma cal_ok_sorted:
  assumes "cal_ok c"
  shows "sorted (map open_at c)" "sorted (map close_at c)"
  using cal_ok_nth [OF assms] by (auto simp: sorted_iff_nth_mono_less less_imp_le)

lemma nth_opt_int [simp]: "nth_opt xs (int n) = (if n < length xs then Some (xs ! n) else None)"
  by (simp add: nth_opt_def)

lemma nth_opt_pred: "nth_opt xs (int n - 1) = (if 0 < n \<and> n \<le> length xs then Some (xs ! (n - 1)) else None)"
  by (cases n) (auto simp: nth_opt_def nat_diff_distrib)

lemma splits_map: "splits P (map f xs) n \<longleftrightarrow> splits (\<lambda>x. P (f x)) xs n"
  by (auto simp: splits_def)

lemma find_splits: "splits P xs n \<Longrightarrow> find (\<lambda>x. \<not> P x) xs = (if n < length xs then Some (xs ! n) else None)"
proof (induction xs arbitrary: n)
  case (Cons x xs)
  show ?case
  proof (cases n)
    case 0
    with Cons.prems show ?thesis by (auto simp: splits_def)
  next
    case (Suc m)
    have "splits P xs m" using Cons.prems Suc by (force simp: splits_def)
    moreover have "P x" using Cons.prems Suc by (force simp: splits_def)
    ultimately show ?thesis using Cons.IH Suc by simp
  qed
qed simp

lemma splits_rev: "splits P xs n \<Longrightarrow> splits (\<lambda>x. \<not> P x) (rev xs) (length xs - n)"
  unfolding splits_def
proof (intro conjI allI impI)
  fix i assume s: "n \<le> length xs \<and> (\<forall>i<n. P (xs ! i)) \<and> (\<forall>i. n \<le> i \<and> i < length xs \<longrightarrow> \<not> P (xs ! i))"
    and i: "i < length xs - n"
  then have "n \<le> length xs - Suc i" "length xs - Suc i < length xs" by linarith+
  with s i show "\<not> P (rev xs ! i)" by (simp add: rev_nth)
qed (auto simp: rev_nth)

lemma find_rev_splits: "splits P xs n \<Longrightarrow> find P (rev xs) = (if 0 < n then Some (xs ! (n - 1)) else None)"
proof -
  assume s: "splits P xs n"
  have "n \<le> length xs" using s by (simp add: splits_def)
  then show ?thesis using find_splits [OF splits_rev [OF s]]
    by (auto simp: rev_nth)
qed

lemma next_session_scan: "cal_ok c \<Longrightarrow> next_session c ts = find (\<lambda>s. ts < open_at s) c"
  using find_splits [OF splits_bisect_right [OF cal_ok_sorted(1), unfolded splits_map], of c ts]
  by (simp add: next_session_def not_le)

lemma previous_session_scan: "cal_ok c \<Longrightarrow> previous_session c ts = find (\<lambda>s. close_at s \<le> ts) (rev c)"
  using find_rev_splits [OF splits_bisect_right [OF cal_ok_sorted(2), unfolded splits_map], of c ts]
    splits_bisect_right [OF cal_ok_sorted(2), of c ts]
  by (auto simp: previous_session_def nth_opt_pred splits_def)

lemma session_at_scan:
  assumes ok: "cal_ok c"
  shows "session_at c ts = find (\<lambda>s. contains s ts) c"
proof -
  define n where "n = bisect_right (map open_at c) ts"
  have sp: "n \<le> length c" "\<And>i. i < n \<Longrightarrow> open_at (c ! i) \<le> ts" "\<And>i. n \<le> i \<Longrightarrow> i < length c \<Longrightarrow> ts < open_at (c ! i)"
    using splits_bisect_right [OF cal_ok_sorted(1) [OF ok], of ts] by (auto simp: splits_def n_def not_le)
  have only: "i = n - 1 \<and> 0 < n" if "i < length c" "contains (c ! i) ts" for i
  proof -
    have "i < n" using sp(3) [of i] that by (force simp: contains_def not_less)
    moreover have "\<not> i < n - 1"
      using cal_ok_nth(1) [OF ok, of i "n - 1"] sp(1) sp(2) [of "n - 1"] that by (force simp: contains_def)
    ultimately show ?thesis by simp
  qed
  show ?thesis
  proof (cases "find (\<lambda>s. contains s ts) c")
    case None
    then have "\<forall>s \<in> set c. \<not> contains s ts" by (auto simp: find_None_iff)
    then show ?thesis using sp(1) by (auto simp: None session_at_def n_def [symmetric] nth_opt_pred)
  next
    case (Some s)
    then obtain i where "i < length c" "s = c ! i" "contains s ts" by (auto simp: find_Some_iff)
    with only [of i] show ?thesis using Some by (simp add: session_at_def n_def [symmetric] nth_opt_pred)
  qed
qed

text \<open>
  C19. On sessions in order that do not overlap, the three binary searches of the calendar find what a scan finds:
  the session whose hours contain the instant, the first that opens after it, the last that closed by it.
\<close>

theorem calendar_lookups_scan:
  assumes "cal_ok c"
  shows "session_at c ts = find (\<lambda>s. contains s ts) c \<and>
    next_session c ts = find (\<lambda>s. ts < open_at s) c \<and>
    previous_session c ts = find (\<lambda>s. close_at s \<le> ts) (rev c)"
  by (simp add: session_at_scan next_session_scan previous_session_scan assms)

theorem calendar_lookups_scan_witness:
  "session_at [\<lparr> sess_date = Date 2026 9 1, open_at = 10, close_at = 20, half_day = False \<rparr>,
     \<lparr> sess_date = Date 2026 9 2, open_at = 30, close_at = 40, half_day = True \<rparr>] 35 =
   Some \<lparr> sess_date = Date 2026 9 2, open_at = 30, close_at = 40, half_day = True \<rparr>"
  using calendar_lookups_scan [of "[\<lparr> sess_date = Date 2026 9 1, open_at = 10, close_at = 20, half_day = False \<rparr>,
     \<lparr> sess_date = Date 2026 9 2, open_at = 30, close_at = 40, half_day = True \<rparr>]" 35]
  by (simp add: cal_ok_def dates_of_def contains_def less_eq_date_def)

section \<open>The weekday rule ends\<close>

lemma leap_year_days:
  "days_before_year (y + 1) = days_before_year y + (if is_leap y then 366 else 365)"
proof -
  have "y div k = (y - 1) div k + of_bool (y mod k = 0)" if "0 < k" for k :: int
  proof -
    have "(y - 1) div k = (if y mod k = 0 then y div k - 1 else y div k)"
    proof (cases "y mod k = 0")
      case True
      then obtain q where "y = k * q" by auto
      moreover have "(k * q - 1) div k = q - 1"
        using that by (simp add: int_div_pos_eq [of _ k "q - 1" "k - 1"] algebra_simps)
      ultimately show ?thesis using that by simp
    next
      case False
      have y: "y - 1 = k * (y div k) + (y mod k - 1)" by simp
      have "0 \<le> y mod k - 1" "y mod k - 1 < k"
        using False that pos_mod_bound [of k y] pos_mod_sign [of k y] by linarith+
      then show ?thesis using False y by (simp add: int_div_pos_eq [of "y - 1" k "y div k" "y mod k - 1"])
    qed
    then show ?thesis by simp
  qed
  note step = this
  define A B C where "A = (y mod 4 = 0)" and "B = (y mod 100 = 0)" and "C = (y mod 400 = 0)"
  have e: "y div 4 = (y - 1) div 4 + of_bool A" "y div 100 = (y - 1) div 100 + of_bool B"
    "y div 400 = (y - 1) div 400 + of_bool C"
    unfolding A_def B_def C_def by (rule step, simp)+
  have i: "B \<longrightarrow> A" "C \<longrightarrow> B" unfolding A_def B_def C_def by presburger+
  have l: "is_leap y = (A \<and> (\<not> B \<or> C))" unfolding is_leap_def A_def B_def C_def by simp
  have sum: "y * 365 + (p + i) - (q + j) + (r + k) = (y - 1) * 365 + p - q + r + (365 + i - j + k)" for p q r i j k :: int
    by (simp add: algebra_simps)
  have "days_before_year (y + 1) = y * 365 + y div 4 - y div 100 + y div 400"
    by (simp add: days_before_year_def Let_def)
  also have "\<dots> = days_before_year y + (365 + of_bool A - of_bool B + of_bool C)"
    unfolding e days_before_year_def Let_def by (rule sum)
  also have "365 + of_bool A - of_bool B + of_bool C = (if is_leap y then 366 else (365::int))"
    using i unfolding l by (cases A; cases B; cases C; simp only: of_bool_eq simp_thms if_True if_False)
  finally show ?thesis .
qed

lemma days_before_month_step: "0 < m \<Longrightarrow> days_before_month y (Suc m) = days_before_month y m + days_in_month y (int m)"
  by (cases m) simp_all

lemma year_days: "days_before_month y 12 + 31 = (if is_leap y then 366 else 365)"
  by (simp add: eval_nat_numeral days_in_month_def)

lemma valid_next_day: "valid_date d \<Longrightarrow> valid_date (next_day d)"
  by (auto simp: valid_date_def next_day_def days_in_month_def)

lemma toordinal_next_day: "valid_date d \<Longrightarrow> toordinal (next_day d) = toordinal d + 1"
proof -
  assume v: "valid_date d"
  consider "day d < days_in_month (year d) (month d)"
    | "day d = days_in_month (year d) (month d)" "month d < 12"
    | "day d = days_in_month (year d) (month d)" "month d = 12"
    using v by (force simp: valid_date_def)
  then show ?thesis
  proof cases
    case 1
    then show ?thesis by (simp add: next_day_def toordinal_def)
  next
    case 2
    have "nat (month d + 1) = Suc (nat (month d))" "0 < nat (month d)" using v by (auto simp: valid_date_def)
    with 2 v show ?thesis by (simp add: next_day_def toordinal_def days_before_month_step valid_date_def)
  next
    case 3
    have "days_before_month (year d) 12 + 31 = (if is_leap (year d) then 366 else 365)" by (rule year_days)
    with 3 show ?thesis by (simp add: next_day_def toordinal_def leap_year_days days_in_month_def)
  qed
qed

lemma next_day_less: "valid_date d \<Longrightarrow> d < next_day d"
  by (auto simp: next_day_def less_date_def)

lemma next_day_least: "valid_date d \<Longrightarrow> valid_date e \<Longrightarrow> d < e \<Longrightarrow> next_day d \<le> e"
  by (cases "year d = year e"; cases "month d = month e")
    (auto simp: next_day_def less_date_def less_eq_date_def valid_date_def)

lemma not_less_next_day: "valid_date d \<Longrightarrow> valid_date e \<Longrightarrow> e < next_day d \<Longrightarrow> e \<le> d"
  using next_day_least not_less by blast

lemma days_before_month_mono: "m \<le> n \<Longrightarrow> days_before_month y m \<le> days_before_month y n"
proof (induction n)
  case (Suc n)
  have "days_before_month y n \<le> days_before_month y (Suc n)"
    by (cases n) (auto simp: days_in_month_def)
  with Suc show ?case by (cases "m = Suc n") auto
qed simp

lemma days_before_month_nonneg: "0 \<le> days_before_month y m"
  using days_before_month_mono [of 0 m y] by simp

lemma day_of_year_bound:
  assumes "valid_date d"
  shows "0 < days_before_month (year d) (nat (month d)) + day d"
    "days_before_month (year d) (nat (month d)) + day d \<le> (if is_leap (year d) then 366 else 365)"
proof -
  show "0 < days_before_month (year d) (nat (month d)) + day d"
    using assms days_before_month_nonneg [of "year d" "nat (month d)"] by (simp add: valid_date_def)
  have m: "0 < nat (month d)" "nat (month d) \<le> 12" using assms by (auto simp: valid_date_def)
  have "days_before_month (year d) (nat (month d)) + day d \<le> days_before_month (year d) (Suc (nat (month d)))"
    using assms m by (simp add: days_before_month_step valid_date_def)
  also have "\<dots> \<le> days_before_month (year d) 13"
    using m by (intro days_before_month_mono) simp
  also have "\<dots> = days_before_month (year d) 12 + 31"
    using days_before_month_step [of 12 "year d"] by (simp add: days_in_month_def)
  finally show "days_before_month (year d) (nat (month d)) + day d \<le> (if is_leap (year d) then 366 else 365)"
    using year_days [of "year d"] by simp
qed

lemma days_before_year_mono: "y < z \<Longrightarrow> days_before_year (y + 1) \<le> days_before_year z"
proof (induction "nat (z - y - 1)" arbitrary: z)
  case 0
  then have "z = y + 1" by simp
  then show ?case by simp
next
  case (Suc n)
  then have "days_before_year (y + 1) \<le> days_before_year (z - 1)" by simp
  also have "\<dots> \<le> days_before_year z" using leap_year_days [of "z - 1"] by simp
  finally show ?case .
qed

lemma toordinal_mono: "valid_date d \<Longrightarrow> valid_date e \<Longrightarrow> d \<le> e \<Longrightarrow> toordinal d \<le> toordinal e"
proof -
  assume v: "valid_date d" "valid_date e" and le: "d \<le> e"
  then consider "year d < year e" | "year d = year e" "month d < month e"
    | "year d = year e" "month d = month e" "day d \<le> day e"
    by (auto simp: less_eq_date_def)
  then show ?thesis
  proof cases
    case 1
    have "toordinal d \<le> days_before_year (year d + 1)"
      using day_of_year_bound(2) [OF v(1)] by (simp add: toordinal_def leap_year_days split: if_splits)
    also have "\<dots> \<le> days_before_year (year e)" using 1 by (rule days_before_year_mono)
    also have "\<dots> \<le> toordinal e" using day_of_year_bound(1) [OF v(2)] by (simp add: toordinal_def)
    finally show ?thesis .
  next
    case 2
    have m: "0 < nat (month d)" "Suc (nat (month d)) \<le> nat (month e)" using 2 v by (auto simp: valid_date_def)
    have "days_before_month (year d) (nat (month d)) + day d \<le> days_before_month (year d) (Suc (nat (month d)))"
      using v(1) m by (simp add: days_before_month_step valid_date_def)
    also have "\<dots> \<le> days_before_month (year d) (nat (month e))" using m(2) by (rule days_before_month_mono)
    finally show ?thesis using 2 v by (simp add: toordinal_def valid_date_def)
  next
    case 3
    then show ?thesis by (simp add: toordinal_def)
  qed
qed

lemma MAX_DATE_greatest: "valid_date d \<Longrightarrow> year d \<le> 9999 \<Longrightarrow> d \<le> MAX_DATE"
  by (auto simp: MAX_DATE_def less_eq_date_def valid_date_def days_in_month_def split: if_splits)

lemma weekday_loop_ends:
  assumes "valid_date d" "valid_date stop" "stop < MAX_DATE" "nat (toordinal stop + 1 - toordinal d) \<le> n"
    "\<forall>s \<in> set acc. s = weekday_session ny_utc (sess_date s)"
  shows "\<exists>ss. weekday_loop n ny_utc d stop acc = Some (Inr ss) \<and>
    set ss = set acc \<union> weekday_session ny_utc ` {e. valid_date e \<and> d \<le> e \<and> e \<le> stop \<and> weekday e < 5}"
  using assms
proof (induction n arbitrary: d acc)
  case 0
  then have "\<not> d \<le> stop" using toordinal_mono [of d stop] by force
  moreover from this have none: "{e. valid_date e \<and> d \<le> e \<and> e \<le> stop \<and> weekday e < 5} = {}" by auto
  ultimately show ?case unfolding none by simp
next
  case (Suc n)
  show ?case
  proof (cases "d \<le> stop")
    case False
    then have none: "{e. valid_date e \<and> d \<le> e \<and> e \<le> stop \<and> weekday e < 5} = {}" by auto
    show ?thesis unfolding none using False by simp
  next
    case True
    define acc' where "acc' = (if weekday d < 5 then acc @ [weekday_session ny_utc d] else acc)"
    have max: "d \<noteq> MAX_DATE" using True Suc.prems(3) by auto
    have step: "{e. valid_date e \<and> d \<le> e \<and> e \<le> stop \<and> weekday e < 5} =
        (if weekday d < 5 then {d} else {}) \<union> {e. valid_date e \<and> next_day d \<le> e \<and> e \<le> stop \<and> weekday e < 5}"
      using True Suc.prems(1) next_day_least [of d] next_day_less [of d] by force
    have "valid_date (next_day d)" using Suc.prems(1) by (rule valid_next_day)
    moreover have "nat (toordinal stop + 1 - toordinal (next_day d)) \<le> n"
      using Suc.prems(1,4) by (simp add: toordinal_next_day)
    moreover have "\<forall>s \<in> set acc'. s = weekday_session ny_utc (sess_date s)"
      using Suc.prems(5) by (auto simp: acc'_def weekday_session_def)
    ultimately obtain ss where "weekday_loop n ny_utc (next_day d) stop acc' = Some (Inr ss)"
      "set ss = set acc' \<union> weekday_session ny_utc ` {e. valid_date e \<and> next_day d \<le> e \<and> e \<le> stop \<and> weekday e < 5}"
      using Suc.IH [of "next_day d" acc'] Suc.prems(2,3) by blast
    then show ?thesis unfolding step using True max
      by (auto simp: add_day_def acc'_def [symmetric]) (auto simp: acc'_def split: if_splits)
  qed
qed

text \<open>
  C20. The weekday rule's \<open>while\<close> ends: one round for each day of the range is enough, and the calendar holds
  exactly the range's days from Monday to Friday, each with the hours from 09:30 to 16:00.
\<close>

theorem weekday_rule_ends:
  assumes "valid_date start" "valid_date stop" "stop < MAX_DATE" "nat (toordinal stop + 1 - toordinal start) \<le> fuel"
  shows "\<exists>c. weekday_rule fuel ny_utc start stop = Some (Inr c) \<and> sorted (dates_of c) \<and>
    set c = weekday_session ny_utc ` {d. valid_date d \<and> start \<le> d \<and> d \<le> stop \<and> weekday d < 5}"
  using weekday_loop_ends [OF assms(1-4), of "[]" ny_utc]
  by (auto simp: weekday_rule_def mk_calendar_def dates_of_def emap_def)

theorem weekday_rule_ends_witness:
  "\<exists>c. weekday_rule 4 (\<lambda>d t. t) (Date 2026 10 2) (Date 2026 10 5) = Some (Inr c) \<and> sorted (dates_of c) \<and>
    set c = weekday_session (\<lambda>d t. t) ` {d. valid_date d \<and> Date 2026 10 2 \<le> d \<and> d \<le> Date 2026 10 5 \<and> weekday d < 5}"
proof -
  have "toordinal (Date 2026 10 2) = 739891" "toordinal (Date 2026 10 5) = 739894" by code_simp+
  then show ?thesis
    using weekday_rule_ends [of "Date 2026 10 2" "Date 2026 10 5" 4 "\<lambda>d t. t"]
    by (simp add: valid_date_def days_in_month_def MAX_DATE_def less_date_def)
qed

end
