(* ===== verification/Costs.thy ===== *)
theory Costs imports Core_Alloc Tier0 Text_Forms Exchange_Calendar begin

text \<open>
  \<open>backtest/costs.py\<close>: the fill prices of the three cost levels, the cash a fill moves, and the
  effective-dated fees. A bar's price is held as the decimal its float prints as, which is what
  \<open>to_decimal\<close> makes of it. The one float the file returns, \<open>round_trip_fraction\<close>, goes through
  an argument.
\<close>

section \<open>Constants and cost levels\<close>

definition BPS :: decimal where "BPS = Dec 1 (-4)"
definition TICK :: decimal where "TICK = Dec 1 (-4)"
definition OPENING_WINDOW :: instant where "OPENING_WINDOW = minutes 5"

definition TIGHT :: "string list" where
  "TIGHT = [''AAPL'', ''MSFT'', ''NVDA'', ''AMZN'', ''GOOGL'']"

record cost_level =
  level_name :: string
  half_spread_bps_tight :: decimal
  half_spread_bps_wide :: decimal
  open_multiplier :: decimal
  slippage_bps :: decimal
  limit_fill_at_limit :: bool
  fee_rounding :: string
  round_prices :: bool
  half_spread_bps_by_symbol :: amounts

text \<open>\<open>dict(pairs)\<close>: a key that repeats keeps its last value.\<close>

definition dict_of :: "('k \<times> 'v) list \<Rightarrow> ('k \<times> 'v) list" where
  "dict_of ps = merge [] ps"

definition half_spread :: "cost_level \<Rightarrow> string \<Rightarrow> decimal" where
  "half_spread lv symbol =
     (case map_of (dict_of (half_spread_bps_by_symbol lv)) symbol of
        Some bps \<Rightarrow> bps * BPS
      | None \<Rightarrow> (if symbol \<in> set TIGHT then half_spread_bps_tight lv else half_spread_bps_wide lv) * BPS)"

definition optimistic :: cost_level where
  "optimistic = \<lparr> level_name = ''optimistic'', half_spread_bps_tight = Dec 5 (-1), half_spread_bps_wide = Dec 1 0,
     open_multiplier = Dec 1 0, slippage_bps = Dec 0 0, limit_fill_at_limit = False, fee_rounding = ''daily'',
     round_prices = True, half_spread_bps_by_symbol = [] \<rparr>"

definition central :: cost_level where
  "central = \<lparr> level_name = ''central'', half_spread_bps_tight = Dec 15 (-1), half_spread_bps_wide = Dec 25 (-1),
     open_multiplier = Dec 2 0, slippage_bps = Dec 2 0, limit_fill_at_limit = False, fee_rounding = ''daily'',
     round_prices = True, half_spread_bps_by_symbol = [] \<rparr>"

definition pessimistic :: cost_level where
  "pessimistic = \<lparr> level_name = ''pessimistic'', half_spread_bps_tight = Dec 4 0, half_spread_bps_wide = Dec 6 0,
     open_multiplier = Dec 3 0, slippage_bps = Dec 5 0, limit_fill_at_limit = True, fee_rounding = ''per_order'',
     round_prices = True, half_spread_bps_by_symbol = [] \<rparr>"

definition LEVELS :: "(string \<times> cost_level) list" where
  "LEVELS = [(''optimistic'', optimistic), (''central'', central), (''pessimistic'', pessimistic)]"

text \<open>The measured half-spreads of the core's instruments, optimistic, central and pessimistic.\<close>

definition CORE_HALF_SPREAD_BPS :: "(string \<times> decimal list) list" where
  "CORE_HALF_SPREAD_BPS =
     [(''VTI'', [Dec 17 (-1), Dec 24 (-1), Dec 59 (-1)]), (''VXUS'', [Dec 29 (-1), Dec 39 (-1), Dec 83 (-1)]),
      (''BND'', [Dec 8 (-1), Dec 14 (-1), Dec 19 (-1)]), (''IAU'', [Dec 21 (-1), Dec 40 (-1), Dec 43 (-1)]),
      (''VNQ'', [Dec 24 (-1), Dec 37 (-1), Dec 51 (-1)]), (''BIL'', [Dec 6 (-1), Dec 6 (-1), Dec 11 (-1)]),
      (''SPY'', [Dec 2 (-1), Dec 3 (-1), Dec 5 (-1)]), (''IEF'', [Dec 6 (-1), Dec 7 (-1), Dec 37 (-1)]),
      (''TLT'', [Dec 5 (-1), Dec 6 (-1), Dec 8 (-1)]), (''GLD'', [Dec 5 (-1), Dec 6 (-1), Dec 19 (-1)]),
      (''SGOV'', [Dec 5 (-1), Dec 5 (-1), Dec 10 (-1)]), (''BTC/USD'', [Dec 61 (-1), Dec 70 (-1), Dec 110 (-1)])]"

definition core_level :: "cost_level \<Rightarrow> nat \<Rightarrow> cost_level" where
  "core_level lv i = lv\<lparr> half_spread_bps_by_symbol := map (\<lambda>(s, v). (s, v ! i)) (sort_key fst CORE_HALF_SPREAD_BPS) \<rparr>"

definition CORE_LEVELS :: "(string \<times> cost_level) list" where
  "CORE_LEVELS = map (\<lambda>(i, n, lv). (n, core_level lv i)) (enumerate 0 LEVELS)"

definition FRICTIONLESS :: cost_level where
  "FRICTIONLESS = \<lparr> level_name = ''frictionless'', half_spread_bps_tight = 0, half_spread_bps_wide = 0,
     open_multiplier = 1, slippage_bps = 0, limit_fill_at_limit = False, fee_rounding = ''none'',
     round_prices = False, half_spread_bps_by_symbol = [] \<rparr>"

section \<open>Prices\<close>

definition round_up :: "decimal \<Rightarrow> cost_level \<Rightarrow> decimal result" where
  "round_up x lv = (if round_prices lv then quantize x TICK ROUND_UP else Inr x)"

definition round_down :: "decimal \<Rightarrow> cost_level \<Rightarrow> decimal result" where
  "round_down x lv = (if round_prices lv then quantize x TICK ROUND_DOWN else Inr x)"

definition multiplier :: "cost_level \<Rightarrow> instant \<Rightarrow> instant \<Rightarrow> decimal" where
  "multiplier lv bar_start session_open =
     (if session_open \<le> bar_start \<and> bar_start < session_open + OPENING_WINDOW then open_multiplier lv else 1)"

record quote_prices =
  q_bid :: decimal
  q_ask :: decimal

definition quote_at :: "decimal \<Rightarrow> string \<Rightarrow> cost_level \<Rightarrow> decimal \<Rightarrow> quote_prices result" where
  "quote_at mid symbol lv m =
     (let spread = half_spread lv symbol * m in
      ebind (quantize (mid * (1 - spread)) CENT ROUND_DOWN) (\<lambda>bid.
      ebind (quantize (mid * (1 + spread)) CENT ROUND_UP) (\<lambda>ask.
      Inr \<lparr> q_bid = bid, q_ask = ask \<rparr>)))"

record fill_price =
  fp_price :: decimal
  fp_ref :: decimal
  fp_spread :: decimal
  fp_slippage :: decimal

definition market_fill :: "string \<Rightarrow> decimal \<Rightarrow> string \<Rightarrow> cost_level \<Rightarrow> decimal \<Rightarrow> fill_price result" where
  "market_fill side open_p symbol lv m =
     (let h = half_spread lv symbol * m; sigma = slippage_bps lv * BPS in
      ebind (if side = ''buy'' then round_up (open_p * (1 + h + sigma)) lv
             else round_down (open_p * (1 - h - sigma)) lv) (\<lambda>price.
      Inr \<lparr> fp_price = price, fp_ref = open_p, fp_spread = open_p * h, fp_slippage = open_p * sigma \<rparr>))"

definition limit_buy_fill ::
  "decimal \<Rightarrow> decimal \<Rightarrow> decimal \<Rightarrow> string \<Rightarrow> cost_level \<Rightarrow> decimal \<Rightarrow> fill_price option result" where
  "limit_buy_fill limit open_p low symbol lv m =
     (let at_limit = \<lparr> fp_price = limit, fp_ref = open_p, fp_spread = 0, fp_slippage = 0 \<rparr> in
      if \<not> low < limit then Inr None
      else if limit_fill_at_limit lv then Inr (Some at_limit)
      else
        ebind (market_fill ''buy'' open_p symbol lv m) (\<lambda>modelled.
        Inr (Some (if fp_price modelled < limit then modelled else at_limit))))"

definition cash_debit :: "decimal \<Rightarrow> decimal \<Rightarrow> cost_level \<Rightarrow> decimal result" where
  "cash_debit qty price lv =
     (let amount = qty * price in if round_prices lv then quantize amount CENT ROUND_UP else Inr amount)"

definition cash_credit :: "decimal \<Rightarrow> decimal \<Rightarrow> cost_level \<Rightarrow> decimal result" where
  "cash_credit qty price lv =
     (let amount = qty * price in if round_prices lv then quantize amount CENT ROUND_DOWN else Inr amount)"

section \<open>Fees\<close>

record fee_row =
  fr_fee :: string
  fr_side :: string
  fr_basis :: string
  fr_rate :: decimal
  fr_cap :: "decimal option"
  fr_start :: date
  fr_end :: "date option"
  fr_asset_class :: string

definition applies :: "fee_row \<Rightarrow> date \<Rightarrow> string \<Rightarrow> string \<Rightarrow> bool" where
  "applies r d side asset_class \<longleftrightarrow>
     fr_asset_class r = asset_class \<and> fr_side r \<in> {side, ''both''} \<and> fr_start r \<le> d \<and>
     (case fr_end r of None \<Rightarrow> True | Some e \<Rightarrow> d \<le> e)"

record fee_table =
  ft_rows :: "fee_row list"
  ft_version :: string

definition fee_key :: "fee_row \<Rightarrow> string \<times> string" where
  "fee_key r = (fr_fee r, fr_asset_class r)"

fun check_pairs :: "fee_row list \<Rightarrow> unit result" where
  "check_pairs (b # a # rs) =
     (case fr_end b of
        None \<Rightarrow> Inl (ValueError ''gap'')
      | Some e \<Rightarrow>
          ebind (add_day e) (\<lambda>d.
          if fr_start a \<noteq> d then Inl (ValueError ''gap'') else check_pairs (a # rs)))"
| "check_pairs _ = Inr ()"

definition check_key :: "fee_row list \<Rightarrow> string \<times> string \<Rightarrow> unit result" where
  "check_key rows k =
     (let mine = sort_key fr_start (filter (\<lambda>r. fee_key r = k) rows) in
      ebind (check_pairs mine) (\<lambda>_.
      if fr_end (last mine) \<noteq> None then Inl (ValueError ''open-ended'') else Inr ()))"

definition check_coverage :: "fee_row list \<Rightarrow> unit result" where
  "check_coverage rows = emap (\<lambda>_. ()) (etraverse (check_key rows) (remdups (map fee_key rows)))"

text \<open>The rows of \<open>fees.json\<close> as its JSON objects hold them.\<close>

record raw_row =
  rw_fee :: string
  rw_side :: string
  rw_basis :: string
  rw_rate :: string
  rw_cap :: "string option"
  rw_from :: string
  rw_to :: "string option"
  rw_asset_class :: "string option"

definition row_of_raw :: "raw_row \<Rightarrow> fee_row result" where
  "row_of_raw r =
     ebind (dec_parse (rw_rate r)) (\<lambda>rate.
     ebind (case rw_cap r of None \<Rightarrow> Inr None | Some c \<Rightarrow> emap Some (dec_parse c)) (\<lambda>cap.
     ebind (date_parse (rw_from r)) (\<lambda>start.
     ebind (case rw_to r of None \<Rightarrow> Inr None | Some t \<Rightarrow> if t = [] then Inr None else emap Some (date_parse t)) (\<lambda>stop.
     Inr \<lparr> fr_fee = rw_fee r, fr_side = rw_side r, fr_basis = rw_basis r, fr_rate = rate, fr_cap = cap,
           fr_start = start, fr_end = stop,
           fr_asset_class = (case rw_asset_class r of None \<Rightarrow> ''equity'' | Some a \<Rightarrow> a) \<rparr>))))"

definition load_fees :: "raw_row list \<Rightarrow> string \<Rightarrow> fee_table result" where
  "load_fees raw version =
     ebind (etraverse row_of_raw raw) (\<lambda>rows.
     ebind (check_coverage rows) (\<lambda>_.
     Inr \<lparr> ft_rows = rows, ft_version = version \<rparr>))"

definition row_amount :: "fee_row \<Rightarrow> decimal \<Rightarrow> decimal \<Rightarrow> decimal" where
  "row_amount r qty price =
     (let amount = fr_rate r * (if fr_basis r = ''principal'' then qty * price else qty)
      in case fr_cap r of None \<Rightarrow> amount | Some c \<Rightarrow> min amount c)"

definition exact_fees :: "fee_table \<Rightarrow> date \<Rightarrow> string \<Rightarrow> decimal \<Rightarrow> decimal \<Rightarrow> string \<Rightarrow> amounts" where
  "exact_fees t d side qty price asset_class =
     foldl (\<lambda>out r. if \<not> applies r d side asset_class then out
                    else AList.update (fr_fee r) (aget 0 out (fr_fee r) + row_amount r qty price) out)
       [] (ft_rows t)"

definition covered_from :: "fee_table \<Rightarrow> string \<Rightarrow> date result" where
  "covered_from t asset_class =
     (let mine = filter (\<lambda>r. fr_asset_class r = asset_class) (ft_rows t);
          firsts = map (\<lambda>f. Min (set (map fr_start (filter (\<lambda>r. fr_fee r = f) mine)))) (remdups (map fr_fee mine))
      in if firsts = [] then Inl (ValueError ''max of an empty sequence'') else Inr (Max (set firsts)))"

definition order_fees ::
  "fee_table \<Rightarrow> date \<Rightarrow> string \<Rightarrow> decimal \<Rightarrow> decimal \<Rightarrow> string \<Rightarrow> string \<Rightarrow> amounts result" where
  "order_fees t d side qty price rounding asset_class =
     (let exact = exact_fees t d side qty price asset_class in
      if rounding = ''per_order'' then
        etraverse (\<lambda>(k, v). emap (Pair k) (quantize v CENT ROUND_CEILING)) exact
      else if rounding \<in> {''daily'', ''none''} then Inr exact
      else Inl (ValueError ''unknown fee rounding''))"

section \<open>The day's fees\<close>

type_synonym daily_fees = "(date \<times> amounts) list"

definition daily_add :: "date \<Rightarrow> amounts \<Rightarrow> daily_fees \<Rightarrow> daily_fees" where
  "daily_add d fees days =
     AList.update d (foldl (\<lambda>b (k, v). AList.update k (aget 0 b k + v) b) (aget [] days d) fees) days"

definition rounding_charge :: "date \<Rightarrow> daily_fees \<Rightarrow> decimal result" where
  "rounding_charge d days =
     emap dsum (etraverse (\<lambda>v. emap (\<lambda>r. r - v) (quantize v CENT ROUND_CEILING)) (vals (aget [] days d)))"

definition round_trip_fraction ::
  "(decimal \<Rightarrow> 'f) \<Rightarrow> string \<Rightarrow> cost_level \<Rightarrow> fee_table \<Rightarrow> date \<Rightarrow> decimal \<Rightarrow> decimal \<Rightarrow> bool \<Rightarrow> 'f result" where
  "round_trip_fraction to_float symbol lv fees d price notional entry_in_opening_window =
     (let m = (if entry_in_opening_window then open_multiplier lv else 1);
          h = half_spread lv symbol;
          sigma = slippage_bps lv * BPS
      in
      ebind (if limit_fill_at_limit lv
             then emap (\<lambda>b. (1 + h * m) * (1 + b) - 1) (ddiv LIMIT_BUFFER_PCT (Dec 100 0))
             else Inr (h * m + sigma)) (\<lambda>entry.
      let spread_slip = entry + h + sigma in
      ebind (ddiv notional price) (\<lambda>qty.
      ebind (order_fees fees d ''buy'' qty price (fee_rounding lv) ''equity'') (\<lambda>b.
      ebind (order_fees fees d ''sell'' qty price (fee_rounding lv) ''equity'') (\<lambda>s.
      ebind (ddiv (dsum (vals b @ vals s)) notional) (\<lambda>share.
      Inr (to_float (spread_slip + share))))))))"

end
