(* ===== verification/Costs_Laws.thy ===== *)
theory Costs_Laws imports Costs Decimal_Laws begin

text \<open>
  What the coverage check of the fee table promises: on any day from the first covered one exactly one row of
  every fee type is in force. And the rounding of fees: never below the exact amount, less than a cent above it.
\<close>

section \<open>Days\<close>

lemma date_parse_valid: "date_parse s = Inr d \<Longrightarrow> valid_date d"
  by (auto simp: date_parse_def Let_def split: if_splits)

lemma add_day_Inr: "add_day e = Inr d \<Longrightarrow> d = next_day e"
  by (simp add: add_day_def split: if_splits)

section \<open>Exactly one row in force\<close>

definition in_force :: "date \<Rightarrow> fee_row \<Rightarrow> bool" where
  "in_force d r \<longleftrightarrow> fr_start r \<le> d \<and> (case fr_end r of None \<Rightarrow> True | Some e \<Rightarrow> d \<le> e)"

lemma applies_in_force:
  "applies r d side c \<longleftrightarrow> fr_asset_class r = c \<and> fr_side r \<in> {side, ''both''} \<and> in_force d r"
  by (auto simp: applies_def in_force_def)

lemma check_pairs_one_in_force:
  assumes "check_pairs rs = Inr ()" "rs \<noteq> []" "fr_end (last rs) = None" "sorted (map fr_start rs)"
    and "valid_date d" "\<forall>r \<in> set rs. \<forall>e. fr_end r = Some e \<longrightarrow> valid_date e"
  shows "length (filter (in_force d) rs) = (if fr_start (hd rs) \<le> d then 1 else 0)"
  using assms
proof (induction rs rule: check_pairs.induct)
  case (1 b a rs)
  obtain e where e: "fr_end b = Some e" "fr_start a = next_day e" "check_pairs (a # rs) = Inr ()"
    using "1.prems"(1) by (auto simp: ebind_Inr_iff dest!: add_day_Inr split: option.splits if_splits)
  have v: "valid_date e" using e(1) "1.prems"(6) by simp
  have rest: "length (filter (in_force d) (a # rs)) = (if fr_start a \<le> d then 1 else 0)"
  proof (cases "add_day e")
    case (Inl x)
    then show ?thesis using "1.prems"(1) e(1) by simp
  next
    case (Inr y)
    then show ?thesis using "1.IH" [OF e(1)] "1.prems" e by (simp add: add_day_Inr)
  qed
  show ?case
  proof (cases "fr_start a \<le> d")
    case True
    then have "e < d" using next_day_less [OF v] e(2) by simp
    then have "\<not> in_force d b" by (simp add: in_force_def e(1) not_le)
    moreover have "fr_start b \<le> d" using True "1.prems"(4) by (auto intro: order_trans)
    ultimately show ?thesis using rest True by simp
  next
    case False
    then have "d \<le> e" using not_less_next_day [OF v \<open>valid_date d\<close>] e(2) by simp
    then have "in_force d b \<longleftrightarrow> fr_start b \<le> d" by (simp add: in_force_def e(1))
    then show ?thesis using rest False by simp
  qed
qed (auto simp: in_force_def)

lemma row_of_raw_valid:
  assumes "row_of_raw x = Inr r" "fr_end r = Some e"
  shows "valid_date e"
proof -
  obtain stop where stop: "(case rw_to x of None \<Rightarrow> Inr None | Some t \<Rightarrow> if t = [] then Inr None else emap Some (date_parse t)) = Inr stop"
    "fr_end r = stop"
  proof -
    obtain rate cap start stop where s: "(case rw_to x of None \<Rightarrow> Inr None | Some t \<Rightarrow> if t = [] then Inr None else emap Some (date_parse t)) = Inr stop"
      and r: "Inr \<lparr> fr_fee = rw_fee x, fr_side = rw_side x, fr_basis = rw_basis x, fr_rate = rate, fr_cap = cap,
           fr_start = start, fr_end = stop,
           fr_asset_class = (case rw_asset_class x of None \<Rightarrow> ''equity'' | Some a \<Rightarrow> a) \<rparr> = (Inr r :: fee_row result)"
      using assms(1) unfolding row_of_raw_def ebind_Inr_iff by blast
    have "fr_end r = stop" using r by (simp only: sum.inject) (metis fee_row.select_convs(7))
    with s that show thesis by blast
  qed
  then show ?thesis using assms(2) by (auto simp: emap_Inr_iff date_parse_valid split: option.splits if_splits)
qed

lemma load_fees_Inr:
  assumes "load_fees raw v = Inr t"
  shows "check_coverage (ft_rows t) = Inr ()" "etraverse row_of_raw raw = Inr (ft_rows t)"
proof -
  obtain rows u where "etraverse row_of_raw raw = Inr rows" "check_coverage rows = Inr u"
    and t: "Inr \<lparr> ft_rows = rows, ft_version = v \<rparr> = (Inr t :: fee_table result)"
    using assms unfolding load_fees_def ebind_Inr_iff by blast
  moreover have "ft_rows t = rows" using t by (simp only: sum.inject) (metis fee_table.select_convs(1))
  ultimately show "check_coverage (ft_rows t) = Inr ()" "etraverse row_of_raw raw = Inr (ft_rows t)"
    by simp_all
qed

lemma load_fees_valid:
  assumes "load_fees raw v = Inr t" "r \<in> set (ft_rows t)" "fr_end r = Some e"
  shows "valid_date e"
proof -
  obtain x where "row_of_raw x = Inr r"
    using load_fees_Inr(2) [OF assms(1)] assms(2) list_all2_right [of _ raw "ft_rows t" r]
    unfolding etraverse_Inr_iff by blast
  then show ?thesis using assms(3) by (rule row_of_raw_valid)
qed

lemma etraverse_mem: "etraverse f xs = Inr ys \<Longrightarrow> x \<in> set xs \<Longrightarrow> \<exists>y. f x = Inr y"
  by (induction xs arbitrary: ys) (auto simp: ebind_Inr_iff)

lemma check_coverage_key:
  assumes "check_coverage rows = Inr ()" "k \<in> set (map fee_key rows)"
  shows "check_key rows k = Inr ()"
proof -
  obtain us where "etraverse (check_key rows) (remdups (map fee_key rows)) = Inr us"
    using assms(1) unfolding check_coverage_def emap_Inr_iff by blast
  then obtain u where "check_key rows k = Inr u"
    using etraverse_mem [of "check_key rows"] assms(2) by (metis set_remdups)
  then show ?thesis by simp
qed

lemma length_filter_sort_key: "length (filter P (sort_key f xs)) = length (filter P xs)"
  by (metis mset_filter mset_sort size_mset)

lemma check_key_one_in_force:
  assumes "check_key rows k = Inr ()" "k \<in> set (map fee_key rows)" "valid_date d"
    and "\<And>r e. r \<in> set rows \<Longrightarrow> fr_end r = Some e \<Longrightarrow> valid_date e"
    and start: "r \<in> set rows" "fee_key r = k" "fr_start r \<le> d"
  shows "length (filter (\<lambda>r. fee_key r = k \<and> in_force d r) rows) = 1"
proof -
  define mine where "mine = sort_key fr_start (filter (\<lambda>r. fee_key r = k) rows)"
  have r: "r \<in> set mine" using start by (simp add: mine_def)
  have "check_pairs mine = Inr ()" "fr_end (last mine) = None"
    using assms(1) by (auto simp: check_key_def mine_def Let_def ebind_Inr_iff split: if_splits)
  moreover have "sorted (map fr_start mine)" by (simp add: mine_def)
  moreover have "mine \<noteq> []" using r by auto
  moreover have "\<forall>r \<in> set mine. \<forall>e. fr_end r = Some e \<longrightarrow> valid_date e" using assms(4) by (auto simp: mine_def)
  ultimately have "length (filter (in_force d) mine) = (if fr_start (hd mine) \<le> d then 1 else 0)"
    using assms(3) by (intro check_pairs_one_in_force) auto
  moreover have "fr_start (hd mine) \<le> fr_start r"
    using r \<open>sorted (map fr_start mine)\<close> by (cases mine) auto
  ultimately have "length (filter (in_force d) mine) = 1" using start(3) by simp
  then show ?thesis by (simp add: mine_def length_filter_sort_key conj_commute)
qed

lemma covered_from_start:
  assumes "covered_from t c = Inr d0" "r \<in> set (ft_rows t)" "fr_asset_class r = c"
  shows "\<exists>r' \<in> set (ft_rows t). fee_key r' = fee_key r \<and> fr_start r' \<le> d0"
proof -
  define mine where "mine = filter (\<lambda>r. fr_asset_class r = c) (ft_rows t)"
  define starts where "starts f = set (map fr_start (filter (\<lambda>r. fr_fee r = f) mine))" for f
  have "r \<in> set mine" using assms by (simp add: mine_def)
  then have ne: "starts (fr_fee r) \<noteq> {}" "finite (starts (fr_fee r))" by (auto simp: starts_def)
  have "d0 = Max ((\<lambda>f. Min (starts f)) ` fr_fee ` set mine)"
    using assms(1) by (auto simp: covered_from_def Let_def mine_def starts_def image_image split: if_splits)
  then have "Min (starts (fr_fee r)) \<le> d0" using \<open>r \<in> set mine\<close> by simp
  moreover obtain r' where "r' \<in> set mine" "fr_fee r' = fr_fee r" "fr_start r' = Min (starts (fr_fee r))"
    using Min_in [OF ne(2,1)] by (auto simp: starts_def)
  ultimately show ?thesis using assms(3) by (auto simp: mine_def fee_key_def)
qed

text \<open>
  C21. A fee never silently stops applying: in a fee table that loads, on every day from \<open>covered_from\<close> on,
  each fee type of the asset class has exactly one row in force.
\<close>

theorem fees_always_in_force:
  assumes "load_fees raw v = Inr t" "covered_from t c = Inr d0" "valid_date d" "d0 \<le> d"
    and "r \<in> set (ft_rows t)" "fr_asset_class r = c"
  shows "length (filter (\<lambda>r'. fee_key r' = fee_key r \<and> in_force d r') (ft_rows t)) = 1"
proof -
  have k: "fee_key r \<in> set (map fee_key (ft_rows t))" using assms(5) by simp
  obtain r' where r': "r' \<in> set (ft_rows t)" "fee_key r' = fee_key r" "fr_start r' \<le> d0"
    using covered_from_start [OF assms(2,5,6)] by blast
  have "fr_start r' \<le> d" using r'(3) assms(4) by simp
  show ?thesis
    by (rule check_key_one_in_force [OF check_coverage_key [OF load_fees_Inr(1) [OF assms(1)] k] k assms(3)
        load_fees_valid [OF assms(1)] r'(1,2) \<open>fr_start r' \<le> d\<close>])
qed

text \<open>Two rows of the SEC fee as \<open>fees.json\<close> has them: the first ends where the second starts.\<close>

definition demo_rows :: "raw_row list" where
  "demo_rows =
     [\<lparr> rw_fee = ''SEC'', rw_side = ''sell'', rw_basis = ''principal'', rw_rate = ''0.0000278'', rw_cap = None,
        rw_from = ''2024-05-22'', rw_to = Some ''2025-05-13'', rw_asset_class = None \<rparr>,
      \<lparr> rw_fee = ''SEC'', rw_side = ''sell'', rw_basis = ''principal'', rw_rate = ''0'', rw_cap = None,
        rw_from = ''2025-05-14'', rw_to = None, rw_asset_class = None \<rparr>]"

definition demo_table :: fee_table where
  "demo_table = \<lparr> ft_rows =
     [\<lparr> fr_fee = ''SEC'', fr_side = ''sell'', fr_basis = ''principal'', fr_rate = Dec 278 (-7), fr_cap = None,
        fr_start = Date 2024 5 22, fr_end = Some (Date 2025 5 13), fr_asset_class = ''equity'' \<rparr>,
      \<lparr> fr_fee = ''SEC'', fr_side = ''sell'', fr_basis = ''principal'', fr_rate = Dec 0 0, fr_cap = None,
        fr_start = Date 2025 5 14, fr_end = None, fr_asset_class = ''equity'' \<rparr>], ft_version = ''demo'' \<rparr>"

theorem fees_always_in_force_witness:
  "length (filter (\<lambda>r'. fee_key r' = (''SEC'', ''equity'') \<and> in_force (Date 2025 5 14) r') (ft_rows demo_table)) = 1"
proof -
  have load: "load_fees demo_rows ''demo'' = Inr demo_table" by code_simp
  have cov: "covered_from demo_table ''equity'' = Inr (Date 2024 5 22)" by code_simp
  have r: "hd (ft_rows demo_table) \<in> set (ft_rows demo_table)" "fr_asset_class (hd (ft_rows demo_table)) = ''equity''"
    "fee_key (hd (ft_rows demo_table)) = (''SEC'', ''equity'')" by (simp_all add: demo_table_def fee_key_def)
  have "valid_date (Date 2025 5 14)" "Date 2024 5 22 \<le> Date 2025 5 14" by code_simp+
  then show ?thesis using fees_always_in_force [OF load cov _ _ r(1,2), of "Date 2025 5 14"] r(3) by simp
qed

section \<open>Rounded fees\<close>

lemma aget_in_keys: "k \<notin> set (keys d) \<Longrightarrow> aget z d k = z"
  by (auto simp: aget_def set_keys dom_def split: option.splits)

text \<open>Per order, each fee is its exact amount rounded up to the cent: never less, and less than a cent more.\<close>

lemma order_fees_per_order:
  assumes "order_fees t d side qty price ''per_order'' c = Inr out"
  shows "list_all2 (\<lambda>(k, v) (k', v'). k' = k \<and> val v \<le> val v' \<and> val v' < val v + 1/100 \<and> grid (-2) (val v'))
    (exact_fees t d side qty price c) out"
proof -
  have "list_all2 (\<lambda>kv x. (case kv of (k, v) \<Rightarrow> emap (Pair k) (quantize v CENT ROUND_CEILING)) = Inr x)
      (exact_fees t d side qty price c) out"
    using assms by (simp add: order_fees_def Let_def etraverse_Inr_iff split: if_splits)
  then show ?thesis
  proof (rule list_all2_mono, clarify)
    fix k v k' v' assume "emap (Pair k) (quantize v CENT ROUND_CEILING) = Inr (k', v')"
    then have q: "quantize v CENT ROUND_CEILING = Inr v'" "k' = k" by (auto simp: emap_Inr_iff)
    show "k' = k \<and> val v \<le> val v' \<and> val v' < val v + 1/100 \<and> grid (-2) (val v')"
      using q quantize_ceiling [OF q(1)] quantize_error [OF q(1)] quantize_grid [OF q(1)]
      by (simp add: CENT_def power_int_def power2_eq_square)
  qed
qed

section \<open>Limit buys fill only through the limit\<close>

lemma limit_buy_fill_through:
  assumes "limit_buy_fill limit open_p low symbol lv m = Inr r"
  shows "r = None \<longleftrightarrow> limit \<le> low"
    "r = Some f \<Longrightarrow> fp_price f \<le> limit"
    "r = Some f \<Longrightarrow> limit_fill_at_limit lv \<Longrightarrow> fp_price f = limit"
  using assms by (auto simp: limit_buy_fill_def Let_def ebind_Inr_iff not_less_dec less_eq_val less_val split: if_splits)

end
