(* ===== verification/Receipts.thy ===== *)
theory Receipts imports Tier0 Text_Forms begin

text \<open>
  The pure part of \<open>webhook.py\<close>: the canonical JSON of a body, its signature and the check of one, and the
  receipts that report an accepted order, a fill and a scored scenario.

  A float is its \<open>repr\<close>, or one of the three values that are not finite. Text is a list of bytes, so a
  Python string stands for its UTF-8 form here. HMAC-SHA256 and SHA-256 are arguments (functions from text to
  the hex digest). Timestamps are the texts \<open>isoformat()\<close> makes of them. An order is what \<open>alpaca-py\<close>'s
  model of it shows through \<open>str\<close>.
\<close>

section \<open>JSON\<close>

datatype pyfloat = NaN | PosInf | NegInf | Fin string

datatype json =
    JNull
  | JBool bool
  | JInt int
  | JFloat pyfloat
  | JStr string
  | JArr "json list"
  | JObj "(string \<times> json) list"

fun join :: "string \<Rightarrow> string list \<Rightarrow> string" where
  "join sep [] = []"
| "join sep [x] = x"
| "join sep (x # y # xs) = x @ sep @ join sep (y # xs)"

definition hex_digit :: "nat \<Rightarrow> char" where
  "hex_digit n = (if n < 10 then char_of (48 + n) else char_of (87 + n))"

definition code :: "char \<Rightarrow> nat" where "code c = of_char c"

text \<open>\<open>json.dumps(..., ensure_ascii=False)\<close> escapes the quote, the backslash and the control characters.\<close>

definition escape_char :: "char \<Rightarrow> string" where
  "escape_char c =
     (if c = char_of (34::nat) then [char_of (92::nat), char_of (34::nat)]
      else if c = char_of (92::nat) then [char_of (92::nat), char_of (92::nat)]
      else if c = char_of (10::nat) then [char_of (92::nat), CHR ''n'']
      else if c = char_of (13::nat) then [char_of (92::nat), CHR ''r'']
      else if c = char_of (9::nat) then [char_of (92::nat), CHR ''t'']
      else if c = char_of (12::nat) then [char_of (92::nat), CHR ''f'']
      else if c = char_of (8::nat) then [char_of (92::nat), CHR ''b'']
      else if code c < 32 then
        [char_of (92::nat), CHR ''u'', CHR ''0'', CHR ''0'', hex_digit (code c div 16), hex_digit (code c mod 16)]
      else [c])"

definition json_string :: "string \<Rightarrow> string" where
  "json_string s = char_of (34::nat) # concat (map escape_char s) @ [char_of (34::nat)]"

fun float_text :: "pyfloat \<Rightarrow> string" where
  "float_text NaN = ''NaN''"
| "float_text PosInf = ''Infinity''"
| "float_text NegInf = ''-Infinity''"
| "float_text (Fin r) = r"

fun sort_keys :: "json \<Rightarrow> json" where
  "sort_keys (JObj kvs) = JObj (sort_key fst (map (\<lambda>(k, v). (k, sort_keys v)) kvs))"
| "sort_keys (JArr js) = JArr (map sort_keys js)"
| "sort_keys j = j"

fun json_text :: "json \<Rightarrow> string" where
  "json_text JNull = ''null''"
| "json_text (JBool b) = (if b then ''true'' else ''false'')"
| "json_text (JInt i) = sign_str i @ nat_str \<bar>i\<bar>"
| "json_text (JFloat f) = float_text f"
| "json_text (JStr s) = json_string s"
| "json_text (JArr js) = ''['' @ join '','' (map json_text js) @ '']''"
| "json_text (JObj kvs) = ''{'' @ join '','' (map (\<lambda>(k, v). json_string k @ '':'' @ json_text v) kvs) @ ''}''"

type_synonym receipt = "(string \<times> json) list"

definition canonical_json :: "receipt \<Rightarrow> string" where
  "canonical_json payload = json_text (sort_keys (JObj payload))"

section \<open>Signatures\<close>

definition SIGNATURE_PREFIX :: string where "SIGNATURE_PREFIX = ''sha256=''"
definition SIGNATURE_HEADER :: string where "SIGNATURE_HEADER = ''X-Signature-256''"
definition TIMESTAMP_HEADER :: string where "TIMESTAMP_HEADER = ''X-Signature-Timestamp''"
definition IDEMPOTENCY_HEADER :: string where "IDEMPOTENCY_HEADER = ''X-Idempotency-Key''"

text \<open>\<open>hmac secret message\<close> is the hex digest.\<close>

definition sign :: "(string \<Rightarrow> string \<Rightarrow> string) \<Rightarrow> string \<Rightarrow> string \<Rightarrow> string \<Rightarrow> string" where
  "sign hmac body timestamp secret = hmac secret (timestamp @ ''.'' @ body)"

definition removeprefix :: "string \<Rightarrow> string \<Rightarrow> string" where
  "removeprefix p s = (if take (length p) s = p then drop (length p) s else s)"

definition ascii :: "string \<Rightarrow> bool" where
  "ascii s \<longleftrightarrow> list_all (\<lambda>c. code c < 128) s"

text \<open>\<open>hmac.compare_digest\<close> of two strings takes ASCII only.\<close>

definition verify_signature ::
  "(string \<Rightarrow> string \<Rightarrow> string) \<Rightarrow> string \<Rightarrow> string \<Rightarrow> string \<Rightarrow> string \<Rightarrow> bool result" where
  "verify_signature hmac body timestamp signature secret =
     (let expected = sign hmac body timestamp secret; provided = removeprefix SIGNATURE_PREFIX signature
      in if ascii expected \<and> ascii provided then Inr (expected = provided) else Inl TypeError)"

section \<open>Receipts\<close>

definition to_minor_units :: "decimal \<Rightarrow> int result" where
  "to_minor_units amount = emap coef (quantize (amount * Dec 100 0) (Dec 1 0) ROUND_HALF_UP)"

text \<open>\<open>s.replace("+00:00", "Z")\<close>.\<close>

function replace_text :: "string \<Rightarrow> string \<Rightarrow> string \<Rightarrow> string" where
  "replace_text old new s =
     (if s = [] then []
      else if old \<noteq> [] \<and> take (length old) s = old then new @ replace_text old new (drop (length old) s)
      else hd s # replace_text old new (tl s))"
  by pat_completeness auto
termination by (relation "measure (\<lambda>(old, new, s). length s)") (auto simp: neq_Nil_conv)

declare replace_text.simps [simp del]

definition utc_z :: "string \<Rightarrow> string" where
  "utc_z s = replace_text ''+00:00'' ''Z'' s"

definition lower_char :: "char \<Rightarrow> char" where
  "lower_char c = (if 65 \<le> code c \<and> code c \<le> 90 then char_of (code c + 32) else c)"

definition lower :: "string \<Rightarrow> string" where "lower s = map lower_char s"

text \<open>\<open>s.rsplit(".", maxsplit=1)[-1]\<close>.\<close>

definition after_last_dot :: "string \<Rightarrow> string" where
  "after_last_dot s = rev (takeWhile (\<lambda>c. c \<noteq> CHR ''.'') (rev s))"

record broker_order =
  bo_id :: string
  bo_client_order_id :: string
  bo_status :: string
  bo_symbol :: string
  bo_side :: string
  bo_filled_avg_price :: "string option"
  bo_filled_qty :: "string option"
  bo_filled_at :: "string option"
  bo_updated_at :: string

record inference_signal =
  is_ticker :: string
  is_headline :: string
  is_predicted_move_pct :: pyfloat
  is_confidence :: pyfloat
  is_model_name :: string

fun side_value :: "order_side \<Rightarrow> string" where
  "side_value BUY = ''buy''"
| "side_value SELL = ''sell''"

fun stop_value :: "stop_loss_kind \<Rightarrow> string" where
  "stop_value NATIVE_OTO = ''native_oto''"
| "stop_value ENGINE_TRACKED = ''engine_tracked''"

definition SCHEMA_VERSION :: int where "SCHEMA_VERSION = 1"

definition build_receipt ::
  "decimal \<Rightarrow> execution_plan \<Rightarrow> inference_signal \<Rightarrow> broker_order \<Rightarrow> string \<Rightarrow> receipt result" where
  "build_receipt rate p sig ord executed_at =
     (let price_usd = ep_limit_price p;
          total_usd = ep_notional_usd p;
          price_ils = price_usd * rate;
          total_ils = total_usd * rate
      in
      ebind (to_minor_units price_usd) (\<lambda>price_minor.
      ebind (to_minor_units total_usd) (\<lambda>total_minor.
      ebind (to_minor_units price_ils) (\<lambda>price_agorot.
      ebind (to_minor_units total_ils) (\<lambda>total_agorot.
      Inr [(''schema_version'', JInt SCHEMA_VERSION),
           (''idempotency_key'', JStr (ep_client_order_id p)),
           (''status'', JStr ''pending''),
           (''broker'', JStr ''alpaca''),
           (''environment'', JStr ''paper''),
           (''order_id'', JStr (bo_id ord)),
           (''client_order_id'', JStr (bo_client_order_id ord)),
           (''order_status'', JStr (bo_status ord)),
           (''symbol'', JStr (ep_symbol p)),
           (''side'', JStr (side_value (ep_side p))),
           (''quantity'', JStr (dec_str (ep_quantity p))),
           (''currency'', JStr ''USD''),
           (''native_price_amount'', JInt price_minor),
           (''native_total_amount'', JInt total_minor),
           (''exchange_rate_at_entry'', JStr (dec_str rate)),
           (''price_agorot'', JInt price_agorot),
           (''total_agorot'', JInt total_agorot),
           (''limit_price'', JStr (dec_str price_usd)),
           (''stop_price'', JStr (dec_str (ep_stop_price p))),
           (''stop_loss_kind'', JStr (stop_value (ep_stop_loss_kind p))),
           (''executed_at'', JStr (utc_z executed_at)),
           (''signal'', JObj
             [(''model_name'', JStr (is_model_name sig)),
              (''predicted_move_pct'', JFloat (is_predicted_move_pct sig)),
              (''confidence'', JFloat (is_confidence sig)),
              (''headline'', JStr (is_headline sig))])])))))"

definition opt_text :: "string option \<Rightarrow> string" where
  "opt_text x = (case x of None \<Rightarrow> ''None'' | Some s \<Rightarrow> s)"

definition build_settlement_receipt :: "decimal \<Rightarrow> broker_order \<Rightarrow> receipt result" where
  "build_settlement_receipt rate ord =
     ebind (dec_parse (opt_text (bo_filled_avg_price ord))) (\<lambda>filled_price_usd.
     ebind (dec_parse (opt_text (bo_filled_qty ord))) (\<lambda>filled_qty.
     let total_usd = filled_price_usd * filled_qty;
         price_ils = filled_price_usd * rate;
         total_ils = total_usd * rate;
         side = lower (after_last_dot (bo_side ord));
         filled_at = (case bo_filled_at ord of Some t \<Rightarrow> t | None \<Rightarrow> bo_updated_at ord)
     in
     ebind (to_minor_units filled_price_usd) (\<lambda>price_minor.
     ebind (to_minor_units total_usd) (\<lambda>total_minor.
     ebind (to_minor_units price_ils) (\<lambda>price_agorot.
     ebind (to_minor_units total_ils) (\<lambda>total_agorot.
     Inr [(''schema_version'', JInt SCHEMA_VERSION),
          (''idempotency_key'', JStr (bo_client_order_id ord)),
          (''status'', JStr ''settled''),
          (''broker'', JStr ''alpaca''),
          (''environment'', JStr ''paper''),
          (''order_id'', JStr (bo_id ord)),
          (''client_order_id'', JStr (bo_client_order_id ord)),
          (''order_status'', JStr (bo_status ord)),
          (''symbol'', JStr (bo_symbol ord)),
          (''side'', JStr side),
          (''quantity'', JStr (dec_str filled_qty)),
          (''currency'', JStr ''USD''),
          (''native_price_amount'', JInt price_minor),
          (''native_total_amount'', JInt total_minor),
          (''exchange_rate_at_entry'', JStr (dec_str rate)),
          (''price_agorot'', JInt price_agorot),
          (''total_agorot'', JInt total_agorot),
          (''executed_at'', JStr (utc_z filled_at))]))))))"

definition build_scenario_metrics ::
  "(string \<Rightarrow> string) \<Rightarrow> string \<Rightarrow> string \<Rightarrow> string \<Rightarrow> pyfloat \<Rightarrow> string \<Rightarrow> decimal option \<Rightarrow> pyfloat option \<Rightarrow>
   string option \<Rightarrow> receipt" where
  "build_scenario_metrics sha256 fresh ticker headline predicted_move_pct decision actual_fill_price
     shadow_predicted_move_pct shadow_decision =
     [(''schema_version'', JInt SCHEMA_VERSION),
      (''idempotency_key'', JStr fresh),
      (''status'', JStr ''metrics''),
      (''ticker'', JStr ticker),
      (''hash'', JStr (sha256 (ticker @ ''|'' @ headline))),
      (''predicted_move_pct'', JFloat predicted_move_pct),
      (''actual_fill_price'', (case actual_fill_price of None \<Rightarrow> JNull | Some p \<Rightarrow> JStr (dec_str p))),
      (''decision'', JStr decision),
      (''shadow_predicted_move_pct'', (case shadow_predicted_move_pct of None \<Rightarrow> JNull | Some f \<Rightarrow> JFloat f)),
      (''shadow_decision'', (case shadow_decision of None \<Rightarrow> JNull | Some s \<Rightarrow> JStr s))]"

text \<open>\<open>receipt["idempotency_key"]\<close> and \<open>["status"]\<close>: every builder above puts text there.\<close>

definition text_field :: "string \<Rightarrow> receipt \<Rightarrow> string result" where
  "text_field k r = (case map_of r k of Some (JStr s) \<Rightarrow> Inr s | _ \<Rightarrow> Inl KeyError)"

end
