(* ===== verification/Outbox.thy ===== *)
theory Outbox imports Actions Receipts begin

text \<open>
  \<open>outbox.py\<close>: the durable queue of receipts the dashboard never acknowledged. The pending file is the
  list of its lines, each what the JSON reader makes of it: an entry, a blank line, or a text it cannot read;
  the file is \<open>None\<close> while it does not exist. The atomic replacement of the file is one update. Times
  are seconds. A pass over the queue sends each due entry through \<open>send_once\<close>, an argument whose
  world it changes; the queue's lock lets one operation run at a time. Failing disk writes are not modelled.
\<close>

definition BACKOFF_BASE_SECONDS :: rat where "BACKOFF_BASE_SECONDS = 30"
definition BACKOFF_MAX_SECONDS :: rat where "BACKOFF_MAX_SECONDS = 300"
definition MAX_AGE_SECONDS :: rat where "MAX_AGE_SECONDS = 7 * 24 * 3600"
definition REPLAY_INTERVAL_SECONDS :: rat where "REPLAY_INTERVAL_SECONDS = 30"

record send_outcome =
  so_delivered :: bool
  so_permanent :: bool
  so_error :: string
  so_status_code :: "int option"

record entry =
  en_id :: string
  en_kind :: string
  en_url :: string
  en_receipt :: receipt
  en_enqueued_at :: rat
  en_attempts :: int
  en_next_attempt_at :: rat
  en_last_error :: string

datatype file_line = Entry entry | Blank | Unreadable string

record dead_letter =
  dl_entry :: entry
  dl_at :: rat
  dl_reason :: string

record outbox =
  ob_pending :: "file_line list option"
  ob_dead :: "dead_letter list"

record replay_stats =
  rp_attempted :: int
  rp_delivered :: int
  rp_dead_lettered :: int
  rp_still_pending :: int

definition entry_id :: "string \<Rightarrow> receipt \<Rightarrow> string result" where
  "entry_id kind r = emap (\<lambda>k. kind @ '':'' @ k) (text_field ''idempotency_key'' r)"

definition backoff_seconds :: "int \<Rightarrow> rat" where
  "backoff_seconds attempts = min BACKOFF_MAX_SECONDS (BACKOFF_BASE_SECONDS * 2 ^ nat (max 0 (attempts - 1)))"

section \<open>The file\<close>

fun entry_of_line :: "file_line \<Rightarrow> entry option" where
  "entry_of_line (Entry e) = Some e"
| "entry_of_line _ = None"

definition load_pending :: "outbox \<Rightarrow> entry list" where
  "load_pending b = (case ob_pending b of None \<Rightarrow> [] | Some ls \<Rightarrow> List.map_filter entry_of_line ls)"

definition save_pending :: "entry list \<Rightarrow> outbox \<Rightarrow> outbox" where
  "save_pending es b = b\<lparr> ob_pending := Some (map Entry es) \<rparr>"

definition dead_letter_entry :: "rat \<Rightarrow> entry \<Rightarrow> string \<Rightarrow> outbox \<Rightarrow> outbox" where
  "dead_letter_entry wall e why b = b\<lparr> ob_dead := ob_dead b @ [\<lparr> dl_entry = e, dl_at = wall, dl_reason = why \<rparr>] \<rparr>"

definition pending_count :: "outbox \<Rightarrow> int" where
  "pending_count b = int (length (load_pending b))"

section \<open>Enqueueing\<close>

text \<open>The loop over the entries: the first one of the id has its error replaced.\<close>

fun touch :: "string \<Rightarrow> string \<Rightarrow> entry list \<Rightarrow> (entry list \<times> entry) option" where
  "touch target err [] = None"
| "touch target err (e # es) =
     (if en_id e = target then Some (e\<lparr> en_last_error := err \<rparr> # es, e\<lparr> en_last_error := err \<rparr>)
      else map_option (\<lambda>(es', x). (e # es', x)) (touch target err es))"

definition enqueue :: "string \<Rightarrow> string \<Rightarrow> receipt \<Rightarrow> string \<Rightarrow> rat \<Rightarrow> outbox \<Rightarrow> outbox \<times> entry result" where
  "enqueue kind url r err now b =
     (let entries = load_pending b in
      case entry_id kind r of
        Inl x \<Rightarrow> (b, Inl x)
      | Inr target \<Rightarrow>
          (case touch target err entries of
             Some (entries', existing) \<Rightarrow> (save_pending entries' b, Inr existing)
           | None \<Rightarrow>
               let e = \<lparr> en_id = target, en_kind = kind, en_url = url, en_receipt = r, en_enqueued_at = now,
                         en_attempts = 0, en_next_attempt_at = now + BACKOFF_BASE_SECONDS, en_last_error = err \<rparr>
               in (save_pending (entries @ [e]) b, Inr e)))"

section \<open>One replay pass\<close>

type_synonym 'w sender = "string \<Rightarrow> receipt \<Rightarrow> 'w \<Rightarrow> 'w \<times> send_outcome result"

record 'w pass =
  ps_world :: 'w
  ps_outbox :: outbox
  ps_remaining :: "entry list"
  ps_attempted :: int
  ps_delivered :: "entry list"
  ps_dead_lettered :: int

definition attempt_of :: "(exn \<Rightarrow> string) \<Rightarrow> send_outcome result \<Rightarrow> send_outcome" where
  "attempt_of show_exn r =
     (case r of
        Inr outcome \<Rightarrow> outcome
      | Inl x \<Rightarrow> \<lparr> so_delivered = False, so_permanent = False, so_error = show_exn x, so_status_code = None \<rparr>)"

definition replay_entry :: "'w sender \<Rightarrow> (exn \<Rightarrow> string) \<Rightarrow> ('w \<Rightarrow> 'w \<times> rat) \<Rightarrow> rat \<Rightarrow> 'w pass \<Rightarrow> entry \<Rightarrow> 'w pass" where
  "replay_entry send show_exn wall now p e =
     (if MAX_AGE_SECONDS < now - en_enqueued_at e then
        (case wall (ps_world p) of (w, t) \<Rightarrow>
           p\<lparr> ps_world := w, ps_outbox := dead_letter_entry t e ''older than 604800s'' (ps_outbox p),
              ps_dead_lettered := ps_dead_lettered p + 1 \<rparr>)
      else if now < en_next_attempt_at e then p\<lparr> ps_remaining := ps_remaining p @ [e] \<rparr>
      else
        (case send (en_url e) (en_receipt e) (ps_world p) of (w, r) \<Rightarrow>
         let outcome = attempt_of show_exn r;
             p1 = p\<lparr> ps_world := w, ps_attempted := ps_attempted p + 1 \<rparr>
         in if so_delivered outcome then p1\<lparr> ps_delivered := ps_delivered p1 @ [e] \<rparr>
            else if so_permanent outcome then
              (case wall (ps_world p1) of (w2, t) \<Rightarrow>
                 p1\<lparr> ps_world := w2, ps_outbox := dead_letter_entry t e (so_error outcome) (ps_outbox p1),
                     ps_dead_lettered := ps_dead_lettered p1 + 1 \<rparr>)
            else
              p1\<lparr> ps_remaining := ps_remaining p1 @
                    [e\<lparr> en_attempts := en_attempts e + 1, en_last_error := so_error outcome,
                        en_next_attempt_at := now + backoff_seconds (en_attempts e + 1) \<rparr>] \<rparr>))"

text \<open>\<open>ps_delivered\<close> holds the delivered entries; the code counts them.\<close>

definition replay_pass :: "'w sender \<Rightarrow> (exn \<Rightarrow> string) \<Rightarrow> ('w \<Rightarrow> 'w \<times> rat) \<Rightarrow> rat \<Rightarrow> 'w \<Rightarrow> outbox \<Rightarrow> 'w pass" where
  "replay_pass send show_exn wall now w b =
     foldl (replay_entry send show_exn wall now)
       \<lparr> ps_world = w, ps_outbox = b, ps_remaining = [], ps_attempted = 0, ps_delivered = [], ps_dead_lettered = 0 \<rparr>
       (load_pending b)"

definition replay_pending ::
  "'w sender \<Rightarrow> (exn \<Rightarrow> string) \<Rightarrow> ('w \<Rightarrow> 'w \<times> rat) \<Rightarrow> rat \<Rightarrow> 'w \<times> outbox \<Rightarrow> ('w \<times> outbox) \<times> replay_stats" where
  "replay_pending send show_exn wall now s =
     (let p = replay_pass send show_exn wall now (fst s) (snd s)
      in ((ps_world p, save_pending (ps_remaining p) (ps_outbox p)),
          \<lparr> rp_attempted = ps_attempted p, rp_delivered = int (length (ps_delivered p)),
            rp_dead_lettered = ps_dead_lettered p, rp_still_pending = int (length (ps_remaining p)) \<rparr>))"

text \<open>\<open>replay_loop\<close> for a number of rounds: sleep, read the clock, one pass.\<close>

fun replay_loop ::
  "nat \<Rightarrow> 'w sender \<Rightarrow> (exn \<Rightarrow> string) \<Rightarrow> ('w \<Rightarrow> 'w \<times> rat) \<Rightarrow> (rat \<Rightarrow> 'w \<Rightarrow> 'w) \<Rightarrow> 'w \<times> outbox \<Rightarrow> 'w \<times> outbox" where
  "replay_loop 0 send show_exn wall sleep s = s"
| "replay_loop (Suc n) send show_exn wall sleep s =
     (case wall (sleep REPLAY_INTERVAL_SECONDS (fst s)) of (w, now) \<Rightarrow>
      replay_loop n send show_exn wall sleep (fst (replay_pending send show_exn wall now (w, snd s))))"

end
