(* ===== verification/Delivery.thy ===== *)
theory Delivery imports Outbox begin

text \<open>
  The state of the trading process and the delivery of its receipts (\<open>send_once\<close>, \<open>_deliver\<close> and the
  three senders of \<open>webhook.py\<close>). The process keeps the emergency-halt flag, the ring buffers of
  \<open>scheduler.py\<close> and the outbox; everything outside it is a world \<open>'w\<close> that the calls in \<open>ext\<close>
  change: the clock, the dashboard, Alpaca, the model, randomness. A \<open>try\<close> block that names exceptions handles
  those and lets the others pass.
\<close>

section \<open>The process and what is outside it\<close>

record webhook_settings =
  ws_secret :: string
  ws_url :: string
  ws_metrics_url :: string
  ws_usd_ils_rate :: decimal

text \<open>A POST: an \<open>httpx.HTTPError\<close> (its text), another exception, or an answer (status, body).\<close>

datatype post_answer = HttpError string | Crash exn | Answer int string

record event =
  ev_timestamp :: string
  ev_action :: string
  ev_ticker :: "string option"
  ev_status :: string

record 'w agent =
  ag_world :: 'w
  ag_halted :: bool
  ag_telemetry :: "event list"
  ag_synced :: "string list"
  ag_outbox :: outbox

record account =
  ac_equity :: "string option"
  ac_last_equity :: "string option"

record market_quote =
  mq_ticker :: string
  mq_bid :: decimal
  mq_ask :: decimal
  mq_as_of :: string
  mq_atr :: "decimal option"

record shadow_signal =
  sh_predicted_move_pct :: pyfloat
  sh_decision :: string

record order_request =
  or_symbol :: string
  or_qty :: decimal
  or_side :: order_side
  or_limit_price :: decimal
  or_client_order_id :: string
  or_stop_price :: "decimal option"

record 'w ext =
  x_settings :: "webhook_settings result"
  x_via_router :: bool
  x_autonomous :: bool
  x_hmac :: "string \<Rightarrow> string \<Rightarrow> string"
  x_sha256 :: "string \<Rightarrow> string"
  x_show :: "exn \<Rightarrow> string"
  x_time :: "'w \<Rightarrow> 'w \<times> rat"
  x_utcnow :: "'w \<Rightarrow> 'w \<times> string"
  x_sleep :: "rat \<Rightarrow> 'w \<Rightarrow> 'w"
  x_fresh :: "'w \<Rightarrow> 'w \<times> string"
  x_randint :: "int \<Rightarrow> int \<Rightarrow> 'w \<Rightarrow> 'w \<times> int"
  x_scenario :: "'w \<Rightarrow> 'w \<times> (string \<times> string)"
  x_post :: "string \<Rightarrow> string \<Rightarrow> (string \<times> string) list \<Rightarrow> 'w \<Rightarrow> 'w \<times> post_answer"
  x_client :: "unit result"
  x_account :: "'w \<Rightarrow> 'w \<times> account result"
  x_submit :: "order_request \<Rightarrow> 'w \<Rightarrow> 'w \<times> broker_order result"
  x_cancel_orders :: "'w \<Rightarrow> 'w \<times> nat result"
  x_closed_orders :: "int \<Rightarrow> 'w \<Rightarrow> 'w \<times> broker_order list result"
  x_quote :: "string \<Rightarrow> 'w \<Rightarrow> 'w \<times> market_quote result"
  x_predict :: "string \<Rightarrow> string \<Rightarrow> 'w \<Rightarrow> 'w \<times> inference_signal result"
  x_shadow :: "string \<Rightarrow> string \<Rightarrow> 'w \<Rightarrow> 'w \<times> shadow_signal result"
  x_headline :: "string \<Rightarrow> 'w \<Rightarrow> 'w \<times> string result"

text \<open>A call of the outside that cannot raise, and one that can.\<close>

definition outside :: "('w \<Rightarrow> 'w \<times> 'a) \<Rightarrow> ('w agent, 'a) act" where
  "outside f s = (case f (ag_world s) of (w, x) \<Rightarrow> (s\<lparr> ag_world := w \<rparr>, Inr x))"

definition call :: "('w \<Rightarrow> 'w \<times> 'a result) \<Rightarrow> ('w agent, 'a) act" where
  "call f s = (case f (ag_world s) of (w, r) \<Rightarrow> (s\<lparr> ag_world := w \<rparr>, r))"

definition pause :: "'w ext \<Rightarrow> rat \<Rightarrow> ('w agent, unit) act" where
  "pause X t = outside (\<lambda>w. (x_sleep X t w, ()))"

section \<open>One signed POST\<close>

text \<open>\<open>str(int(time.time()))\<close>; the clock is after 1970.\<close>

definition seconds_text :: "rat \<Rightarrow> string" where
  "seconds_text t = json_text (JInt \<lfloor>t\<rfloor>)"

definition outcome_of :: "post_answer \<Rightarrow> send_outcome result" where
  "outcome_of a =
     (case a of
        Crash e \<Rightarrow> Inl e
      | HttpError t \<Rightarrow> Inr \<lparr> so_delivered = False, so_permanent = False, so_error = t, so_status_code = None \<rparr>
      | Answer c body \<Rightarrow>
          if 200 \<le> c \<and> c \<le> 299 then
            Inr \<lparr> so_delivered = True, so_permanent = False, so_error = [], so_status_code = Some c \<rparr>
          else
            Inr \<lparr> so_delivered = False, so_permanent = (400 \<le> c \<and> c < 500 \<and> c \<noteq> 429),
                  so_error = ''HTTP '' @ json_text (JInt c) @ '': '' @ take 200 body, so_status_code = Some c \<rparr>)"

definition send_once :: "'w ext \<Rightarrow> string \<Rightarrow> receipt \<Rightarrow> 'w \<Rightarrow> 'w \<times> send_outcome result" where
  "send_once X url r w =
     (case x_settings X of
        Inl e \<Rightarrow> (w, Inl e)
      | Inr settings \<Rightarrow>
          let body = canonical_json r in
          (case x_time X w of (w1, t) \<Rightarrow>
           let timestamp = seconds_text t; signature = sign (x_hmac X) body timestamp (ws_secret settings) in
           (case text_field ''idempotency_key'' r of
              Inl e \<Rightarrow> (w1, Inl e)
            | Inr k \<Rightarrow>
                let headers = [(''Content-Type'', ''application/json''), (TIMESTAMP_HEADER, timestamp),
                               (SIGNATURE_HEADER, SIGNATURE_PREFIX @ signature), (IDEMPOTENCY_HEADER, k),
                               (''User-Agent'', ''tier0-paper-trader/1.0'')]
                in (case x_post X url body headers w1 of (w2, a) \<Rightarrow> (w2, outcome_of a)))))"

section \<open>Delivering with retries\<close>

definition MAX_ATTEMPTS :: int where "MAX_ATTEMPTS = 3"
definition DELIVER_BACKOFF_SECONDS :: rat where "DELIVER_BACKOFF_SECONDS = 1 / 2"

text \<open>The dict \<open>_deliver\<close> returns: delivered with a status code, rejected for good, or queued for replay.\<close>

datatype delivery =
    Delivered (dv_status: int) (dv_attempts: int) (dv_key: string)
  | Rejected_by (dv_error: string) (dv_attempts: int) (dv_key: string) (dv_receipt: receipt)
  | Queued (dv_error: string) (dv_attempts: int) (dv_key: string) (dv_receipt: receipt)

definition enqueue_now :: "'w ext \<Rightarrow> string \<Rightarrow> string \<Rightarrow> receipt \<Rightarrow> string \<Rightarrow> ('w agent, entry) act" where
  "enqueue_now X kind url r err =
     bind (outside (x_time X)) (\<lambda>now s.
       case enqueue kind url r err now (ag_outbox s) of (b, e) \<Rightarrow> (s\<lparr> ag_outbox := b \<rparr>, e))"

fun deliver_attempts ::
  "'w ext \<Rightarrow> receipt \<Rightarrow> string \<Rightarrow> string \<Rightarrow> int list \<Rightarrow> send_outcome \<Rightarrow> ('w agent, delivery) act" where
  "deliver_attempts X r url kind [] last_outcome =
     bind (enqueue_now X kind url r (so_error last_outcome)) (\<lambda>_.
     bind (lift (text_field ''idempotency_key'' r)) (\<lambda>k.
     bind (lift (text_field ''status'' r)) (\<lambda>_.
     ret (Queued (so_error last_outcome) MAX_ATTEMPTS k r))))"
| "deliver_attempts X r url kind (n # ns) _ =
     bind (call (send_once X url r)) (\<lambda>outcome.
     if so_delivered outcome then
       bind (lift (text_field ''idempotency_key'' r)) (\<lambda>k.
       bind (lift (text_field ''status'' r)) (\<lambda>_.
       ret (Delivered (case so_status_code outcome of Some c \<Rightarrow> c | None \<Rightarrow> 0) n k)))
     else if so_permanent outcome then
       bind (lift (text_field ''idempotency_key'' r)) (\<lambda>k.
       ret (Rejected_by (so_error outcome) n k r))
     else
       bind (if n < MAX_ATTEMPTS then pause X (DELIVER_BACKOFF_SECONDS * 2 ^ nat (n - 1)) else ret ()) (\<lambda>_.
       deliver_attempts X r url kind ns outcome))"

definition deliver :: "'w ext \<Rightarrow> receipt \<Rightarrow> string \<Rightarrow> string \<Rightarrow> ('w agent, delivery) act" where
  "deliver X r url kind =
     deliver_attempts X r url kind [1..MAX_ATTEMPTS]
       \<lparr> so_delivered = False, so_permanent = False, so_error = ''not attempted'', so_status_code = None \<rparr>"

definition send_trade_receipt ::
  "'w ext \<Rightarrow> execution_plan \<Rightarrow> inference_signal \<Rightarrow> broker_order \<Rightarrow> string \<Rightarrow> ('w agent, delivery) act" where
  "send_trade_receipt X p sig ord executed_at =
     bind (lift (x_settings X)) (\<lambda>settings.
     bind (lift (build_receipt (ws_usd_ils_rate settings) p sig ord executed_at)) (\<lambda>r.
     deliver X r (ws_url settings) ''trade''))"

definition send_settlement_receipt :: "'w ext \<Rightarrow> broker_order \<Rightarrow> ('w agent, delivery) act" where
  "send_settlement_receipt X ord =
     bind (lift (x_settings X)) (\<lambda>settings.
     bind (lift (build_settlement_receipt (ws_usd_ils_rate settings) ord)) (\<lambda>r.
     deliver X r (ws_url settings) ''settlement''))"

definition send_scenario_metrics ::
  "'w ext \<Rightarrow> string \<Rightarrow> string \<Rightarrow> pyfloat \<Rightarrow> string \<Rightarrow> pyfloat option \<Rightarrow> string option \<Rightarrow> ('w agent, delivery) act" where
  "send_scenario_metrics X ticker headline predicted_move_pct decision shadow_move shadow_decision =
     bind (outside (x_fresh X)) (\<lambda>fresh.
     let payload = build_scenario_metrics (x_sha256 X) fresh ticker headline predicted_move_pct decision None
                     shadow_move shadow_decision
     in
     bind (lift (x_settings X)) (\<lambda>settings.
     deliver X payload (ws_metrics_url settings) ''metrics''))"

end
