(* ===== verification/Market_Feed.thy ===== *)
theory Market_Feed imports Delivery begin

text \<open>
  \<open>broker.py\<close> and the simulated ingestion of \<open>inference.py\<close>: today's profit and loss, quotes, latest
  prices and the average true range from what Alpaca answers, and the quote a trade is priced against. A price
  in an answer is the decimal \<open>Decimal(str(x))\<close> makes of it. The answers, the digest's first byte and the
  texts of the time are arguments; the clients' construction is left out but for the check of their host.
\<close>

section \<open>Text\<close>

definition blank_char :: "char \<Rightarrow> bool" where
  "blank_char c \<longleftrightarrow> code c \<in> {9, 10, 11, 12, 13, 28, 29, 30, 31, 32}"

definition strip :: "string \<Rightarrow> string" where
  "strip s = rev (dropWhile blank_char (rev (dropWhile blank_char s)))"

definition upper_char :: "char \<Rightarrow> char" where
  "upper_char c = (if 97 \<le> code c \<and> code c \<le> 122 then char_of (code c - 32) else c)"

definition upper :: "string \<Rightarrow> string" where "upper s = map upper_char s"

definition startswith :: "string \<Rightarrow> string \<Rightarrow> bool" where
  "startswith s p \<longleftrightarrow> take (length p) s = p"

section \<open>The sandbox check\<close>

definition PAPER_BASE_URL :: string where "PAPER_BASE_URL = ''https://paper-api.alpaca.markets''"

definition assert_sandbox :: "string \<Rightarrow> bool \<Rightarrow> unit result" where
  "assert_sandbox base_url sandbox_flag =
     (if \<not> startswith base_url PAPER_BASE_URL \<or> \<not> sandbox_flag then Inl SandboxViolation else Inr ())"

section \<open>The account\<close>

definition daily_pnl_pct :: "account \<Rightarrow> decimal result" where
  "daily_pnl_pct a =
     (case (ac_equity a, ac_last_equity a) of
        (Some e, Some l) \<Rightarrow>
          ebind (dec_parse e) (\<lambda>equity.
          ebind (dec_parse l) (\<lambda>last_equity.
          if last_equity \<le> 0 then Inl (ValueError ''last_equity is not positive'')
          else emap (\<lambda>x. x * Dec 100 0) (ddiv (equity - last_equity) last_equity)))
      | _ \<Rightarrow> Inl (ValueError ''no equity''))"

definition get_daily_pnl_pct :: "'w ext \<Rightarrow> ('w agent, decimal) act" where
  "get_daily_pnl_pct X = bind (lift (x_client X)) (\<lambda>_. bind (call (x_account X)) (\<lambda>a. lift (daily_pnl_pct a)))"

section \<open>Quotes and prices\<close>

text \<open>The latest quote of a symbol: bid, ask and its time.\<close>

definition get_real_quote ::
  "unit result \<Rightarrow> (decimal option \<times> decimal option \<times> string) result \<Rightarrow> (decimal \<times> decimal \<times> string) result" where
  "get_real_quote client answer =
     ebind client (\<lambda>_.
     case answer of
       Inl _ \<Rightarrow> Inl RealQuoteUnavailable
     | Inr (Some bid, Some ask, ts) \<Rightarrow>
         if bid \<le> 0 \<or> ask \<le> 0 \<or> ask < bid then Inl RealQuoteUnavailable else Inr (bid, ask, ts)
     | Inr _ \<Rightarrow> Inl RealQuoteUnavailable)"

record latest_price =
  lp_symbol :: string
  lp_price :: decimal
  lp_timestamp :: string

record trade =
  td_price :: "decimal option"
  td_timestamp :: "string option"

definition wanted_symbols :: "string list \<Rightarrow> string list" where
  "wanted_symbols symbols = sort (remdups (map (\<lambda>s. upper (strip s)) (filter (\<lambda>s. s \<noteq> [] \<and> strip s \<noteq> []) symbols)))"

definition usable_price :: "(string \<times> trade) list \<Rightarrow> string \<Rightarrow> (string \<times> latest_price) option" where
  "usable_price response symbol =
     (case map_of response symbol of
        None \<Rightarrow> None
      | Some t \<Rightarrow>
          (case (td_price t, td_timestamp t) of
             (Some price, Some ts) \<Rightarrow>
               if price \<le> 0 then None
               else Some (symbol, \<lparr> lp_symbol = symbol, lp_price = price, lp_timestamp = ts \<rparr>)
           | _ \<Rightarrow> None))"

definition get_latest_prices ::
  "unit result \<Rightarrow> (string list \<Rightarrow> (string \<times> trade) list result) \<Rightarrow> string list \<Rightarrow> (string \<times> latest_price) list result" where
  "get_latest_prices client fetch symbols =
     (let wanted = wanted_symbols symbols in
      if wanted = [] then Inr []
      else ebind client (\<lambda>_. emap (\<lambda>response. List.map_filter (usable_price response) wanted) (fetch wanted)))"

section \<open>The average true range\<close>

record bar =
  br_high :: decimal
  br_low :: decimal
  br_close :: decimal

definition ATR_PERIOD_DAYS :: nat where "ATR_PERIOD_DAYS = 14"

definition true_range :: "bar \<Rightarrow> bar \<Rightarrow> decimal" where
  "true_range prev b =
     pmax (pmax (br_high b - br_low b) \<bar>br_high b - br_close prev\<bar>) \<bar>br_low b - br_close prev\<bar>"

fun true_ranges :: "bar list \<Rightarrow> decimal list" where
  "true_ranges (p # b # bs) = true_range p b # true_ranges (b # bs)"
| "true_ranges _ = []"

definition last_items :: "nat \<Rightarrow> 'a list \<Rightarrow> 'a list" where
  "last_items n xs = drop (length xs - n) xs"

definition atr_of_bars :: "nat \<Rightarrow> bar list \<Rightarrow> decimal result" where
  "atr_of_bars period bars =
     (if length bars < period + 1 then Inl AtrUnavailable
      else let last_n = last_items period (true_ranges bars)
           in ddiv (dsum last_n) (Dec (int (length last_n)) 0))"

definition get_atr :: "unit result \<Rightarrow> bar list result \<Rightarrow> nat \<Rightarrow> decimal result" where
  "get_atr client answer period =
     ebind client (\<lambda>_. case answer of Inl _ \<Rightarrow> Inl AtrUnavailable | Inr bars \<Rightarrow> atr_of_bars period bars)"

section \<open>The quote a trade is priced against\<close>

definition SIMULATED_BASE_PRICES :: "(string \<times> decimal) list" where
  "SIMULATED_BASE_PRICES =
     [(''AAPL'', Dec 22850 (-2)), (''MSFT'', Dec 44120 (-2)), (''NVDA'', Dec 12175 (-2)), (''TSLA'', Dec 24890 (-2)),
      (''AMZN'', Dec 18630 (-2)), (''GOOGL'', Dec 16540 (-2)), (''META'', Dec 56310 (-2)), (''AMD'', Dec 14285 (-2))]"

definition DEFAULT_BASE_PRICE :: decimal where "DEFAULT_BASE_PRICE = Dec 10000 (-2)"
definition SPREAD_BPS :: decimal where "SPREAD_BPS = Dec 5 0"

text \<open>\<open>first_byte\<close> is the first byte of the SHA-256 of the ticker and the minute.\<close>

definition synthetic_quote :: "int \<Rightarrow> string \<Rightarrow> string \<Rightarrow> market_quote result" where
  "synthetic_quote first_byte ticker now =
     (let base = aget DEFAULT_BASE_PRICE SIMULATED_BASE_PRICES ticker in
      ebind (ddiv (Dec first_byte 0) (Dec 255 0)) (\<lambda>share.
      ebind (ddiv (share - Dec 5 (-1)) (Dec 50 0)) (\<lambda>drift.
      ebind (quantize (base * (1 + drift)) (Dec 1 (-2)) ROUND_HALF_EVEN) (\<lambda>mid.
      ebind (ddiv (mid * SPREAD_BPS) (Dec 10000 0)) (\<lambda>h.
      ebind (quantize h (Dec 1 (-2)) ROUND_HALF_EVEN) (\<lambda>half0.
      let half_spread = pmax half0 (Dec 1 (-2)) in
      Inr \<lparr> mq_ticker = ticker, mq_bid = mid - half_spread, mq_ask = mid + half_spread, mq_as_of = now, mq_atr = None \<rparr>))))))"

definition fetch_quote ::
  "string \<Rightarrow> (decimal \<times> decimal \<times> string) result \<Rightarrow> decimal result \<Rightarrow> int \<Rightarrow> string \<Rightarrow> market_quote result" where
  "fetch_quote ticker0 quote_result atr_result first_byte now =
     (let ticker = upper (strip ticker0) in
      case quote_result of
        Inl e \<Rightarrow> if e \<in> {ConfigError, RealQuoteUnavailable} then synthetic_quote first_byte ticker now else Inl e
      | Inr (bid, ask, as_of) \<Rightarrow>
          Inr \<lparr> mq_ticker = ticker, mq_bid = bid, mq_ask = ask, mq_as_of = as_of,
                mq_atr = (case atr_result of Inl _ \<Rightarrow> None | Inr a \<Rightarrow> Some a) \<rparr>)"

section \<open>Scenarios and headlines\<close>

definition MARKET_SCENARIOS :: "(string \<times> string) list" where
  "MARKET_SCENARIOS =
     [(''TSLA'', ''TSLA soars on blowout deliveries as it wins major approval and raises full-year guidance''),
      (''AAPL'', ''AAPL beats modest expectations but issues cautious commentary for next quarter''),
      (''MSFT'', ''MSFT plunges after fraud allegations spark investor lawsuit and rating downgrade''),
      (''AMZN'', ''AMZN holds annual shareholder meeting with no guidance change''),
      (''GOOGL'', ''GOOGL wins antitrust approval and announces AI breakthrough acquisition'')]"

definition pick_random_scenario :: "nat \<Rightarrow> string \<times> string" where
  "pick_random_scenario i = MARKET_SCENARIOS ! (i mod length MARKET_SCENARIOS)"

definition HEADLINE_TEMPLATES :: "string list" where
  "HEADLINE_TEMPLATES =
     ['' beats quarterly estimates and raises full-year guidance'', '' shares plunge after regulator opens a probe'',
      '' announces record datacenter demand and a major acquisition'', '' misses on revenue as management slashes outlook'',
      '' holds annual shareholder meeting; no guidance change'']"

text \<open>Every template starts with the ticker; \<open>first_byte\<close> is the first byte of the hour's digest.\<close>

definition fetch_latest_headline :: "nat \<Rightarrow> string \<Rightarrow> string" where
  "fetch_latest_headline first_byte ticker =
     upper (strip ticker) @ HEADLINE_TEMPLATES ! (first_byte mod length HEADLINE_TEMPLATES)"

section \<open>A gap widens the range\<close>

lemma true_ranges_length: "length (true_ranges bs) = length bs - 1"
  by (induction bs rule: true_ranges.induct) simp_all

lemma atr_of_bars_total:
  assumes "0 < period" "period < length bars"
  shows "\<exists>a. atr_of_bars period bars = Inr a"
proof -
  have "length (last_items period (true_ranges bars)) = period"
    using assms by (simp add: last_items_def true_ranges_length)
  then show ?thesis using assms ddiv_total [of "Dec (int period) 0"]
    by (simp add: atr_of_bars_def Let_def val_eq_0_iff)
qed

end
