(* ===== verification/Scheduler.thy ===== *)
theory Scheduler imports Market_Feed begin

text \<open>
  \<open>execution.py\<close> and \<open>scheduler.py\<close>: the gates and the submission of one signal, the cycle the
  autonomous loop and the endpoints share, the emergency halt and the circuit breaker, the trading loop, and the
  settlement of fills the stream reports; and \<open>reconcile.py\<close>, which settles what the stream missed. A loop
  that runs until it is cancelled is modelled for a number of rounds. Calls that run concurrently
  (\<open>asyncio.gather\<close>) run one after the other here; the first that failed, in that order, is the one raised.
  The detail texts of events and rejections are left out.
\<close>

section \<open>Telemetry\<close>

definition append_bounded :: "nat \<Rightarrow> 'a \<Rightarrow> 'a list \<Rightarrow> 'a list" where
  "append_bounded n x xs = last_items n (xs @ [x])"

definition log_event :: "'w ext \<Rightarrow> string \<Rightarrow> string option \<Rightarrow> string \<Rightarrow> ('w agent, unit) act" where
  "log_event X action ticker status =
     bind (outside (x_utcnow X)) (\<lambda>t.
     update (\<lambda>s. s\<lparr> ag_telemetry := append_bounded 50
       \<lparr> ev_timestamp = t, ev_action = action, ev_ticker = ticker, ev_status = status \<rparr> (ag_telemetry s) \<rparr>))"

section \<open>Executing a signal\<close>

definition validate_and_plan :: "inference_signal \<Rightarrow> market_quote \<Rightarrow> string \<Rightarrow> execution_plan result" where
  "validate_and_plan sig q fresh =
     (case is_predicted_move_pct sig of
        Fin t \<Rightarrow>
          ebind (dec_parse t) (\<lambda>predicted.
          if predicted < MIN_PREDICTED_GAIN_PCT then Inl (Tier0Rejection BELOW_MIN_GAIN)
          else plan_buy (mq_ticker q) (mq_bid q) (mq_ask q) (mq_atr q) None fresh)
      | _ \<Rightarrow> Inl (Tier0Rejection NON_FINITE_SIGNAL))"

text \<open>The casts to float at the API boundary keep the decimal here.\<close>

definition build_order_request :: "execution_plan \<Rightarrow> order_request" where
  "build_order_request p =
     \<lparr> or_symbol = ep_symbol p, or_qty = ep_quantity p, or_side = ep_side p, or_limit_price = ep_limit_price p,
       or_client_order_id = ep_client_order_id p,
       or_stop_price = (if ep_stop_loss_kind p = NATIVE_OTO then Some (ep_stop_price p) else None) \<rparr>"

text \<open>What a cycle returns: blocked before it starts, rejected by a gate, executed; or the two answers of a dry run.\<close>

datatype cycle_result =
    Blocked string
  | Rejected rejection_code
  | Executed execution_plan broker_order delivery
  | Approved_dry_run execution_plan
  | Rejected_dry_run rejection_code

fun code_of :: "rejection_code \<Rightarrow> string" where
  "code_of BELOW_MIN_GAIN = ''below_min_gain''"
| "code_of NON_FINITE_SIGNAL = ''non_finite_signal''"
| "code_of INVALID_QUOTE = ''invalid_quote''"
| "code_of NOTIONAL_TOO_SMALL = ''notional_too_small''"
| "code_of CAP_BREACH = ''cap_breach''"

definition submit_plan :: "'w ext \<Rightarrow> inference_signal \<Rightarrow> execution_plan \<Rightarrow> ('w agent, cycle_result) act" where
  "submit_plan X sig p =
     bind (lift (x_client X)) (\<lambda>_.
     bind (call (x_submit X (build_order_request p))) (\<lambda>ord.
     bind (outside (x_utcnow X)) (\<lambda>submitted_at.
     bind (send_trade_receipt X p sig ord submitted_at) (\<lambda>d.
     ret (Executed p ord d)))))"

definition execute_signal :: "'w ext \<Rightarrow> inference_signal \<Rightarrow> market_quote \<Rightarrow> ('w agent, cycle_result) act" where
  "execute_signal X sig q =
     bind (outside (x_fresh X)) (\<lambda>fresh.
     case validate_and_plan sig q fresh of
       Inl (Tier0Rejection c) \<Rightarrow> ret (Rejected c)
     | Inl e \<Rightarrow> raise e
     | Inr p \<Rightarrow> submit_plan X sig p)"

definition dry_run :: "'w ext \<Rightarrow> inference_signal \<Rightarrow> market_quote \<Rightarrow> ('w agent, cycle_result) act" where
  "dry_run X sig q =
     bind (outside (x_fresh X)) (\<lambda>fresh.
     case validate_and_plan sig q fresh of
       Inl (Tier0Rejection c) \<Rightarrow> ret (Rejected_dry_run c)
     | Inl e \<Rightarrow> raise e
     | Inr p \<Rightarrow> ret (Approved_dry_run p))"

section \<open>When no new order may be submitted\<close>

text \<open>Any failure to read the account counts as an unknown figure.\<close>

definition fetch_daily_pnl_pct :: "'w ext \<Rightarrow> ('w agent, decimal option) act" where
  "fetch_daily_pnl_pct X =
     attempt (get_daily_pnl_pct X) (\<lambda>_. Some (ret None)) (\<lambda>d. ret (Some d))"

definition breached :: "decimal option \<Rightarrow> bool" where
  "breached pnl = (case pnl of None \<Rightarrow> False | Some d \<Rightarrow> d \<le> CIRCUIT_BREAKER_DAILY_PNL_PCT)"

definition trading_block_reason :: "'w ext \<Rightarrow> ('w agent, string option) act" where
  "trading_block_reason X =
     (if x_via_router X then ret (Some ''orders_moved'')
      else
        bind (gets ag_halted) (\<lambda>halted.
        if halted then ret (Some ''halted'')
        else
          bind (fetch_daily_pnl_pct X) (\<lambda>pnl.
          ret (if breached pnl then Some ''circuit_breaker'' else None))))"

section \<open>One cycle\<close>

definition gather_inputs ::
  "'w ext \<Rightarrow> string \<Rightarrow> string \<Rightarrow> ('w agent, market_quote \<times> inference_signal \<times> shadow_signal) act" where
  "gather_inputs X ticker headline s =
     (case x_quote X ticker (ag_world s) of (w1, q) \<Rightarrow>
      case x_predict X ticker headline w1 of (w2, sig) \<Rightarrow>
      case x_shadow X ticker headline w2 of (w3, sh) \<Rightarrow>
      (s\<lparr> ag_world := w3 \<rparr>, ebind q (\<lambda>q. ebind sig (\<lambda>sig. ebind sh (\<lambda>sh. Inr (q, sig, sh))))))"

text \<open>The event and the decision text that follow a result.\<close>

definition record_result :: "'w ext \<Rightarrow> string \<Rightarrow> bool \<Rightarrow> cycle_result \<Rightarrow> ('w agent, string) act" where
  "record_result X ticker submit r =
     (case r of
        Executed p ord d \<Rightarrow> bind (log_event X ''execute'' (Some (ep_symbol p)) ''executed'') (\<lambda>_. ret ''executed'')
      | Approved_dry_run p \<Rightarrow>
          bind (log_event X ''evaluate'' (Some ticker) ''approved (dry run)'') (\<lambda>_. ret ''approved_dry_run'')
      | Rejected c \<Rightarrow>
          bind (log_event X ''reject'' (Some ticker) (if submit then ''rejected'' else ''rejected (dry run)'')) (\<lambda>_. ret (code_of c))
      | Rejected_dry_run c \<Rightarrow>
          bind (log_event X ''reject'' (Some ticker) (if submit then ''rejected'' else ''rejected (dry run)'')) (\<lambda>_. ret (code_of c))
      | Blocked c \<Rightarrow> ret c)"

definition unblocked_cycle :: "'w ext \<Rightarrow> string \<Rightarrow> string \<Rightarrow> bool \<Rightarrow> ('w agent, cycle_result) act" where
  "unblocked_cycle X ticker headline submit =
     bind (gather_inputs X ticker headline) (\<lambda>(q, sig, sh).
     bind (log_event X ''evaluate'' (Some ticker) (if submit then ''evaluating'' else ''evaluating (dry run)'')) (\<lambda>_.
     bind (if submit then execute_signal X sig q else dry_run X sig q) (\<lambda>r.
     bind (record_result X ticker submit r) (\<lambda>decision.
     bind (send_scenario_metrics X ticker headline (is_predicted_move_pct sig) decision
             (Some (sh_predicted_move_pct sh)) (Some (sh_decision sh))) (\<lambda>_.
     ret r)))))"

definition run_signal_cycle :: "'w ext \<Rightarrow> string \<Rightarrow> string \<Rightarrow> bool \<Rightarrow> ('w agent, cycle_result) act" where
  "run_signal_cycle X ticker headline submit =
     bind (if submit then trading_block_reason X else ret None) (\<lambda>block.
     case block of
       Some c \<Rightarrow> bind (log_event X ''reject'' (Some ticker) ''blocked'') (\<lambda>_. ret (Blocked c))
     | None \<Rightarrow> unblocked_cycle X ticker headline submit)"

definition run_one_cycle :: "'w ext \<Rightarrow> ('w agent, unit) act" where
  "run_one_cycle X =
     bind (outside (x_scenario X)) (\<lambda>(ticker, headline).
     bind (run_signal_cycle X ticker headline True) (\<lambda>_. ret ()))"

definition trigger_emergency_halt :: "'w ext \<Rightarrow> ('w agent, unit) act" where
  "trigger_emergency_halt X =
     seq (update (\<lambda>s. s\<lparr> ag_halted := True \<rparr>)) (log_event X ''critical_alert'' None ''halted'')"

section \<open>The trading loop\<close>

definition MIN_INTERVAL_SECONDS :: int where "MIN_INTERVAL_SECONDS = 60"
definition MAX_INTERVAL_SECONDS :: int where "MAX_INTERVAL_SECONDS = 300"
definition CIRCUIT_BREAKER_COOLDOWN_SECONDS :: rat where "CIRCUIT_BREAKER_COOLDOWN_SECONDS = 3600"

definition trading_round :: "'w ext \<Rightarrow> ('w agent, unit) act" where
  "trading_round X =
     bind (gets ag_halted) (\<lambda>halted.
     if halted then pause X 1
     else
       seq (log_event X ''wake'' None ''waking'')
       (bind (fetch_daily_pnl_pct X) (\<lambda>pnl.
        if breached pnl then
          seq (log_event X ''critical_alert'' None ''circuit_breaker'') (pause X CIRCUIT_BREAKER_COOLDOWN_SECONDS)
        else
          seq (handle (run_one_cycle X) (\<lambda>_. Some (log_event X ''error'' None ''error'')))
          (bind (outside (x_randint X MIN_INTERVAL_SECONDS MAX_INTERVAL_SECONDS)) (\<lambda>interval.
           seq (log_event X ''sleep'' None ''sleeping'') (pause X (of_int interval)))))))"

fun trading_loop :: "nat \<Rightarrow> 'w ext \<Rightarrow> ('w agent, unit) act" where
  "trading_loop 0 X = ret ()"
| "trading_loop (Suc n) X = seq (trading_round X) (trading_loop n X)"

section \<open>Settling fills\<close>

text \<open>An optional number of an order, as text: absent or empty is false.\<close>

definition present :: "string option \<Rightarrow> bool" where
  "present x \<longleftrightarrow> (case x of None \<Rightarrow> False | Some t \<Rightarrow> t \<noteq> [])"

definition mark_synced :: "string \<Rightarrow> ('w agent, unit) act" where
  "mark_synced order_id = update (\<lambda>s. s\<lparr> ag_synced := append_bounded 1000 order_id (ag_synced s) \<rparr>)"

text \<open>\<open>str(delivery.get("error", ""))\<close>.\<close>

fun error_of :: "delivery \<Rightarrow> string" where
  "error_of (Delivered c n k) = []"
| "error_of (Rejected_by err n k r) = err"
| "error_of (Queued err n k r) = err"

fun is_delivered :: "delivery \<Rightarrow> bool" where
  "is_delivered (Delivered c n k) = True"
| "is_delivered _ = False"

definition settle_fill :: "'w ext \<Rightarrow> broker_order \<Rightarrow> ('w agent, unit) act" where
  "settle_fill X ord =
     bind (send_settlement_receipt X ord) (\<lambda>d.
     seq (mark_synced (bo_id ord))
       (if is_delivered d then log_event X ''settle'' (Some (bo_symbol ord)) ''settled''
        else if startswith (error_of d) ''HTTP 4'' then log_event X ''error'' (Some (bo_symbol ord)) ''error''
        else log_event X ''error'' (Some (bo_symbol ord)) ''queued''))"

definition handle_trade_update :: "'w ext \<Rightarrow> string \<Rightarrow> broker_order \<Rightarrow> ('w agent, unit) act" where
  "handle_trade_update X event ord =
     (if event \<noteq> ''fill'' then ret ()
      else
        bind (gets (\<lambda>s. bo_id ord \<in> set (ag_synced s))) (\<lambda>seen.
        if seen then ret ()
        else if \<not> present (bo_filled_avg_price ord) \<or> \<not> present (bo_filled_qty ord) then ret ()
        else settle_fill X ord))"

text \<open>
  One life of the stream: the updates it delivers, then how it ended. The stream's client is built once;
  without broker credentials the task sleeps.
\<close>

fun settlement_stream ::
  "nat \<Rightarrow> nat \<Rightarrow> 'w ext \<Rightarrow> ('w \<Rightarrow> 'w \<times> ((string \<times> broker_order) list \<times> unit result)) \<Rightarrow> ('w \<Rightarrow> 'w) \<Rightarrow> ('w agent, unit) act" where
  "settlement_stream 0 retries X run_forever close = ret ()"
| "settlement_stream (Suc n) retries X run_forever close =
     seq (handle
            (bind (outside run_forever) (\<lambda>(updates, ended).
             seq (foreach (\<lambda>(e, ord). handle_trade_update X e ord) updates) (lift ended)))
            (\<lambda>_. Some (log_event X ''error'' None ''error'')))
     (seq (outside (\<lambda>w. (close w, ())))
     (seq (pause X (of_nat (min (2 ^ (Suc retries)) 30)))
     (settlement_stream n (Suc retries) X run_forever close)))"

definition websocket_settlement_stream ::
  "nat \<Rightarrow> unit result \<Rightarrow> 'w ext \<Rightarrow> ('w \<Rightarrow> 'w \<times> ((string \<times> broker_order) list \<times> unit result)) \<Rightarrow> ('w \<Rightarrow> 'w) \<Rightarrow> ('w agent, unit) act" where
  "websocket_settlement_stream n stream X run_forever close =
     (case stream of
        Inl e \<Rightarrow> if e = ConfigError then ret () else raise e
      | Inr _ \<Rightarrow> settlement_stream n 0 X run_forever close)"

section \<open>Reconciliation\<close>

record reconcile_stats =
  rs_orders_seen :: int
  rs_fills :: int
  rs_recovered :: int
  rs_already_booked :: int
  rs_queued :: int
  rs_rejected :: int
  rs_failed :: bool

definition NO_STATS :: reconcile_stats where
  "NO_STATS = \<lparr> rs_orders_seen = 0, rs_fills = 0, rs_recovered = 0, rs_already_booked = 0, rs_queued = 0, rs_rejected = 0,
     rs_failed = False \<rparr>"

definition is_settleable_fill :: "broker_order \<Rightarrow> bool" where
  "is_settleable_fill ord \<longleftrightarrow>
     lower (after_last_dot (bo_status ord)) = ''filled'' \<and> present (bo_filled_avg_price ord) \<and> present (bo_filled_qty ord)"

definition recovered_fill :: "'w ext \<Rightarrow> broker_order \<Rightarrow> ('w agent, unit) act" where
  "recovered_fill X ord = log_event X ''settle'' (Some (bo_symbol ord)) ''settled (reconciled)''"

definition count_delivery :: "'w ext \<Rightarrow> broker_order \<Rightarrow> delivery \<Rightarrow> reconcile_stats \<Rightarrow> ('w agent, reconcile_stats) act" where
  "count_delivery X ord d st =
     (case d of
        Delivered c n k \<Rightarrow>
          if c = 201 then bind (recovered_fill X ord) (\<lambda>_. ret (st\<lparr> rs_recovered := rs_recovered st + 1 \<rparr>))
          else ret (st\<lparr> rs_already_booked := rs_already_booked st + 1 \<rparr>)
      | Queued err n k r \<Rightarrow> ret (st\<lparr> rs_queued := rs_queued st + 1 \<rparr>)
      | Rejected_by err n k r \<Rightarrow> ret (st\<lparr> rs_rejected := rs_rejected st + 1 \<rparr>))"

fun reconcile_fills :: "'w ext \<Rightarrow> broker_order list \<Rightarrow> reconcile_stats \<Rightarrow> ('w agent, reconcile_stats) act" where
  "reconcile_fills X [] st = ret st"
| "reconcile_fills X (o1 # os) st =
     bind (send_settlement_receipt X o1) (\<lambda>d. bind (count_delivery X o1 d st) (\<lambda>st1. reconcile_fills X os st1))"

definition reconcile_recent_fills :: "'w ext \<Rightarrow> int \<Rightarrow> ('w agent, reconcile_stats) act" where
  "reconcile_recent_fills X lookback_hours =
     attempt (bind (lift (x_client X)) (\<lambda>_. call (x_closed_orders X lookback_hours)))
       (\<lambda>_. Some (ret (NO_STATS\<lparr> rs_failed := True \<rparr>)))
       (\<lambda>orders.
          let fills = filter is_settleable_fill orders in
          bind (reconcile_fills X fills NO_STATS) (\<lambda>st.
          ret (st\<lparr> rs_orders_seen := int (length orders), rs_fills := int (length fills) \<rparr>)))"

definition RECONCILE_LOOKBACK_HOURS :: int where "RECONCILE_LOOKBACK_HOURS = 24"
definition RECONCILE_INTERVAL_SECONDS :: rat where "RECONCILE_INTERVAL_SECONDS = 3600"
definition RECONCILE_STARTUP_DELAY_SECONDS :: rat where "RECONCILE_STARTUP_DELAY_SECONDS = 15"

fun reconcile_rounds :: "nat \<Rightarrow> 'w ext \<Rightarrow> ('w agent, unit) act" where
  "reconcile_rounds 0 X = ret ()"
| "reconcile_rounds (Suc n) X =
     seq (handle (bind (reconcile_recent_fills X RECONCILE_LOOKBACK_HOURS) (\<lambda>_. ret ())) (\<lambda>_. Some (ret ())))
     (seq (pause X RECONCILE_INTERVAL_SECONDS) (reconcile_rounds n X))"

definition reconcile_loop :: "nat \<Rightarrow> 'w ext \<Rightarrow> ('w agent, unit) act" where
  "reconcile_loop n X = seq (pause X RECONCILE_STARTUP_DELAY_SECONDS) (reconcile_rounds n X)"

end
