(* ===== verification/Control_API.thy ===== *)
theory Control_API imports Scheduler begin

text \<open>
  \<open>main.py\<close>: the endpoints of the trading process. A request of a \<open>/control\<close> endpoint is its raw body and
  its headers; an \<open>HTTPException\<close> is an exception with its status, any other exception is the framework's 500.
  The validation of a body against its pydantic model is an argument (\<open>None\<close> is a \<open>ValidationError\<close>), as is
  the anomaly model behind \<open>/analyze/transaction\<close>. The ASGI application, CORS and the memory figures of
  \<open>/health\<close> are left out.
\<close>

section \<open>Requests\<close>

record request =
  rq_body :: string
  rq_headers :: "(string \<times> string) list"

text \<open>\<open>int(s)\<close>: blanks around it, a sign, digits with single underscores between them.\<close>

fun underscores_ok :: "string \<Rightarrow> bool" where
  "underscores_ok (a # b # cs) \<longleftrightarrow> \<not> (a = CHR ''_'' \<and> b = CHR ''_'') \<and> underscores_ok (b # cs)"
| "underscores_ok _ = True"

definition py_int :: "string \<Rightarrow> int result" where
  "py_int s =
     (case split_sign (strip s) of (neg, ds) \<Rightarrow>
      if ds = [] \<or> hd ds = CHR ''_'' \<or> last ds = CHR ''_'' \<or> \<not> underscores_ok ds
      then Inl (ValueError ''invalid literal for int()'')
      else
        let digits = filter (\<lambda>c. c \<noteq> CHR ''_'') ds in
        if list_all is_digit digits then Inr (signed neg (str_nat digits))
        else Inl (ValueError ''invalid literal for int()''))"

definition CONTROL_REPLAY_WINDOW_SECONDS :: rat where "CONTROL_REPLAY_WINDOW_SECONDS = 300"

text \<open>The headers' lookup ignores case; a request holds each name once, in lower case.\<close>

definition header :: "request \<Rightarrow> string \<Rightarrow> string option" where
  "header rq name = map_of (rq_headers rq) (lower name)"

definition check_signature :: "'w ext \<Rightarrow> request \<Rightarrow> ('w agent, string) act" where
  "check_signature X rq =
     (case x_settings X of
        Inl ConfigError \<Rightarrow> raise (HTTPException 503)
      | Inl e \<Rightarrow> raise e
      | Inr settings \<Rightarrow>
          (case (header rq TIMESTAMP_HEADER, header rq SIGNATURE_HEADER) of
             (Some timestamp, Some signature) \<Rightarrow>
               if timestamp = [] \<or> signature = [] then raise (HTTPException 403)
               else
                 (case py_int timestamp of
                    Inl _ \<Rightarrow> raise (HTTPException 403)
                  | Inr ts \<Rightarrow>
                      bind (outside (x_time X)) (\<lambda>now.
                      if CONTROL_REPLAY_WINDOW_SECONDS < \<bar>now - of_int ts\<bar> then raise (HTTPException 403)
                      else
                        bind (lift (verify_signature (x_hmac X) (rq_body rq) timestamp signature (ws_secret settings))) (\<lambda>ok.
                        if ok then ret (rq_body rq) else raise (HTTPException 403))))
           | _ \<Rightarrow> raise (HTTPException 403)))"

definition verify_control_request :: "'w ext \<Rightarrow> request \<Rightarrow> ('w agent, string) act" where
  "verify_control_request X rq = check_signature X rq"

text \<open>A call whose \<open>ConfigError\<close> is a 503 and any other exception a 502.\<close>

definition gateway :: "('w agent, 'a) act \<Rightarrow> ('w agent, 'a) act" where
  "gateway m =
     handle m (\<lambda>e. Some (raise (HTTPException (if e = ConfigError then 503 else 502))))"

section \<open>Reading\<close>

definition webhook_is_configured :: "'w ext \<Rightarrow> bool" where
  "webhook_is_configured X = (case x_settings X of Inl _ \<Rightarrow> False | Inr _ \<Rightarrow> True)"

record health =
  hl_broker_configured :: bool
  hl_webhook_configured :: bool
  hl_outbox_pending :: int
  hl_places_orders :: bool
  hl_limits :: "(string \<times> string) list"

definition health_of :: "'w ext \<Rightarrow> bool \<Rightarrow> 'w agent \<Rightarrow> health" where
  "health_of X broker_configured s =
     \<lparr> hl_broker_configured = broker_configured, hl_webhook_configured = webhook_is_configured X,
       hl_outbox_pending = pending_count (ag_outbox s), hl_places_orders = (\<not> x_via_router X),
       hl_limits = [(''min_predicted_gain_pct'', dec_str MIN_PREDICTED_GAIN_PCT),
                    (''max_notional_usd'', dec_str MAX_NOTIONAL_USD), (''stop_loss_pct'', dec_str STOP_LOSS_PCT)] \<rparr>"

definition telemetry_of :: "'w agent \<Rightarrow> event list" where
  "telemetry_of s = ag_telemetry s"

definition account_endpoint :: "'w ext \<Rightarrow> ('w agent, account) act" where
  "account_endpoint X = gateway (bind (lift (x_client X)) (\<lambda>_. call (x_account X)))"

definition positions_endpoint ::
  "'w ext \<Rightarrow> ('w \<Rightarrow> 'w \<times> (string \<times> string) list result) \<Rightarrow> ('w agent, (string \<times> string) list) act" where
  "positions_endpoint X all_positions = gateway (bind (lift (x_client X)) (\<lambda>_. call all_positions))"

section \<open>Control\<close>

definition reconcile_endpoint :: "'w ext \<Rightarrow> (string \<Rightarrow> int option) \<Rightarrow> request \<Rightarrow> ('w agent, reconcile_stats) act" where
  "reconcile_endpoint X validate rq =
     bind (verify_control_request X rq) (\<lambda>raw.
     case validate (if raw = [] then ''{}'' else raw) of
       None \<Rightarrow> raise (HTTPException 422)
     | Some hours \<Rightarrow> reconcile_recent_fills X hours)"

record quotes_answer =
  qa_quotes :: "(string \<times> latest_price) list"
  qa_missing :: "string list"

definition latest_quotes ::
  "'w ext \<Rightarrow> (string \<Rightarrow> string list option) \<Rightarrow> (string list \<Rightarrow> 'w \<Rightarrow> 'w \<times> (string \<times> trade) list result) \<Rightarrow> request \<Rightarrow>
   ('w agent, quotes_answer) act" where
  "latest_quotes X validate fetch rq =
     bind (verify_control_request X rq) (\<lambda>raw.
     case validate (if raw = [] then ''{}'' else raw) of
       None \<Rightarrow> raise (HTTPException 422)
     | Some symbols \<Rightarrow>
         let wanted = wanted_symbols symbols in
         bind (gateway
                (if wanted = [] then ret []
                 else
                   bind (lift (x_client X)) (\<lambda>_.
                   bind (call (fetch wanted)) (\<lambda>response.
                   lift (get_latest_prices (Inr ()) (\<lambda>_. Inr response) symbols))))) (\<lambda>prices.
         ret \<lparr> qa_quotes = prices, qa_missing = filter (\<lambda>s. s \<notin> set (keys prices)) wanted \<rparr>))"

record halt_answer =
  ha_halted :: bool
  ha_orders_canceled :: nat
  ha_cancel_failed :: bool

definition halt_endpoint :: "'w ext \<Rightarrow> request \<Rightarrow> ('w agent, halt_answer) act" where
  "halt_endpoint X rq =
     bind (verify_control_request X rq) (\<lambda>_.
     seq (trigger_emergency_halt X)
     (attempt (bind (lift (x_client X)) (\<lambda>_. call (x_cancel_orders X)))
        (\<lambda>_. Some (ret \<lparr> ha_halted = True, ha_orders_canceled = 0, ha_cancel_failed = True \<rparr>))
        (\<lambda>n. ret \<lparr> ha_halted = True, ha_orders_canceled = n, ha_cancel_failed = False \<rparr>)))"

text \<open>The anomaly check: the score of a validated transaction; \<open>None\<close> stands for a missing checkpoint.\<close>

definition analyze_transaction :: "'w ext \<Rightarrow> (string \<Rightarrow> 't option) \<Rightarrow> ('t \<Rightarrow> 'r option) \<Rightarrow> request \<Rightarrow> ('w agent, 'r) act" where
  "analyze_transaction X validate score rq =
     bind (check_signature X rq) (\<lambda>raw.
     case validate raw of
       None \<Rightarrow> raise (HTTPException 400)
     | Some t \<Rightarrow> (case score t of None \<Rightarrow> raise (HTTPException 503) | Some r \<Rightarrow> ret r))"

section \<open>Trading\<close>

definition resolve_ticker_and_headline ::
  "'w ext \<Rightarrow> string option \<Rightarrow> string option \<Rightarrow> ('w agent, string \<times> string) act" where
  "resolve_ticker_and_headline X ticker headline =
     (case ticker of
        None \<Rightarrow> outside (x_scenario X)
      | Some t \<Rightarrow>
          (case headline of
             Some (c # cs) \<Rightarrow> ret (t, c # cs)
           | _ \<Rightarrow> bind (call (x_headline X t)) (\<lambda>h. ret (t, h))))"

definition evaluate_endpoint :: "'w ext \<Rightarrow> string option \<Rightarrow> string option \<Rightarrow> ('w agent, cycle_result) act" where
  "evaluate_endpoint X ticker headline =
     bind (resolve_ticker_and_headline X ticker headline) (\<lambda>(t, h). run_signal_cycle X t h False)"

definition execute_endpoint :: "'w ext \<Rightarrow> string option \<Rightarrow> string option \<Rightarrow> ('w agent, cycle_result) act" where
  "execute_endpoint X ticker headline =
     (if x_via_router X then raise (HTTPException 410)
      else
        bind (resolve_ticker_and_headline X ticker headline) (\<lambda>(t, h).
        gateway (run_signal_cycle X t h True)))"

text \<open>The background tasks the process starts with.\<close>

definition boot_tasks :: "'w ext \<Rightarrow> string list" where
  "boot_tasks X =
     (if x_via_router X then [] else if x_autonomous X then [''trading_loop''] else [])
     @ [''websocket_settlement_stream'', ''replay_loop'', ''reconcile_loop'']"

end
