(* ===== verification/Outbox_Laws.thy ===== *)
theory Outbox_Laws imports Outbox begin

text \<open>
  The outbox loses no receipt: over any enqueues, replay passes and passes cut short by a crash, every receipt
  that was enqueued is pending, dead-lettered, or was acknowledged; and a pass ends with at most one entry per id.
\<close>

section \<open>One entry per id\<close>

definition ids :: "entry list \<Rightarrow> string list" where
  "ids es = map en_id es"

definition dead_ids :: "outbox \<Rightarrow> string list" where
  "dead_ids b = map (\<lambda>d. en_id (dl_entry d)) (ob_dead b)"

lemma ids_simps [simp]: "ids [] = []" "ids (e # es) = en_id e # ids es" "ids (es @ fs) = ids es @ ids fs"
  by (simp_all add: ids_def)

lemma load_save [simp]: "load_pending (save_pending es b) = es"
  by (induction es) (simp_all add: load_pending_def save_pending_def List.map_filter_simps)

lemma ob_dead_save [simp]: "ob_dead (save_pending es b) = ob_dead b"
  by (simp add: save_pending_def)

lemma dead_ids_save [simp]: "dead_ids (save_pending es b) = dead_ids b"
  by (simp add: dead_ids_def)

lemma touch_Some: "touch k err es = Some (es', x) \<Longrightarrow> ids es' = ids es \<and> k \<in> set (ids es)"
  by (induction es arbitrary: es') (auto split: if_splits)

lemma touch_None: "touch k err es = None \<longleftrightarrow> k \<notin> set (ids es)"
  by (induction es) (auto split: if_splits)

lemma enqueue_ids:
  assumes "enqueue kind url r err now b = (b', Inr e)"
  obtains k where "entry_id kind r = Inr k" "set (ids (load_pending b')) = insert k (set (ids (load_pending b)))"
    "distinct (ids (load_pending b)) \<Longrightarrow> distinct (ids (load_pending b'))" "dead_ids b' = dead_ids b"
proof (cases "entry_id kind r")
  case (Inl x)
  then show ?thesis using assms by (simp add: enqueue_def)
next
  case (Inr k)
  show ?thesis
  proof (cases "touch k err (load_pending b)")
    case None
    moreover from None have "k \<notin> set (ids (load_pending b))" by (simp add: touch_None)
    ultimately show ?thesis using assms Inr that [OF Inr] by (auto simp: enqueue_def Let_def)
  next
    case (Some p)
    then obtain es' x where t: "touch k err (load_pending b) = Some (es', x)" by (cases p) auto
    then show ?thesis using assms Inr that [OF Inr] touch_Some [OF t] by (auto simp: enqueue_def Let_def insert_absorb)
  qed
qed

section \<open>A pass\<close>

definition acknowledged :: "'w sender \<Rightarrow> entry \<Rightarrow> bool" where
  "acknowledged send e \<longleftrightarrow> (\<exists>w w' a. send (en_url e) (en_receipt e) w = (w', Inr a) \<and> so_delivered a)"

text \<open>Where the ids of the entries handled so far went.\<close>

definition accounted :: "'w pass \<Rightarrow> string set" where
  "accounted p = set (ids (ps_remaining p)) \<union> set (ids (ps_delivered p)) \<union> set (dead_ids (ps_outbox p))"

lemma replay_entry_accounts:
  fixes p :: "'w pass"
  shows "accounted (replay_entry send show_exn wall now p e) = insert (en_id e) (accounted p)"
proof -
  obtain w r where s: "send (en_url e) (en_receipt e) (ps_world p) = (w, r)" by fastforce
  obtain w2 t2 where w2: "wall w = (w2, t2)" by fastforce
  obtain w3 t3 where w3: "wall (ps_world p) = (w3, t3)" by fastforce
  show ?thesis
    by (auto simp: replay_entry_def s w2 w3 Let_def accounted_def dead_letter_entry_def dead_ids_def)
qed

lemma attempt_delivered: "so_delivered (attempt_of show_exn r) \<Longrightarrow> \<exists>a. r = Inr a \<and> so_delivered a"
  by (cases r) (simp_all add: attempt_of_def)

lemma replay_entry_delivered:
  fixes p :: "'w pass"
  assumes "\<forall>x \<in> set (ps_delivered p). acknowledged send x"
  shows "\<forall>x \<in> set (ps_delivered (replay_entry send show_exn wall now p e)). acknowledged send x"
proof -
  obtain w r where s: "send (en_url e) (en_receipt e) (ps_world p) = (w, r)" by fastforce
  obtain w2 t2 where w2: "wall w = (w2, t2)" by fastforce
  obtain w3 t3 where w3: "wall (ps_world p) = (w3, t3)" by fastforce
  show ?thesis using assms s attempt_delivered [of show_exn r]
    by (auto simp: replay_entry_def w2 w3 Let_def acknowledged_def)
qed

lemma replay_entry_remaining:
  fixes p :: "'w pass"
  shows "ids (ps_remaining (replay_entry send show_exn wall now p e)) \<in> {ids (ps_remaining p), ids (ps_remaining p) @ [en_id e]}"
proof -
  obtain w r where s: "send (en_url e) (en_receipt e) (ps_world p) = (w, r)" by fastforce
  obtain w2 t2 where w2: "wall w = (w2, t2)" by fastforce
  obtain w3 t3 where w3: "wall (ps_world p) = (w3, t3)" by fastforce
  show ?thesis by (simp add: replay_entry_def s w2 w3 Let_def)
qed

lemma replay_entries:
  fixes p :: "'w pass"
  shows "accounted (foldl (replay_entry send show_exn wall now) p es) = accounted p \<union> set (ids es)"
    and "\<forall>x \<in> set (ps_delivered p). acknowledged send x \<Longrightarrow> \<forall>x \<in> set (ps_delivered (foldl (replay_entry send show_exn wall now) p es)). acknowledged send x"
    and "distinct (ids (ps_remaining p) @ ids es) \<Longrightarrow> distinct (ids (ps_remaining (foldl (replay_entry send show_exn wall now) p es)))"
proof -
  show "accounted (foldl (replay_entry send show_exn wall now) p es) = accounted p \<union> set (ids es)"
    by (induction es arbitrary: p) (simp_all add: replay_entry_accounts)
  show "\<forall>x \<in> set (ps_delivered p). acknowledged send x \<Longrightarrow> \<forall>x \<in> set (ps_delivered (foldl (replay_entry send show_exn wall now) p es)). acknowledged send x"
  proof (induction es arbitrary: p)
    case (Cons e es)
    show ?case unfolding foldl.simps by (rule Cons.IH [OF replay_entry_delivered [OF Cons.prems]])
  qed (simp only: foldl.simps)
  show "distinct (ids (ps_remaining p) @ ids es) \<Longrightarrow> distinct (ids (ps_remaining (foldl (replay_entry send show_exn wall now) p es)))"
  proof (induction es arbitrary: p)
    case (Cons e es)
    from replay_entry_remaining [of send show_exn wall now p e] Cons.prems
    have "distinct (ids (ps_remaining (replay_entry send show_exn wall now p e)) @ ids es)" by auto
    then show ?case using Cons.IH by simp
  qed simp
qed

section \<open>Any history of the queue\<close>

text \<open>An enqueue, a pass, or a pass during which the process dies after some entries: then nothing is saved.\<close>

datatype queue_op =
    Enqueue string string receipt string rat
  | Replay rat
  | Killed nat rat

record 'w history =
  hs_world :: 'w
  hs_outbox :: outbox
  hs_delivered :: "entry list"

definition pass_start :: "'w history \<Rightarrow> 'w pass" where
  "pass_start h = \<lparr> ps_world = hs_world h, ps_outbox = hs_outbox h, ps_remaining = [], ps_attempted = 0, ps_delivered = [],
     ps_dead_lettered = 0 \<rparr>"

fun queue_step :: "'w sender \<Rightarrow> (exn \<Rightarrow> string) \<Rightarrow> ('w \<Rightarrow> 'w \<times> rat) \<Rightarrow> 'w history \<Rightarrow> queue_op \<Rightarrow> 'w history" where
  "queue_step send show_exn wall h (Enqueue kind url r err now) =
     h\<lparr> hs_outbox := fst (enqueue kind url r err now (hs_outbox h)) \<rparr>"
| "queue_step send show_exn wall h (Replay now) =
     (let p = replay_pass send show_exn wall now (hs_world h) (hs_outbox h);
          s = fst (replay_pending send show_exn wall now (hs_world h, hs_outbox h))
      in h\<lparr> hs_world := fst s, hs_outbox := snd s, hs_delivered := hs_delivered h @ ps_delivered p \<rparr>)"
| "queue_step send show_exn wall h (Killed n now) =
     (let p = foldl (replay_entry send show_exn wall now) (pass_start h) (take n (load_pending (hs_outbox h)))
      in h\<lparr> hs_world := ps_world p, hs_outbox := ps_outbox p, hs_delivered := hs_delivered h @ ps_delivered p \<rparr>)"

definition run_queue ::
  "'w sender \<Rightarrow> (exn \<Rightarrow> string) \<Rightarrow> ('w \<Rightarrow> 'w \<times> rat) \<Rightarrow> 'w \<Rightarrow> queue_op list \<Rightarrow> 'w history" where
  "run_queue send show_exn wall w ops =
     foldl (queue_step send show_exn wall)
       \<lparr> hs_world = w, hs_outbox = \<lparr> ob_pending = None, ob_dead = [] \<rparr>, hs_delivered = [] \<rparr> ops"

definition queue_ok :: "'w sender \<Rightarrow> string set \<Rightarrow> 'w history \<Rightarrow> bool" where
  "queue_ok send ks h \<longleftrightarrow>
     ks \<subseteq> set (ids (load_pending (hs_outbox h))) \<union> set (dead_ids (hs_outbox h)) \<union> set (ids (hs_delivered h)) \<and>
     distinct (ids (load_pending (hs_outbox h))) \<and> (\<forall>e \<in> set (hs_delivered h). acknowledged send e)"

fun op_ids :: "queue_op \<Rightarrow> string set" where
  "op_ids (Enqueue kind url r err now) = (case entry_id kind r of Inl x \<Rightarrow> {} | Inr k \<Rightarrow> {k})"
| "op_ids _ = {}"

lemma dead_grows_entry:
  fixes p :: "'w pass"
  shows "set (dead_ids (ps_outbox p)) \<subseteq> set (dead_ids (ps_outbox (replay_entry send show_exn wall now p e)))"
  by (auto simp: replay_entry_def Let_def dead_letter_entry_def dead_ids_def split: prod.split)

lemma dead_grows:
  fixes h :: "'w history"
  shows "set (dead_ids (hs_outbox h)) \<subseteq> set (dead_ids (ps_outbox (foldl (replay_entry send show_exn wall now) (pass_start h) es)))"
proof -
  have "set (dead_ids (ps_outbox p)) \<subseteq> set (dead_ids (ps_outbox (foldl (replay_entry send show_exn wall now) p es)))" for p :: "'w pass"
  proof (induction es arbitrary: p)
    case (Cons e es)
    show ?case using Cons [of "replay_entry send show_exn wall now p e"] dead_grows_entry [of p send show_exn wall now e]
      unfolding foldl.simps by (rule order_trans [rotated])
  qed simp
  from this [of "pass_start h"] show ?thesis by (simp add: pass_start_def)
qed

lemma replay_entry_pending: "ob_pending (ps_outbox (replay_entry send show_exn wall now p e)) = ob_pending (ps_outbox p)"
  by (simp add: replay_entry_def Let_def dead_letter_entry_def split: prod.split)

lemma replay_entries_pending:
  "ob_pending (ps_outbox (foldl (replay_entry send show_exn wall now) p es)) = ob_pending (ps_outbox p)"
  by (induction es arbitrary: p) (simp_all add: replay_entry_pending)

lemma load_pending_cong: "ob_pending b = ob_pending c \<Longrightarrow> load_pending b = load_pending c"
  by (simp add: load_pending_def)

lemma queue_ok_step:
  assumes ok: "queue_ok send ks h"
  shows "queue_ok send (ks \<union> op_ids x) (queue_step send show_exn wall h x)"
proof (cases x)
  case (Enqueue kind url r err now)
  obtain b' res where e: "enqueue kind url r err now (hs_outbox h) = (b', res)" by fastforce
  show ?thesis
  proof (cases res)
    case (Inl y)
    then have "b' = hs_outbox h" "op_ids x = {}"
      using e by (auto simp: Enqueue enqueue_def Let_def split: sum.splits option.splits)
    then show ?thesis using ok e by (simp add: Enqueue queue_ok_def)
  next
    case (Inr y)
    then obtain k where "entry_id kind r = Inr k" "set (ids (load_pending b')) = insert k (set (ids (load_pending (hs_outbox h))))"
      "distinct (ids (load_pending (hs_outbox h))) \<Longrightarrow> distinct (ids (load_pending b'))" "dead_ids b' = dead_ids (hs_outbox h)"
      using enqueue_ids e by metis
    then show ?thesis using ok e by (auto simp: Enqueue queue_ok_def)
  qed
next
  case (Replay now)
  define p where "p = replay_pass send show_exn wall now (hs_world h) (hs_outbox h)"
  have p: "p = foldl (replay_entry send show_exn wall now) (pass_start h) (load_pending (hs_outbox h))"
    by (simp add: p_def replay_pass_def pass_start_def)
  have "accounted p = accounted (pass_start h) \<union> set (ids (load_pending (hs_outbox h)))" unfolding p by (rule replay_entries)
  then have a: "set (ids (ps_remaining p)) \<union> set (ids (ps_delivered p)) \<union> set (dead_ids (ps_outbox p)) =
      set (dead_ids (hs_outbox h)) \<union> set (ids (load_pending (hs_outbox h)))"
    by (simp add: accounted_def pass_start_def)
  have d: "\<forall>e \<in> set (ps_delivered p). acknowledged send e"
    unfolding p by (rule replay_entries) (simp add: pass_start_def)
  have "distinct (ids (ps_remaining p))"
    unfolding p by (rule replay_entries) (use ok in \<open>simp add: pass_start_def queue_ok_def\<close>)
  with a d ok show ?thesis
    by (auto simp: Replay queue_ok_def replay_pending_def p_def [symmetric] Let_def)
next
  case (Killed n now)
  define p where "p = foldl (replay_entry send show_exn wall now) (pass_start h) (take n (load_pending (hs_outbox h)))"
  have dead: "set (dead_ids (hs_outbox h)) \<subseteq> set (dead_ids (ps_outbox p))"
    unfolding p_def by (rule dead_grows)
  have l: "load_pending (ps_outbox p) = load_pending (hs_outbox h)"
    by (rule load_pending_cong) (simp add: p_def replay_entries_pending pass_start_def)
  have d: "\<forall>e \<in> set (ps_delivered p). acknowledged send e"
    unfolding p_def by (rule replay_entries) (simp add: pass_start_def)
  show ?thesis using ok dead d
    by (auto simp: Killed queue_ok_def p_def [symmetric] Let_def l)
qed

lemma queue_ok_run: "queue_ok send (\<Union> (op_ids ` set ops)) (run_queue send show_exn wall w ops)"
proof (induction ops rule: rev_induct)
  case Nil
  then show ?case by (simp add: queue_ok_def run_queue_def load_pending_def)
next
  case (snoc x ops)
  have "queue_ok send (\<Union> (op_ids ` set ops) \<union> op_ids x)
      (queue_step send show_exn wall (run_queue send show_exn wall w ops) x)"
    by (rule queue_ok_step [OF snoc])
  then show ?case by (simp add: run_queue_def Un_commute)
qed


end
