(* ===== verification/Agent_Laws.thy ===== *)
theory Agent_Laws imports Control_API Outbox_Laws begin

text \<open>
  What the trading process guarantees: a halt is final and stops every order, whatever runs afterwards; a
  submission needs every gate open; and the two ways a receipt's fate is misreported.

  That a run sends no order is stated as independence: it is the same run whatever submitting an order would do
  (\<open>x_submit\<close> replaced by any other function).
\<close>

section \<open>What does not submit\<close>

named_theorems no_submit

text \<open>\<open>unfolding\<close> rewrites inside the branches of a case distinction too.\<close>

lemma ext_submit:
  "x_settings (X\<lparr> x_submit := f \<rparr>) = x_settings X"
  "x_via_router (X\<lparr> x_submit := f \<rparr>) = x_via_router X"
  "x_autonomous (X\<lparr> x_submit := f \<rparr>) = x_autonomous X"
  "x_hmac (X\<lparr> x_submit := f \<rparr>) = x_hmac X"
  "x_sha256 (X\<lparr> x_submit := f \<rparr>) = x_sha256 X"
  "x_show (X\<lparr> x_submit := f \<rparr>) = x_show X"
  "x_time (X\<lparr> x_submit := f \<rparr>) = x_time X"
  "x_utcnow (X\<lparr> x_submit := f \<rparr>) = x_utcnow X"
  "x_sleep (X\<lparr> x_submit := f \<rparr>) = x_sleep X"
  "x_fresh (X\<lparr> x_submit := f \<rparr>) = x_fresh X"
  "x_randint (X\<lparr> x_submit := f \<rparr>) = x_randint X"
  "x_scenario (X\<lparr> x_submit := f \<rparr>) = x_scenario X"
  "x_post (X\<lparr> x_submit := f \<rparr>) = x_post X"
  "x_client (X\<lparr> x_submit := f \<rparr>) = x_client X"
  "x_account (X\<lparr> x_submit := f \<rparr>) = x_account X"
  "x_cancel_orders (X\<lparr> x_submit := f \<rparr>) = x_cancel_orders X"
  "x_closed_orders (X\<lparr> x_submit := f \<rparr>) = x_closed_orders X"
  "x_quote (X\<lparr> x_submit := f \<rparr>) = x_quote X"
  "x_predict (X\<lparr> x_submit := f \<rparr>) = x_predict X"
  "x_shadow (X\<lparr> x_submit := f \<rparr>) = x_shadow X"
  "x_headline (X\<lparr> x_submit := f \<rparr>) = x_headline X"
  by simp_all

lemma send_once_no_submit [no_submit]: "send_once (X\<lparr> x_submit := f \<rparr>) = send_once X"
  unfolding fun_eq_iff send_once_def ext_submit by (intro allI refl)

lemma pause_no_submit [no_submit]: "pause (X\<lparr> x_submit := f \<rparr>) = pause X"
  unfolding fun_eq_iff pause_def ext_submit by (intro allI refl)

lemma enqueue_now_no_submit [no_submit]: "enqueue_now (X\<lparr> x_submit := f \<rparr>) = enqueue_now X"
  unfolding fun_eq_iff enqueue_now_def ext_submit by (intro allI refl)

lemma deliver_attempts_no_submit [no_submit]:
  "deliver_attempts (X\<lparr> x_submit := f \<rparr>) r url kind ns out = deliver_attempts X r url kind ns out"
proof (induction ns arbitrary: out)
  case Nil
  show ?case unfolding deliver_attempts.simps no_submit ..
next
  case (Cons n ns)
  show ?case unfolding deliver_attempts.simps no_submit Cons ..
qed

lemma deliver_no_submit [no_submit]: "deliver (X\<lparr> x_submit := f \<rparr>) = deliver X"
  unfolding fun_eq_iff deliver_def no_submit by (intro allI refl)

lemma senders_no_submit [no_submit]:
  "send_trade_receipt (X\<lparr> x_submit := f \<rparr>) = send_trade_receipt X"
  "send_settlement_receipt (X\<lparr> x_submit := f \<rparr>) = send_settlement_receipt X"
  "send_scenario_metrics (X\<lparr> x_submit := f \<rparr>) = send_scenario_metrics X"
  unfolding fun_eq_iff send_trade_receipt_def send_settlement_receipt_def send_scenario_metrics_def ext_submit no_submit
  by (intro allI refl)+

lemma log_event_no_submit [no_submit]: "log_event (X\<lparr> x_submit := f \<rparr>) = log_event X"
  unfolding fun_eq_iff log_event_def ext_submit by (intro allI refl)

lemma pnl_no_submit [no_submit]:
  "get_daily_pnl_pct (X\<lparr> x_submit := f \<rparr>) = get_daily_pnl_pct X"
  "fetch_daily_pnl_pct (X\<lparr> x_submit := f \<rparr>) = fetch_daily_pnl_pct X"
  "trading_block_reason (X\<lparr> x_submit := f \<rparr>) = trading_block_reason X"
  unfolding get_daily_pnl_pct_def fetch_daily_pnl_pct_def trading_block_reason_def ext_submit by (rule refl)+

lemma cycle_parts_no_submit [no_submit]:
  "gather_inputs (X\<lparr> x_submit := f \<rparr>) = gather_inputs X"
  "record_result (X\<lparr> x_submit := f \<rparr>) = record_result X"
  "dry_run (X\<lparr> x_submit := f \<rparr>) = dry_run X"
  unfolding fun_eq_iff gather_inputs_def record_result_def dry_run_def ext_submit no_submit by (intro allI refl)+

lemma settle_no_submit [no_submit]:
  "settle_fill (X\<lparr> x_submit := f \<rparr>) = settle_fill X"
  "handle_trade_update (X\<lparr> x_submit := f \<rparr>) = handle_trade_update X"
  unfolding fun_eq_iff handle_trade_update_def settle_fill_def ext_submit no_submit by (intro allI refl)+

lemma count_delivery_no_submit [no_submit]: "count_delivery (X\<lparr> x_submit := f \<rparr>) = count_delivery X"
  unfolding fun_eq_iff count_delivery_def recovered_fill_def no_submit by (intro allI refl)

lemma reconcile_fills_no_submit [no_submit]:
  "reconcile_fills (X\<lparr> x_submit := f \<rparr>) os st = reconcile_fills X os st"
proof (induction os arbitrary: st)
  case Nil
  show ?case unfolding reconcile_fills.simps ..
next
  case (Cons ord os)
  show ?case unfolding reconcile_fills.simps no_submit Cons ..
qed

lemma reconcile_no_submit [no_submit]: "reconcile_recent_fills (X\<lparr> x_submit := f \<rparr>) = reconcile_recent_fills X"
  unfolding fun_eq_iff reconcile_recent_fills_def ext_submit no_submit by (intro allI refl)

lemma control_no_submit [no_submit]:
  "verify_control_request (X\<lparr> x_submit := f \<rparr>) = verify_control_request X"
  "trigger_emergency_halt (X\<lparr> x_submit := f \<rparr>) = trigger_emergency_halt X"
  "resolve_ticker_and_headline (X\<lparr> x_submit := f \<rparr>) = resolve_ticker_and_headline X"
  unfolding fun_eq_iff verify_control_request_def check_signature_def trigger_emergency_halt_def
    resolve_ticker_and_headline_def ext_submit no_submit by (intro allI refl)+

lemma endpoints_no_submit [no_submit]:
  "halt_endpoint (X\<lparr> x_submit := f \<rparr>) = halt_endpoint X"
  "reconcile_endpoint (X\<lparr> x_submit := f \<rparr>) = reconcile_endpoint X"
  unfolding fun_eq_iff halt_endpoint_def reconcile_endpoint_def ext_submit no_submit by (intro allI refl)+

lemma dry_cycle_no_submit [no_submit]:
  "run_signal_cycle (X\<lparr> x_submit := f \<rparr>) t h False = run_signal_cycle X t h False"
  unfolding run_signal_cycle_def unblocked_cycle_def no_submit if_False ..

lemma evaluate_no_submit [no_submit]: "evaluate_endpoint (X\<lparr> x_submit := f \<rparr>) = evaluate_endpoint X"
  unfolding fun_eq_iff evaluate_endpoint_def no_submit by (intro allI refl)

section \<open>A halt is kept\<close>

abbreviation halted :: "'w agent \<Rightarrow> bool" where "halted s \<equiv> ag_halted s"

lemma keeps_outside [keeps_rules]: "(\<And>s w. P s \<Longrightarrow> P (s\<lparr> ag_world := w \<rparr>)) \<Longrightarrow> keeps P (outside f)"
  by (simp add: keeps_def outside_def split: prod.split)

lemma keeps_call [keeps_rules]: "(\<And>s w. P s \<Longrightarrow> P (s\<lparr> ag_world := w \<rparr>)) \<Longrightarrow> keeps P (call f)"
  by (simp add: keeps_def call_def split: prod.split)

named_theorems keeps_halted

lemma halted_pause [keeps_halted]: "keeps halted (pause X t)"
  unfolding pause_def by (rule keeps_rules) simp

lemma halted_enqueue [keeps_halted]: "keeps halted (enqueue_now X kind url r err)"
  by (simp add: keeps_def enqueue_now_def bind_def outside_def split: prod.split)

lemma halted_deliver_attempts [keeps_halted]: "keeps halted (deliver_attempts X r url kind ns out)"
  by (induction ns arbitrary: out) (auto intro!: keeps_rules keeps_halted)

lemma halted_senders [keeps_halted]:
  "keeps halted (deliver X r url kind)" "keeps halted (send_trade_receipt X p sig ord t)"
  "keeps halted (send_settlement_receipt X ord)" "keeps halted (send_scenario_metrics X tk hl m d sm sd)"
  unfolding deliver_def send_trade_receipt_def send_settlement_receipt_def send_scenario_metrics_def Let_def
  by (auto intro!: keeps_rules keeps_halted simp: deliver_def)

lemma halted_log [keeps_halted]: "keeps halted (log_event X a t st)"
  unfolding log_event_def by (auto intro!: keeps_rules keeps_update)

lemma halted_pnl [keeps_halted]: "keeps halted (fetch_daily_pnl_pct X)" "keeps halted (trading_block_reason X)"
  unfolding trading_block_reason_def fetch_daily_pnl_pct_def get_daily_pnl_pct_def
  by (auto intro!: keeps_rules)

lemma halted_gather [keeps_halted]: "keeps halted (gather_inputs X t h)"
  by (simp add: keeps_def gather_inputs_def split: prod.split)

lemma halted_dry [keeps_halted]: "keeps halted (dry_run X sig q)"
  unfolding dry_run_def by (auto intro!: keeps_rules split: sum.split exn.split)

lemma halted_execute [keeps_halted]: "keeps halted (execute_signal X sig q)"
  unfolding execute_signal_def submit_plan_def by (auto intro!: keeps_rules keeps_halted split: sum.split exn.split)

lemma halted_record [keeps_halted]: "keeps halted (record_result X t b r)"
  unfolding record_result_def by (auto intro!: keeps_rules keeps_halted split: cycle_result.split)

lemma halted_cycle [keeps_halted]: "keeps halted (run_signal_cycle X t h b)"
  unfolding run_signal_cycle_def unblocked_cycle_def
  by (auto intro!: keeps_rules keeps_halted split: option.split)

lemma halted_round [keeps_halted]: "keeps halted (trading_round X)"
  unfolding trading_round_def run_one_cycle_def by (auto intro!: keeps_rules keeps_halted)

lemma halted_update [keeps_halted]: "keeps halted (handle_trade_update X e ord)"
  unfolding handle_trade_update_def settle_fill_def mark_synced_def
  by (auto intro!: keeps_rules keeps_halted keeps_update)

lemma halted_reconcile [keeps_halted]: "keeps halted (reconcile_recent_fills X hours)"
proof -
  have "keeps halted (reconcile_fills X os st)" for os st
    by (induction os arbitrary: st)
      (auto intro!: keeps_rules keeps_halted simp: count_delivery_def recovered_fill_def split: delivery.split)
  then show ?thesis unfolding reconcile_recent_fills_def by (auto intro!: keeps_rules simp: Let_def)
qed

lemma halted_check [keeps_halted]: "keeps halted (verify_control_request X rq)"
  unfolding verify_control_request_def check_signature_def
  by (auto intro!: keeps_rules split: sum.split exn.split option.split)

lemma halted_halt [keeps_halted]: "keeps halted (halt_endpoint X rq)"
  unfolding halt_endpoint_def trigger_emergency_halt_def by (auto intro!: keeps_rules keeps_halted keeps_update)

lemma halted_endpoints [keeps_halted]:
  "keeps halted (evaluate_endpoint X t h)" "keeps halted (execute_endpoint X t h)" "keeps halted (reconcile_endpoint X v rq)"
  unfolding evaluate_endpoint_def execute_endpoint_def reconcile_endpoint_def resolve_ticker_and_headline_def gateway_def
  by (auto intro!: keeps_rules keeps_halted split: option.split list.split)

section \<open>Any run of the process\<close>

text \<open>What can happen in the process: a round of its loops, a request, an update of the stream, a replay pass.\<close>

datatype agent_op =
    Trading_round
  | Execute_request "string option" "string option"
  | Evaluate_request "string option" "string option"
  | Halt_request request
  | Reconcile_request request
  | Trade_update string broker_order
  | Reconcile_pass int
  | Replay_pass

definition replay_act :: "'w ext \<Rightarrow> 'w agent \<Rightarrow> 'w agent" where
  "replay_act X s =
     (case x_time X (ag_world s) of (w, now) \<Rightarrow>
      case fst (replay_pending (send_once X) (x_show X) (x_time X) now (w, ag_outbox s)) of (w', b) \<Rightarrow>
      s\<lparr> ag_world := w', ag_outbox := b \<rparr>)"

fun run_op :: "'w ext \<Rightarrow> (string \<Rightarrow> int option) \<Rightarrow> 'w agent \<Rightarrow> agent_op \<Rightarrow> 'w agent" where
  "run_op X v s Trading_round = fst (trading_round X s)"
| "run_op X v s (Execute_request t h) = fst (execute_endpoint X t h s)"
| "run_op X v s (Evaluate_request t h) = fst (evaluate_endpoint X t h s)"
| "run_op X v s (Halt_request rq) = fst (halt_endpoint X rq s)"
| "run_op X v s (Reconcile_request rq) = fst (reconcile_endpoint X v rq s)"
| "run_op X v s (Trade_update e ord) = fst (handle_trade_update X e ord s)"
| "run_op X v s (Reconcile_pass hours) = fst (reconcile_recent_fills X hours s)"
| "run_op X v s Replay_pass = replay_act X s"

definition run_agent :: "'w ext \<Rightarrow> (string \<Rightarrow> int option) \<Rightarrow> agent_op list \<Rightarrow> 'w agent \<Rightarrow> 'w agent" where
  "run_agent X v ops s = foldl (run_op X v) s ops"

lemma halted_keeps_fst: "keeps halted m \<Longrightarrow> ag_halted s \<Longrightarrow> ag_halted (fst (m s))"
  by (simp add: keeps_def)

lemma halted_fst:
  assumes "ag_halted s"
  shows "ag_halted (fst (trading_round X s))" "ag_halted (fst (execute_endpoint X t h s))"
    "ag_halted (fst (evaluate_endpoint X t h s))" "ag_halted (fst (halt_endpoint X rq s))"
    "ag_halted (fst (reconcile_endpoint X v rq s))" "ag_halted (fst (handle_trade_update X e ord s))"
    "ag_halted (fst (reconcile_recent_fills X hours s))"
  by (rule halted_keeps_fst [OF _ assms], rule keeps_halted)+

lemma run_op_halted: "ag_halted s \<Longrightarrow> ag_halted (run_op X v s x)"
  by (cases x) (simp_all add: halted_fst replay_act_def split: prod.split)

lemma blocked_when_halted:
  assumes "ag_halted s"
  obtains c where "trading_block_reason X s = (s, Inr (Some c))"
  using assms by (cases "x_via_router X") (auto simp: trading_block_reason_def)

lemma halted_cycle_no_submit:
  assumes "ag_halted s"
  shows "run_signal_cycle (X\<lparr> x_submit := f \<rparr>) t h True s = run_signal_cycle X t h True s"
proof -
  obtain c where c: "trading_block_reason X s = (s, Inr (Some c))" using blocked_when_halted [OF assms] .
  show ?thesis by (simp add: run_signal_cycle_def no_submit bind_Inr [where m = "trading_block_reason X", OF c])
qed

lemma halted_round_no_submit: "ag_halted s \<Longrightarrow> trading_round (X\<lparr> x_submit := f \<rparr>) s = trading_round X s"
  by (simp add: trading_round_def no_submit)

lemma halted_execute_no_submit:
  assumes "ag_halted s"
  shows "execute_endpoint (X\<lparr> x_submit := f \<rparr>) t h s = execute_endpoint X t h s"
proof (cases "x_via_router X")
  case True
  then show ?thesis by (simp add: execute_endpoint_def)
next
  case False
  obtain s1 r where r: "resolve_ticker_and_headline X t h s = (s1, r)" by fastforce
  have "keeps halted (resolve_ticker_and_headline X t h)"
    unfolding resolve_ticker_and_headline_def by (auto intro!: keeps_rules split: option.split list.split)
  then have h1: "ag_halted s1" using assms r by (auto dest: keepsD)
  show ?thesis
  proof (cases r)
    case (Inl e)
    then show ?thesis using False r by (simp add: execute_endpoint_def no_submit bind_Inl)
  next
    case (Inr th)
    then show ?thesis using False r halted_cycle_no_submit [OF h1]
      by (cases th) (simp add: execute_endpoint_def no_submit bind_Inr gateway_def handle_def)
  qed
qed

lemma run_op_no_submit: "ag_halted s \<Longrightarrow> run_op (X\<lparr> x_submit := f \<rparr>) v s x = run_op X v s x"
  by (cases x) (simp_all add: no_submit halted_round_no_submit halted_execute_no_submit replay_act_def)

lemma run_agent_halted:
  "ag_halted s \<Longrightarrow> ag_halted (run_agent X v ops s) \<and> run_agent (X\<lparr> x_submit := f \<rparr>) v ops s = run_agent X v ops s"
proof (induction ops rule: rev_induct)
  case (snoc x ops)
  then show ?case by (simp add: run_agent_def run_op_halted run_op_no_submit)
qed (simp add: run_agent_def)

section \<open>Who can halt\<close>

text \<open>The request carries the HMAC of its body under the shared secret, with a timestamp at most 300 seconds off.\<close>

definition signed_now :: "'w ext \<Rightarrow> request \<Rightarrow> rat \<Rightarrow> bool" where
  "signed_now X rq now \<longleftrightarrow>
     (case (x_settings X, header rq TIMESTAMP_HEADER, header rq SIGNATURE_HEADER) of
        (Inr settings, Some timestamp, Some signature) \<Rightarrow>
          (case py_int timestamp of
             Inr ts \<Rightarrow> \<bar>now - of_int ts\<bar> \<le> CONTROL_REPLAY_WINDOW_SECONDS \<and>
               removeprefix SIGNATURE_PREFIX signature = sign (x_hmac X) (rq_body rq) timestamp (ws_secret settings)
           | Inl _ \<Rightarrow> False)
      | _ \<Rightarrow> False)"

lemma check_signature_Inr:
  assumes "check_signature X rq s = (s', Inr body)"
  shows "signed_now X rq (snd (x_time X (ag_world s))) \<and> body = rq_body rq"
  using assms
  by (auto simp: check_signature_def signed_now_def bind_def outside_def verify_signature_def Let_def
      split: sum.splits exn.splits option.splits prod.splits if_splits)

lemma check_signature_state:
  assumes "check_signature X rq s = (s', r)"
  shows "ag_halted s' = ag_halted s"
  using assms
  by (auto simp: check_signature_def bind_def outside_def split: sum.splits exn.splits option.splits prod.splits if_splits)

lemma halt_endpoint_cases:
  assumes "halt_endpoint X rq s = (s', r)"
  shows "(\<exists>a. r = Inr a) \<and> signed_now X rq (snd (x_time X (ag_world s))) \<and> ag_halted s' \<or>
    (\<exists>e. r = Inl e) \<and> ag_halted s' = ag_halted s"
proof -
  obtain s1 v where v: "check_signature X rq s = (s1, v)" by fastforce
  show ?thesis
  proof (cases v)
    case (Inl e)
    then show ?thesis using assms v check_signature_state [OF v]
      by (auto simp: halt_endpoint_def verify_control_request_def bind_Inl)
  next
    case (Inr body)
    obtain s2 u where u: "trigger_emergency_halt X s1 = (s2, u)" "ag_halted s2" "u = Inr ()"
      by (cases "x_utcnow X (ag_world s1)") (simp add: trigger_emergency_halt_def log_event_def bind_def outside_def)
    define rest where "rest = attempt (bind (lift (x_client X)) (\<lambda>_. call (x_cancel_orders X)))
        (\<lambda>_. Some (ret \<lparr> ha_halted = True, ha_orders_canceled = 0, ha_cancel_failed = True \<rparr>))
        (\<lambda>n. ret \<lparr> ha_halted = True, ha_orders_canceled = n, ha_cancel_failed = False \<rparr>)"
    have "halt_endpoint X rq s = rest s2"
      using v Inr u by (simp add: halt_endpoint_def verify_control_request_def bind_Inr seq_Inr rest_def)
    then have r: "rest s2 = (s', r)" using assms by simp
    have "keeps halted rest" unfolding rest_def by (auto intro!: keeps_rules)
    from keepsD [OF this u(2) r] have "ag_halted s'" .
    moreover have "\<exists>a. r = Inr a"
      using r by (auto simp: rest_def attempt_def split: prod.splits sum.splits)
    moreover have "signed_now X rq (snd (x_time X (ag_world s)))" using check_signature_Inr v Inr by blast
    ultimately show ?thesis by blast
  qed
qed


text \<open>A process with one clock, one model verdict and a broker that accepts everything.\<close>

definition demo_order :: broker_order where
  "demo_order = \<lparr> bo_id = ''o1'', bo_client_order_id = ''c1'', bo_status = ''OrderStatus.ACCEPTED'', bo_symbol = ''TSLA'',
     bo_side = ''OrderSide.BUY'', bo_filled_avg_price = None, bo_filled_qty = None, bo_filled_at = None,
     bo_updated_at = ''2026-10-01T14:30:00+00:00'' \<rparr>"

definition demo_quote :: market_quote where
  "demo_quote = \<lparr> mq_ticker = ''TSLA'', mq_bid = Dec 24880 (-2), mq_ask = Dec 24890 (-2),
     mq_as_of = ''2026-10-01T14:30:00+00:00'', mq_atr = None \<rparr>"

definition demo_signal :: inference_signal where
  "demo_signal = \<lparr> is_ticker = ''TSLA'', is_headline = ''TSLA soars'', is_predicted_move_pct = Fin ''14.8'',
     is_confidence = Fin ''0.9'', is_model_name = ''demo'' \<rparr>"

definition demo_ext :: "webhook_settings result \<Rightarrow> unit ext" where
  "demo_ext settings =
     \<lparr> x_settings = settings, x_via_router = False, x_autonomous = True, x_hmac = (\<lambda>k m. ''ab''), x_sha256 = (\<lambda>m. ''cd''),
       x_show = (\<lambda>e. ''error''), x_time = (\<lambda>w. (w, 1000)), x_utcnow = (\<lambda>w. (w, ''2026-10-01T14:30:00+00:00'')),
       x_sleep = (\<lambda>t w. w), x_fresh = (\<lambda>w. (w, ''f'')), x_randint = (\<lambda>a b w. (w, a)), x_scenario = (\<lambda>w. (w, (''TSLA'', ''TSLA soars''))),
       x_post = (\<lambda>u b h w. (w, Answer 429 [])), x_client = Inr (), x_account = (\<lambda>w. (w, Inl TransportError)),
       x_submit = (\<lambda>r w. (w, Inr demo_order)), x_cancel_orders = (\<lambda>w. (w, Inr 0)), x_closed_orders = (\<lambda>h w. (w, Inr [])),
       x_quote = (\<lambda>t w. (w, Inr demo_quote)), x_predict = (\<lambda>t h w. (w, Inr demo_signal)),
       x_shadow = (\<lambda>t h w. (w, Inr \<lparr> sh_predicted_move_pct = Fin ''7.1'', sh_decision = ''would_execute'' \<rparr>)),
       x_headline = (\<lambda>t w. (w, Inr ''TSLA soars'')) \<rparr>"

definition demo_settings :: webhook_settings where
  "demo_settings = \<lparr> ws_secret = ''0123456789abcdef0123456789abcdef'', ws_url = ''u'', ws_metrics_url = ''m'', ws_usd_ils_rate = Dec 37 (-1) \<rparr>"

definition demo_agent :: "unit agent" where
  "demo_agent = \<lparr> ag_world = (), ag_halted = False, ag_telemetry = [], ag_synced = [], ag_outbox = \<lparr> ob_pending = None, ob_dead = [] \<rparr> \<rparr>"

definition demo_request :: request where
  "demo_request = \<lparr> rq_body = ''{}'', rq_headers = [(''x-signature-timestamp'', ''900''), (''x-signature-256'', ''sha256=ab'')] \<rparr>"


section \<open>Submitted orders and their receipts\<close>

text \<open>
  C24. When the receipt settings are missing, an accepted signal's order is submitted all the same, and then the
  signal fails: no receipt is sent, none is queued, and the caller is told that it failed.
\<close>

theorem order_without_receipt:
  assumes "x_settings X = Inl ConfigError" "x_client X = Inr ()"
    and "x_fresh X (ag_world s) = (w1, fresh)" "validate_and_plan sig q fresh = Inr p"
    and "x_submit X (build_order_request p) w1 = (w2, Inr ord)"
  shows "\<exists>s'. execute_signal X sig q s = (s', Inl ConfigError) \<and> ag_world s' = fst (x_utcnow X w2) \<and>
    ag_outbox s' = ag_outbox s"
proof -
  obtain w3 t where "x_utcnow X w2 = (w3, t)" by fastforce
  then show ?thesis using assms
    by (simp add: execute_signal_def submit_plan_def send_trade_receipt_def bind_def outside_def call_def)
qed

theorem order_without_receipt_witness:
  "\<exists>s'. execute_signal (demo_ext (Inl ConfigError)) demo_signal demo_quote demo_agent = (s', Inl ConfigError) \<and>
    ag_world s' = () \<and> ag_outbox s' = ag_outbox demo_agent"
proof -
  obtain p where "validate_and_plan demo_signal demo_quote ''f'' = Inr p"
  proof -
    have "(case validate_and_plan demo_signal demo_quote ''f'' of Inl _ \<Rightarrow> False | Inr _ \<Rightarrow> True) = True" by code_simp
    then show thesis using that by (auto split: sum.splits)
  qed
  then show ?thesis
    using order_without_receipt [of "demo_ext (Inl ConfigError)" demo_agent "()" "''f''" demo_signal demo_quote p "()" demo_order]
    by (simp add: demo_ext_def)
qed

section \<open>A settlement the dashboard throttles\<close>

definition throttled :: "'w ext \<Rightarrow> bool" where
  "throttled X \<longleftrightarrow> (\<forall>u b h w. \<exists>w' body. x_post X u b h w = (w', Answer 429 body))"

lemma throttled_send:
  assumes "throttled X" "x_settings X = Inr st" "text_field ''idempotency_key'' r = Inr k"
  obtains w' a where "send_once X url r w = (w', Inr a)" "\<not> so_delivered a" "\<not> so_permanent a" "startswith (so_error a) ''HTTP 4''"
proof -
  obtain w1 t where t: "x_time X w = (w1, t)" by fastforce
  define h where "h = [(''Content-Type'', ''application/json''), (TIMESTAMP_HEADER, seconds_text t),
      (SIGNATURE_HEADER, SIGNATURE_PREFIX @ sign (x_hmac X) (canonical_json r) (seconds_text t) (ws_secret st)),
      (IDEMPOTENCY_HEADER, k), (''User-Agent'', ''tier0-paper-trader/1.0'')]"
  obtain w2 body where p: "x_post X url (canonical_json r) h w1 = (w2, Answer 429 body)"
    using assms(1) unfolding throttled_def by blast
  have j: "json_text (JInt 429) = ''429''" by code_simp
  have "send_once X url r w = (w2, outcome_of (Answer 429 body))"
    using assms(2,3) t p by (simp add: send_once_def Let_def h_def)
  then show thesis by (intro that) (auto simp: outcome_of_def j startswith_def simp del: json_text.simps)
qed

lemma settlement_key:
  "build_settlement_receipt rate ord = Inr r \<Longrightarrow>
   text_field ''idempotency_key'' r = Inr (bo_client_order_id ord) \<and> text_field ''status'' r = Inr ''settled''"
  unfolding build_settlement_receipt_def Let_def
  by (elim ebindE) (auto simp: text_field_def)

lemma call_eq: "f (ag_world s) = (w, r) \<Longrightarrow> call f s = (s\<lparr> ag_world := w \<rparr>, r)"
  by (simp add: call_def)

lemma enqueue_now_queued:
  assumes "entry_id kind r = Inr k"
  obtains s' e where "enqueue_now X kind url r err s = (s', Inr e)" "k \<in> set (ids (load_pending (ag_outbox s')))"
    "ag_telemetry s' = ag_telemetry s"
proof -
  obtain w now where t: "x_time X (ag_world s) = (w, now)" by fastforce
  obtain b res where e: "enqueue kind url r err now (ag_outbox s) = (b, res)" by fastforce
  then obtain x where x: "res = Inr x" using assms by (auto simp: enqueue_def Let_def split: option.splits prod.splits)
  have "k \<in> set (ids (load_pending b))"
    using enqueue_ids [OF e [unfolded x]] assms by (metis insertCI sum.inject(2))
  then show thesis using that t e x by (auto simp: enqueue_now_def bind_def outside_def)
qed

lemma throttled_delivery:
  assumes "throttled X" "x_settings X = Inr st" "text_field ''idempotency_key'' r = Inr k" "text_field ''status'' r = Inr status"
  shows "startswith (so_error a) ''HTTP 4'' \<or> ns \<noteq> [] \<Longrightarrow>
    \<exists>s' err. deliver_attempts X r url kind ns a s = (s', Inr (Queued err MAX_ATTEMPTS k r)) \<and> startswith err ''HTTP 4'' \<and>
      kind @ '':'' @ k \<in> set (ids (load_pending (ag_outbox s'))) \<and> ag_telemetry s' = ag_telemetry s"
proof (induction ns arbitrary: a s)
  case Nil
  obtain s' e where e: "enqueue_now X kind url r (so_error a) s = (s', Inr e)"
    "kind @ '':'' @ k \<in> set (ids (load_pending (ag_outbox s')))" "ag_telemetry s' = ag_telemetry s"
    by (rule enqueue_now_queued [of kind r "kind @ '':'' @ k" X url "so_error a" s]) (use assms in \<open>auto simp: entry_id_def emap_def\<close>)
  with Nil assms show ?case by (simp add: bind_def)
next
  case (Cons n ns)
  obtain w' o1 where o1: "send_once X url r (ag_world s) = (w', Inr o1)" "\<not> so_delivered o1" "\<not> so_permanent o1"
    "startswith (so_error o1) ''HTTP 4''"
    using throttled_send [OF assms(1-3)] by blast
  define s1 where "s1 = s\<lparr> ag_world := w' \<rparr>"
  define s2 where "s2 = (if n < MAX_ATTEMPTS then s1\<lparr> ag_world := x_sleep X (DELIVER_BACKOFF_SECONDS * 2 ^ nat (n - 1)) w' \<rparr> else s1)"
  have "deliver_attempts X r url kind (n # ns) a s = deliver_attempts X r url kind ns o1 s2"
    using o1 by (simp add: bind_def call_eq s1_def s2_def pause_def outside_def)
  moreover have "ag_telemetry s2 = ag_telemetry s" by (simp add: s2_def s1_def)
  ultimately show ?case using Cons.IH [of o1 s2] o1(4) by simp
qed

text \<open>
  C25. While the dashboard answers 429 to every POST, the settlement of a fill is queued for replay, and yet the event
  recorded for it has the status of a settlement rejected for good.
\<close>

theorem settlement_429_misreported:
  assumes "throttled X" "x_settings X = Inr st" "build_settlement_receipt (ws_usd_ils_rate st) ord = Inr r"
  shows "\<exists>s'. settle_fill X ord s = (s', Inr ()) \<and> ev_status (last (ag_telemetry s')) = ''error'' \<and>
    ''settlement:'' @ bo_client_order_id ord \<in> set (ids (load_pending (ag_outbox s')))"
proof -
  obtain s1 err where d: "deliver X r (ws_url st) ''settlement'' s =
      (s1, Inr (Queued err MAX_ATTEMPTS (bo_client_order_id ord) r))" "startswith err ''HTTP 4''"
    "''settlement'' @ '':'' @ bo_client_order_id ord \<in> set (ids (load_pending (ag_outbox s1)))"
    using throttled_delivery [OF assms(1,2), of r "bo_client_order_id ord" "''settled''" _ "[1..MAX_ATTEMPTS]" "ws_url st" "''settlement''" s]
      settlement_key [OF assms(3)] unfolding deliver_def by (force simp: MAX_ATTEMPTS_def)
  obtain w t where u: "x_utcnow X (ag_world s1) = (w, t)" by fastforce
  show ?thesis using d u assms
    by (simp add: settle_fill_def send_settlement_receipt_def bind_def seq_def mark_synced_def log_event_def outside_def
        append_bounded_def last_items_def)
qed

definition demo_fill :: broker_order where
  "demo_fill = demo_order\<lparr> bo_filled_avg_price := Some ''249.10'', bo_filled_qty := Some ''0.04'' \<rparr>"

theorem settlement_429_misreported_witness:
  "\<exists>s'. settle_fill (demo_ext (Inr demo_settings)) demo_fill demo_agent = (s', Inr ()) \<and>
    ev_status (last (ag_telemetry s')) = ''error'' \<and> ''settlement:c1'' \<in> set (ids (load_pending (ag_outbox s')))"
proof -
  have "(case build_settlement_receipt (Dec 37 (-1)) demo_fill of Inl _ \<Rightarrow> False | Inr _ \<Rightarrow> True) = True" by code_simp
  then obtain r where "build_settlement_receipt (Dec 37 (-1)) demo_fill = Inr r" by (auto split: sum.splits)
  then show ?thesis
    using settlement_429_misreported [of "demo_ext (Inr demo_settings)" demo_settings demo_fill r demo_agent]
    by (simp add: demo_ext_def throttled_def demo_settings_def demo_fill_def demo_order_def)
qed

end
