(* ===== verification/Core_Sync.thy ===== *)
theory Core_Sync imports Market_Feed begin

text \<open>
  \<open>risk_router/core_sync.py\<close>: the mirror of the core's journal to the owner's website (PFW). The journal file is
  read as a hash chain; a cursor says how many of its entries the website has acknowledged; a pass posts what
  follows the cursor in batches and then, when it is due, a report of the router's status and account.

  The world \<open>'w\<close> holds the journal file, the website and Alpaca; the functions of \<open>sync_env\<close> read and change
  it. Instants are seconds since 1970. \<open>json.loads\<close>, \<open>urlparse\<close>, SHA-256 and HMAC are arguments. The website gets
  the body as text and as the value it parses to. The loop \<open>run_forever\<close> is modelled for a number of rounds.
\<close>

section \<open>Settings\<close>

definition SCHEMA_VERSION :: int where "SCHEMA_VERSION = 1"
definition BATCH_SIZE :: nat where "BATCH_SIZE = 50"
definition MAX_BATCHES_PER_PASS :: nat where "MAX_BATCHES_PER_PASS = 20"
definition SYNC_TICK_SECONDS :: rat where "SYNC_TICK_SECONDS = 30"
definition REPORT_INTERVAL_SECONDS :: rat where "REPORT_INTERVAL_SECONDS = 300"
definition ACCOUNT_INTERVAL_SECONDS :: rat where "ACCOUNT_INTERVAL_SECONDS = 3600"
definition SYNC_BACKOFF_MAX_SECONDS :: rat where "SYNC_BACKOFF_MAX_SECONDS = 600"
definition PERMANENT_RETRY_SECONDS :: rat where "PERMANENT_RETRY_SECONDS = 600"
definition STUCK_AFTER_SECONDS :: rat where "STUCK_AFTER_SECONDS = 1800"
definition MAX_TEXT :: nat where "MAX_TEXT = 500"
definition MAX_ATTENTION :: nat where "MAX_ATTENTION = 20"
definition PLAN_CLOSING_EVENTS :: "string list" where
  "PLAN_CLOSING_EVENTS = [''plan_done'', ''plan_abandoned'', ''plan_expired'', ''plan_deferred'', ''plan_halted'']"
definition LOCAL_HOSTS :: "string list" where "LOCAL_HOSTS = [''localhost'', ''127.0.0.1'', ''::1'']"

record parsed_url =
  pu_scheme :: string
  pu_netloc :: string
  pu_hostname :: "string option"
  pu_port :: "int option"
  pu_path :: string

record sync_settings =
  st_url :: string
  st_secret :: string

definition settings_from_env ::
  "(string \<Rightarrow> parsed_url) \<Rightarrow> (string \<Rightarrow> string option) \<Rightarrow> sync_settings option result" where
  "settings_from_env urlparse env =
     (let url = strip (case env ''CORE_PFW_SYNC_URL'' of None \<Rightarrow> [] | Some u \<Rightarrow> u) in
      if url = [] then Inr None
      else
        let parsed = urlparse url in
        if pu_scheme parsed \<notin> {''http'', ''https''} \<or> pu_netloc parsed = [] then Inl ConfigError
        else if pu_scheme parsed = ''http''
          \<and> \<not> (case pu_hostname parsed of None \<Rightarrow> False | Some h \<Rightarrow> h \<in> set LOCAL_HOSTS) then Inl ConfigError
        else
          let secret = strip (case env ''WEBHOOK_SECRET'' of None \<Rightarrow> [] | Some x \<Rightarrow> x) in
          if length secret < 32 then Inl ConfigError
          else Inr (Some \<lparr> st_url = url, st_secret = secret \<rparr>))"

definition display_url :: "(string \<Rightarrow> parsed_url) \<Rightarrow> sync_settings \<Rightarrow> string" where
  "display_url urlparse st =
     (let parsed = urlparse (st_url st);
          host = (case pu_hostname parsed of None \<Rightarrow> [] | Some h \<Rightarrow> h);
          port = (case pu_port parsed of None \<Rightarrow> [] | Some p \<Rightarrow> if p = 0 then [] else '':'' @ json_text (JInt p))
      in pu_scheme parsed @ ''://'' @ host @ port @ pu_path parsed)"

section \<open>Reading the journal\<close>

record journal_entry =
  je_index :: nat
  je_hash :: string
  je_prev :: string
  je_raw :: string

record journal_read =
  jd_entries :: "journal_entry list"
  jd_problem :: "string option"

text \<open>What \<open>read_text\<close> does: no file, an \<open>OSError\<close>, bytes that are not UTF-8 (a \<open>ValueError\<close>), or the text.\<close>

datatype text_file = Missing | Unreadable_file string | Undecodable | Text string

fun split_lines :: "string \<Rightarrow> string list" where
  "split_lines [] = [[]]"
| "split_lines (c # cs) =
     (if c = char_of (10::nat) then [] # split_lines cs
      else case split_lines cs of [] \<Rightarrow> [[c]] | l # ls \<Rightarrow> (c # l) # ls)"

text \<open>
  The loop over the lines from the entry with index \<open>n\<close> on. \<open>prev_of\<close> is \<open>json.loads(raw)["prev"]\<close>: None when that
  raises, Some None when it is not a text.
\<close>

fun read_entries ::
  "(string \<Rightarrow> string) \<Rightarrow> (string \<Rightarrow> string option option) \<Rightarrow> nat \<Rightarrow> string \<Rightarrow> string list \<Rightarrow> journal_entry list \<times> string option" where
  "read_entries sha256 prev_of n head [] = ([], None)"
| "read_entries sha256 prev_of n head (raw # raws) =
     (if strip raw = [] then read_entries sha256 prev_of n head raws
      else case prev_of raw of
        None \<Rightarrow> ([], Some (''entry '' @ json_text (JInt (int n)) @ '' is not a journal entry''))
      | Some p \<Rightarrow>
          if p \<noteq> Some head then ([], Some (''entry '' @ json_text (JInt (int n)) @ '': the hash chain is broken''))
          else
            let h = sha256 raw in
            (case read_entries sha256 prev_of (Suc n) h raws of (es, problem) \<Rightarrow>
              (\<lparr> je_index = n, je_hash = h, je_prev = head, je_raw = raw \<rparr> # es, problem)))"

definition read_journal ::
  "(string \<Rightarrow> string) \<Rightarrow> (string \<Rightarrow> string option option) \<Rightarrow> text_file \<Rightarrow> journal_read result" where
  "read_journal sha256 prev_of f =
     (case f of
        Missing \<Rightarrow> Inr \<lparr> jd_entries = [], jd_problem = None \<rparr>
      | Unreadable_file e \<Rightarrow> Inr \<lparr> jd_entries = [], jd_problem = Some (''the journal could not be read: '' @ e) \<rparr>
      | Undecodable \<Rightarrow> Inl (ValueError ''utf-8'')
      | Text t \<Rightarrow>
          (case read_entries sha256 prev_of 0 [] (butlast (split_lines t)) of (es, problem) \<Rightarrow>
            Inr \<lparr> jd_entries = es, jd_problem = problem \<rparr>))"

section \<open>The cursor\<close>

record cursor =
  cu_chain :: "string option"
  cu_next :: nat

text \<open>The cursor file as \<open>json.loads\<close> gives it; \<open>Bad_File\<close> is one that cannot be read or parsed.\<close>

datatype cursor_file = No_Cursor_File | Bad_File | Cursor_File json

definition start_cursor :: cursor where
  "start_cursor = \<lparr> cu_chain = None, cu_next = 0 \<rparr>"

definition load_cursor :: "cursor_file \<Rightarrow> cursor" where
  "load_cursor f =
     (case f of
        Cursor_File (JObj raw) \<Rightarrow>
          (case (map_of raw ''chain_id'', map_of raw ''next_index'') of
             (Some JNull, Some (JInt n)) \<Rightarrow> if 0 \<le> n then \<lparr> cu_chain = None, cu_next = nat n \<rparr> else start_cursor
           | (Some (JStr c), Some (JInt n)) \<Rightarrow> if 0 \<le> n then \<lparr> cu_chain = Some c, cu_next = nat n \<rparr> else start_cursor
           | _ \<Rightarrow> start_cursor)
      | _ \<Rightarrow> start_cursor)"

definition cursor_json :: "cursor \<Rightarrow> json" where
  "cursor_json c =
     JObj [(''chain_id'', case cu_chain c of None \<Rightarrow> JNull | Some x \<Rightarrow> JStr x), (''next_index'', JInt (int (cu_next c)))]"

lemma load_cursor_json: "load_cursor (Cursor_File (cursor_json c)) = c"
  by (cases c) (auto simp: load_cursor_def cursor_json_def split: option.splits)

section \<open>The account and the status on the wire\<close>

text \<open>\<open>Decimal(str(value))\<close> of a value that is no number, or no finite one, gives None in both functions.\<close>

definition cents :: "string option \<Rightarrow> int option result" where
  "cents v =
     (case v of
        None \<Rightarrow> Inr None
      | Some t \<Rightarrow>
          if t = [] then Inr None
          else case dec_parse t of
            Inl _ \<Rightarrow> Inr None
          | Inr amount \<Rightarrow> emap (\<lambda>q. Some (coef q)) (quantize (amount * Dec 100 0) (Dec 1 0) ROUND_HALF_UP))"

definition quantity :: "string option \<Rightarrow> string option result" where
  "quantity v =
     (case dec_parse (case v of None \<Rightarrow> ''None'' | Some t \<Rightarrow> t) of
        Inl _ \<Rightarrow> Inr None
      | Inr amount \<Rightarrow> emap (\<lambda>q. Some (dec_plain (normalize q))) (quantize amount (Dec 1 (-9)) ROUND_HALF_EVEN))"

definition clip :: "string option \<Rightarrow> string option" where
  "clip v = map_option (take MAX_TEXT) v"

text \<open>The fields of Alpaca's account and positions the mirror reads; None is absent or null.\<close>

record account_view =
  av_equity :: "string option"
  av_cash :: "string option"
  av_last_equity :: "string option"

record position_view =
  pv_symbol :: string
  pv_qty :: "string option"
  pv_market_value :: "string option"
  pv_avg_entry_price :: "string option"
  pv_current_price :: "string option"

definition text_json :: "string option \<Rightarrow> json" where
  "text_json v = (case v of None \<Rightarrow> JNull | Some t \<Rightarrow> JStr t)"

definition cents_json :: "int option \<Rightarrow> json" where
  "cents_json v = (case v of None \<Rightarrow> JNull | Some i \<Rightarrow> JInt i)"

definition account_row :: "position_view \<Rightarrow> json option result" where
  "account_row p =
     (let symbol = strip (pv_symbol p) in
      ebind (quantity (pv_qty p)) (\<lambda>qty.
      case qty of
        None \<Rightarrow> Inr None
      | Some q \<Rightarrow>
          if symbol = [] then Inr None
          else
            ebind (cents (pv_market_value p)) (\<lambda>m.
            ebind (cents (pv_avg_entry_price p)) (\<lambda>a.
            ebind (cents (pv_current_price p)) (\<lambda>c.
            Inr (Some (JObj [(''symbol'', JStr symbol), (''qty'', JStr q), (''market_value_usd_cents'', cents_json m),
              (''avg_entry_price_usd_cents'', cents_json a), (''current_price_usd_cents'', cents_json c)])))))))"

definition account_json ::
  "string \<Rightarrow> (string \<times> decimal) list \<Rightarrow> account_view \<Rightarrow> position_view list \<Rightarrow> json option result" where
  "account_json taken_at mix a ps =
     ebind (cents (av_equity a)) (\<lambda>equity.
     ebind (cents (av_cash a)) (\<lambda>cash.
     case (equity, cash) of
       (Some e, Some c) \<Rightarrow>
         ebind (etraverse account_row ps) (\<lambda>rows.
         ebind (cents (av_last_equity a)) (\<lambda>l.
         Inr (Some (JObj [(''taken_at'', JStr taken_at), (''equity_usd_cents'', JInt e), (''cash_usd_cents'', JInt c),
           (''last_equity_usd_cents'', cents_json l), (''positions'', JArr (List.map_filter id rows)),
           (''targets'', JObj (map (\<lambda>(s, w). (s, JStr (dec_plain w))) mix))]))))
     | _ \<Rightarrow> Inr None))"

text \<open>What \<open>health_payload\<close> gives, in the parts the mirror reads.\<close>

record plan_brief =
  pb_id :: string
  pb_kind :: string
  pb_status :: string
  pb_execute_on :: string

record journal_brief =
  jb_ok :: bool
  jb_entries :: nat
  jb_reason :: "string option"

record tick_brief =
  tb_last_age_seconds :: "pyfloat option"
  tb_failures :: nat

record core_health =
  ch_trading_enabled :: bool
  ch_disabled_reason :: "string option"
  ch_halted :: bool
  ch_halt_reason :: "string option"
  ch_policy_sha256 :: "string option"
  ch_policy_effective_from :: "string option"
  ch_plan :: "plan_brief option"
  ch_journal :: "journal_brief option"
  ch_tick :: "tick_brief option"
  ch_attention :: "string list"

definition wire_status :: "core_health \<Rightarrow> json" where
  "wire_status h =
     JObj [(''trading_enabled'', JBool (ch_trading_enabled h)),
       (''disabled_reason'', text_json (clip (ch_disabled_reason h))),
       (''halted'', JBool (ch_halted h)), (''halt_reason'', text_json (clip (ch_halt_reason h))),
       (''policy_sha256'', text_json (ch_policy_sha256 h)),
       (''policy_effective_from'', text_json (ch_policy_effective_from h)),
       (''plan'', (case ch_plan h of None \<Rightarrow> JNull | Some p \<Rightarrow>
          JObj [(''id'', JStr (take 64 (pb_id p))), (''kind'', JStr (take 32 (pb_kind p))),
                (''status'', JStr (take 32 (pb_status p))), (''execute_on'', JStr (pb_execute_on p))])),
       (''journal'', (case ch_journal h of
          None \<Rightarrow> JObj [(''ok'', JBool False), (''entries'', JInt 0),
                         (''reason'', JStr ''the router has no journal: it did not start'')]
        | Some j \<Rightarrow> JObj [(''ok'', JBool (jb_ok j)), (''entries'', JInt (int (jb_entries j))),
                           (''reason'', text_json (clip (jb_reason j)))])),
       (''tick_age_seconds'', (case ch_tick h of None \<Rightarrow> JNull | Some t \<Rightarrow>
          (case tb_last_age_seconds t of None \<Rightarrow> JNull | Some a \<Rightarrow> JFloat a))),
       (''tick_failures'', JInt (case ch_tick h of None \<Rightarrow> 0 | Some t \<Rightarrow> int (tb_failures t))),
       (''attention'', JArr (map (\<lambda>item. JStr (take MAX_TEXT item)) (take MAX_ATTENTION (ch_attention h))))]"

section \<open>The mirror\<close>

record 'w sync_env =
  se_settings :: sync_settings
  se_sha256 :: "string \<Rightarrow> string"
  se_hmac :: "string \<Rightarrow> string \<Rightarrow> string"
  se_prev_of :: "string \<Rightarrow> string option option"
  se_event_of :: "string \<Rightarrow> string option"
  se_parse :: "string \<Rightarrow> json option"
  se_iso :: "rat \<Rightarrow> string"
  se_show :: "exn \<Rightarrow> string"
  se_mix :: "(string \<times> decimal) list"
  se_journal :: "'w \<Rightarrow> text_file"
  se_can_save :: "'w \<Rightarrow> bool"
  se_clock :: "'w \<Rightarrow> 'w \<times> rat"
  se_time :: "'w \<Rightarrow> 'w \<times> rat"
  se_sleep :: "rat \<Rightarrow> 'w \<Rightarrow> 'w"
  se_post :: "string \<Rightarrow> string \<Rightarrow> receipt \<Rightarrow> (string \<times> string) list \<Rightarrow> 'w \<Rightarrow> 'w \<times> post_answer"
  se_status :: "'w \<Rightarrow> core_health result"
  se_account :: "'w \<Rightarrow> 'w \<times> account_view result"
  se_positions :: "'w \<Rightarrow> 'w \<times> position_view list result"

record 'w sync =
  sy_world :: 'w
  sy_cursor :: cursor
  sy_cursor_file :: cursor_file
  sy_journal_len :: nat
  sy_journal_problem :: "string option"
  sy_last_report_at :: "rat option"
  sy_last_account_at :: "rat option"
  sy_account_due :: bool
  sy_last_success_at :: "rat option"
  sy_failing_since :: "rat option"
  sy_failures :: nat
  sy_stuck :: bool
  sy_last_error :: "string option"

definition new_sync :: "cursor_file \<Rightarrow> 'w \<Rightarrow> 'w sync" where
  "new_sync f w =
     \<lparr> sy_world = w, sy_cursor = load_cursor f, sy_cursor_file = f, sy_journal_len = 0, sy_journal_problem = None,
       sy_last_report_at = None, sy_last_account_at = None, sy_account_due = False, sy_last_success_at = None,
       sy_failing_since = None, sy_failures = 0, sy_stuck = False, sy_last_error = None \<rparr>"

definition sy_call :: "('w \<Rightarrow> 'w \<times> 'a result) \<Rightarrow> ('w sync, 'a) act" where
  "sy_call f s = (case f (sy_world s) of (w, r) \<Rightarrow> (s\<lparr> sy_world := w \<rparr>, r))"

definition sy_outside :: "('w \<Rightarrow> 'w \<times> 'a) \<Rightarrow> ('w sync, 'a) act" where
  "sy_outside f = sy_call (\<lambda>w. case f w of (w', x) \<Rightarrow> (w', Inr x))"

definition next_delay :: "'w sync \<Rightarrow> rat" where
  "next_delay s =
     (if sy_stuck s then PERMANENT_RETRY_SECONDS
      else if sy_failures s \<noteq> 0 then min SYNC_BACKOFF_MAX_SECONDS (SYNC_TICK_SECONDS * 2 ^ sy_failures s)
      else SYNC_TICK_SECONDS)"

definition succeeded :: "rat \<Rightarrow> ('w sync, unit) act" where
  "succeeded now =
     update (\<lambda>s. s\<lparr> sy_failures := 0, sy_stuck := False, sy_last_error := None, sy_last_success_at := Some now,
                     sy_failing_since := None \<rparr>)"

definition failed :: "rat \<Rightarrow> string \<Rightarrow> bool \<Rightarrow> ('w sync, unit) act" where
  "failed now err permanent =
     update (\<lambda>s. s\<lparr> sy_failures := sy_failures s + 1, sy_stuck := permanent, sy_last_error := Some err,
                     sy_failing_since := (case sy_failing_since s of None \<Rightarrow> Some now | Some t \<Rightarrow> Some t) \<rparr>)"

section \<open>One signed request\<close>

record reply =
  ry_status :: "int option"
  ry_body :: receipt
  ry_error :: string

definition reply_of :: "(string \<Rightarrow> json option) \<Rightarrow> post_answer \<Rightarrow> reply result" where
  "reply_of parse a =
     (case a of
        Crash e \<Rightarrow> Inl e
      | HttpError t \<Rightarrow> Inr \<lparr> ry_status = None, ry_body = [], ry_error = t \<rparr>
      | Answer c text \<Rightarrow>
          let data = (case parse text of Some (JObj kvs) \<Rightarrow> kvs | _ \<Rightarrow> []) in
          if 200 \<le> c \<and> c \<le> 299 then Inr \<lparr> ry_status = Some c, ry_body = data, ry_error = [] \<rparr>
          else
            let code = (case map_of data ''error'' of Some (JStr t) \<Rightarrow> t | _ \<Rightarrow> []);
                detail = (case map_of data ''detail'' of Some (JStr t) \<Rightarrow> t | _ \<Rightarrow> []);
                head = ''HTTP '' @ json_text (JInt c) @ (if code = [] then [] else '' '' @ code)
                  @ (if detail = [] then [] else '': '' @ detail)
            in Inr \<lparr> ry_status = Some c, ry_body = data,
                     ry_error = (if code = [] \<and> detail = [] then head @ '': '' @ take 200 text else head) \<rparr>)"

definition sync_post :: "'w sync_env \<Rightarrow> receipt \<Rightarrow> ('w sync, reply) act" where
  "sync_post E payload =
     bind (sy_outside (se_time E)) (\<lambda>t.
     bind (lift (text_field ''idempotency_key'' payload)) (\<lambda>key.
     let body = canonical_json payload; timestamp = seconds_text t;
         headers = [(''Content-Type'', ''application/json''), (TIMESTAMP_HEADER, timestamp),
           (SIGNATURE_HEADER, SIGNATURE_PREFIX @ sign (se_hmac E) body timestamp (st_secret (se_settings E))),
           (IDEMPOTENCY_HEADER, key), (''User-Agent'', ''core-router-sync/1.0'')]
     in sy_call (\<lambda>w. case se_post E (st_url (se_settings E)) body payload headers w of (w', a) \<Rightarrow> (w', reply_of (se_parse E) a))))"

datatype outcome = Stored | Gap | Permanent | Transient

text \<open>\<open>isinstance(x, int)\<close> and \<open>int(x)\<close>: in Python a bool is an int.\<close>

definition as_int :: "json option \<Rightarrow> int option" where
  "as_int v = (case v of Some (JInt i) \<Rightarrow> Some i | Some (JBool b) \<Rightarrow> Some (of_bool b) | _ \<Rightarrow> None)"

definition classify :: "reply \<Rightarrow> outcome" where
  "classify r =
     (case ry_status r of
        None \<Rightarrow> Transient
      | Some st \<Rightarrow>
          if 200 \<le> st \<and> st < 300 then Stored
          else if st = 409 \<and> map_of (ry_body r) ''error'' = Some (JStr ''gap'') \<and> as_int (map_of (ry_body r) ''next_index'') \<noteq> None
          then Gap
          else if 400 \<le> st \<and> st < 500 \<and> st \<noteq> 429 then Permanent
          else Transient)"

section \<open>Sending the journal\<close>

definition set_cursor :: "'w sync_env \<Rightarrow> cursor \<Rightarrow> ('w sync, unit) act" where
  "set_cursor E c =
     update (\<lambda>s. if c = sy_cursor s then s
                  else s\<lparr> sy_cursor := c,
                          sy_cursor_file := (if se_can_save E (sy_world s) then Cursor_File (cursor_json c) else sy_cursor_file s) \<rparr>)"

definition event_of :: "'w sync_env \<Rightarrow> string \<Rightarrow> string" where
  "event_of E raw = (case se_event_of E raw of None \<Rightarrow> [] | Some e \<Rightarrow> e)"

definition entry_json :: "journal_entry \<Rightarrow> json" where
  "entry_json e =
     JObj [(''index'', JInt (int (je_index e))), (''hash'', JStr (je_hash e)), (''prev'', JStr (je_prev e)), (''raw'', JStr (je_raw e))]"

definition journal_payload :: "string \<Rightarrow> journal_entry list \<Rightarrow> receipt" where
  "journal_payload chain batch =
     [(''schema_version'', JInt SCHEMA_VERSION), (''kind'', JStr ''journal''), (''chain_id'', JStr chain),
      (''idempotency_key'', JStr (''core-journal:'' @ take 16 chain @ '':'' @ json_text (JInt (int (je_index (hd batch))))
         @ ''-'' @ json_text (JInt (int (je_index (last batch)))))),
      (''entries'', JArr (map entry_json batch))]"

text \<open>\<open>max(0, min(i, len(entries)))\<close>.\<close>

definition clamp :: "int \<Rightarrow> nat \<Rightarrow> nat" where
  "clamp i n = nat (max 0 (min i (int n)))"

definition acked_index :: "reply \<Rightarrow> journal_entry list \<Rightarrow> int" where
  "acked_index r batch =
     (case map_of (ry_body r) ''next_index'' of Some (JInt i) \<Rightarrow> i | _ \<Rightarrow> int (je_index (last batch)) + 1)"

fun push_batches ::
  "'w sync_env \<Rightarrow> rat \<Rightarrow> journal_entry list \<Rightarrow> string option \<Rightarrow> nat \<Rightarrow> bool \<Rightarrow> ('w sync, bool option) act" where
  "push_batches E now es chain 0 delivered = ret (Some delivered)"
| "push_batches E now es chain (Suc n) delivered =
     bind (gets (\<lambda>s. drop (cu_next (sy_cursor s)) es)) (\<lambda>pending.
     case chain of
       None \<Rightarrow> ret (Some delivered)
     | Some c \<Rightarrow>
       if pending = [] then ret (Some delivered)
       else
         let batch = take BATCH_SIZE pending in
         bind (sync_post E (journal_payload c batch)) (\<lambda>reply.
         case classify reply of
           Stored \<Rightarrow>
             seq (set_cursor E \<lparr> cu_chain = chain, cu_next = clamp (acked_index reply batch) (length es) \<rparr>)
             (seq (succeeded now)
             (seq (if list_ex (\<lambda>e. event_of E (je_raw e) \<in> set PLAN_CLOSING_EVENTS) batch
                   then update (\<lambda>s. s\<lparr> sy_account_due := True \<rparr>) else ret ())
             (push_batches E now es chain n True)))
         | Gap \<Rightarrow>
             seq (set_cursor E \<lparr> cu_chain = chain,
                    cu_next = clamp (case as_int (map_of (ry_body reply) ''next_index'') of None \<Rightarrow> 0 | Some i \<Rightarrow> i) (length es) \<rparr>)
             (push_batches E now es chain n delivered)
         | oc \<Rightarrow> seq (failed now (ry_error reply) (oc = Permanent)) (ret None)))"

definition push_journal :: "'w sync_env \<Rightarrow> rat \<Rightarrow> ('w sync, bool option) act" where
  "push_journal E now =
     bind (gets (\<lambda>s. read_journal (se_sha256 E) (se_prev_of E) (se_journal E (sy_world s)))) (\<lambda>r.
     bind (lift r) (\<lambda>read.
     let es = jd_entries read; chain = (if es = [] then None else Some (je_hash (hd es))) in
     seq (update (\<lambda>s. s\<lparr> sy_journal_problem := jd_problem read, sy_journal_len := length es \<rparr>))
     (bind (gets sy_cursor) (\<lambda>c.
     seq (if chain \<noteq> cu_chain c then set_cursor E \<lparr> cu_chain = chain, cu_next = 0 \<rparr>
          else if length es < cu_next c then set_cursor E \<lparr> cu_chain = chain, cu_next = length es \<rparr>
          else ret ())
     (push_batches E now es chain MAX_BATCHES_PER_PASS False)))))"

section \<open>Reporting\<close>

definition build_account :: "'w sync_env \<Rightarrow> rat \<Rightarrow> ('w sync, json option) act" where
  "build_account E now =
     attempt (bind (sy_call (se_account E)) (\<lambda>a. bind (sy_call (se_positions E)) (\<lambda>ps. ret (a, ps))))
       (\<lambda>_. Some (ret None))
       (\<lambda>(a, ps). lift (account_json (se_iso E now) (se_mix E) a ps))"

definition due_since :: "rat option \<Rightarrow> rat \<Rightarrow> rat \<Rightarrow> bool" where
  "due_since at_time now interval = (case at_time of None \<Rightarrow> True | Some t \<Rightarrow> interval \<le> now - t)"

definition report_payload :: "string \<Rightarrow> json \<Rightarrow> json option \<Rightarrow> receipt" where
  "report_payload reported_at st acct =
     [(''schema_version'', JInt SCHEMA_VERSION), (''kind'', JStr ''report''),
      (''idempotency_key'', JStr (''core-report:'' @ reported_at)), (''reported_at'', JStr reported_at),
      (''status'', st), (''account'', (case acct of None \<Rightarrow> JNull | Some a \<Rightarrow> a))]"

definition push_report :: "'w sync_env \<Rightarrow> rat \<Rightarrow> bool \<Rightarrow> ('w sync, unit) act" where
  "push_report E now news =
     bind (gets (\<lambda>s. news \<or> due_since (sy_last_report_at s) now REPORT_INTERVAL_SECONDS)) (\<lambda>due.
     if \<not> due then ret ()
     else
       bind (gets (\<lambda>s. se_status E (sy_world s))) (\<lambda>r.
       case r of
         Inl e \<Rightarrow> update (\<lambda>s. s\<lparr> sy_last_error := Some (''could not read the router's status: '' @ se_show E e) \<rparr>)
       | Inr h \<Rightarrow>
         bind (gets (\<lambda>s. sy_account_due s \<or> due_since (sy_last_account_at s) now ACCOUNT_INTERVAL_SECONDS)) (\<lambda>include.
         bind (if include then build_account E now else ret None) (\<lambda>acct.
         bind (sync_post E (report_payload (se_iso E now) (wire_status h) acct)) (\<lambda>reply.
         let oc = classify reply in
         if oc = Stored \<or> oc = Gap then
           seq (update (\<lambda>s. s\<lparr> sy_last_report_at := Some now \<rparr>))
           (seq (if acct \<noteq> None then update (\<lambda>s. s\<lparr> sy_last_account_at := Some now, sy_account_due := False \<rparr>) else ret ())
           (succeeded now))
         else failed now (ry_error reply) (oc = Permanent))))))"

section \<open>The loop\<close>

definition run_once :: "'w sync_env \<Rightarrow> ('w sync, unit) act" where
  "run_once E =
     bind (sy_outside (se_clock E)) (\<lambda>now.
     handle
       (bind (push_journal E now) (\<lambda>delivered.
        case delivered of None \<Rightarrow> ret () | Some news \<Rightarrow> push_report E now news))
       (\<lambda>e. Some (failed now (se_show E e) False)))"

fun run_rounds :: "'w sync_env \<Rightarrow> nat \<Rightarrow> ('w sync, unit) act" where
  "run_rounds E 0 = ret ()"
| "run_rounds E (Suc n) =
     seq (handle (run_once E) (\<lambda>_. Some (ret ())))
     (seq (update (\<lambda>s. s\<lparr> sy_world := se_sleep E (next_delay s) (sy_world s) \<rparr>)) (run_rounds E n))"

definition attention_line :: "'w sync_env \<Rightarrow> ('w sync, string option) act" where
  "attention_line E =
     bind (gets (\<lambda>s. (sy_failing_since s, sy_last_error s))) (\<lambda>(since, err).
     case since of
       None \<Rightarrow> ret None
     | Some t0 \<Rightarrow>
         bind (sy_outside (se_clock E)) (\<lambda>t.
         ret (if t - t0 < STUCK_AFTER_SECONDS then None
              else Some (''the website mirror has not been updated for '' @ json_text (JInt \<lfloor>(t - t0) / 60\<rfloor>) @ '' min: ''
                @ (case err of None \<Rightarrow> ''None'' | Some e \<Rightarrow> e)))))"

record sync_health =
  sh_last_success_at :: "string option"
  sh_consecutive_failures :: nat
  sh_last_error :: "string option"
  sh_stuck :: bool
  sh_pending_entries :: nat
  sh_journal_problem :: "string option"
  sh_chain :: "string option"
  sh_next_index :: nat

definition sync_health_of :: "'w sync_env \<Rightarrow> 'w sync \<Rightarrow> sync_health" where
  "sync_health_of E s =
     \<lparr> sh_last_success_at = map_option (se_iso E) (sy_last_success_at s), sh_consecutive_failures = sy_failures s,
       sh_last_error = sy_last_error s, sh_stuck = sy_stuck s,
       sh_pending_entries = sy_journal_len s - cu_next (sy_cursor s), sh_journal_problem = sy_journal_problem s,
       sh_chain = (case cu_chain (sy_cursor s) of None \<Rightarrow> None | Some c \<Rightarrow> if take 12 c = [] then None else Some (take 12 c)),
       sh_next_index = cu_next (sy_cursor s) \<rparr>"

end
