(* ===== verification/Core_Sync_Laws.thy ===== *)
theory Core_Sync_Laws imports Core_Sync "HOL-Library.Sublist" begin

text \<open>
  What the mirror guarantees when the website does what its answers say: its copy is a prefix of the journal, the
  cursor never passes it, and a pass with something to send catches up. A step of the system is a pass of the
  mirror, a move of the world elsewhere (the router appends to its journal), or a restart that may lose the cursor.
\<close>

section \<open>The website\<close>

definition entries_in :: "'w sync_env \<Rightarrow> 'w \<Rightarrow> journal_entry list" where
  "entries_in E w = (case read_journal (se_sha256 E) (se_prev_of E) (se_journal E w) of Inl _ \<Rightarrow> [] | Inr r \<Rightarrow> jd_entries r)"

text \<open>The copy after a batch that starts at or before its end: entries it has already are stored once.\<close>

definition merged :: "journal_entry list \<Rightarrow> journal_entry list \<Rightarrow> journal_entry list" where
  "merged old batch = old @ drop (length old - je_index (hd batch)) batch"

definition quiet :: "'w sync_env \<Rightarrow> ('w \<Rightarrow> journal_entry list) \<Rightarrow> ('w \<Rightarrow> 'w \<times> 'a) \<Rightarrow> bool" where
  "quiet E stored f \<longleftrightarrow> (\<forall>w. stored (fst (f w)) = stored w \<and> prefix (entries_in E w) (entries_in E (fst (f w))))"

text \<open>
  \<open>stored\<close> is the website's copy of the journal with id \<open>c\<close>. A request may be lost before or after it is stored. An answer
  2xx says it was stored, and where the copy ends now if it has a \<open>next_index\<close>; a gap says where the copy ends.
\<close>

definition journal_answer :: "'w sync_env \<Rightarrow> journal_entry list \<Rightarrow> journal_entry list \<Rightarrow> journal_entry list \<Rightarrow> post_answer \<Rightarrow> bool" where
  "journal_answer E batch old new a \<longleftrightarrow>
     (new = old \<or> (je_index (hd batch) \<le> length old \<and> new = merged old batch)) \<and>
     (\<forall>r. reply_of (se_parse E) a = Inr r \<longrightarrow>
        (classify r = Stored \<longrightarrow> je_index (hd batch) \<le> length old \<and> new = merged old batch \<and>
           (\<forall>n. map_of (ry_body r) ''next_index'' = Some (JInt n) \<longrightarrow> n = int (length new))) \<and>
        (classify r = Gap \<longrightarrow> as_int (map_of (ry_body r) ''next_index'') = Some (int (length old)) \<and> new = old))"

definition honest :: "'w sync_env \<Rightarrow> string \<Rightarrow> ('w \<Rightarrow> journal_entry list) \<Rightarrow> bool" where
  "honest E c stored \<longleftrightarrow>
     (\<forall>url body batch headers w w' a. batch \<noteq> [] \<longrightarrow>
        se_post E url body (journal_payload c batch) headers w = (w', a) \<longrightarrow>
        journal_answer E batch (stored w) (stored w') a \<and> prefix (entries_in E w) (entries_in E w')) \<and>
     (\<forall>url body st t acct headers. quiet E stored (se_post E url body (report_payload t st acct) headers)) \<and>
     quiet E stored (se_clock E) \<and> quiet E stored (se_time E) \<and> quiet E stored (se_account E) \<and> quiet E stored (se_positions E)"

inductive mirror_step :: "'w sync_env \<Rightarrow> ('w \<Rightarrow> journal_entry list) \<Rightarrow> 'w sync \<Rightarrow> 'w sync \<Rightarrow> bool" for E stored where
  pass: "mirror_step E stored s (fst (run_once E s))"
| elsewhere: "prefix (entries_in E (sy_world s)) (entries_in E w) \<Longrightarrow> stored w = stored (sy_world s) \<Longrightarrow>
    mirror_step E stored s (s\<lparr> sy_world := w \<rparr>)"
| restarted: "f \<in> {sy_cursor_file s, No_Cursor_File, Bad_File} \<Longrightarrow> mirror_step E stored s (new_sync f (sy_world s))"

section \<open>The invariant\<close>

definition cursor_ok :: "string \<Rightarrow> nat \<Rightarrow> cursor \<Rightarrow> bool" where
  "cursor_ok c n cu \<longleftrightarrow> (cu_chain cu = Some c \<longrightarrow> cu_next cu \<le> n)"

definition mirror_inv :: "'w sync_env \<Rightarrow> string \<Rightarrow> ('w \<Rightarrow> journal_entry list) \<Rightarrow> 'w sync \<Rightarrow> bool" where
  "mirror_inv E c stored s \<longleftrightarrow>
     (let es = entries_in E (sy_world s); old = stored (sy_world s) in
      es \<noteq> [] \<and> je_hash (hd es) = c \<and> prefix old es \<and>
      cursor_ok c (length old) (sy_cursor s) \<and> cursor_ok c (length old) (load_cursor (sy_cursor_file s)))"

lemma read_entries_index: "map je_index (fst (read_entries sha prev n h ls)) = [n..<n + length (fst (read_entries sha prev n h ls))]"
  by (induction sha prev n h ls rule: read_entries.induct)
    (auto simp: Let_def upt_conv_Cons split: option.splits prod.splits)

lemma entries_in_index: "i < length (entries_in E w) \<Longrightarrow> je_index (entries_in E w ! i) = i"
proof -
  have *: "map je_index (entries_in E w) = [0..<length (entries_in E w)]"
    using read_entries_index [of "se_sha256 E" "se_prev_of E" 0 "[]"]
    by (auto simp: entries_in_def read_journal_def split: text_file.splits prod.splits) (metis add_0 fst_conv)
  assume "i < length (entries_in E w)"
  then show ?thesis using arg_cong [OF *, of "\<lambda>xs. xs ! i"] by simp
qed

lemma prefix_hd: "prefix xs ys \<Longrightarrow> xs \<noteq> [] \<Longrightarrow> hd ys = hd xs"
  by (auto simp: prefix_def)

text \<open>Merging a slice of the journal into a prefix of it gives a prefix of it.\<close>

lemma merged_slice:
  assumes "prefix old es" "i \<le> length old" "batch = take k (drop i es')" "prefix es' es" "batch \<noteq> []" "je_index (hd batch) = i"
  shows "prefix (merged old batch) es" "length (merged old batch) = max (length old) (i + length batch)"
proof -
  obtain r1 where r1: "es = old @ r1" using assms(1) by (elim prefixE)
  obtain r2 where r2: "es = es' @ r2" using assms(4) by (elim prefixE)
  note es = r1 r2
  have i: "i \<le> length es'" using assms(3,5) by (cases "i \<le> length es'") auto
  have sl: "batch = take (length batch) (drop i es)"
    using assms(3) i by (simp add: es(2) min_def)
  show "length (merged old batch) = max (length old) (i + length batch)"
    using assms(2) by (simp add: merged_def assms(6) max_def)
  show "prefix (merged old batch) es"
  proof (cases "length old \<le> i + length batch")
    case True
    have "drop (length old - i) batch = take (i + length batch - length old) (drop (length old) es)"
      using True assms(2) by (subst sl) (simp add: drop_take add.commute)
    then have "merged old batch = old @ take (i + length batch - length old) r1"
      by (simp add: merged_def assms(6) es(1))
    then show ?thesis by (metis es(1) append_take_drop_id prefixI append.assoc)
  next
    case False
    then show ?thesis using assms(1) by (simp add: merged_def assms(6))
  qed
qed

section \<open>A pass keeps the invariant\<close>

text \<open>During a pass: the entries read at its start are still in the journal.\<close>

definition pass_inv :: "'w sync_env \<Rightarrow> string \<Rightarrow> ('w \<Rightarrow> journal_entry list) \<Rightarrow> journal_entry list \<Rightarrow> 'w sync \<Rightarrow> bool" where
  "pass_inv E c stored es s \<longleftrightarrow> mirror_inv E c stored s \<and> prefix es (entries_in E (sy_world s))"

lemma mirror_inv_world:
  assumes "mirror_inv E c stored s" "prefix (entries_in E (sy_world s)) (entries_in E w)"
    "prefix (stored w) (entries_in E w)" "length (stored (sy_world s)) \<le> length (stored w)"
  shows "mirror_inv E c stored (s\<lparr> sy_world := w \<rparr>)"
  using assms prefix_hd [OF assms(2)] by (auto simp: mirror_inv_def Let_def cursor_ok_def)

lemma pass_inv_quiet:
  assumes "quiet E stored f" shows "keeps (pass_inv E c stored es) (sy_call f)"
  unfolding keeps_def sy_call_def
proof (intro allI impI)
  fix s assume s: "pass_inv E c stored es s"
  obtain w r where f: "f (sy_world s) = (w, r)" by fastforce
  with assms have q: "stored w = stored (sy_world s)" "prefix (entries_in E (sy_world s)) (entries_in E w)"
    unfolding quiet_def by (metis fst_conv)+
  with s have "mirror_inv E c stored (s\<lparr> sy_world := w \<rparr>)" "prefix es (entries_in E w)"
    unfolding pass_inv_def using mirror_inv_world [of E c stored s w] prefix_order.trans
    by (auto simp: mirror_inv_def Let_def)
  then show "pass_inv E c stored es (fst (case f (sy_world s) of (w, r) \<Rightarrow> (s\<lparr> sy_world := w \<rparr>, r)))"
    by (simp add: f pass_inv_def)
qed

lemma quiet_outside: "quiet E stored f \<Longrightarrow> quiet E stored (\<lambda>w. case f w of (w', x) \<Rightarrow> (w', g x))"
  unfolding quiet_def by (simp add: case_prod_beta)

lemma pass_inv_outside: "quiet E stored f \<Longrightarrow> keeps (pass_inv E c stored es) (sy_outside f)"
  unfolding sy_outside_def by (intro pass_inv_quiet quiet_outside)

lemma pass_inv_update:
  assumes "\<And>s. sy_world (f s) = sy_world s \<and> sy_cursor (f s) = sy_cursor s \<and> sy_cursor_file (f s) = sy_cursor_file s"
  shows "keeps (pass_inv E c stored es) (update f)"
  by (rule keeps_update) (simp add: pass_inv_def mirror_inv_def assms)

lemma pass_inv_failed: "keeps (pass_inv E c stored es) (failed now e b)"
  unfolding failed_def by (rule pass_inv_update) simp

lemma pass_inv_succeeded: "keeps (pass_inv E c stored es) (succeeded now)"
  unfolding succeeded_def by (rule pass_inv_update) simp

lemma honest_quiet:
  assumes "honest E c stored"
  shows "quiet E stored (se_clock E)" "quiet E stored (se_time E)" "quiet E stored (se_account E)" "quiet E stored (se_positions E)"
    "quiet E stored (se_post E url body (report_payload t st acct) headers)"
  using assms unfolding honest_def by blast+

lemma pass_inv_report_post:
  assumes "honest E c stored" shows "keeps (pass_inv E c stored es) (sync_post E (report_payload t st acct))"
  unfolding sync_post_def Let_def
  by (intro keeps_rules pass_inv_outside pass_inv_quiet quiet_outside honest_quiet [OF assms])

lemma pass_inv_account: "honest E c stored \<Longrightarrow> keeps (pass_inv E c stored es) (build_account E now)"
  unfolding build_account_def
  by (intro keeps_rules pass_inv_quiet honest_quiet) (auto simp: keeps_rules split: prod.splits)

lemma pass_inv_report: "honest E c stored \<Longrightarrow> keeps (pass_inv E c stored es) (push_report E now news)"
  unfolding push_report_def Let_def sum.case_eq_if
  by (intro keeps_rules pass_inv_update pass_inv_report_post pass_inv_account pass_inv_failed pass_inv_succeeded conjI) simp_all

section \<open>Posting a batch\<close>

lemma set_cursor_inv:
  assumes "pass_inv E c stored es s" "cursor_ok c (length (stored (sy_world s))) cu"
  shows "pass_inv E c stored es (fst (set_cursor E cu s))" "sy_cursor (fst (set_cursor E cu s)) = cu"
    "snd (set_cursor E cu s) = Inr ()" "sy_world (fst (set_cursor E cu s)) = sy_world s"
  using assms by (auto simp: set_cursor_def pass_inv_def mirror_inv_def Let_def load_cursor_json)

lemma text_field_key: "text_field ''idempotency_key'' (journal_payload c batch) =
    Inr (''core-journal:'' @ take 16 c @ '':'' @ json_text (JInt (int (je_index (hd batch)))) @ ''-'' @ json_text (JInt (int (je_index (last batch)))))"
  by (simp add: text_field_def journal_payload_def del: json_text.simps)

text \<open>What one request for a slice of the journal leaves, and the cursor positions its answer allows.\<close>

definition copy_ok :: "'w sync_env \<Rightarrow> ('w \<Rightarrow> journal_entry list) \<Rightarrow> journal_entry list \<Rightarrow> 'w sync \<Rightarrow> bool" where
  "copy_ok E stored es s \<longleftrightarrow> prefix es (entries_in E (sy_world s)) \<and> prefix (stored (sy_world s)) (entries_in E (sy_world s))"

lemma journal_post:
  assumes h: "honest E c stored" and s: "copy_ok E stored es s"
    and b: "batch = take BATCH_SIZE (drop (cu_next (sy_cursor s)) es)" "batch \<noteq> []"
    and p: "sync_post E (journal_payload c batch) s = (t, r)"
  obtains w1 w2 headers a where
    "se_post E (st_url (se_settings E)) (canonical_json (journal_payload c batch)) (journal_payload c batch) headers w1 = (w2, a)"
    "stored w1 = stored (sy_world s)" "t = s\<lparr> sy_world := w2 \<rparr>" "r = reply_of (se_parse E) a" "copy_ok E stored es t"
    "prefix (entries_in E (sy_world s)) (entries_in E w2)"
    "length (stored (sy_world s)) \<le> length (stored (sy_world t))" "je_index (hd batch) = cu_next (sy_cursor s)"
    "\<And>rep. r = Inr rep \<Longrightarrow> classify rep = Stored \<Longrightarrow>
       length (stored (sy_world t)) = max (length (stored (sy_world s))) (cu_next (sy_cursor s) + length batch) \<and>
       (acked_index rep batch = int (length (stored (sy_world t))) \<or> acked_index rep batch = int (cu_next (sy_cursor s) + length batch))"
    "\<And>rep. r = Inr rep \<Longrightarrow> classify rep = Gap \<Longrightarrow>
       as_int (map_of (ry_body rep) ''next_index'') = Some (int (length (stored (sy_world t)))) \<and> stored (sy_world t) = stored (sy_world s)"
proof -
  obtain w1 tm where w1: "se_time E (sy_world s) = (w1, tm)" by fastforce
  define s1 where "s1 = s\<lparr> sy_world := w1 \<rparr>"
  have time: "sy_outside (se_time E) s = (s1, Inr tm)"
    by (simp add: sy_outside_def sy_call_def w1 s1_def)
  have same: "stored w1 = stored (sy_world s)" "prefix (entries_in E (sy_world s)) (entries_in E w1)"
    using honest_quiet(2) [OF h] w1 unfolding quiet_def by (metis fst_conv)+
  obtain headers where hd: "sync_post E (journal_payload c batch) s =
      sy_call (\<lambda>w. case se_post E (st_url (se_settings E)) (canonical_json (journal_payload c batch)) (journal_payload c batch) headers w of
        (w', a) \<Rightarrow> (w', reply_of (se_parse E) a)) s1"
    unfolding sync_post_def bind_Inr [where m = "sy_outside (se_time E)", OF time] text_field_key bind_simps Let_def by blast
  obtain w2 a where post: "se_post E (st_url (se_settings E)) (canonical_json (journal_payload c batch)) (journal_payload c batch) headers w1 = (w2, a)"
    by fastforce
  have tr: "t = s\<lparr> sy_world := w2 \<rparr>" "r = reply_of (se_parse E) a"
    using p by (simp_all add: hd sy_call_def s1_def post)
  have ja: "journal_answer E batch (stored w1) (stored w2) a" and pre: "prefix (entries_in E w1) (entries_in E w2)"
    using h b(2) post unfolding honest_def by blast+
  let ?i = "cu_next (sy_cursor s)"
  have pe: "prefix es (entries_in E w1)" "prefix (stored w1) (entries_in E w1)"
    using s same prefix_order.trans unfolding copy_ok_def by auto
  have len: "?i < length es" using b by (cases "?i < length es") auto
  obtain rest where rest: "entries_in E w1 = es @ rest" using pe(1) by (elim prefixE)
  have "hd batch = es ! ?i" using b len by (simp add: hd_drop_conv_nth BATCH_SIZE_def)
  then have hi: "je_index (hd batch) = ?i"
    using entries_in_index [of ?i E w1] len by (simp add: rest nth_append)
  have "last batch = es ! (?i + length batch - 1)"
    using b len by (simp add: last_conv_nth)
  moreover have "?i + length batch - 1 < length es" using b len by auto
  ultimately have li: "je_index (last batch) = ?i + length batch - 1"
    using entries_in_index [of "?i + length batch - 1" E w1] by (simp add: rest nth_append)
  have mg: "prefix (merged (stored w1) batch) (entries_in E w1)" "length (merged (stored w1) batch) = max (length (stored w1)) (?i + length batch)"
    if "?i \<le> length (stored w1)"
    using merged_slice [OF pe(2) that b(1) pe(1) b(2) hi] by blast+
  have pw: "prefix (stored w2) (entries_in E w1)" and ln: "length (stored w1) \<le> length (stored w2)"
    using ja mg pe(2) unfolding journal_answer_def hi by (auto simp: merged_def)
  have bl: "0 < length batch" using b(2) by simp
  show ?thesis
  proof (rule that [OF post same(1) tr])
    show "copy_ok E stored es t" using prefix_order.trans [OF pe(1) pre] prefix_order.trans [OF pw pre] by (simp add: copy_ok_def tr)
    show "prefix (entries_in E (sy_world s)) (entries_in E w2)" using prefix_order.trans [OF same(2) pre] .
    show "length (stored (sy_world s)) \<le> length (stored (sy_world t))" using ln by (simp add: tr same(1) [symmetric])
    show "je_index (hd batch) = ?i" by (rule hi)
    fix rep assume r: "r = Inr rep"
    show "length (stored (sy_world t)) = max (length (stored (sy_world s))) (?i + length batch) \<and>
      (acked_index rep batch = int (length (stored (sy_world t))) \<or> acked_index rep batch = int (?i + length batch))"
      if "classify rep = Stored"
    proof -
      from ja that r have *: "?i \<le> length (stored w1)" "stored w2 = merged (stored w1) batch"
        "\<forall>n. map_of (ry_body rep) ''next_index'' = Some (JInt n) \<longrightarrow> n = int (length (stored w2))"
        unfolding journal_answer_def hi tr(2) by blast+
      have "acked_index rep batch = int (length (stored w2)) \<or> acked_index rep batch = int (je_index (last batch)) + 1"
        using *(3) by (auto simp: acked_index_def split: option.splits json.splits)
      then show ?thesis using * mg(2) bl by (simp add: tr same(1) [symmetric] li of_nat_diff)
    qed
    show "as_int (map_of (ry_body rep) ''next_index'') = Some (int (length (stored (sy_world t)))) \<and> stored (sy_world t) = stored (sy_world s)"
      if "classify rep = Gap"
      using ja that r unfolding journal_answer_def tr by (auto simp: same(1) [symmetric])
  qed
qed

lemma journal_post_inv:
  assumes h: "honest E c stored" and s: "pass_inv E c stored es s"
    and b: "batch = take BATCH_SIZE (drop (cu_next (sy_cursor s)) es)" "batch \<noteq> []"
    and p: "sync_post E (journal_payload c batch) s = (t, r)"
  shows "pass_inv E c stored es t" "sy_cursor t = sy_cursor s"
    "r = Inr rep \<Longrightarrow> classify rep = Stored \<Longrightarrow> clamp (acked_index rep batch) n \<le> length (stored (sy_world t))"
    "r = Inr rep \<Longrightarrow> classify rep = Gap \<Longrightarrow> as_int (map_of (ry_body rep) ''next_index'') = Some (int (length (stored (sy_world t))))"
proof -
  have c: "copy_ok E stored es s" using s by (simp add: pass_inv_def copy_ok_def mirror_inv_def Let_def)
  obtain w where w: "t = s\<lparr> sy_world := w \<rparr>" "copy_ok E stored es t" "prefix (entries_in E (sy_world s)) (entries_in E w)"
    "length (stored (sy_world s)) \<le> length (stored (sy_world t))"
    by (rule journal_post [OF h c b p]) blast
  show "sy_cursor t = sy_cursor s" by (simp add: w)
  have "mirror_inv E c stored (s\<lparr> sy_world := w \<rparr>)"
    using s w by (intro mirror_inv_world) (auto simp: pass_inv_def copy_ok_def)
  then show "pass_inv E c stored es t" using w(2) by (simp add: pass_inv_def w(1) copy_ok_def)
  show "clamp (acked_index rep batch) n \<le> length (stored (sy_world t))" if "r = Inr rep" "classify rep = Stored"
  proof -
    have "acked_index rep batch \<le> int (length (stored (sy_world t)))" by (rule journal_post [OF h c b p]) (use that in force)
    then show ?thesis by (auto simp: clamp_def)
  qed
  show "as_int (map_of (ry_body rep) ''next_index'') = Some (int (length (stored (sy_world t))))" if "r = Inr rep" "classify rep = Gap"
    by (rule journal_post [OF h c b p]) (use that in blast)
qed

section \<open>Sending the journal\<close>

lemma clamp_le: "clamp i n \<le> nat i" "clamp i n \<le> n"
  by (auto simp: clamp_def)

lemma clamp_of_nat [simp]: "clamp (int k) n = min k n" "clamp (int k + int l) n = min (k + l) n"
  by (simp_all add: clamp_def min_def nat_int_add)

text \<open>One round of the loop that has something to send.\<close>

lemma push_batches_step:
  assumes "drop (cu_next (sy_cursor s)) es \<noteq> []"
  shows "push_batches E now es (Some c) (Suc n) d s =
    (let batch = take BATCH_SIZE (drop (cu_next (sy_cursor s)) es) in
     case sync_post E (journal_payload c batch) s of
       (t, Inl e) \<Rightarrow> (t, Inl e)
     | (t, Inr reply) \<Rightarrow>
        (case classify reply of
           Stored \<Rightarrow>
             push_batches E now es (Some c) n True
               (fst (seq (succeeded now) (if list_ex (\<lambda>e. event_of E (je_raw e) \<in> set PLAN_CLOSING_EVENTS) batch
                      then update (\<lambda>s. s\<lparr> sy_account_due := True \<rparr>) else ret ())
                 (fst (set_cursor E \<lparr> cu_chain = Some c, cu_next = clamp (acked_index reply batch) (length es) \<rparr> t))))
         | Gap \<Rightarrow>
             push_batches E now es (Some c) n d
               (fst (set_cursor E \<lparr> cu_chain = Some c,
                  cu_next = clamp (case as_int (map_of (ry_body reply) ''next_index'') of None \<Rightarrow> 0 | Some i \<Rightarrow> i) (length es) \<rparr> t))
         | oc \<Rightarrow> seq (failed now (ry_error reply) (oc = Permanent)) (ret None) t))"
  using assms
  by (auto simp: Let_def bind_def seq_def set_cursor_def succeeded_def split: prod.splits sum.splits outcome.splits)

lemma push_batches_inv:
  assumes h: "honest E c stored"
  shows "pass_inv E c stored es s \<Longrightarrow> cu_chain (sy_cursor s) = Some c \<Longrightarrow>
    pass_inv E c stored es (fst (push_batches E now es (Some c) n d s))"
proof (induction n arbitrary: s d)
  case (Suc n)
  show ?case
  proof (cases "drop (cu_next (sy_cursor s)) es = []")
    case True
    then show ?thesis using Suc.prems by simp
  next
    case False
    define batch where b: "batch = take BATCH_SIZE (drop (cu_next (sy_cursor s)) es)"
    have b0: "batch \<noteq> []" using False by (simp add: b BATCH_SIZE_def)
    obtain t r where p: "sync_post E (journal_payload c batch) s = (t, r)" by fastforce
    note post = journal_post_inv [OF h Suc.prems(1) b b0 p]
    note acct = pass_inv_update [of "\<lambda>s. s\<lparr> sy_account_due := True \<rparr>" E c stored es]
    let ?book = "seq (succeeded now) (if list_ex (\<lambda>e. event_of E (je_raw e) \<in> set PLAN_CLOSING_EVENTS) batch
      then update (\<lambda>s. s\<lparr> sy_account_due := True \<rparr>) else ret ())"
    have book: "keeps (pass_inv E c stored es) ?book"
      by (intro keeps_rules pass_inv_succeeded pass_inv_update) simp_all
    have book_cursor: "sy_cursor (fst (?book u)) = sy_cursor u" for u
      by (simp add: seq_def bind_def succeeded_def)
    show ?thesis
    proof (cases r)
      case (Inl e)
      then show ?thesis using post(1) by (simp add: push_batches_step [OF False] b [symmetric] Let_def p del: push_batches.simps)
    next
      case (Inr rep)
      note eq = push_batches_step [OF False, of E now c n d, folded b, unfolded Let_def p Inr prod.case sum.case]
      show ?thesis
      proof (cases "classify rep")
        case Stored
        let ?cu = "\<lparr> cu_chain = Some c, cu_next = clamp (acked_index rep batch) (length es) \<rparr>"
        have "clamp (acked_index rep batch) (length es) \<le> length (stored (sy_world t))"
          using post(3) [OF Inr Stored] .
        then have "cursor_ok c (length (stored (sy_world t))) ?cu" by (simp add: cursor_ok_def)
        note cu = set_cursor_inv [OF post(1) this]
        have "pass_inv E c stored es (fst (?book (fst (set_cursor E ?cu t))))"
          using book cu(1) unfolding keeps_def by blast
        then show ?thesis
          unfolding eq Stored outcome.case by (intro Suc.IH) (simp_all add: book_cursor cu(2))
      next
        case Gap
        let ?cu = "\<lparr> cu_chain = Some c, cu_next = clamp (case as_int (map_of (ry_body rep) ''next_index'') of None \<Rightarrow> 0 | Some i \<Rightarrow> i) (length es) \<rparr>"
        have "cursor_ok c (length (stored (sy_world t))) ?cu" using post(4) [OF Inr Gap] by (simp add: cursor_ok_def)
        note cu = set_cursor_inv [OF post(1) this]
        show ?thesis
          unfolding eq Gap outcome.case using cu by (intro Suc.IH) simp_all
      next
        case Permanent
        show ?thesis
          unfolding eq Permanent outcome.case using post(1) pass_inv_failed [of E c stored es now] by (simp add: keeps_def seq_def bind_def failed_def)
      next
        case Transient
        show ?thesis
          unfolding eq Transient outcome.case using post(1) pass_inv_failed [of E c stored es now] by (simp add: keeps_def seq_def bind_def failed_def)
      qed
    qed
  qed
qed simp

lemma push_journal_inv:
  assumes h: "honest E c stored" and s: "mirror_inv E c stored s"
  shows "mirror_inv E c stored (fst (push_journal E now s))"
proof (cases "read_journal (se_sha256 E) (se_prev_of E) (se_journal E (sy_world s))")
  case (Inl e)
  then show ?thesis using s by (simp add: push_journal_def)
next
  case (Inr jr)
  define es where "es = jd_entries jr"
  have es: "entries_in E (sy_world s) = es" by (simp add: entries_in_def Inr es_def)
  have c: "es \<noteq> []" "je_hash (hd es) = c" using s by (auto simp: mirror_inv_def es Let_def)
  define s1 where "s1 = s\<lparr> sy_journal_problem := jd_problem jr, sy_journal_len := length es \<rparr>"
  have s1: "pass_inv E c stored es s1" using s by (simp add: pass_inv_def s1_def mirror_inv_def es)
  define fix_cursor where "fix_cursor = (if Some c \<noteq> cu_chain (sy_cursor s) then set_cursor E \<lparr> cu_chain = Some c, cu_next = 0 \<rparr>
      else if length es < cu_next (sy_cursor s) then set_cursor E \<lparr> cu_chain = Some c, cu_next = length es \<rparr> else ret ())"
  have "push_journal E now s = seq fix_cursor (push_batches E now es (Some c) MAX_BATCHES_PER_PASS False) s1"
    unfolding push_journal_def fix_cursor_def using c by (simp add: Inr Let_def es_def [symmetric] s1_def)
  moreover have "snd (fix_cursor s1) = Inr ()" by (simp add: fix_cursor_def set_cursor_def)
  ultimately have eq: "push_journal E now s = push_batches E now es (Some c) MAX_BATCHES_PER_PASS False (fst (fix_cursor s1))"
    by (metis prod.collapse seq_Inr)
  have ok: "cursor_ok c (length (stored (sy_world s1))) (sy_cursor s)"
    using s by (simp add: mirror_inv_def s1_def Let_def)
  have "length (stored (sy_world s1)) \<le> length es"
    using s by (auto simp: mirror_inv_def s1_def Let_def es prefix_length_le)
  then have "pass_inv E c stored es (fst (fix_cursor s1)) \<and> cu_chain (sy_cursor (fst (fix_cursor s1))) = Some c"
    using s1 ok set_cursor_inv [OF s1] unfolding fix_cursor_def cursor_ok_def
    by (auto simp: s1_def)
  then show ?thesis unfolding eq using push_batches_inv [OF h] by (simp add: pass_inv_def)
qed

lemma keeps_pass_mirror: "keeps (pass_inv E c stored []) m \<Longrightarrow> keeps (mirror_inv E c stored) m"
  by (simp add: keeps_def pass_inv_def)

lemma run_once_inv:
  assumes "honest E c stored" shows "keeps (mirror_inv E c stored) (run_once E)"
proof -
  have "keeps (mirror_inv E c stored) (push_journal E now)" for now
    using push_journal_inv [OF assms] by (simp add: keeps_def)
  moreover note keeps_pass_mirror [OF pass_inv_report [OF assms]] keeps_pass_mirror [OF pass_inv_failed]
    keeps_pass_mirror [OF pass_inv_outside [OF honest_quiet(1) [OF assms]]]
  ultimately show ?thesis
    unfolding run_once_def by (intro keeps_rules) auto
qed

lemma mirror_step_inv:
  assumes "mirror_step E stored s t" "honest E c stored" "mirror_inv E c stored s"
  shows "mirror_inv E c stored t"
  using assms
proof cases
  case pass
  then show ?thesis using run_once_inv [OF assms(2)] assms(3) by (simp add: keeps_def)
next
  case (elsewhere w)
  have "prefix (stored w) (entries_in E w)"
    using elsewhere(2,3) assms(3) prefix_order.trans by (fastforce simp: mirror_inv_def Let_def)
  then show ?thesis using elsewhere assms(3) by (auto intro!: mirror_inv_world)
next
  case (restarted f)
  then show ?thesis
    using assms(3) by (auto simp: mirror_inv_def new_sync_def Let_def cursor_ok_def load_cursor_def start_cursor_def)
qed

text \<open>
  C26. The mirror never skips an entry: from a first start with no cursor, over any passes, requests lost before or
  after they are stored, entries the router appends meanwhile and restarts that keep or lose the cursor file, the
  website's copy of the journal is a prefix of it and the cursor, which says where the next pass sends from, is at
  most the length of that copy.
\<close>

theorem mirror_never_skips:
  assumes "honest E c stored" "entries_in E w \<noteq> []" "je_hash (hd (entries_in E w)) = c" "prefix (stored w) (entries_in E w)"
    and "(mirror_step E stored)\<^sup>*\<^sup>* (new_sync No_Cursor_File w) s"
  shows "prefix (stored (sy_world s)) (entries_in E (sy_world s)) \<and>
    (cu_chain (sy_cursor s) = Some c \<longrightarrow> cu_next (sy_cursor s) \<le> length (stored (sy_world s)))"
proof -
  have "mirror_inv E c stored (new_sync No_Cursor_File w)"
    using assms(2-4) by (simp add: mirror_inv_def new_sync_def cursor_ok_def load_cursor_def start_cursor_def)
  with assms(5) have "mirror_inv E c stored s"
    by (induction rule: rtranclp_induct) (auto intro: mirror_step_inv [OF _ assms(1)])
  then show ?thesis
    by (auto simp: mirror_inv_def Let_def cursor_ok_def)
qed

section \<open>Catching up\<close>

text \<open>A website that answers every batch: with 2xx one that continues its copy, with a gap one that does not.\<close>

definition answering :: "'w sync_env \<Rightarrow> string \<Rightarrow> ('w \<Rightarrow> journal_entry list) \<Rightarrow> bool" where
  "answering E c stored \<longleftrightarrow>
     (\<forall>url body batch headers w. batch \<noteq> [] \<longrightarrow>
        (\<exists>r. reply_of (se_parse E) (snd (se_post E url body (journal_payload c batch) headers w)) = Inr r \<and>
             classify r = (if je_index (hd batch) \<le> length (stored w) then Stored else Gap)))"

lemma set_cursor_simps [simp]:
  "sy_cursor (fst (set_cursor E cu s)) = cu" "sy_world (fst (set_cursor E cu s)) = sy_world s"
  by (auto simp: set_cursor_def)

lemma copy_ok_cong: "sy_world t = sy_world s \<Longrightarrow> copy_ok E stored es t = copy_ok E stored es s"
  by (simp add: copy_ok_def)

text \<open>The round that stores a batch, and the one that is sent back.\<close>

lemma push_batches_stored:
  assumes "honest E c stored" "answering E c stored" "copy_ok E stored es s" "cu_next (sy_cursor s) < length es"
    "cu_next (sy_cursor s) \<le> length (stored (sy_world s))"
  obtains u where "push_batches E now es (Some c) (Suc n) d s = push_batches E now es (Some c) n True u"
    "copy_ok E stored es u" "cu_chain (sy_cursor u) = Some c" "cu_next (sy_cursor u) \<le> length (stored (sy_world u))"
    "min (length es) (cu_next (sy_cursor s) + BATCH_SIZE) \<le> cu_next (sy_cursor u)" "cu_next (sy_cursor u) \<le> length es"
proof -
  define batch where b: "batch = take BATCH_SIZE (drop (cu_next (sy_cursor s)) es)"
  have b0: "batch \<noteq> []" using assms(4) by (simp add: b BATCH_SIZE_def)
  have ne: "drop (cu_next (sy_cursor s)) es \<noteq> []" using assms(4) by simp
  obtain t r where p: "sync_post E (journal_payload c batch) s = (t, r)" by fastforce
  note elim = journal_post [OF assms(1,3) b b0 p]
  obtain rep where rep: "r = Inr rep" "classify rep = Stored"
    by (rule elim) (use assms(2,5) b0 in \<open>unfold answering_def, metis snd_conv\<close>)
  have t: "copy_ok E stored es t" "cu_next (sy_cursor s) + length batch \<le> length (stored (sy_world t))"
    "acked_index rep batch = int (length (stored (sy_world t))) \<or> acked_index rep batch = int (cu_next (sy_cursor s) + length batch)"
    by (rule elim; use rep in force)+
  define u where "u = fst (seq (succeeded now) (if list_ex (\<lambda>e. event_of E (je_raw e) \<in> set PLAN_CLOSING_EVENTS) batch
                      then update (\<lambda>s. s\<lparr> sy_account_due := True \<rparr>) else ret ())
                 (fst (set_cursor E \<lparr> cu_chain = Some c, cu_next = clamp (acked_index rep batch) (length es) \<rparr> t)))"
  have u: "sy_cursor u = \<lparr> cu_chain = Some c, cu_next = clamp (acked_index rep batch) (length es) \<rparr>" "sy_world u = sy_world t"
    by (simp_all add: u_def seq_def bind_def succeeded_def)
  have ln: "length batch = min BATCH_SIZE (length es - cu_next (sy_cursor s))" by (simp add: b min.commute)
  show ?thesis
  proof (rule that [of u])
    show "push_batches E now es (Some c) (Suc n) d s = push_batches E now es (Some c) n True u"
      unfolding push_batches_step [OF ne] b [symmetric] Let_def p prod.case rep sum.case outcome.case u_def ..
    show "copy_ok E stored es u" using t(1) copy_ok_cong [OF u(2)] by simp
    show "cu_chain (sy_cursor u) = Some c" by (simp add: u)
    show "cu_next (sy_cursor u) \<le> length (stored (sy_world u))" using t(2,3) by (auto simp: u)
    show "min (length es) (cu_next (sy_cursor s) + BATCH_SIZE) \<le> cu_next (sy_cursor u)"
      using t(2,3) assms(4) unfolding u by (elim disjE) (simp_all add: ln)
    show "cu_next (sy_cursor u) \<le> length es" by (simp add: u clamp_le)
  qed
qed

lemma push_batches_gap:
  assumes "honest E c stored" "answering E c stored" "copy_ok E stored es s" "cu_next (sy_cursor s) < length es"
    "length (stored (sy_world s)) < cu_next (sy_cursor s)"
  obtains u where "push_batches E now es (Some c) (Suc n) d s = push_batches E now es (Some c) n d u"
    "copy_ok E stored es u" "cu_chain (sy_cursor u) = Some c" "stored (sy_world u) = stored (sy_world s)"
    "cu_next (sy_cursor u) = length (stored (sy_world s))"
proof -
  define batch where b: "batch = take BATCH_SIZE (drop (cu_next (sy_cursor s)) es)"
  have b0: "batch \<noteq> []" using assms(4) by (simp add: b BATCH_SIZE_def)
  have ne: "drop (cu_next (sy_cursor s)) es \<noteq> []" using assms(4) by simp
  obtain t r where p: "sync_post E (journal_payload c batch) s = (t, r)" by fastforce
  note elim = journal_post [OF assms(1,3) b b0 p]
  obtain rep where rep: "r = Inr rep" "classify rep = Gap"
    by (rule elim) (use assms(2,5) b0 in \<open>unfold answering_def, metis snd_conv not_less\<close>)
  have t: "copy_ok E stored es t" "as_int (map_of (ry_body rep) ''next_index'') = Some (int (length (stored (sy_world t))))"
    "stored (sy_world t) = stored (sy_world s)"
    by (rule elim; use rep in force)+
  define u where "u = fst (set_cursor E \<lparr> cu_chain = Some c,
                  cu_next = clamp (case as_int (map_of (ry_body rep) ''next_index'') of None \<Rightarrow> 0 | Some i \<Rightarrow> i) (length es) \<rparr> t)"
  show ?thesis
  proof (rule that [of u])
    show "push_batches E now es (Some c) (Suc n) d s = push_batches E now es (Some c) n d u"
      unfolding push_batches_step [OF ne] b [symmetric] Let_def p prod.case rep sum.case outcome.case u_def ..
    show "copy_ok E stored es u" using t(1) copy_ok_cong [of u t] by (simp add: u_def)
  qed (use t(2,3) assms(4,5) in \<open>simp_all add: u_def\<close>)
qed

lemma push_batches_catch:
  assumes h: "honest E c stored" "answering E c stored"
  shows "copy_ok E stored es s \<Longrightarrow> cu_chain (sy_cursor s) = Some c \<Longrightarrow> cu_next (sy_cursor s) \<le> length (stored (sy_world s)) \<Longrightarrow>
    cu_next (sy_cursor s) \<le> length es \<Longrightarrow> length es \<le> cu_next (sy_cursor s) + BATCH_SIZE * m \<Longrightarrow> d \<or> cu_next (sy_cursor s) < length es \<Longrightarrow>
    \<exists>t. push_batches E now es (Some c) m d s = (t, Inr (Some True)) \<and> copy_ok E stored es t \<and>
        sy_cursor t = \<lparr> cu_chain = Some c, cu_next = length es \<rparr> \<and> length es \<le> length (stored (sy_world t))"
proof (induction m arbitrary: s d)
  case 0
  then show ?case by (intro exI [of _ s]) (simp add: cursor.equality)
next
  case (Suc m)
  show ?case
  proof (cases "cu_next (sy_cursor s) < length es")
    case False
    then show ?thesis using Suc.prems by (intro exI [of _ s]) (simp add: cursor.equality)
  next
    case True
    obtain u where u: "push_batches E now es (Some c) (Suc m) d s = push_batches E now es (Some c) m True u"
      "copy_ok E stored es u" "cu_chain (sy_cursor u) = Some c" "cu_next (sy_cursor u) \<le> length (stored (sy_world u))"
      "min (length es) (cu_next (sy_cursor s) + BATCH_SIZE) \<le> cu_next (sy_cursor u)" "cu_next (sy_cursor u) \<le> length es"
      by (rule push_batches_stored [OF h Suc.prems(1) True Suc.prems(3)])
    have "length es \<le> cu_next (sy_cursor u) + BATCH_SIZE * m" using u(5) Suc.prems(5) by auto
    from Suc.IH [OF u(2,3,4,6) this] u(1) show ?thesis by simp
  qed
qed

section \<open>A concrete website\<close>

text \<open>
  A journal of two lines, each hashed to itself and naming the one before in all but its first letter, and a website
  that stores what continues its copy and answers with as many letters as its copy has entries.
\<close>

fun entry_of_json :: "json \<Rightarrow> journal_entry" where
  "entry_of_json (JObj [(_, JInt i), (_, JStr h), (_, JStr p), (_, JStr r)]) =
     \<lparr> je_index = nat i, je_hash = h, je_prev = p, je_raw = r \<rparr>"
| "entry_of_json _ = \<lparr> je_index = 0, je_hash = [], je_prev = [], je_raw = [] \<rparr>"

definition demo_post ::
  "string \<Rightarrow> string \<Rightarrow> receipt \<Rightarrow> (string \<times> string) list \<Rightarrow> string \<times> journal_entry list \<Rightarrow> (string \<times> journal_entry list) \<times> post_answer" where
  "demo_post url body payload headers w =
     (case map_of payload ''entries'' of
        Some (JArr js) \<Rightarrow>
          (let batch = map entry_of_json js; old = snd w in
           if je_index (hd batch) \<le> length old
           then ((fst w, merged old batch), Answer 200 (replicate (length (merged old batch)) CHR ''x''))
           else (w, Answer 409 (replicate (length old) CHR ''x'')))
      | _ \<Rightarrow> (w, Answer 200 []))"

definition demo_env :: "(string \<times> journal_entry list) sync_env" where
  "demo_env =
     \<lparr> se_settings = \<lparr> st_url = ''u'', st_secret = ''s'' \<rparr>, se_sha256 = (\<lambda>x. x), se_hmac = (\<lambda>_ _. ''d''),
       se_prev_of = (\<lambda>raw. Some (Some (tl raw))), se_event_of = (\<lambda>_. None),
       se_parse = (\<lambda>t. Some (JObj [(''error'', JStr ''gap''), (''next_index'', JInt (int (length t)))])),
       se_iso = (\<lambda>_. ''t''), se_show = (\<lambda>_. ''e''), se_mix = [], se_journal = (\<lambda>w. Text (fst w)), se_can_save = (\<lambda>_. True),
       se_clock = (\<lambda>w. (w, 0)), se_time = (\<lambda>w. (w, 0)), se_sleep = (\<lambda>_ w. w), se_post = demo_post,
       se_status = (\<lambda>_. Inl KeyError), se_account = (\<lambda>w. (w, Inl KeyError)), se_positions = (\<lambda>w. (w, Inl KeyError)) \<rparr>"

definition demo_text :: string where
  "demo_text = ''a'' @ [char_of (10::nat)] @ ''ba'' @ [char_of (10::nat)]"

definition demo_entries :: "journal_entry list" where
  "demo_entries = [\<lparr> je_index = 0, je_hash = ''a'', je_prev = [], je_raw = ''a'' \<rparr>,
                   \<lparr> je_index = 1, je_hash = ''ba'', je_prev = ''a'', je_raw = ''ba'' \<rparr>]"

lemma demo_journal: "read_journal (se_sha256 demo_env) (se_prev_of demo_env) (se_journal demo_env (demo_text, d)) =
    Inr \<lparr> jd_entries = demo_entries, jd_problem = None \<rparr>"
proof -
  have "read_journal (\<lambda>x. x) (\<lambda>raw. Some (Some (tl raw))) (Text demo_text) = Inr \<lparr> jd_entries = demo_entries, jd_problem = None \<rparr>"
    by code_simp
  then show ?thesis by (simp add: demo_env_def)
qed

lemma entry_of_json_entry [simp]: "entry_of_json (entry_json e) = e"
  by (simp add: entry_json_def)

lemma demo_post_journal:
  "demo_post url body (journal_payload c batch) headers w =
     (if je_index (hd batch) \<le> length (snd w)
      then ((fst w, merged (snd w) batch), Answer 200 (replicate (length (merged (snd w) batch)) CHR ''x''))
      else (w, Answer 409 (replicate (length (snd w)) CHR ''x'')))"
proof -
  have "map_of (journal_payload c batch) ''entries'' = Some (JArr (map entry_json batch))"
    by (simp add: journal_payload_def del: json_text.simps)
  moreover have "map (entry_of_json \<circ> entry_json) batch = batch" by (rule map_idI) simp
  ultimately show ?thesis by (simp add: demo_post_def Let_def)
qed

lemma demo_replies:
  "reply_of (se_parse demo_env) (Answer 200 t) = Inr r \<Longrightarrow>
     classify r = Stored \<and> map_of (ry_body r) ''next_index'' = Some (JInt (int (length t)))"
  "reply_of (se_parse demo_env) (Answer 409 t) = Inr r \<Longrightarrow>
     classify r = Gap \<and> map_of (ry_body r) ''next_index'' = Some (JInt (int (length t)))"
  by (auto simp: reply_of_def demo_env_def classify_def as_int_def Let_def simp del: json_text.simps)

lemma demo_fields:
  "se_post demo_env = demo_post" "se_clock demo_env = (\<lambda>w. (w, 0))" "se_time demo_env = (\<lambda>w. (w, 0))"
  "se_account demo_env = (\<lambda>w. (w, Inl KeyError))" "se_positions demo_env = (\<lambda>w. (w, Inl KeyError))"
  by (simp_all add: demo_env_def)

lemma demo_entries_in: "fst w = fst w' \<Longrightarrow> entries_in demo_env w = entries_in demo_env w'"
  by (simp add: entries_in_def demo_env_def)

lemma demo_post_fst: "fst (fst (demo_post url body p headers w)) = fst w"
  by (auto simp: demo_post_def Let_def split: option.splits json.splits)

lemma demo_answers:
  "journal_answer demo_env batch (snd w) (snd (fst (demo_post url body (journal_payload c batch) headers w)))
     (snd (demo_post url body (journal_payload c batch) headers w))"
  by (auto simp: demo_post_journal journal_answer_def as_int_def dest!: demo_replies)

lemma demo_quiet: "quiet demo_env snd (\<lambda>w. (w, x))"
  by (simp add: quiet_def)

lemma demo_honest: "honest demo_env c snd"
proof -
  have "journal_answer demo_env batch (snd w) (snd w') a \<and> prefix (entries_in demo_env w) (entries_in demo_env w')"
    if "demo_post url body (journal_payload c batch) headers w = (w', a)" for url body batch headers w w' a
    using demo_answers [of batch w url body c headers] demo_entries_in [OF demo_post_fst, of url body "journal_payload c batch" headers w]
    by (simp add: that)
  moreover have "quiet demo_env snd (demo_post url body (report_payload t st acct) headers)" for url body t st acct headers
    unfolding quiet_def by (auto simp: demo_post_def report_payload_def)
  ultimately show ?thesis
    unfolding honest_def demo_fields by (simp add: demo_quiet)
qed

lemma demo_answering: "answering demo_env c snd"
proof -
  have "\<exists>r. reply_of (se_parse demo_env) (Answer 200 t) = Inr r \<and> classify r = Stored"
    "\<exists>r. reply_of (se_parse demo_env) (Answer 409 t) = Inr r \<and> classify r = Gap" for t
    using demo_replies [of t] by (simp_all add: reply_of_def Let_def)
  then show ?thesis
    unfolding answering_def demo_fields by (simp add: demo_post_journal)
qed

theorem mirror_never_skips_witness:
  "let s = fst (run_once demo_env (new_sync No_Cursor_File (demo_text, []))) in
    prefix (snd (sy_world s)) (entries_in demo_env (sy_world s)) \<and>
    (if cu_chain (sy_cursor s) = Some ''a'' then cu_next (sy_cursor s) \<le> length (snd (sy_world s)) else True)"
proof -
  define s where "s = fst (run_once demo_env (new_sync No_Cursor_File (demo_text, [])))"
  have e: "entries_in demo_env (demo_text, []) = demo_entries" by (simp add: entries_in_def demo_journal)
  have "(mirror_step demo_env snd)\<^sup>*\<^sup>* (new_sync No_Cursor_File (demo_text, [])) s"
    unfolding s_def by (intro r_into_rtranclp mirror_step.pass)
  then have "prefix (snd (sy_world s)) (entries_in demo_env (sy_world s)) \<and>
      (cu_chain (sy_cursor s) = Some ''a'' \<longrightarrow> cu_next (sy_cursor s) \<le> length (snd (sy_world s)))"
    by (intro mirror_never_skips [OF demo_honest [of "''a''"]]) (simp_all add: e demo_entries_def)
  then show ?thesis unfolding Let_def s_def [symmetric] by simp
qed



end
