(* ===== verification/Daily_Market.thy ===== *)
theory Daily_Market imports Costs begin

text \<open>
  \<open>backtest/daily.py\<close>: the daily prices the portfolio engine trades on, and the view of them that a decision at one
  session may read. A bar price is the decimal its float prints as. A dict of bars by date is an association list.
  An index into a Python list may be negative and then counts from the end. \<open>DailyMarket.load\<close> (parquet files) and
  the conversion of bar times to dates are left out.
\<close>

definition PUBLISHED_AFTER :: instant where "PUBLISHED_AFTER = minutes 15"
definition BAR :: instant where "BAR = minutes 5"
definition MAX_STALENESS :: instant where "MAX_STALENESS = minutes 60"

text \<open>\<open>xs[i]\<close> of a Python list.\<close>

definition py_nth :: "'a list \<Rightarrow> int \<Rightarrow> 'a result" where
  "py_nth xs i =
     (if 0 \<le> i \<and> i < int (length xs) then Inr (xs ! nat i)
      else if - int (length xs) \<le> i \<and> i < 0 then Inr (xs ! nat (int (length xs) + i))
      else Inl IndexError)"

section \<open>The market\<close>

type_synonym bars = "(date \<times> (decimal \<times> decimal)) list"

record daily_market =
  dm_sessions :: "session list"
  dm_crypto :: "string list"
  dm_open :: "(string \<times> decimal option list) list"
  dm_close :: "(string \<times> decimal option list) list"
  dm_raw_close :: "(string \<times> decimal option list) list"

definition dm_dates :: "daily_market \<Rightarrow> date list" where
  "dm_dates m = map sess_date (dm_sessions m)"

definition mk_daily_market :: "session list \<Rightarrow> (string \<times> bars) list \<Rightarrow> (string \<times> bars) list \<Rightarrow> string list \<Rightarrow> daily_market" where
  "mk_daily_market ss adjusted raw crypto =
     (let ds = map sess_date ss in
      \<lparr> dm_sessions = ss, dm_crypto = crypto,
        dm_open = map (\<lambda>(s, b). (s, map (\<lambda>d. map_option fst (map_of b d)) ds)) adjusted,
        dm_close = map (\<lambda>(s, b). (s, map (\<lambda>d. map_option snd (map_of b d)) ds)) adjusted,
        dm_raw_close = map (\<lambda>(s, b). (s, map (\<lambda>d. map_option snd (map_of (case map_of raw s of None \<Rightarrow> b | Some r \<Rightarrow> r) d)) ds)) adjusted \<rparr>)"

definition bar_at :: "(string \<times> decimal option list) list \<Rightarrow> string \<Rightarrow> int \<Rightarrow> decimal result" where
  "bar_at d symbol k =
     ebind (eget d symbol) (\<lambda>xs.
     ebind (py_nth xs k) (\<lambda>v.
     case v of None \<Rightarrow> Inl KeyError | Some x \<Rightarrow> Inr x))"

definition dm_index :: "daily_market \<Rightarrow> date \<Rightarrow> nat result" where
  "dm_index m d = (case index_of (dm_sessions m) d of None \<Rightarrow> Inl KeyError | Some k \<Rightarrow> Inr k)"

definition dm_has :: "daily_market \<Rightarrow> string \<Rightarrow> int \<Rightarrow> bool result" where
  "dm_has m symbol k =
     ebind (eget (dm_close m) symbol) (\<lambda>cs. ebind (py_nth cs k) (\<lambda>c.
     if c = None then Inr False
     else ebind (eget (dm_open m) symbol) (\<lambda>os. ebind (py_nth os k) (\<lambda>o'. Inr (o' \<noteq> None)))))"

fun first_some :: "nat \<Rightarrow> 'a option list \<Rightarrow> nat option" where
  "first_some k [] = None"
| "first_some k (x # xs) = (if x \<noteq> None then Some k else first_some (Suc k) xs)"

definition dm_first_index :: "daily_market \<Rightarrow> string \<Rightarrow> nat result" where
  "dm_first_index m symbol =
     ebind (eget (dm_close m) symbol) (\<lambda>cs.
     case first_some 0 cs of None \<Rightarrow> Inl (RuntimeError ''StopIteration'') | Some k \<Rightarrow> Inr k)"

definition market_open :: "daily_market \<Rightarrow> string \<Rightarrow> int \<Rightarrow> decimal result" where
  "market_open m symbol k = bar_at (dm_open m) symbol k"

definition market_close :: "daily_market \<Rightarrow> string \<Rightarrow> int \<Rightarrow> decimal result" where
  "market_close m symbol k = bar_at (dm_close m) symbol k"

definition market_factor :: "daily_market \<Rightarrow> string \<Rightarrow> int \<Rightarrow> decimal result" where
  "market_factor m symbol k =
     (if symbol \<in> set (dm_crypto m) then Inr (Dec 1 0)
      else
        ebind (bar_at (dm_raw_close m) symbol k) (\<lambda>raw.
        ebind (market_close m symbol k) (\<lambda>c. ddiv c raw)))"

definition asset_class :: "daily_market \<Rightarrow> string \<Rightarrow> string" where
  "asset_class m symbol = (if symbol \<in> set (dm_crypto m) then ''crypto'' else ''equity'')"

definition decision_at :: "daily_market \<Rightarrow> int \<Rightarrow> instant result" where
  "decision_at m k = emap (\<lambda>s. close_at s + PUBLISHED_AFTER) (py_nth (dm_sessions m) k)"

definition published_by :: "daily_market \<Rightarrow> instant \<Rightarrow> int" where
  "published_by m t =
     foldl max (-1) (map (\<lambda>(k, s). int k) (filter (\<lambda>(k, s). close_at s + PUBLISHED_AFTER \<le> t) (enumerate 0 (dm_sessions m))))"

section \<open>What a decision may read\<close>

record daily_view =
  dv_market :: daily_market
  dv_k :: int
  dv_at :: instant
  dv_date :: date

definition mk_view :: "daily_market \<Rightarrow> int \<Rightarrow> daily_view result" where
  "mk_view m k =
     ebind (decision_at m k) (\<lambda>t.
     ebind (py_nth (dm_dates m) k) (\<lambda>d.
     Inr \<lparr> dv_market = m, dv_k = k, dv_at = t, dv_date = d \<rparr>))"

text \<open>\<open>_close[symbol][first:k + 1]\<close>; \<open>first\<close> is not negative here, \<open>k + 1\<close> neither.\<close>

definition view_closes :: "daily_view \<Rightarrow> string \<Rightarrow> int \<Rightarrow> decimal list result" where
  "view_closes v symbol n =
     (let first = dv_k v - n + 1 in
      if first < 0 then Inl LookAheadError
      else
        ebind (eget (dm_close (dv_market v)) symbol) (\<lambda>cs.
        let series = drop (nat first) (take (nat (dv_k v + 1)) cs) in
        if None \<in> set series then Inl KeyError else Inr (map the series)))"

definition view_close :: "daily_view \<Rightarrow> string \<Rightarrow> decimal result" where
  "view_close v symbol = market_close (dv_market v) symbol (dv_k v)"

definition at_or_before :: "daily_view \<Rightarrow> instant \<Rightarrow> bool" where
  "at_or_before v t \<longleftrightarrow> t \<le> dv_at v"

definition view_require :: "daily_view \<Rightarrow> int \<Rightarrow> unit result" where
  "view_require v k =
     (if int (length (dm_sessions (dv_market v))) \<le> k then Inl LookAheadError
      else
        ebind (decision_at (dv_market v) k) (\<lambda>t.
        if dv_at v < t then Inl LookAheadError else Inr ()))"

section \<open>Bitcoin on the exchange's grid\<close>

text \<open>
  \<open>t\<close>, \<open>o\<close>, \<open>c\<close> are the 5-minute bars' starts, opens and closes, of one length. An entry of \<open>o[j]\<close>, \<open>c[i]\<close> beyond
  a shorter list would be an \<open>IndexError\<close>.
\<close>

definition btc_sample ::
  "instant list \<Rightarrow> decimal list \<Rightarrow> decimal list \<Rightarrow> session \<Rightarrow> (date \<times> (decimal \<times> decimal)) option result" where
  "btc_sample starts os cs s =
     (if close_at s < hd starts + BAR \<or> last starts < open_at s then Inr None
      else
        let j = bisect_left starts (open_at s) in
        if length starts \<le> j \<or> MAX_STALENESS < starts ! j - open_at s then Inl StaleSample
        else
          let i = int (bisect_right starts (close_at s - BAR)) - 1 in
          if i < 0 \<or> MAX_STALENESS < close_at s - (starts ! nat i + BAR) then Inl StaleSample
          else
            ebind (py_nth os (int j)) (\<lambda>opn.
            ebind (py_nth cs i) (\<lambda>cls.
            Inr (Some (sess_date s, (opn, cls))))))"

definition btc_samples :: "session list \<Rightarrow> instant list \<Rightarrow> decimal list \<Rightarrow> decimal list \<Rightarrow> bars result" where
  "btc_samples ss starts os cs =
     (if starts = [] then Inr []
      else emap (\<lambda>rs. dict_of (List.map_filter id rs)) (etraverse (btc_sample starts os cs) ss))"

section \<open>What the engine needs of a market\<close>

text \<open>\<open>Prices\<close>, the protocol \<open>simulate\<close> takes: a core market provides it, and so do phase 1's bars.\<close>

record prices =
  px_sessions :: "session list"
  px_open :: "string \<Rightarrow> int \<Rightarrow> decimal result"
  px_close :: "string \<Rightarrow> int \<Rightarrow> decimal result"
  px_factor :: "string \<Rightarrow> int \<Rightarrow> decimal result"
  px_asset_class :: "string \<Rightarrow> string"
  px_view :: "int \<Rightarrow> daily_view result"

definition prices_of :: "daily_market \<Rightarrow> prices" where
  "prices_of m =
     \<lparr> px_sessions = dm_sessions m, px_open = market_open m, px_close = market_close m, px_factor = market_factor m,
       px_asset_class = asset_class m, px_view = mk_view m \<rparr>"

definition phase1_bar :: "session list \<Rightarrow> (string \<times> bars) list \<Rightarrow> string \<Rightarrow> int \<Rightarrow> (decimal \<times> decimal) result" where
  "phase1_bar ss daily symbol k =
     ebind (eget daily symbol) (\<lambda>b. ebind (py_nth ss k) (\<lambda>s. eget b (sess_date s)))"

definition phase1_prices :: "session list \<Rightarrow> (string \<times> bars) list \<Rightarrow> prices" where
  "phase1_prices ss daily =
     \<lparr> px_sessions = ss, px_open = (\<lambda>s k. emap fst (phase1_bar ss daily s k)), px_close = (\<lambda>s k. emap snd (phase1_bar ss daily s k)),
       px_factor = (\<lambda>_ _. Inr (Dec 1 0)), px_asset_class = (\<lambda>_. ''equity''), px_view = (\<lambda>_. Inl LookAheadError) \<rparr>"

section \<open>Markets that agree up to a session\<close>

text \<open>The same sessions and symbols, and the same bars up to session \<open>k\<close>; later bars may differ.\<close>

definition agree_series :: "nat \<Rightarrow> (string \<times> 'a list) list \<Rightarrow> (string \<times> 'a list) list \<Rightarrow> bool" where
  "agree_series k d d' \<longleftrightarrow>
     list_all2 (\<lambda>(s, xs) (s', xs'). s = s' \<and> length xs = length xs' \<and> take (Suc k) xs = take (Suc k) xs') d d'"

definition agree_upto :: "nat \<Rightarrow> daily_market \<Rightarrow> daily_market \<Rightarrow> bool" where
  "agree_upto k m m' \<longleftrightarrow>
     dm_sessions m = dm_sessions m' \<and> dm_crypto m = dm_crypto m' \<and> agree_series k (dm_open m) (dm_open m') \<and>
     agree_series k (dm_close m) (dm_close m') \<and> agree_series k (dm_raw_close m) (dm_raw_close m')"

text \<open>Two views that answer every question the same.\<close>

definition same_answers :: "daily_view \<Rightarrow> daily_view \<Rightarrow> bool" where
  "same_answers v v' \<longleftrightarrow>
     dv_k v = dv_k v' \<and> dv_at v = dv_at v' \<and> dv_date v = dv_date v' \<and>
     (\<forall>s n. view_closes v s n = view_closes v' s n) \<and> (\<forall>s. view_close v s = view_close v' s) \<and>
     (\<forall>k. view_require v k = view_require v' k)"

lemma agree_series_map_of:
  "agree_series k d d' \<Longrightarrow>
     (map_of d s = None \<and> map_of d' s = None) \<or>
     (\<exists>xs xs'. map_of d s = Some xs \<and> map_of d' s = Some xs' \<and> length xs = length xs' \<and> take (Suc k) xs = take (Suc k) xs')"
  unfolding agree_series_def by (induction rule: list_all2_induct) auto

lemma take_nth_eq: "take n xs = take n ys \<Longrightarrow> i < n \<Longrightarrow> i < length xs \<Longrightarrow> i < length ys \<Longrightarrow> xs ! i = ys ! i"
  by (metis nth_take)

lemma agree_bar_at:
  assumes "agree_series k d d'" "0 \<le> j" "j \<le> int k" shows "bar_at d s j = bar_at d' s j"
proof -
  have py: "py_nth xs j = py_nth xs' j" if "length xs = length xs'" "take (Suc k) xs = take (Suc k) xs'"
    for xs xs' :: "decimal option list"
  proof (cases "j < int (length xs)")
    case True
    then have "xs ! nat j = xs' ! nat j"
      using that assms(2,3) by (intro take_nth_eq [OF that(2)]) linarith+
    with True show ?thesis using that(1) assms(2) by (simp add: py_nth_def)
  next
    case False
    then show ?thesis using that(1) assms(2) by (simp add: py_nth_def)
  qed
  from agree_series_map_of [OF assms(1), of s] show ?thesis
  proof (elim disjE exE conjE)
    fix xs xs' assume "map_of d s = Some xs" "map_of d' s = Some xs'" "length xs = length xs'" "take (Suc k) xs = take (Suc k) xs'"
    then show ?thesis using py [of xs xs'] by (simp add: bar_at_def eget_def)
  qed (simp add: bar_at_def eget_def)
qed

lemma agree_market:
  assumes "agree_upto k m m'" "0 \<le> j" "j \<le> int k"
  shows "market_open m s j = market_open m' s j" "market_close m s j = market_close m' s j"
    "market_factor m s j = market_factor m' s j" "asset_class m s = asset_class m' s"
  using assms agree_bar_at [of k _ _ j s]
  by (auto simp: agree_upto_def market_open_def market_close_def market_factor_def asset_class_def)

lemma agree_view:
  assumes "agree_upto k m m'" "0 \<le> j" "j \<le> int k"
  shows "(\<exists>e. mk_view m j = Inl e \<and> mk_view m' j = Inl e) \<or>
         (\<exists>v v'. mk_view m j = Inr v \<and> mk_view m' j = Inr v' \<and> same_answers v v')"
proof -
  have ss: "dm_sessions m = dm_sessions m'" and cl: "agree_series k (dm_close m) (dm_close m')"
    using assms(1) by (auto simp: agree_upto_def)
  have d: "decision_at m = decision_at m'" "dm_dates m = dm_dates m'" by (auto simp: decision_at_def dm_dates_def ss)
  have closes: "view_closes v s n = view_closes v' s n"
    if "dv_market v = m" "dv_market v' = m'" "dv_k v = j" "dv_k v' = j" for v v' s n
  proof -
    have "take (nat (j + 1)) xs = take (nat (j + 1)) xs'" if "take (Suc k) xs = take (Suc k) xs'" for xs xs' :: "decimal option list"
    proof -
      have "nat (j + 1) \<le> Suc k" using assms(3) by simp
      then show ?thesis by (metis that min.absorb1 take_take)
    qed
    note tk = this
    from agree_series_map_of [OF cl, of s] show ?thesis
    proof (elim disjE exE conjE)
      fix xs xs' assume "map_of (dm_close m) s = Some xs" "map_of (dm_close m') s = Some xs'" "take (Suc k) xs = take (Suc k) xs'"
      then show ?thesis using tk [of xs xs'] by (simp add: view_closes_def eget_def that Let_def)
    qed (simp add: view_closes_def eget_def that Let_def)
  qed
  show ?thesis
  proof (cases "mk_view m j")
    case (Inl e)
    then show ?thesis by (auto simp: mk_view_def d ebind_Inl_iff)
  next
    case (Inr v)
    then obtain v' where v': "mk_view m' j = Inr v'" by (auto simp: mk_view_def d ebind_Inr_iff)
    have f: "dv_market v = m" "dv_k v = j" "dv_market v' = m'" "dv_k v' = j" "dv_at v = dv_at v'" "dv_date v = dv_date v'"
      using Inr v' by (auto simp: mk_view_def d ebind_Inr_iff)
    have "same_answers v v'"
      unfolding same_answers_def
      using f closes [OF f(1,3,2,4)] agree_market(2) [OF assms]
      by (auto simp: view_close_def view_require_def d ss)
    with Inr v' show ?thesis by blast
  qed
qed

end
