(* ===== verification/Portfolio_Engine.thy ===== *)
theory Portfolio_Engine imports Daily_Market Lots Raise_Cash begin

text \<open>
  \<open>backtest/portfolio.py\<close>: the long-term core's portfolio engine. Each session fills the pending plan at its open,
  marks at its close and decides at the close. The state of the loop is the record \<open>sim\<close>; the dicts a fill
  changes in place (units, holdings, the tax year, the day's fees) are in the record \<open>book\<close>, with the day it
  reports. A raise ends the simulation. \<open>weights\<close> of a specification is a function of the view (none where the
  specification needs none).
\<close>

definition ZERO :: decimal where "ZERO = Dec 0 0"
definition SELL_ROUNDING_USD :: decimal where "SELL_ROUNDING_USD = Dec 3 (-2)"

record profile =
  pf_name :: string
  pf_sizing :: string
  pf_fee_rounding :: "string option"
  pf_open_multiplier :: bool
  pf_breaker :: bool
  pf_drift_includes_cash :: bool
  pf_raw_fees :: bool

definition PHASE1 :: profile where
  "PHASE1 = \<lparr> pf_name = ''PHASE1'', pf_sizing = ''phase1'', pf_fee_rounding = Some ''per_order'', pf_open_multiplier = True,
              pf_breaker = False, pf_drift_includes_cash = False, pf_raw_fees = False \<rparr>"

definition CORE :: profile where
  "CORE = \<lparr> pf_name = ''CORE'', pf_sizing = ''core'', pf_fee_rounding = None, pf_open_multiplier = False,
            pf_breaker = True, pf_drift_includes_cash = True, pf_raw_fees = True \<rparr>"

datatype raise_method = By_Plan | By_Pro_Rata

record spec =
  sp_name :: string
  sp_symbols :: "string list"
  sp_weights :: "daily_view option \<Rightarrow> amounts result"
  sp_rule :: rule
  sp_capital :: decimal
  sp_min_order_usd :: decimal
  sp_cash_reserve_usd :: decimal
  sp_tax_rate :: decimal
  sp_lot_method :: lot_method
  sp_cash_needs :: "(date \<times> decimal) list"
  sp_needs_view :: bool
  sp_buffer_symbol :: "string option"
  sp_raise_method :: raise_method

record order_line =
  ol_symbol :: string
  ol_side :: string
  ol_units :: string
  ol_ref :: string
  ol_price :: string
  ol_fees :: string

record day =
  dy_date :: date
  dy_value :: decimal
  dy_cash :: decimal
  dy_weights :: amounts
  dy_traded :: decimal
  dy_exec_cost :: decimal
  dy_spread :: decimal
  dy_slippage :: decimal
  dy_fees :: decimal
  dy_tax :: decimal
  dy_flow :: decimal
  dy_realised :: decimal
  dy_rebalanced :: bool
  dy_deferred :: bool
  dy_decided :: "string option"
  dy_unrealised :: "decimal option"
  dy_tax_base_pending :: "decimal option"
  dy_orders :: "order_line list"
  dy_positions :: amounts

definition new_day :: "date \<Rightarrow> day" where
  "new_day d =
     \<lparr> dy_date = d, dy_value = ZERO, dy_cash = ZERO, dy_weights = [], dy_traded = ZERO, dy_exec_cost = ZERO, dy_spread = ZERO,
       dy_slippage = ZERO, dy_fees = ZERO, dy_tax = ZERO, dy_flow = ZERO, dy_realised = ZERO, dy_rebalanced = False,
       dy_deferred = False, dy_decided = None, dy_unrealised = None, dy_tax_base_pending = None, dy_orders = [],
       dy_positions = [] \<rparr>"

definition day_costs :: "day \<Rightarrow> decimal" where
  "day_costs d = dy_exec_cost d + dy_fees d"

record pending =
  pe_plan :: plan
  pe_value :: decimal
  pe_need :: decimal
  pe_tax :: decimal
  pe_initial :: bool

section \<open>Rates\<close>

definition fee_rate :: "cost_level \<Rightarrow> string \<Rightarrow> prices \<Rightarrow> string \<Rightarrow> decimal" where
  "fee_rate lv symbol P side =
     (if fee_rounding lv = ''none'' then ZERO
      else if px_asset_class P symbol = ''crypto'' then Dec 25 (-4)
      else if side = ''buy'' then Dec 1 (-5) else Dec 1 (-4))"

definition buy_fee_rate :: "cost_level \<Rightarrow> string \<Rightarrow> prices \<Rightarrow> decimal" where
  "buy_fee_rate lv symbol P = fee_rate lv symbol P ''buy''"

definition sale_cost_rate :: "cost_level \<Rightarrow> string \<Rightarrow> prices \<Rightarrow> string \<Rightarrow> decimal" where
  "sale_cost_rate lv symbol P side = half_spread lv symbol + slippage_bps lv * BPS + fee_rate lv symbol P side"

definition held_units :: "amounts \<Rightarrow> amounts" where
  "held_units qty = filter (\<lambda>(s, q). truthy q) qty"

definition weights_ex_cash :: "amounts \<Rightarrow> amounts \<Rightarrow> amounts result" where
  "weights_ex_cash qty closes =
     ebind (position_values truthy qty closes) (\<lambda>values.
     let total_usd = dsum (vals values) in
     if 0 < total_usd then etraverse (\<lambda>(s, v). emap (Pair s) (ddiv v total_usd)) values else Inr [])"

section \<open>Filling under phase 1\<close>

record book =
  bk_qty :: amounts
  bk_holdings :: "(string \<times> holding) list"
  bk_tax :: tax_year
  bk_cash :: decimal
  bk_daily_fees :: daily_fees
  bk_day :: day

definition phase1_order ::
  "prices \<Rightarrow> nat \<Rightarrow> cost_level \<Rightarrow> fee_table \<Rightarrow> string \<Rightarrow> date \<Rightarrow> pending \<Rightarrow> book \<Rightarrow> string \<Rightarrow> book result" where
  "phase1_order P k lv fees rounding d pd b s =
     ebind (px_open P s (int k)) (\<lambda>opn.
     ebind (eget (targets (pe_plan pd)) s) (\<lambda>w.
     ebind (ddiv (pe_value pd * w) opn) (\<lambda>u.
     ebind (quantize u QTY_QUANTUM ROUND_DOWN) (\<lambda>want.
     ebind (eget (bk_qty b) s) (\<lambda>q.
     let delta = want - q in
     if deq delta 0 then Inr b
     else
       let side = (if 0 < delta then ''buy'' else ''sell''); amount = \<bar>delta\<bar> in
       ebind (market_fill side opn s lv (open_multiplier lv)) (\<lambda>fill.
       ebind (order_fees fees d side amount (fp_price fill) rounding ''equity'') (\<lambda>fs.
       let charged = dsum (vals fs) in
       ebind (if side = ''buy'' then emap (\<lambda>x. bk_cash b - (x + charged)) (cash_debit amount (fp_price fill) lv)
              else emap (\<lambda>x. bk_cash b + (x - charged)) (cash_credit amount (fp_price fill) lv)) (\<lambda>cash.
       let y = bk_day b in
       Inr (b\<lparr> bk_cash := cash, bk_qty := AList.update s want (bk_qty b),
               bk_day := y\<lparr> dy_traded := dy_traded y + amount * opn,
                            dy_exec_cost := dy_exec_cost y + amount * \<bar>fp_price fill - opn\<bar>,
                            dy_fees := dy_fees y + charged \<rparr> \<rparr>)))))))))"

definition mark_rebalanced :: "book \<Rightarrow> book" where
  "mark_rebalanced b = b\<lparr> bk_day := (bk_day b)\<lparr> dy_rebalanced := True \<rparr> \<rparr>"

definition fill_phase1 ::
  "prices \<Rightarrow> spec \<Rightarrow> nat \<Rightarrow> cost_level \<Rightarrow> fee_table \<Rightarrow> string \<Rightarrow> date \<Rightarrow> pending \<Rightarrow> book \<Rightarrow> book result" where
  "fill_phase1 P sp k lv fees rounding d pd b =
     emap mark_rebalanced (efold (phase1_order P k lv fees rounding d pd) b (sp_symbols sp))"

section \<open>Filling a core plan\<close>

text \<open>The inner function \<open>charge\<close>: the fee of one order, and the day's exact fees it adds to.\<close>

definition charge ::
  "prices \<Rightarrow> nat \<Rightarrow> fee_table \<Rightarrow> string \<Rightarrow> date \<Rightarrow> string \<Rightarrow> string \<Rightarrow> decimal \<Rightarrow> decimal \<Rightarrow> daily_fees \<Rightarrow> (decimal \<times> daily_fees) result" where
  "charge P k fees rounding d symbol side units price df =
     (if rounding = ''none'' then Inr (ZERO, df)
      else
        ebind (px_factor P symbol (int k)) (\<lambda>factor.
        ebind (ddiv price factor) (\<lambda>raw_price.
        ebind (order_fees fees d side (units * factor) raw_price rounding (px_asset_class P symbol)) (\<lambda>exact.
        Inr (dsum (vals exact),
             if rounding = ''daily'' then daily_add d (map (\<lambda>(n, v). (px_asset_class P symbol @ '':'' @ n, v)) exact) df else df)))))"

definition book_order ::
  "string \<Rightarrow> string \<Rightarrow> decimal \<Rightarrow> decimal \<Rightarrow> fill_price \<Rightarrow> decimal \<Rightarrow> decimal \<times> decimal \<Rightarrow> day \<Rightarrow> day" where
  "book_order symbol side units opn fill fee h_sigma y =
     (let notional = units * opn in
      y\<lparr> dy_traded := dy_traded y + notional, dy_exec_cost := dy_exec_cost y + units * \<bar>fp_price fill - opn\<bar>,
         dy_spread := dy_spread y + notional * fst h_sigma, dy_slippage := dy_slippage y + notional * snd h_sigma,
         dy_fees := dy_fees y + fee,
         dy_orders := dy_orders y @ [\<lparr> ol_symbol = symbol, ol_side = side, ol_units = dec_str units, ol_ref = dec_str opn,
                                       ol_price = dec_str (fp_price fill), ol_fees = dec_str fee \<rparr>] \<rparr>)"

definition h_sigma :: "cost_level \<Rightarrow> string \<Rightarrow> decimal \<times> decimal" where
  "h_sigma lv s = (half_spread lv s, slippage_bps lv * BPS)"

definition fill_sell ::
  "prices \<Rightarrow> spec \<Rightarrow> nat \<Rightarrow> cost_level \<Rightarrow> fee_table \<Rightarrow> string \<Rightarrow> date \<Rightarrow> amounts \<Rightarrow> book \<Rightarrow> string \<Rightarrow> book result" where
  "fill_sell P sp k lv fees rounding d ss b s =
     ebind (eget ss s) (\<lambda>wanted.
     ebind (eget (bk_qty b) s) (\<lambda>q.
     let units = min wanted q in
     if units \<le> 0 then Inr b
     else
       ebind (px_open P s (int k)) (\<lambda>opn.
       ebind (market_fill ''sell'' opn s lv (Dec 1 0)) (\<lambda>fill.
       ebind (cash_credit units (fp_price fill) lv) (\<lambda>proceeds.
       ebind (charge P k fees rounding d s ''sell'' units (fp_price fill) (bk_daily_fees b)) (\<lambda>(fee, df).
       ebind (eget (bk_holdings b) s) (\<lambda>h.
       ebind (holding_sell (sp_lot_method sp) units h) (\<lambda>(h', basis).
       let gain = proceeds - fee - basis;
           y = book_order s ''sell'' units opn fill fee (h_sigma lv s) (bk_day b)
       in
       Inr (b\<lparr> bk_holdings := AList.update s h' (bk_holdings b), bk_tax := realise (year d) gain (bk_tax b),
               bk_cash := bk_cash b + (proceeds - fee), bk_qty := AList.update s (q - units) (bk_qty b), bk_daily_fees := df,
               bk_day := y\<lparr> dy_realised := dy_realised y + gain \<rparr> \<rparr>)))))))))"

text \<open>Cash set aside for tax and withdrawals; what it does not cover is carried.\<close>

definition pay_need :: "spec \<Rightarrow> pending \<Rightarrow> book \<Rightarrow> (book \<times> decimal) result" where
  "pay_need sp pd b =
     (if truthy (pe_need pd) then
        ebind (quantize (min (pe_need pd) (pmax (bk_cash b - sp_cash_reserve_usd sp) ZERO)) CENT ROUND_DOWN) (\<lambda>paid.
        let tax_paid = min (pe_tax pd) paid; y = bk_day b in
        Inr (b\<lparr> bk_cash := bk_cash b - paid,
                bk_day := y\<lparr> dy_tax := dy_tax y + tax_paid, dy_flow := dy_flow y + (paid - tax_paid) \<rparr> \<rparr>,
             pe_need pd - paid))
      else Inr (b, ZERO))"

definition fill_buy ::
  "prices \<Rightarrow> spec \<Rightarrow> nat \<Rightarrow> cost_level \<Rightarrow> fee_table \<Rightarrow> string \<Rightarrow> date \<Rightarrow> amounts \<Rightarrow> book \<Rightarrow> string \<Rightarrow> book result" where
  "fill_buy P sp k lv fees rounding d bs b s =
     ebind (eget bs s) (\<lambda>notional.
     if notional < sp_min_order_usd sp then Inr b
     else
       ebind (px_open P s (int k)) (\<lambda>opn.
       ebind (market_fill ''buy'' opn s lv (Dec 1 0)) (\<lambda>fill.
       ebind (ddiv notional (fp_price fill)) (\<lambda>u.
       ebind (quantize u QTY_QUANTUM ROUND_DOWN) (\<lambda>units.
       if units \<le> 0 then Inr b
       else
         ebind (cash_debit units (fp_price fill) lv) (\<lambda>debit.
         ebind (charge P k fees rounding d s ''buy'' units (fp_price fill) (bk_daily_fees b)) (\<lambda>(fee, df).
         Inr (b\<lparr> bk_cash := bk_cash b - (debit + fee), bk_qty := AList.update s (aget ZERO (bk_qty b) s + units) (bk_qty b),
                 bk_holdings := AList.update s (holding_buy units (debit + fee) d (aget [] (bk_holdings b) s)) (bk_holdings b),
                 bk_daily_fees := df,
                 bk_day := book_order s ''buy'' units opn fill fee (h_sigma lv s) (bk_day b) \<rparr>)))))))) "

definition rounding_allowance :: "cost_level \<Rightarrow> amounts \<Rightarrow> decimal" where
  "rounding_allowance lv bs = (if round_prices lv then CENT * Dec (4 * int (length bs) + 4) 0 else ZERO)"

definition fill_core ::
  "prices \<Rightarrow> spec \<Rightarrow> nat \<Rightarrow> cost_level \<Rightarrow> fee_table \<Rightarrow> string \<Rightarrow> date \<Rightarrow> pending \<Rightarrow> book \<Rightarrow> (book \<times> decimal) result" where
  "fill_core P sp k lv fees rounding d pd b =
     ebind (efold (fill_sell P sp k lv fees rounding d (sells (pe_plan pd))) b (sort (keys (sells (pe_plan pd))))) (\<lambda>b1.
     ebind (pay_need sp pd b1) (\<lambda>(b2, short).
     let bs = buys (pe_plan pd);
         available = bk_cash b2 - sp_cash_reserve_usd sp - rounding_allowance lv bs
     in
     ebind (scale_buys bs available (map (\<lambda>(s, _). (s, buy_fee_rate lv s P)) bs) (round_prices lv)) (\<lambda>scaled.
     ebind (efold (fill_buy P sp k lv fees rounding d scaled) b2 (sort (keys scaled))) (\<lambda>b3.
     Inr (mark_rebalanced b3, short)))))"

section \<open>The simulation\<close>

record sim =
  si_cash :: decimal
  si_qty :: amounts
  si_holdings :: "(string \<times> holding) list"
  si_tax :: tax_year
  si_targets :: amounts
  si_pending :: "pending option"
  si_forced :: bool
  si_carried :: decimal
  si_carried_tax :: decimal
  si_prev_value :: decimal
  si_needs :: "(date \<times> decimal) list"
  si_daily_fees :: daily_fees

definition weights_at :: "prices \<Rightarrow> spec \<Rightarrow> int \<Rightarrow> amounts result" where
  "weights_at P sp k =
     ebind (if sp_needs_view sp then emap Some (px_view P k) else Inr None) (\<lambda>v. sp_weights sp v)"

text \<open>The keys of a dict built from a list: each once, where it came first.\<close>

definition first_keys :: "'a list \<Rightarrow> 'a list" where
  "first_keys xs = rev (remdups (rev xs))"

definition start_sim :: "prices \<Rightarrow> spec \<Rightarrow> nat \<Rightarrow> sim result" where
  "start_sim P sp start =
     ebind (weights_at P sp (int start - 1)) (\<lambda>tgts.
     ebind (py_nth (px_sessions P) (if start \<noteq> 0 then int start - 1 else 0)) (\<lambda>s0.
     Inr \<lparr> si_cash = sp_capital sp, si_qty = map (\<lambda>s. (s, ZERO)) (first_keys (sp_symbols sp)),
           si_holdings = map (\<lambda>s. (s, [])) (first_keys (sp_symbols sp)),
           si_tax = \<lparr> tax_rate = sp_tax_rate sp, carried_loss = 0, realised = [] \<rparr>, si_targets = tgts,
           si_pending = Some \<lparr> pe_plan = \<lparr> decided_on = sess_date s0, targets = tgts, sells = [],
                                            buys = map (\<lambda>(s, w). (s, w * sp_capital sp)) tgts, reason = ''initial'' \<rparr>,
                                pe_value = sp_capital sp, pe_need = ZERO, pe_tax = ZERO, pe_initial = True \<rparr>,
           si_forced = False, si_carried = ZERO, si_carried_tax = ZERO, si_prev_value = sp_capital sp,
           si_needs = dict_of (sp_cash_needs sp), si_daily_fees = [] \<rparr>))"

definition value_at :: "(string \<Rightarrow> int \<Rightarrow> decimal result) \<Rightarrow> nat \<Rightarrow> amounts \<Rightarrow> decimal \<Rightarrow> decimal result" where
  "value_at price k qty cash =
     emap (\<lambda>vs. cash + dsum vs) (etraverse (\<lambda>(s, q). emap (\<lambda>x. q * x) (price s (int k))) (held_units qty))"

text \<open>The circuit breaker at the open: a plan that buys anything is blocked when the portfolio is down too far.\<close>

definition plan_blocked :: "profile \<Rightarrow> pending \<Rightarrow> decimal \<Rightarrow> decimal \<Rightarrow> bool result" where
  "plan_blocked pf pd value_at_open prev_value =
     (if pf_breaker pf \<and> \<not> pe_initial pd \<and> buys (pe_plan pd) \<noteq> []
      then emap (\<lambda>r. (r - 1) * Dec 100 0 \<le> CIRCUIT_BREAKER_DAILY_PNL_PCT) (ddiv value_at_open prev_value)
      else Inr False)"

definition book_of :: "sim \<Rightarrow> day \<Rightarrow> book" where
  "book_of s y = \<lparr> bk_qty = si_qty s, bk_holdings = si_holdings s, bk_tax = si_tax s, bk_cash = si_cash s,
                   bk_daily_fees = si_daily_fees s, bk_day = y \<rparr>"

definition with_book :: "book \<Rightarrow> sim \<Rightarrow> sim" where
  "with_book b s = s\<lparr> si_qty := bk_qty b, si_holdings := bk_holdings b, si_tax := bk_tax b, si_cash := bk_cash b,
                      si_daily_fees := bk_daily_fees b \<rparr>"

definition open_side ::
  "prices \<Rightarrow> spec \<Rightarrow> nat \<Rightarrow> cost_level \<Rightarrow> fee_table \<Rightarrow> profile \<Rightarrow> string \<Rightarrow> day \<Rightarrow> sim \<Rightarrow> (sim \<times> day) result" where
  "open_side P sp k lv fees pf rounding y s =
     (case si_pending s of
        None \<Rightarrow> Inr (s, y)
      | Some pd \<Rightarrow>
          ebind (value_at (px_open P) k (si_qty s) (si_cash s)) (\<lambda>v.
          ebind (plan_blocked pf pd v (si_prev_value s)) (\<lambda>blocked.
          if blocked then
            Inr (s\<lparr> si_forced := True, si_carried := pe_need pd, si_carried_tax := pe_tax pd, si_pending := None \<rparr>,
                 y\<lparr> dy_deferred := True \<rparr>)
          else if pf_sizing pf = ''phase1'' then
            emap (\<lambda>b. ((with_book b s)\<lparr> si_pending := None \<rparr>, bk_day b))
              (fill_phase1 P sp k lv fees rounding (dy_date y) pd (book_of s y))
          else
            emap (\<lambda>(b, short). ((with_book b s)\<lparr> si_carried := short, si_carried_tax := min short (pe_tax pd), si_pending := None \<rparr>, bk_day b))
              (fill_core P sp k lv fees rounding (dy_date y) pd (book_of s y)))))"

definition charge_rounding :: "profile \<Rightarrow> string \<Rightarrow> sim \<times> day \<Rightarrow> (sim \<times> day) result" where
  "charge_rounding pf rounding sy =
     (case sy of (s, y) \<Rightarrow>
      if rounding = ''daily'' \<and> pf_sizing pf = ''core'' then
        emap (\<lambda>c. (s\<lparr> si_cash := si_cash s - c \<rparr>, y\<lparr> dy_fees := dy_fees y + c \<rparr>))
          (rounding_charge (dy_date y) (si_daily_fees s))
      else Inr (s, y))"

definition close_prices :: "prices \<Rightarrow> nat \<Rightarrow> string list \<Rightarrow> amounts result" where
  "close_prices P k ss = etraverse (\<lambda>s. emap (Pair s) (px_close P s (int k))) ss"

definition close_side :: "sim \<Rightarrow> amounts \<Rightarrow> day \<Rightarrow> (sim \<times> day) result" where
  "close_side s closes y =
     ebind (position_values truthy (si_qty s) closes) (\<lambda>values.
     let value = si_cash s + dsum (vals values) in
     ebind (if 0 < value then current_weights (si_qty s) closes (si_cash s) else Inr []) (\<lambda>ws.
     Inr (s\<lparr> si_prev_value := value \<rparr>,
          y\<lparr> dy_value := value, dy_cash := si_cash s, dy_positions := held_units (si_qty s), dy_weights := ws \<rparr>)))"

text \<open>The last day's report.\<close>

definition last_day :: "profile \<Rightarrow> sim \<Rightarrow> amounts \<Rightarrow> day \<Rightarrow> day result" where
  "last_day pf s closes y =
     ebind (if pf_sizing pf = ''core'' then
              emap (\<lambda>gs. Some (dsum gs))
                (etraverse (\<lambda>(x, q). ebind (eget closes x) (\<lambda>c. ebind (eget (si_holdings s) x) (\<lambda>h. Inr (q * c - holding_cost h))))
                   (held_units (si_qty s)))
            else Inr None) (\<lambda>u.
     Inr (y\<lparr> dy_unrealised := u,
             dy_tax_base_pending := Some (aget ZERO (realised (si_tax s)) (year (dy_date y)) - carried_loss (si_tax s)) \<rparr>))"

section \<open>The decision at a close\<close>

text \<open>\<open>level.fee_rounding != "none"\<close> adds an allowance for each sale's rounding to the cash to raise.\<close>

definition raise_plan :: "prices \<Rightarrow> spec \<Rightarrow> nat \<Rightarrow> cost_level \<Rightarrow> date \<Rightarrow> amounts \<Rightarrow> decimal \<Rightarrow> amounts \<Rightarrow> decimal \<Rightarrow> plan result" where
  "raise_plan P sp k lv d qty cash tgts need =
     (let held = held_units qty in
      ebind (close_prices P k (keys held)) (\<lambda>pk.
      let allowance = (if fee_rounding lv \<noteq> ''none'' then SELL_ROUNDING_USD * Dec (int (length pk)) 0 else ZERO);
          rates = map (\<lambda>(s, _). (s, sale_cost_rate lv s P ''sell'')) pk
      in case sp_raise_method sp of
           By_Pro_Rata \<Rightarrow> plan_raise_cash_pro_rata d held pk (cash - sp_cash_reserve_usd sp) (need + allowance) tgts rates (sp_min_order_usd sp)
         | By_Plan \<Rightarrow> plan_raise_cash d held pk (cash - sp_cash_reserve_usd sp) (need + allowance) tgts rates
                        (sp_buffer_symbol sp) (sp_min_order_usd sp)))"

definition rebalance_plan :: "prices \<Rightarrow> spec \<Rightarrow> nat \<Rightarrow> cost_level \<Rightarrow> date \<Rightarrow> amounts \<Rightarrow> decimal \<Rightarrow> amounts \<Rightarrow> decimal \<Rightarrow> plan result" where
  "rebalance_plan P sp k lv d qty cash tgts need =
     ebind (close_prices P k (sorted_union (keys qty) (keys tgts))) (\<lambda>pk.
     plan_rebalance d qty pk (cash - need - sp_cash_reserve_usd sp) tgts (sp_min_order_usd sp) ''rebalance'' (round_prices lv))"

definition make_plan ::
  "prices \<Rightarrow> spec \<Rightarrow> nat \<Rightarrow> cost_level \<Rightarrow> profile \<Rightarrow> bool \<Rightarrow> decimal \<Rightarrow> sim \<times> day \<Rightarrow> (sim \<times> day) result" where
  "make_plan P sp k lv pf due_now need sy =
     (case sy of (s, y) \<Rightarrow>
      let start_pending = (\<lambda>p s. s\<lparr> si_pending := Some \<lparr> pe_plan = p, pe_value = dy_value y, pe_need = need, pe_tax = si_carried_tax s,
                                                           pe_initial = False \<rparr>, si_carried_tax := ZERO \<rparr>)
      in
      if due_now then
        ebind (weights_at P sp (int k)) (\<lambda>tgts.
        ebind (rebalance_plan P sp k lv (dy_date y) (si_qty s) (si_cash s) tgts need) (\<lambda>p.
        if pf_sizing pf = ''phase1'' \<or> \<not> plan_empty p \<or> 0 < need
        then Inr (start_pending p (s\<lparr> si_targets := tgts \<rparr>), y\<lparr> dy_decided := Some ''rebalance'' \<rparr>)
        else Inr (s\<lparr> si_targets := tgts \<rparr>, y)))
      else if 0 < need then
        ebind (raise_plan P sp k lv (dy_date y) (si_qty s) (si_cash s) (si_targets s) need) (\<lambda>p.
        Inr (start_pending p s, y\<lparr> dy_decided := Some ''raise_cash'' \<rparr>))
      else Inr (s, y))"

definition tax_due_at :: "spec \<Rightarrow> period set \<Rightarrow> date \<Rightarrow> tax_year \<Rightarrow> (tax_year \<times> decimal) result" where
  "tax_due_at sp ends d t =
     (if Year \<in> ends \<and> 0 < sp_tax_rate sp then (case due (year d) t of (t', r) \<Rightarrow> emap (Pair t') r) else Inr (t, ZERO))"

definition decide_side ::
  "prices \<Rightarrow> spec \<Rightarrow> nat \<Rightarrow> cost_level \<Rightarrow> profile \<Rightarrow> amounts \<Rightarrow> sim \<times> day \<Rightarrow> (sim \<times> day) result" where
  "decide_side P sp k lv pf closes sy =
     (case sy of (s, y) \<Rightarrow>
      ebind (py_nth (px_sessions P) (int (Suc k))) (\<lambda>nxt.
      let ends = period_ends (dy_date y) (sess_date nxt) in
      ebind (tax_due_at sp ends (dy_date y) (si_tax s)) (\<lambda>(t, tax_due).
      let need = si_carried s + tax_due + aget ZERO (si_needs s) (dy_date y);
          s1 = s\<lparr> si_tax := t, si_needs := AList.delete (dy_date y) (si_needs s), si_carried_tax := si_carried_tax s + tax_due,
                  si_carried := ZERO, si_forced := False \<rparr>
      in
      ebind (if pf_drift_includes_cash pf then Inr (dy_weights y) else weights_ex_cash (si_qty s) closes) (\<lambda>basis.
      make_plan P sp k lv pf (rebalance_due (sp_rule sp) ends basis (si_targets s) (si_forced s)) need (s1, y)))))"

text \<open>One session: the open, the close and, but on the last one, the decision.\<close>

definition session_step ::
  "prices \<Rightarrow> spec \<Rightarrow> nat \<Rightarrow> cost_level \<Rightarrow> fee_table \<Rightarrow> profile \<Rightarrow> sim \<Rightarrow> nat \<Rightarrow> (sim \<times> day) result" where
  "session_step P sp stop lv fees pf s k =
     ebind (py_nth (px_sessions P) (int k)) (\<lambda>sess.
     let rounding = (case pf_fee_rounding pf of None \<Rightarrow> fee_rounding lv | Some r \<Rightarrow> r) in
     ebind (open_side P sp k lv fees pf rounding (new_day (sess_date sess)) s) (\<lambda>sy1.
     ebind (charge_rounding pf rounding sy1) (\<lambda>(s2, y2).
     ebind (close_prices P k (keys (held_units (si_qty s2)))) (\<lambda>closes.
     ebind (close_side s2 closes y2) (\<lambda>(s3, y3).
     if k = stop then emap (\<lambda>y. (s3, y)) (last_day pf s3 closes y3)
     else decide_side P sp k lv pf closes (s3, y3))))))"

fun sim_days ::
  "prices \<Rightarrow> spec \<Rightarrow> nat \<Rightarrow> cost_level \<Rightarrow> fee_table \<Rightarrow> profile \<Rightarrow> sim \<Rightarrow> nat list \<Rightarrow> day list result" where
  "sim_days P sp stop lv fees pf s [] = Inr []"
| "sim_days P sp stop lv fees pf s (k # ks) =
     ebind (session_step P sp stop lv fees pf s k) (\<lambda>(s', y).
     emap (Cons y) (sim_days P sp stop lv fees pf s' ks))"

definition simulate ::
  "prices \<Rightarrow> spec \<Rightarrow> nat \<Rightarrow> nat \<Rightarrow> cost_level \<Rightarrow> fee_table \<Rightarrow> profile \<Rightarrow> day list result" where
  "simulate P sp start stop lv fees pf =
     ebind (if pf_sizing pf = ''core'' then
              ebind (covered_from fees ''equity'') (\<lambda>from.
              ebind (py_nth (px_sessions P) (int start)) (\<lambda>s. if sess_date s < from then Inl (ValueError ''fees.json'') else Inr ()))
            else Inr ()) (\<lambda>_.
     ebind (start_sim P sp start) (\<lambda>s.
     sim_days P sp stop lv fees pf s [start..<Suc stop]))"

definition hold_spec :: "string list \<Rightarrow> decimal \<Rightarrow> decimal option \<Rightarrow> spec result" where
  "hold_spec symbols capital band =
     ebind (ddiv (Dec 1 0) (Dec (int (length symbols)) 0)) (\<lambda>w.
     ebind (case band of
              None \<Rightarrow> eget RULES ''none''
            | Some b \<Rightarrow> Inr \<lparr> rule_name = ''monthly_band'' @ dec_str b, rule_period = Some Month, rule_band = Some b, rule_never = False \<rparr>) (\<lambda>r.
     Inr \<lparr> sp_name = (if band = None then ''S0'' else ''S1''), sp_symbols = symbols,
           sp_weights = (\<lambda>_. Inr (map (\<lambda>s. (s, w)) (first_keys symbols))), sp_rule = r, sp_capital = capital,
           sp_min_order_usd = Dec 1 0, sp_cash_reserve_usd = ZERO, sp_tax_rate = ZERO, sp_lot_method = average,
           sp_cash_needs = [], sp_needs_view = False, sp_buffer_symbol = None, sp_raise_method = By_Plan \<rparr>))"

end
