(* ===== verification/Portfolio_Demo.thy ===== *)
theory Portfolio_Demo imports Portfolio_Engine begin

text \<open>
  Concrete data for the engine's theorems: a fund of ten units bought at 100, a withdrawal of 500 decided at a close of
  100, and an open of 50 at which the five units the plan sells bring in half of it; the fee rates of December 2026.
\<close>

definition demo_sessions :: "session list" where
  "demo_sessions = map (\<lambda>d. \<lparr> sess_date = Date 2026 12 d, open_at = int d * 86400000000,
     close_at = int d * 86400000000 + 23400000000, half_day = False \<rparr>) [29, 30, 31]"

definition demo_market :: "decimal \<Rightarrow> decimal \<Rightarrow> daily_market" where
  "demo_market last_open last_close =
     mk_daily_market demo_sessions
       [(''VTI'', [(Date 2026 12 29, (Dec 100 0, Dec 100 0)), (Date 2026 12 30, (Dec 100 0, Dec 100 0)),
                   (Date 2026 12 31, (last_open, last_close))])] [] []"

definition demo_spec :: spec where
  "demo_spec = \<lparr> sp_name = ''demo'', sp_symbols = [''VTI''],
     sp_weights = (\<lambda>v. case v of None \<Rightarrow> Inl KeyError | Some v \<Rightarrow> emap (\<lambda>_. [(''VTI'', Dec 1 0)]) (view_close v ''VTI'')),
     sp_rule = \<lparr> rule_name = ''none'', rule_period = None, rule_band = None, rule_never = True \<rparr>,
     sp_capital = Dec 1000 0, sp_min_order_usd = Dec 1 0, sp_cash_reserve_usd = ZERO, sp_tax_rate = ZERO,
     sp_lot_method = average, sp_cash_needs = [], sp_needs_view = True, sp_buffer_symbol = None, sp_raise_method = By_Plan \<rparr>"

definition fee_row_2026 :: "string \<Rightarrow> string \<Rightarrow> string \<Rightarrow> decimal \<Rightarrow> fee_row" where
  "fee_row_2026 f side basis rate = \<lparr> fr_fee = f, fr_side = side, fr_basis = basis, fr_rate = rate, fr_cap = None,
     fr_start = Date 2026 4 4, fr_end = None, fr_asset_class = ''equity'' \<rparr>"

definition demo_fees :: fee_table where
  "demo_fees = \<lparr> ft_rows = [fee_row_2026 ''sec'' ''sell'' ''principal'' (Dec 206 (-7)),
      fee_row_2026 ''taf'' ''sell'' ''shares'' (Dec 195 (-6)), fee_row_2026 ''cat'' ''both'' ''shares'' (Dec 3 (-6))],
      ft_version = ''demo'' \<rparr>"

definition demo_prices :: prices where
  "demo_prices = \<lparr> px_sessions = demo_sessions, px_open = (\<lambda>_ k. Inr (if k = 2 then Dec 50 0 else Dec 100 0)),
     px_close = (\<lambda>_ _. Inr (Dec 100 0)), px_factor = (\<lambda>_ _. Inr (Dec 1 0)), px_asset_class = (\<lambda>_. ''equity''),
     px_view = (\<lambda>_. Inl LookAheadError) \<rparr>"

definition demo_pending :: "decimal \<Rightarrow> pending" where
  "demo_pending tax =
     \<lparr> pe_plan = \<lparr> decided_on = Date 2026 12 30, targets = [(''VTI'', Dec 1 0)], sells = [(''VTI'', Dec 5 0)], buys = [],
                    reason = ''raise_cash'' \<rparr>,
       pe_value = Dec 1000 0, pe_need = Dec 500 0, pe_tax = tax, pe_initial = False \<rparr>"

definition demo_day :: day where "demo_day = new_day (Date 2026 12 31)"

definition demo_sim :: "decimal \<Rightarrow> sim" where
  "demo_sim tax =
     \<lparr> si_cash = Dec 0 (-2), si_qty = [(''VTI'', Dec 10 0)],
       si_holdings = [(''VTI'', [\<lparr> lot_qty = Dec 10 0, lot_cost = Dec 1000 0, lot_opened = Date 2026 12 1 \<rparr>])],
       si_tax = \<lparr> tax_rate = Dec 25 (-2), carried_loss = 0, realised = [] \<rparr>, si_targets = [(''VTI'', Dec 1 0)],
       si_pending = Some (demo_pending tax), si_forced = False, si_carried = ZERO, si_carried_tax = ZERO,
       si_prev_value = Dec 1000 0, si_needs = [], si_daily_fees = [] \<rparr>"

definition demo_book :: book where
  "demo_book = book_of (demo_sim ZERO) demo_day"

section \<open>The fill\<close>

definition demo_sold :: book where
  "demo_sold = demo_book\<lparr> bk_qty := [(''VTI'', Dec 5 0)],
     bk_holdings := [(''VTI'', [\<lparr> lot_qty = Dec 5 0, lot_cost = Dec 500 0, lot_opened = Date 2026 12 1 \<rparr>])],
     bk_tax := \<lparr> tax_rate = Dec 25 (-2), carried_loss = 0, realised = [(2026, Dec (- 25012613768250) (-11))] \<rparr>,
     bk_cash := Dec 24987386231750 (-11),
     bk_daily_fees := [(Date 2026 12 31, [(''equity:sec'', Dec 514768250 (-11)), (''equity:taf'', Dec 975 (-6)), (''equity:cat'', Dec 15 (-6))])],
     bk_day := demo_day\<lparr> dy_traded := Dec 250 0, dy_exec_cost := Dec 1125 (-4), dy_spread := Dec 6250 (-5),
       dy_slippage := Dec 500 (-4), dy_fees := Dec 613768250 (-11), dy_realised := Dec (- 25012613768250) (-11),
       dy_orders := [\<lparr> ol_symbol = ''VTI'', ol_side = ''sell'', ol_units = ''5'', ol_ref = ''50'', ol_price = ''49.9775'',
                       ol_fees = ''0.00613768250'' \<rparr>] \<rparr> \<rparr>"

lemma demo_sell:
  "fill_sell demo_prices demo_spec 2 central demo_fees ''daily'' (Date 2026 12 31) [(''VTI'', Dec 5 0)] demo_book ''VTI'' = Inr demo_sold"
  by code_simp

definition demo_paid :: "decimal \<Rightarrow> decimal \<Rightarrow> book" where
  "demo_paid tax flow = demo_sold\<lparr> bk_cash := Dec 386231750 (-11), bk_day := (bk_day demo_sold)\<lparr> dy_tax := tax, dy_flow := flow \<rparr> \<rparr>"

lemma demo_pay:
  "pay_need demo_spec (demo_pending (Dec 100 0)) demo_sold = Inr (demo_paid (Dec 100 0) (Dec 14987 (-2)), Dec 25013 (-2))"
  by code_simp

definition demo_pd :: pending where "demo_pd = demo_pending (Dec 100 0)"

lemma demo_sells: "efold (fill_sell demo_prices demo_spec 2 central demo_fees ''daily'' (Date 2026 12 31) (sells (pe_plan demo_pd))) demo_book
     (sort (keys (sells (pe_plan demo_pd)))) = Inr demo_sold"
  by (simp add: demo_pd_def demo_pending_def demo_sell)

lemma demo_fill:
  "fill_core demo_prices demo_spec 2 central demo_fees ''daily'' (Date 2026 12 31) demo_pd demo_book =
     Inr (mark_rebalanced (demo_paid (Dec 100 0) (Dec 14987 (-2))), Dec 25013 (-2))"
proof -
  have b: "buys (pe_plan demo_pd) = []" by (simp add: demo_pd_def demo_pending_def)
  have "scale_buys [] x [] c = Inr []" for x c by (simp add: scale_buys_def deq_def less_eq_decimal_def zero_decimal_def align_def)
  then show ?thesis
    unfolding fill_core_def demo_sells ebind_simps demo_pay [folded demo_pd_def] prod.case b Let_def by simp
qed

section \<open>The open of the third session\<close>

lemma demo_value: "value_at (px_open demo_prices) 2 [(''VTI'', Dec 10 0)] (Dec 0 (-2)) = Inr (Dec 50000 (-2))"
  by code_simp

definition demo_after :: sim where
  "demo_after = (with_book (demo_paid (Dec 100 0) (Dec 14987 (-2))) (demo_sim (Dec 100 0)))
     \<lparr> si_carried := Dec 25013 (-2), si_carried_tax := Dec 100 0, si_pending := None \<rparr>"

definition demo_after_day :: day where
  "demo_after_day = (bk_day (demo_paid (Dec 100 0) (Dec 14987 (-2))))\<lparr> dy_rebalanced := True \<rparr>"

lemma demo_open:
  "open_side demo_prices demo_spec 2 central demo_fees CORE ''daily'' demo_day (demo_sim (Dec 100 0)) = Inr (demo_after, demo_after_day)"
proof -
  have f: "si_pending (demo_sim (Dec 100 0)) = Some demo_pd" "book_of (demo_sim (Dec 100 0)) demo_day = demo_book"
    "si_qty (demo_sim (Dec 100 0)) = [(''VTI'', Dec 10 0)]" "si_cash (demo_sim (Dec 100 0)) = Dec 0 (-2)" "dy_date demo_day = Date 2026 12 31"
    "buys (pe_plan demo_pd) = []" "pe_tax demo_pd = Dec 100 0" "min (Dec 25013 (-2)) (Dec 100 0) = Dec 100 0"
    by (simp_all add: demo_sim_def demo_pd_def demo_book_def book_of_def demo_day_def new_day_def demo_pending_def min_def less_eq_decimal_def align_def)
  have nb: "plan_blocked CORE demo_pd v w = Inr False" for v w by (simp add: plan_blocked_def f)
  have c: "pf_sizing CORE = ''core''" by (simp add: CORE_def)
  have m: "with_book (mark_rebalanced b) s = with_book b s" "bk_day (mark_rebalanced b) = (bk_day b)\<lparr> dy_rebalanced := True \<rparr>" for b s
    by (simp_all add: mark_rebalanced_def with_book_def)
  show ?thesis
    by (simp add: open_side_def f demo_value nb c demo_fill emap_def m demo_after_def demo_after_day_def)
qed

lemma demo_charge: "rounding_charge (Date 2026 12 31) (si_daily_fees demo_after) = Inr (Dec 2386231750 (-11))"
  by code_simp

end
