(* ===== verification/Portfolio_Laws.thy ===== *)
theory Portfolio_Laws imports Portfolio_Demo begin

text \<open>
  What the engine guarantees: a decision never depends on prices of later sessions.
\<close>

section \<open>No look-ahead\<close>

text \<open>Weights that only ask the view for what it answers.\<close>

definition point_in_time :: "spec \<Rightarrow> bool" where
  "point_in_time sp \<longleftrightarrow> (\<forall>v v'. same_answers v v' \<longrightarrow> sp_weights sp (Some v) = sp_weights sp (Some v'))"

text \<open>Two markets that look the same at session \<open>k\<close>, and to a decision there.\<close>

definition same_at :: "spec \<Rightarrow> nat \<Rightarrow> prices \<Rightarrow> prices \<Rightarrow> bool" where
  "same_at sp k P P' \<longleftrightarrow>
     px_sessions P = px_sessions P' \<and> (\<forall>s. px_open P s (int k) = px_open P' s (int k)) \<and>
     (\<forall>s. px_close P s (int k) = px_close P' s (int k)) \<and> (\<forall>s. px_factor P s (int k) = px_factor P' s (int k)) \<and>
     px_asset_class P = px_asset_class P' \<and> weights_at P sp (int k) = weights_at P' sp (int k)"

lemma agree_weights:
  assumes "agree_upto k m m'" "0 \<le> j" "j \<le> int k" "point_in_time sp"
  shows "weights_at (prices_of m) sp j = weights_at (prices_of m') sp j"
  using agree_view [OF assms(1-3)] assms(4)
  by (auto simp: weights_at_def prices_of_def point_in_time_def emap_def)

lemma agree_same_at:
  assumes "agree_upto k m m'" "j \<le> k" "point_in_time sp"
  shows "same_at sp j (prices_of m) (prices_of m')"
proof -
  have "px_asset_class (prices_of m) = px_asset_class (prices_of m')" "dm_sessions m = dm_sessions m'"
    using agree_market(4) [OF assms(1), of 0] assms(1) by (auto simp: prices_of_def agree_upto_def)
  then show ?thesis
    unfolding same_at_def
    using agree_market(1-3) [OF assms(1), of "int j"] agree_weights [OF assms(1), of "int j", OF _ _ assms(3)] assms(2)
    by (auto simp: prices_of_def)
qed

named_theorems same_simps

lemma same_at_rates [same_simps]:
  assumes "same_at sp k P P'"
  shows "fee_rate lv s P = fee_rate lv s P'" "buy_fee_rate lv s P = buy_fee_rate lv s P'" "sale_cost_rate lv s P = sale_cost_rate lv s P'"
    "charge P k = charge P' k" "close_prices P k = close_prices P' k"
    "value_at (px_open P) k = value_at (px_open P') k"
proof -
  have p: "px_open P s (int k) = px_open P' s (int k)" "px_close P s (int k) = px_close P' s (int k)"
    "px_factor P s (int k) = px_factor P' s (int k)" "px_asset_class P = px_asset_class P'" for s
    using assms by (auto simp: same_at_def)
  show "fee_rate lv s P = fee_rate lv s P'" "buy_fee_rate lv s P = buy_fee_rate lv s P'" "sale_cost_rate lv s P = sale_cost_rate lv s P'"
    unfolding fee_rate_def buy_fee_rate_def sale_cost_rate_def p by (rule refl)+
  show "charge P k = charge P' k" "close_prices P k = close_prices P' k" "value_at (px_open P) k = value_at (px_open P') k"
    by (intro ext; simp only: charge_def close_prices_def value_at_def p)+
qed

lemma same_at_fills [same_simps]:
  assumes "same_at sp k P P'"
  shows "phase1_order P k = phase1_order P' k" "fill_sell P sp k = fill_sell P' sp k" "fill_buy P sp k = fill_buy P' sp k"
proof -
  have o: "px_open P s (int k) = px_open P' s (int k)" for s using assms by (simp add: same_at_def)
  show "phase1_order P k = phase1_order P' k" "fill_sell P sp k = fill_sell P' sp k" "fill_buy P sp k = fill_buy P' sp k"
    by (intro ext; simp only: phase1_order_def fill_sell_def fill_buy_def o same_at_rates [OF assms])+
qed

lemma same_at_sides:
  assumes "same_at sp k P P'"
  shows "open_side P sp k = open_side P' sp k" "make_plan P sp k = make_plan P' sp k" "decide_side P sp k = decide_side P' sp k"
proof -
  have w: "weights_at P sp (int k) = weights_at P' sp (int k)" "px_sessions P = px_sessions P'" using assms by (auto simp: same_at_def)
  show "open_side P sp k = open_side P' sp k"
    by (intro ext) (simp only: open_side_def fill_phase1_def fill_core_def same_at_fills [OF assms] same_at_rates [OF assms])
  show m: "make_plan P sp k = make_plan P' sp k"
    by (intro ext) (simp only: make_plan_def rebalance_plan_def raise_plan_def w same_at_rates [OF assms])
  show "decide_side P sp k = decide_side P' sp k"
    by (intro ext) (simp only: decide_side_def m w)
qed

lemma same_at_step:
  assumes "same_at sp k P P'"
  shows "session_step P sp stop lv fees pf s k = session_step P' sp stop lv fees pf s k"
proof -
  have "px_sessions P = px_sessions P'" using assms by (simp add: same_at_def)
  then show ?thesis by (simp only: session_step_def same_at_sides [OF assms] same_at_rates [OF assms])
qed

lemma sim_days_same:
  assumes "\<And>k. k \<in> set ks \<Longrightarrow> same_at sp k P P'"
    and "sim_days P sp stop lv fees pf s (ks @ ls) = Inr ds" "sim_days P' sp stop lv fees pf s (ks @ ls') = Inr ds'"
  shows "take (length ks) ds = take (length ks) ds'"
  using assms
proof (induction ks arbitrary: s ds ds')
  case (Cons k ks)
  have "session_step P sp stop lv fees pf s k = session_step P' sp stop lv fees pf s k"
    using Cons.prems(1) by (intro same_at_step) simp
  with Cons.prems(2,3) obtain s1 y es es' where
    "sim_days P sp stop lv fees pf s1 (ks @ ls) = Inr es" "ds = y # es" "sim_days P' sp stop lv fees pf s1 (ks @ ls') = Inr es'" "ds' = y # es'"
    by (auto simp: ebind_Inr_iff emap_Inr_iff)
  with Cons.IH [of s1 es es'] Cons.prems(1) show ?case by simp
qed simp

lemma sim_days_length: "sim_days P sp stop lv fees pf s ks = Inr ds \<Longrightarrow> length ds = length ks"
  by (induction ks arbitrary: s ds) (auto simp: ebind_Inr_iff emap_Inr_iff)

text \<open>
  C28. No look-ahead: when two markets have the same sessions and the same bars up to session \<open>k\<close>, two simulations that
  both finish report the same days up to \<open>k\<close> (values, cash, orders and fills, decisions), whatever the later bars
  are. The weights may ask the view anything it answers.
\<close>

theorem simulate_no_look_ahead:
  assumes "agree_upto k m m'" "point_in_time sp" "0 < start \<or> \<not> sp_needs_view sp" "start \<le> Suc k"
    and "simulate (prices_of m) sp start stop lv fees pf = Inr days"
    and "simulate (prices_of m') sp start stop lv fees pf = Inr days'"
  shows "take (Suc k - start) days = take (Suc k - start) days'"
proof -
  have "dm_sessions m = dm_sessions m'" using assms(1) by (simp add: agree_upto_def)
  then have ss: "px_sessions (prices_of m) = px_sessions (prices_of m')" by (simp add: prices_of_def)
  have "weights_at (prices_of m) sp (int start - 1) = weights_at (prices_of m') sp (int start - 1)"
  proof (cases "0 < start")
    case True
    then show ?thesis using assms(4) by (intro agree_weights [OF assms(1) _ _ assms(2)]) auto
  next
    case False
    then show ?thesis using assms(3) by (simp add: weights_at_def)
  qed
  then have "start_sim (prices_of m) sp start = start_sim (prices_of m') sp start"
    by (simp only: start_sim_def ss)
  with assms(5,6) obtain s where
    d: "sim_days (prices_of m) sp stop lv fees pf s [start..<Suc stop] = Inr days"
       "sim_days (prices_of m') sp stop lv fees pf s [start..<Suc stop] = Inr days'"
    by (auto simp: simulate_def ebind_Inr_iff simp del: upt_Suc)
  define j where "j = min (Suc k) (Suc stop)"
  have split: "[start..<Suc stop] = [start..<j] @ [j..<Suc stop]" if "start \<le> j"
    using that upt_add_eq_append [of start j "Suc stop - j"] by (simp add: j_def del: upt_Suc)
  have same: "same_at sp i (prices_of m) (prices_of m')" if "i \<in> set [start..<j]" for i
    using that by (intro agree_same_at [OF assms(1) _ assms(2)]) (auto simp: j_def)
  show ?thesis
  proof (cases "start \<le> j")
    case True
    have eq: "take (j - start) days = take (j - start) days'"
      using sim_days_same [OF same d(1) [unfolded split [OF True]] d(2) [unfolded split [OF True]]] by simp
    have "length days = Suc stop - start" "length days' = Suc stop - start"
      using d sim_days_length by fastforce+
    then show ?thesis using eq by (simp add: j_def min_def split: if_splits)
  next
    case False
    then have "Suc stop < start" using assms(4) by (simp add: j_def)
    then show ?thesis using d by simp
  qed
qed

definition finishes :: "'a result \<Rightarrow> bool" where
  "finishes r = (case r of Inr _ \<Rightarrow> True | Inl _ \<Rightarrow> False)"

definition demo_run :: "decimal \<Rightarrow> day list result" where
  "demo_run c = simulate (prices_of (demo_market c c)) demo_spec 1 2 FRICTIONLESS demo_fees CORE"

lemma demo_runs: "finishes (demo_run (Dec 50 0))" "finishes (demo_run (Dec 200 0))"
  by code_simp+

lemma finishes_D: "finishes r \<Longrightarrow> \<exists>x. r = Inr x"
  by (cases r) (simp_all add: finishes_def)

theorem simulate_no_look_ahead_witness:
  "\<exists>days days'. demo_run (Dec 50 0) = Inr days \<and> demo_run (Dec 200 0) = Inr days' \<and> take 1 days = take 1 days'"
proof -
  from demo_runs [THEN finishes_D] obtain days days' where d: "demo_run (Dec 50 0) = Inr days" "demo_run (Dec 200 0) = Inr days'" by blast
  have a: "agree_upto 1 (demo_market (Dec 50 0) (Dec 50 0)) (demo_market (Dec 200 0) (Dec 200 0))"
    by (simp add: agree_upto_def agree_series_def demo_market_def mk_daily_market_def demo_sessions_def Let_def)
  have p: "point_in_time demo_spec" by (auto simp: point_in_time_def demo_spec_def same_answers_def)
  have "take (Suc 1 - 1) days = take (Suc 1 - 1) days'"
    by (rule simulate_no_look_ahead [OF a p _ _ d [unfolded demo_run_def]]) simp_all
  with d show ?thesis by auto
qed

end
