(* ===== verification/Portfolio_Report.thy ===== *)
theory Portfolio_Report imports Portfolio_Laws begin

text \<open>
  The report of a core simulation is well formed: one day per session, in order, and no position is ever negative.
\<close>

definition units_ok :: "amounts \<Rightarrow> bool" where
  "units_ok qty \<longleftrightarrow> distinct (keys qty) \<and> (\<forall>v \<in> set (vals qty). 0 \<le> val v)"

lemma units_ok_update: "units_ok qty \<Longrightarrow> 0 \<le> val v \<Longrightarrow> units_ok (AList.update s v qty)"
  using vals_update_subset [of s v qty] by (auto simp: units_ok_def distinct_keys_update)

lemma units_ok_eget: "units_ok qty \<Longrightarrow> eget qty s = Inr q \<Longrightarrow> 0 \<le> val q"
  by (auto simp: units_ok_def eget_Inr_iff vals_def dest!: map_of_SomeD)

lemma units_ok_aget: "units_ok qty \<Longrightarrow> 0 \<le> val (aget ZERO qty s)"
  using aget_cases [of ZERO qty s] by (auto simp: units_ok_def ZERO_def val_def)

text \<open>What a fill keeps: the units stay units, the day stays the day.\<close>

definition fill_ok :: "date \<Rightarrow> book \<Rightarrow> bool" where
  "fill_ok d b \<longleftrightarrow> units_ok (bk_qty b) \<and> dy_date (bk_day b) = d"

lemma book_order_date [simp]: "dy_date (book_order s side u opn f fee h y) = dy_date y"
  by (simp add: book_order_def Let_def)

lemma fill_sell_ok:
  assumes "fill_sell P sp k lv fees rounding d ss b s = Inr b'" "fill_ok d0 b" shows "fill_ok d0 b'"
proof -
  from assms(1) obtain wanted q where wq: "eget ss s = Inr wanted" "eget (bk_qty b) s = Inr q"
    by (auto simp: fill_sell_def ebind_Inr_iff)
  have q: "0 \<le> val q" using assms(2) units_ok_eget wq(2) by (auto simp: fill_ok_def)
  have "0 \<le> val (q - min wanted q)" by (rule rnd_nonneg [OF rnd_minus]) (simp add: val_min)
  then show ?thesis
    using assms unfolding fill_sell_def wq ebind_simps Let_def
    by (auto simp: ebind_Inr_iff fill_ok_def units_ok_update split: if_splits)
qed

lemma fill_buy_ok:
  assumes "fill_buy P sp k lv fees rounding d bs b s = Inr b'" "fill_ok d0 b" shows "fill_ok d0 b'"
proof -
  have pos: "0 \<le> val (aget ZERO (bk_qty b) s + u)" if "\<not> u \<le> 0" for u
    using that units_ok_aget [of "bk_qty b" s] assms(2) by (intro rnd_nonneg [OF rnd_plus]) (auto simp: fill_ok_def less_eq_val)
  show ?thesis
    using assms unfolding fill_buy_def
    by (auto simp: ebind_Inr_iff fill_ok_def units_ok_update pos split: if_splits)
qed

lemma fill_core_ok:
  assumes "fill_core P sp k lv fees rounding d pd b = Inr (b', short)" "fill_ok d0 b" shows "fill_ok d0 b'"
proof -
  from assms(1) obtain b1 b2 scaled b3 where
    b1: "efold (fill_sell P sp k lv fees rounding d (sells (pe_plan pd))) b (sort (keys (sells (pe_plan pd)))) = Inr b1"
    and b2: "pay_need sp pd b1 = Inr (b2, short)"
    and b3: "efold (fill_buy P sp k lv fees rounding d scaled) b2 (sort (keys scaled)) = Inr b3" and b': "b' = mark_rebalanced b3"
    by (auto simp: fill_core_def ebind_Inr_iff Let_def)
  have "fill_ok d0 b1" by (rule efold_invariant [where P = "fill_ok d0", OF b1 assms(2)]) (rule fill_sell_ok)
  then have "fill_ok d0 b2" using b2 by (auto simp: pay_need_def fill_ok_def ebind_Inr_iff Let_def split: if_splits)
  then have "fill_ok d0 b3" by (rule efold_invariant [where P = "fill_ok d0", OF b3]) (rule fill_buy_ok)
  then show ?thesis by (simp add: b' fill_ok_def mark_rebalanced_def)
qed

lemma open_side_ok:
  assumes "open_side P sp k lv fees pf rounding y s = Inr (s', y')" "pf_sizing pf = ''core''" "units_ok (si_qty s)"
  shows "units_ok (si_qty s')" "dy_date y' = dy_date y"
proof -
  have f: "fill_ok (dy_date y) (book_of s y)" using assms(3) by (simp add: fill_ok_def book_of_def)
  have "units_ok (si_qty s') \<and> dy_date y' = dy_date y"
  proof (cases "si_pending s")
    case None
    then show ?thesis using assms by (simp add: open_side_def)
  next
    case (Some pd)
    have c: "(pf_sizing pf = ''phase1'') = False" using assms(2) by simp
    from assms(1) obtain v blocked where "value_at (px_open P) k (si_qty s) (si_cash s) = Inr v"
      and e: "plan_blocked pf pd v (si_prev_value s) = Inr blocked"
      by (auto simp: open_side_def Some ebind_Inr_iff)
    with assms(1) have
      "(if blocked then Inr (s\<lparr> si_forced := True, si_carried := pe_need pd, si_carried_tax := pe_tax pd, si_pending := None \<rparr>, y\<lparr> dy_deferred := True \<rparr>)
        else emap (\<lambda>(b, short). ((with_book b s)\<lparr> si_carried := short, si_carried_tax := min short (pe_tax pd), si_pending := None \<rparr>, bk_day b))
              (fill_core P sp k lv fees rounding (dy_date y) pd (book_of s y))) = Inr (s', y')"
      unfolding open_side_def Some option.case c if_False by simp
    then show ?thesis
      using assms(3) fill_core_ok [OF _ f]
      by (cases blocked) (auto simp: emap_Inr_iff with_book_def fill_ok_def)
  qed
  then show "units_ok (si_qty s')" "dy_date y' = dy_date y" by auto
qed

lemma charge_rounding_ok:
  assumes "charge_rounding pf rounding (s, y) = Inr (s', y')" shows "si_qty s' = si_qty s" "dy_date y' = dy_date y"
  using assms by (auto simp: charge_rounding_def emap_Inr_iff split: if_splits)

lemma close_side_ok:
  assumes "close_side s closes y = Inr (s', y')"
  shows "si_qty s' = si_qty s" "dy_date y' = dy_date y" "dy_positions y' = held_units (si_qty s)"
  using assms by (auto simp: close_side_def ebind_Inr_iff Let_def)

lemma last_day_ok:
  assumes "last_day pf s closes y = Inr y'" shows "dy_date y' = dy_date y" "dy_positions y' = dy_positions y"
  using assms by (auto simp: last_day_def ebind_Inr_iff)

lemma make_plan_ok:
  assumes "make_plan P sp k lv pf due_now need (s, y) = Inr (s', y')"
  shows "si_qty s' = si_qty s" "dy_date y' = dy_date y" "dy_positions y' = dy_positions y"
proof -
  consider "due_now" | "\<not> due_now" "0 < need" | "\<not> due_now" "\<not> 0 < need" by blast
  then have "si_qty s' = si_qty s \<and> dy_date y' = dy_date y \<and> dy_positions y' = dy_positions y"
  proof cases
    case 1
    from 1 assms obtain tgts where w: "weights_at P sp (int k) = Inr tgts" by (auto simp: make_plan_def ebind_Inr_iff)
    from 1 assms w obtain p where r: "rebalance_plan P sp k lv (dy_date y) (si_qty s) (si_cash s) tgts need = Inr p"
      by (auto simp: make_plan_def ebind_Inr_iff)
    show ?thesis
    proof (cases "pf_sizing pf = ''phase1'' \<or> \<not> plan_empty p \<or> 0 < need")
      case True
      then show ?thesis using assms 1 w r by (auto simp: make_plan_def)
    next
      case False
      then show ?thesis using assms 1 w r by (auto simp: make_plan_def)
    qed
  next
    case 2
    with assms show ?thesis unfolding make_plan_def prod.case Let_def by (auto simp: ebind_Inr_iff)
  next
    case 3
    with assms show ?thesis by (simp add: make_plan_def)
  qed
  then show "si_qty s' = si_qty s" "dy_date y' = dy_date y" "dy_positions y' = dy_positions y" by auto
qed

lemma decide_side_ok:
  assumes "decide_side P sp k lv pf closes (s, y) = Inr (s', y')"
  shows "si_qty s' = si_qty s" "dy_date y' = dy_date y" "dy_positions y' = dy_positions y"
proof -
  from assms obtain due_now need s1 where "make_plan P sp k lv pf due_now need (s1, y) = Inr (s', y')" "si_qty s1 = si_qty s"
    unfolding decide_side_def prod.case Let_def ebind_Inr_iff split_paired_Ex by fastforce
  with make_plan_ok show "si_qty s' = si_qty s" "dy_date y' = dy_date y" "dy_positions y' = dy_positions y" by metis+
qed

text \<open>A day as the report holds it.\<close>

definition day_ok :: "prices \<Rightarrow> nat \<Rightarrow> day \<Rightarrow> bool" where
  "day_ok P k y \<longleftrightarrow>
     k < length (px_sessions P) \<and> dy_date y = sess_date (px_sessions P ! k) \<and> distinct (keys (dy_positions y)) \<and>
     (\<forall>v \<in> set (vals (dy_positions y)). 0 < val v)"

lemma held_units_ok: "units_ok qty \<Longrightarrow> distinct (keys (held_units qty)) \<and> (\<forall>v \<in> set (vals (held_units qty)). 0 < val v)"
proof -
  assume u: "units_ok qty"
  have "keys (held_units qty) = filter (\<lambda>s. s \<in> set (keys (held_units qty))) (keys qty)" if "distinct (keys qty)"
    using that unfolding held_units_def keys_def
    by (simp add: filter_map o_def) (rule arg_cong [where f = "map fst"], rule filter_cong, auto simp: distinct_map inj_on_def)
  then have "distinct (keys (held_units qty))" using u unfolding units_ok_def by (metis distinct_filter)
  moreover have "\<forall>v \<in> set (vals (held_units qty)). 0 < val v"
    using u by (force simp: units_ok_def held_units_def vals_def truthy_val)
  ultimately show ?thesis by blast
qed

lemma session_step_ok:
  assumes "session_step P sp stop lv fees pf s k = Inr (s', y)" "pf_sizing pf = ''core''" "units_ok (si_qty s)"
  shows "units_ok (si_qty s')" "day_ok P k y"
proof -
  from assms(1) obtain sess s1 y1 s2 y2 closes s3 y3 where sess: "py_nth (px_sessions P) (int k) = Inr sess"
    and o: "open_side P sp k lv fees pf (case pf_fee_rounding pf of None \<Rightarrow> fee_rounding lv | Some r \<Rightarrow> r) (new_day (sess_date sess)) s = Inr (s1, y1)"
    and r: "charge_rounding pf (case pf_fee_rounding pf of None \<Rightarrow> fee_rounding lv | Some r \<Rightarrow> r) (s1, y1) = Inr (s2, y2)"
    and c: "close_side s2 closes y2 = Inr (s3, y3)"
    and e: "(if k = stop then emap (\<lambda>y. (s3, y)) (last_day pf s3 closes y3) else decide_side P sp k lv pf closes (s3, y3)) = Inr (s', y)"
    by (auto simp: session_step_def ebind_Inr_iff Let_def)
  note os = open_side_ok [OF o assms(2,3)] and rs = charge_rounding_ok [OF r] and cs = close_side_ok [OF c]
  have u: "units_ok (si_qty s2)" using os rs by simp
  have d: "dy_date y3 = sess_date sess" using os rs cs by (simp add: new_day_def)
  have "si_qty s' = si_qty s3 \<and> dy_date y = dy_date y3 \<and> dy_positions y = dy_positions y3"
    using e last_day_ok decide_side_ok by (auto simp: emap_Inr_iff split: if_splits)
  then show "units_ok (si_qty s')" "day_ok P k y"
    using u cs d sess held_units_ok [OF u] by (auto simp: day_ok_def py_nth_def split: if_splits)
qed

lemma sim_days_ok:
  assumes "sim_days P sp stop lv fees pf s ks = Inr ds" "pf_sizing pf = ''core''" "units_ok (si_qty s)"
  shows "list_all2 (day_ok P) ks ds"
  using assms
proof (induction ks arbitrary: s ds)
  case (Cons k ks)
  then obtain s' y es where "session_step P sp stop lv fees pf s k = Inr (s', y)" "sim_days P sp stop lv fees pf s' ks = Inr es" "ds = y # es"
    by (auto simp: ebind_Inr_iff emap_Inr_iff)
  with Cons session_step_ok show ?case by auto
qed simp

lemma start_sim_ok:
  assumes "start_sim P sp start = Inr s" shows "units_ok (si_qty s)"
proof -
  have "si_qty s = map (\<lambda>s. (s, ZERO)) (first_keys (sp_symbols sp))" using assms by (auto simp: start_sim_def ebind_Inr_iff)
  then show ?thesis by (auto simp: units_ok_def keys_def vals_def first_keys_def o_def ZERO_def val_def)
qed

text \<open>
  C29. The report of a core simulation that finishes is well formed: one day per session from the first to the last, in
  order and with the session's date, each with positions of distinct symbols and strictly positive units: no sale ever
  sells more than is held, whatever the prices, plans, costs and cash needs are.
\<close>

theorem simulate_report_well_formed:
  assumes "simulate P sp start stop lv fees pf = Inr days" "pf_sizing pf = ''core''"
  shows "list_all2 (day_ok P) [start..<Suc stop] days"
proof -
  from assms(1) obtain s where s: "start_sim P sp start = Inr s" "sim_days P sp stop lv fees pf s [start..<Suc stop] = Inr days"
    by (auto simp: simulate_def ebind_Inr_iff simp del: upt_Suc)
  show ?thesis by (rule sim_days_ok [OF s(2) assms(2) start_sim_ok [OF s(1)]])
qed

theorem simulate_report_well_formed_witness:
  "\<exists>days. demo_run (Dec 50 0) = Inr days \<and> list_all2 (day_ok (prices_of (demo_market (Dec 50 0) (Dec 50 0)))) [1..<Suc 2] days"
proof -
  from demo_runs(1) [THEN finishes_D] obtain days where d: "demo_run (Dec 50 0) = Inr days" by blast
  have "list_all2 (day_ok (prices_of (demo_market (Dec 50 0) (Dec 50 0)))) [1..<Suc 2] days"
    by (rule simulate_report_well_formed [OF d [unfolded demo_run_def]]) (simp add: CORE_def)
  with d show ?thesis by blast
qed

end
