(* ===== verification/Portfolio_Cash.thy ===== *)
theory Portfolio_Cash imports Portfolio_Demo Core_Alloc_Laws begin

text \<open>
  The cash of a core fill: the sales bring it in, what is needed is set aside, the buys are scaled to what is left.
\<close>

section \<open>One buy\<close>

lemma buy_fee_rate_nonneg [simp]: "0 \<le> val (buy_fee_rate lv s P)"
  by (simp add: buy_fee_rate_def fee_rate_def ZERO_def val_def)

lemma market_fill_buy_pos:
  assumes "market_fill ''buy'' opn s lv (Dec 1 0) = Inr f" "1 \<le> val opn" "0 \<le> val (half_spread lv s)" "0 \<le> val (slippage_bps lv)"
  shows "1 / 2 \<le> val (fp_price f)"
proof -
  let ?h = "half_spread lv s * Dec 1 0" and ?g = "slippage_bps lv * BPS"
  have "0 \<le> val ?h" using assms(3) by (intro rnd_nonneg [OF rnd_times]) (simp add: val_def [of "Dec 1 0"])
  moreover have "0 \<le> val ?g" using assms(4) by (intro rnd_nonneg [OF rnd_times]) (simp add: BPS_def val_def [of "Dec 1 (- 4)"])
  ultimately have h: "0 \<le> val ?h" and g: "0 \<le> val ?g" by auto
  have "1 - EPS \<le> val (1 + ?h)" using rnd_lower [OF rnd_plus, of 1 ?h] h mult_right_mono [of 1 "1 + val ?h" "1 - EPS"] by (simp add: EPS_def)
  then have "1 - EPS \<le> val (1 + ?h) + val ?g" using g by simp
  then have "(1 - EPS) * (1 - EPS) \<le> (val (1 + ?h) + val ?g) * (1 - EPS)" by (rule mult_right_mono) (simp add: EPS_def)
  also have "\<dots> \<le> val (1 + ?h + ?g)" using \<open>1 - EPS \<le> val (1 + ?h) + val ?g\<close> by (intro rnd_lower [OF rnd_plus]) (simp add: EPS_def)
  finally have f: "(1 - EPS) * (1 - EPS) \<le> val (1 + ?h + ?g)" .
  moreover have "0 \<le> (1 - EPS) * (1 - EPS)" by (simp add: EPS_def)
  ultimately have "1 * ((1 - EPS) * (1 - EPS)) \<le> val opn * val (1 + ?h + ?g)" using assms(2) by (intro mult_mono) auto
  then have "(1 - EPS) * (1 - EPS) * (1 - EPS) \<le> val opn * val (1 + ?h + ?g) * (1 - EPS)"
    by (intro mult_right_mono) (simp_all add: EPS_def)
  also have "\<dots> \<le> val (opn * (1 + ?h + ?g))"
  proof (rule rnd_lower [OF rnd_times])
    have "0 \<le> val (1 + ?h + ?g)" using f \<open>0 \<le> (1 - EPS) * (1 - EPS)\<close> by linarith
    then show "0 \<le> val opn * val (1 + ?h + ?g)" using assms(2) by simp
  qed
  finally have "(1 - EPS) * (1 - EPS) * (1 - EPS) \<le> val (opn * (1 + ?h + ?g))" .
  moreover have "1 / 2 \<le> (1 - EPS) * (1 - EPS) * (1 - EPS)" by (simp add: EPS_def)
  ultimately have pos: "1 / 2 \<le> val (opn * (1 + ?h + ?g))" by linarith
  from assms(1) have "round_up (opn * (1 + ?h + ?g)) lv = Inr (fp_price f)"
    by (auto simp: market_fill_def Let_def ebind_Inr_iff)
  then show ?thesis
    using pos quantize_up [of "opn * (1 + ?h + ?g)" TICK "fp_price f"] by (auto simp: round_up_def split: if_splits)
qed

text \<open>What a buy of a notional may take from the cash.\<close>

definition spend :: "cost_level \<Rightarrow> prices \<Rightarrow> string \<Rightarrow> decimal \<Rightarrow> rat" where
  "spend lv P s n = val n * (1 + val (buy_fee_rate lv s P)) * (1 + 4 * EPS) + 4 / 100 + 1 / 10 ^ 9"

lemma spend_pos: "0 \<le> val n \<Longrightarrow> 0 \<le> spend lv P s n"
  by (simp add: spend_def EPS_def add_nonneg_nonneg)

text \<open>
  A fee allowance that holds: a buy's fees are at most its rate plus a cent for each of the three equity fees. The CAT fee is
  per share, so a share must not be too cheap.
\<close>

definition buy_fees_allowed :: "prices \<Rightarrow> nat \<Rightarrow> cost_level \<Rightarrow> fee_table \<Rightarrow> string \<Rightarrow> date \<Rightarrow> bool" where
  "buy_fees_allowed P k lv fees rounding d \<longleftrightarrow>
     (\<forall>s u x df fee df'. charge P k fees rounding d s ''buy'' u x df = Inr (fee, df') \<longrightarrow> 0 \<le> val u \<longrightarrow> 1 / 2 \<le> val x \<longrightarrow>
        0 \<le> val fee \<and> val fee \<le> val (buy_fee_rate lv s P) * (val u * val x) + 3 / 100)"

lemma spend_arith:
  fixes N r E y :: rat
  assumes "0 \<le> N" "0 \<le> r" "E = EPS" "0 \<le> D" "D \<le> N * (1 + E) * (1 + E) + 1 / 100" "0 \<le> F" "F \<le> r * (N * (1 + E)) + 3 / 100"
    and "y \<le> (D + F) * (1 + E)"
  shows "y \<le> N * (1 + r) * (1 + 4 * EPS) + 4 / 100 + 1 / 10 ^ 10"
proof -
  have E: "0 \<le> E" "E \<le> 1 / 10 ^ 27" by (simp_all add: assms(3) EPS_def)
  have "F \<le> r * N * (1 + E) * (1 + E) + 3 / 100"
  proof -
    have "r * N * (1 + E) * 1 \<le> r * N * (1 + E) * (1 + E)" using assms(1,2) E by (intro mult_left_mono) auto
    then show ?thesis using assms(7) by (simp add: mult.assoc)
  qed
  with assms(5) have "D + F \<le> N * (1 + r) * ((1 + E) * (1 + E)) + 4 / 100" by (simp add: algebra_simps)
  then have "(D + F) * (1 + E) \<le> (N * (1 + r) * ((1 + E) * (1 + E)) + 4 / 100) * (1 + E)"
    using E by (intro mult_right_mono) auto
  also have "\<dots> = N * (1 + r) * ((1 + E) * (1 + E) * (1 + E)) + 4 / 100 * (1 + E)" by (simp add: algebra_simps)
  also have "\<dots> \<le> N * (1 + r) * (1 + 4 * EPS) + 4 / 100 * (1 + E)"
    using assms(1,2) unfolding assms(3) by (intro add_right_mono mult_left_mono mult_nonneg_nonneg) (simp_all add: EPS_def)
  also have "\<dots> \<le> N * (1 + r) * (1 + 4 * EPS) + 4 / 100 + 1 / 10 ^ 10" using E by simp
  finally show ?thesis using assms(8) by linarith
qed

lemma rnd_minus_bounds:
  assumes "0 \<le> val b" "val b \<le> val a" "val a \<le> 10 ^ 13"
  shows "val a - val b - 1 / 10 ^ 10 \<le> val (a - b)" "val (a - b) \<le> val a - val b + 1 / 10 ^ 10"
proof -
  have "\<bar>val (a - b) - (val a - val b)\<bar> \<le> \<bar>val a - val b\<bar> * EPS" by (rule rnd_error [OF rnd_minus])
  also have "\<dots> \<le> 10 ^ 13 * EPS" using assms by (intro mult_right_mono) auto
  also have "\<dots> \<le> 1 / 10 ^ 10" by (simp add: EPS_def)
  finally show "val a - val b - 1 / 10 ^ 10 \<le> val (a - b)" "val (a - b) \<le> val a - val b + 1 / 10 ^ 10" by linarith+
qed

lemma fill_buy_spend:
  assumes f: "fill_buy P sp k lv fees rounding d bs b s = Inr b'" and n: "eget bs s = Inr n" "0 \<le> val n"
    and opens: "\<And>x. px_open P s (int k) = Inr x \<Longrightarrow> 1 \<le> val x"
    and lv: "round_prices lv" "0 \<le> val (half_spread lv s)" "0 \<le> val (slippage_bps lv)"
    and fees: "buy_fees_allowed P k lv fees rounding d"
    and c: "spend lv P s n \<le> val (bk_cash b)" "val (bk_cash b) \<le> 10 ^ 13"
  shows "val (bk_cash b) - spend lv P s n \<le> val (bk_cash b')" "val (bk_cash b') \<le> val (bk_cash b) + spend lv P s n"
proof -
  have "val (bk_cash b) - spend lv P s n \<le> val (bk_cash b') \<and> val (bk_cash b') \<le> val (bk_cash b) + spend lv P s n"
  proof (cases "b' = b")
    case True
    then show ?thesis using spend_pos [OF n(2), of lv P s] c(2) by simp
  next
    case False
    from f n(1) False obtain opn fill u units debit fee df where
      o: "px_open P s (int k) = Inr opn" and m: "market_fill ''buy'' opn s lv (Dec 1 0) = Inr fill"
      and u: "ddiv n (fp_price fill) = Inr u" "quantize u QTY_QUANTUM ROUND_DOWN = Inr units"
      and db: "cash_debit units (fp_price fill) lv = Inr debit"
      and ch: "charge P k fees rounding d s ''buy'' units (fp_price fill) (bk_daily_fees b) = Inr (fee, df)"
      and b': "bk_cash b' = bk_cash b - (debit + fee)"
      by (auto simp: fill_buy_def ebind_Inr_iff split: if_splits)
    have xh: "1 / 2 \<le> val (fp_price fill)" by (rule market_fill_buy_pos [OF m opens [OF o] lv(2,3)])
    then have x: "0 < val (fp_price fill)" by simp
    note q = quantize_quotient_down [OF u n(2) x]
    have p0: "0 \<le> val units * val (fp_price fill)" using q(2) x by simp
    have "val (units * fp_price fill) \<le> val units * val (fp_price fill) * (1 + EPS)" by (rule rnd_upper [OF rnd_times p0])
    also have "\<dots> \<le> val n * (1 + EPS) * (1 + EPS)" using q(1) by (intro mult_right_mono) auto
    finally have a: "val (units * fp_price fill) \<le> val n * (1 + EPS) * (1 + EPS)" .
    have qd: "quantize (units * fp_price fill) CENT ROUND_UP = Inr debit" using db lv(1) by (simp add: cash_debit_def Let_def)
    have D: "0 \<le> val debit" "val debit \<le> val n * (1 + EPS) * (1 + EPS) + 1 / 100"
      using quantize_nonneg [OF qd rnd_nonneg [OF rnd_times p0]] quantize_error [OF qd, unfolded abs_less_iff] a
      by (simp_all add: CENT_def)
    have F: "0 \<le> val fee" "val fee \<le> val (buy_fee_rate lv s P) * (val n * (1 + EPS)) + 3 / 100"
    proof -
      have *: "0 \<le> val fee \<and> val fee \<le> val (buy_fee_rate lv s P) * (val units * val (fp_price fill)) + 3 / 100"
        using fees ch q(2) xh unfolding buy_fees_allowed_def by blast
      moreover have "val (buy_fee_rate lv s P) * (val units * val (fp_price fill)) \<le> val (buy_fee_rate lv s P) * (val n * (1 + EPS))"
        using q(1) by (intro mult_left_mono) auto
      ultimately show "0 \<le> val fee" "val fee \<le> val (buy_fee_rate lv s P) * (val n * (1 + EPS)) + 3 / 100" by auto
    qed
    let ?x = "debit + fee"
    have x0: "0 \<le> val ?x" using D F by (intro rnd_nonneg [OF rnd_plus]) simp
    have x1: "val ?x \<le> val n * (1 + val (buy_fee_rate lv s P)) * (1 + 4 * EPS) + 4 / 100 + 1 / 10 ^ 10"
      using rnd_upper [OF rnd_plus, of debit fee] D F by (intro spend_arith [OF n(2) _ refl D F]) auto
    then have "val ?x + 1 / 10 ^ 10 \<le> spend lv P s n" by (simp add: spend_def)
    moreover from this c have "val ?x \<le> val (bk_cash b)" by simp
    ultimately show ?thesis using rnd_minus_bounds [OF x0 _ c(2)] x0 unfolding b' by auto
  qed
  then show "val (bk_cash b) - spend lv P s n \<le> val (bk_cash b')" "val (bk_cash b') \<le> val (bk_cash b) + spend lv P s n" by auto
qed

section \<open>All buys\<close>

lemma fill_buys_cash:
  assumes "efold (fill_buy P sp k lv fees rounding d bs) b ss = Inr b'"
    and n: "\<And>s n. eget bs s = Inr n \<Longrightarrow> 0 \<le> val n"
    and opens: "\<And>s x. px_open P s (int k) = Inr x \<Longrightarrow> 1 \<le> val x"
    and lv: "round_prices lv" "\<And>s. 0 \<le> val (half_spread lv s)" "0 \<le> val (slippage_bps lv)"
    and fees: "buy_fees_allowed P k lv fees rounding d"
    and "0 \<le> R" "R + (\<Sum>s\<leftarrow>ss. spend lv P s (aget 0 bs s)) \<le> val (bk_cash b)"
    and "val (bk_cash b) + (\<Sum>s\<leftarrow>ss. spend lv P s (aget 0 bs s)) \<le> 10 ^ 13"
  shows "R \<le> val (bk_cash b')"
  using assms(1,8-10)
proof (induction ss arbitrary: b)
  case (Cons s ss)
  then obtain b1 where b1: "fill_buy P sp k lv fees rounding d bs b s = Inr b1" "efold (fill_buy P sp k lv fees rounding d bs) b1 ss = Inr b'"
    by (auto simp: ebind_Inr_iff)
  from b1(1) obtain n' where n': "eget bs s = Inr n'" by (auto simp: fill_buy_def ebind_Inr_iff)
  then have ag: "aget 0 bs s = n'" by (auto simp: eget_Inr_iff aget_def)
  have n0: "0 \<le> val n'" by (rule n [OF n'])
  have pos: "0 \<le> (\<Sum>s\<leftarrow>ss. spend lv P s (aget 0 bs s))"
  proof (rule sum_list_nonneg)
    fix x assume "x \<in> set (map (\<lambda>s. spend lv P s (aget 0 bs s)) ss)"
    moreover have "0 \<le> val (aget 0 bs s)" for s
      by (cases "map_of bs s") (use n [of s] in \<open>auto simp: aget_def eget_Inr_iff\<close>)
    ultimately show "0 \<le> x" by (auto intro: spend_pos)
  qed
  have "spend lv P s n' \<le> val (bk_cash b)" "val (bk_cash b) \<le> 10 ^ 13"
    using Cons.prems(2-4) pos spend_pos [OF n0, of lv P s] by (auto simp: ag)
  note sp = fill_buy_spend [OF b1(1) n' n0 opens [of s] lv(1) lv(2) [of s] lv(3) fees this]
  show ?case
    by (rule Cons.IH [OF b1(2) Cons.prems(2)]) (use sp Cons.prems(3,4) in \<open>auto simp: ag\<close>)
qed simp

lemma fill_buys_none:
  assumes "efold (fill_buy P sp k lv fees rounding d bs) b ss = Inr b'" "\<And>s n. eget bs s = Inr n \<Longrightarrow> n < sp_min_order_usd sp"
  shows "b' = b"
  using assms by (induction ss arbitrary: b) (auto simp: ebind_Inr_iff fill_buy_def split: if_splits)

lemma sum_spend:
  assumes "distinct (keys bs)" "\<forall>s. aget 0 rates s = buy_fee_rate lv s P \<or> s \<notin> set (keys bs)"
  shows "(\<Sum>s\<leftarrow>sort (keys bs). spend lv P s (aget 0 bs s)) =
    cost_of rates bs * (1 + 4 * EPS) + of_nat (length bs) * (4 / 100 + 1 / 10 ^ 9)"
proof -
  let ?f = "\<lambda>s. spend lv P s (aget 0 bs s)"
  have "(\<Sum>s\<leftarrow>sort (keys bs). ?f s) = sum_mset (image_mset ?f (mset (sort (keys bs))))" by (metis mset_map sum_mset_sum_list)
  also have "\<dots> = (\<Sum>s\<leftarrow>keys bs. ?f s)" by (metis mset_map mset_sort sum_mset_sum_list)
  also have "\<dots> = (\<Sum>(s, n)\<leftarrow>bs. val n * (1 + val (aget 0 rates s)) * (1 + 4 * EPS) + (4 / 100 + 1 / 10 ^ 9))"
  proof -
    have "?f (fst x) = (case x of (s, n) \<Rightarrow> val n * (1 + val (aget 0 rates s)) * (1 + 4 * EPS) + (4 / 100 + 1 / 10 ^ 9))" if "x \<in> set bs" for x
    proof -
      obtain s n where x: "x = (s, n)" by fastforce
      have "s \<in> set (keys bs)" using that x by (force simp: keys_def)
      then have r: "aget 0 rates s = buy_fee_rate lv s P" using assms(2) by auto
      have "aget 0 bs s = n" using distinct_keys_map_of [OF assms(1)] that x by (simp add: aget_def)
      then show ?thesis by (simp add: x spend_def r)
    qed
    then show ?thesis unfolding keys_def map_map o_def by (intro arg_cong [where f = sum_list] map_cong refl) 
  qed
  also have "\<dots> = cost_of rates bs * (1 + 4 * EPS) + of_nat (length bs) * (4 / 100 + 1 / 10 ^ 9)"
    unfolding cost_of_def by (induction bs) (auto simp: algebra_simps)
  finally show ?thesis .
qed

section \<open>The sales and what is set aside\<close>

text \<open>Every sale of this fill brings in at least its fees.\<close>

definition sell_fees_covered ::
  "prices \<Rightarrow> nat \<Rightarrow> cost_level \<Rightarrow> fee_table \<Rightarrow> string \<Rightarrow> date \<Rightarrow> amounts \<Rightarrow> amounts \<Rightarrow> bool" where
  "sell_fees_covered P k lv fees rounding d ss qty \<longleftrightarrow>
     (\<forall>s wanted q opn fill df fee df' proceeds.
        eget ss s = Inr wanted \<longrightarrow> eget qty s = Inr q \<longrightarrow> px_open P s (int k) = Inr opn \<longrightarrow>
        market_fill ''sell'' opn s lv (Dec 1 0) = Inr fill \<longrightarrow> cash_credit (min wanted q) (fp_price fill) lv = Inr proceeds \<longrightarrow>
        charge P k fees rounding d s ''sell'' (min wanted q) (fp_price fill) df = Inr (fee, df') \<longrightarrow> val fee \<le> val proceeds)"

definition cash_ok :: "book \<Rightarrow> bool" where
  "cash_ok b \<longleftrightarrow> canon (bk_cash b) \<and> 0 \<le> val (bk_cash b)"

lemma fill_sell_cash:
  assumes "fill_sell P sp k lv fees rounding d ss b s = Inr b'" "sell_fees_covered P k lv fees rounding d ss qty" "cash_ok b"
    and same: "map_of (bk_qty b) s = map_of qty s"
  shows "cash_ok b'" "s' \<noteq> s \<Longrightarrow> map_of (bk_qty b') s' = map_of (bk_qty b) s'"
proof -
  from assms(1) obtain wanted q where wq: "eget ss s = Inr wanted" "eget (bk_qty b) s = Inr q"
    by (auto simp: fill_sell_def ebind_Inr_iff)
  define u where "u = min wanted q"
  have "cash_ok b' \<and> (s' \<noteq> s \<longrightarrow> map_of (bk_qty b') s' = map_of (bk_qty b) s')"
  proof (cases "b' = b")
    case False
    from assms(1) False obtain opn and fill :: fill_price and proceeds fee df where
      o: "px_open P s (int k) = Inr opn" "market_fill ''sell'' opn s lv (Dec 1 0) = Inr fill"
      and c: "cash_credit u (fp_price fill) lv = Inr proceeds"
      and ch: "charge P k fees rounding d s ''sell'' u (fp_price fill) (bk_daily_fees b) = Inr (fee, df)"
      and b': "bk_cash b' = bk_cash b + (proceeds - fee)" "bk_qty b' = AList.update s (q - u) (bk_qty b)"
      unfolding fill_sell_def wq ebind_simps Let_def u_def [symmetric]
      by (auto simp: ebind_Inr_iff split: if_splits)
    have "eget qty s = Inr q" using wq(2) same by (simp add: eget_def)
    then have "val fee \<le> val proceeds"
      using assms(2) wq(1) o c ch unfolding sell_fees_covered_def u_def by blast
    then have "0 \<le> val (proceeds - fee)" by (intro rnd_nonneg [OF rnd_minus]) simp
    then show ?thesis using assms(3) rnd_nonneg [OF rnd_plus, of "bk_cash b" "proceeds - fee"] by (simp add: cash_ok_def b')
  qed (use assms(3) in simp)
  then show "cash_ok b'" "s' \<noteq> s \<Longrightarrow> map_of (bk_qty b') s' = map_of (bk_qty b) s'" by auto
qed

lemma fill_sells_cash:
  assumes "efold (fill_sell P sp k lv fees rounding d ss) b xs = Inr b'" "sell_fees_covered P k lv fees rounding d ss qty" "cash_ok b"
    "distinct xs" "\<forall>s \<in> set xs. map_of (bk_qty b) s = map_of qty s"
  shows "cash_ok b'"
  using assms(1,3-5)
proof (induction xs arbitrary: b)
  case (Cons s xs)
  then obtain b1 where b1: "fill_sell P sp k lv fees rounding d ss b s = Inr b1" "efold (fill_sell P sp k lv fees rounding d ss) b1 xs = Inr b'"
    by (auto simp: ebind_Inr_iff)
  note st = fill_sell_cash [OF b1(1) assms(2) Cons.prems(2)]
  show ?case
  proof (rule Cons.IH [OF b1(2)])
    show "\<forall>x \<in> set xs. map_of (bk_qty b1) x = map_of qty x"
      using st(2) Cons.prems(3,4) by (metis distinct.simps(2) list.set_intros)
  qed (use st(1) Cons.prems(3,4) in auto)
qed simp

text \<open>No reserve, or one of at least a cent, which the rounding of the 28-digit arithmetic cannot reach.\<close>

definition reserve_ok :: "spec \<Rightarrow> bool" where
  "reserve_ok sp \<longleftrightarrow> val (sp_cash_reserve_usd sp) = 0 \<or> 1 / 100 \<le> val (sp_cash_reserve_usd sp)"

lemma above_reserve:
  assumes "cash_ok b" "reserve_ok sp" "val (bk_cash b) \<le> 10 ^ 12"
  shows "val (bk_cash b - sp_cash_reserve_usd sp) \<le> val (bk_cash b)"
proof -
  let ?c = "bk_cash b" and ?r = "sp_cash_reserve_usd sp"
  have r: "rnd (val ?c - val ?r) (val (?c - ?r))" by (rule rnd_minus)
  consider "val ?r = 0" | "1 / 100 \<le> val ?r" "val ?r \<le> val ?c" | "val ?c < val ?r"
    using assms(2) not_le unfolding reserve_ok_def by blast
  then show ?thesis
  proof cases
    case 1
    then show ?thesis
      using rnd_exact [OF r, of "dexp ?c"] canon_val [of ?c] grid_val [of ?c] assms(1) by (simp add: cash_ok_def)
  next
    case 2
    have "val (?c - ?r) \<le> (val ?c - val ?r) * (1 + EPS)" by (rule rnd_upper [OF r]) (use 2 in simp)
    also have "\<dots> \<le> val ?c"
    proof -
      have "(val ?c - val ?r) * EPS \<le> 10 ^ 12 * EPS" using 2 assms(3) by (intro mult_right_mono) auto
      also have "\<dots> \<le> 1 / 100" by (simp add: EPS_def)
      finally show ?thesis using 2 by (simp add: distrib_left)
    qed
    finally show ?thesis .
  next
    case 3
    then have "val (?c - ?r) \<le> 0" by (intro rnd_nonpos [OF r]) simp
    then show ?thesis using assms(1) by (simp add: cash_ok_def)
  qed
qed

lemma pay_need_cash:
  assumes "pay_need sp pd b = Inr (b', short)" "cash_ok b" "reserve_ok sp" "val (bk_cash b) \<le> 10 ^ 12" "0 \<le> val (pe_need pd)"
  shows "cash_ok b'" "val (bk_cash b') \<le> 2 * 10 ^ 12" "0 \<le> val short"
proof -
  have "cash_ok b' \<and> val (bk_cash b') \<le> 2 * 10 ^ 12 \<and> 0 \<le> val short"
  proof (cases "truthy (pe_need pd)")
    case True
    let ?m = "min (pe_need pd) (pmax (bk_cash b - sp_cash_reserve_usd sp) ZERO)"
    from assms(1) True obtain paid where p: "quantize ?m CENT ROUND_DOWN = Inr paid"
      and b': "bk_cash b' = bk_cash b - paid" and sh: "short = pe_need pd - paid"
      by (auto simp: pay_need_def ebind_Inr_iff Let_def)
    have m: "0 \<le> val ?m" "val ?m \<le> val (bk_cash b)" "val ?m \<le> val (pe_need pd)"
      using assms(5) above_reserve [OF assms(2-4)] assms(2) by (auto simp: val_min val_pmax ZERO_def val_def [of "Dec 0 0"] cash_ok_def)
    have paid: "0 \<le> val paid" "val paid \<le> val ?m" using quantize_nonneg [OF p m(1)] quantize_down [OF p m(1)] by auto
    have "0 \<le> val (bk_cash b - paid)" by (rule rnd_nonneg [OF rnd_minus]) (use paid m in simp)
    moreover have "val (bk_cash b - paid) \<le> (val (bk_cash b) - val paid) * (1 + EPS)"
      by (rule rnd_upper [OF rnd_minus]) (use paid m in simp)
    moreover have "(val (bk_cash b) - val paid) * (1 + EPS) \<le> 10 ^ 12 * 2"
      using paid m assms(4) by (intro mult_mono) (auto simp: EPS_def)
    moreover have "0 \<le> val (pe_need pd - paid)" by (rule rnd_nonneg [OF rnd_minus]) (use paid m in simp)
    ultimately show ?thesis by (simp add: cash_ok_def b' sh)
  next
    case False
    then show ?thesis using assms(1,2,4) by (auto simp: pay_need_def cash_ok_def ZERO_def val_def)
  qed
  then show "cash_ok b'" "val (bk_cash b') \<le> 2 * 10 ^ 12" "0 \<le> val short" by auto
qed

section \<open>The whole fill\<close>

lemma val_allowance: "round_prices lv \<Longrightarrow> length bs \<le> 10 ^ 6 \<Longrightarrow> val (rounding_allowance lv bs) = (4 * of_nat (length bs) + 4) / 100"
proof -
  assume a: "round_prices lv" "length bs \<le> 10 ^ 6"
  let ?d = "Dec (4 * int (length bs) + 4) 0"
  have v: "val CENT * val ?d = (4 * of_nat (length bs) + 4) / 100" by (simp add: val_def [of ?d])
  have l: "of_nat (length bs) \<le> (10 ^ 6 :: rat)" using a(2) by (simp flip: of_nat_le_iff)
  have "val (CENT * ?d) = val CENT * val ?d"
    by (rule val_times_exact [of "-2" _ 0]) (use grid_val [of CENT] grid_val [of ?d] l in \<open>simp_all add: v val_def [of ?d]\<close>)
  with v have "val (CENT * ?d) = (4 * of_nat (length bs) + 4) / 100" by (simp only:)
  then show ?thesis using a(1) by (simp only: rounding_allowance_def if_True)
qed

lemma budget_arith:
  fixes A C n :: rat
  assumes "0 \<le> C" "C \<le> 2 * 10 ^ 12" "0 \<le> n" "n \<le> 10 ^ 6" "A \<le> C * (1 + EPS) * (1 + EPS) - (4 * n + 4) / 100" "0 \<le> A"
  shows "A * (1 + 3 * SUM_EPS) * (1 + 4 * EPS) + n * (4 / 100 + 1 / 10 ^ 9) \<le> C - 3 / 100"
proof -
  have "A * (1 + 3 * SUM_EPS) * (1 + 4 * EPS) = A * ((1 + 3 * SUM_EPS) * (1 + 4 * EPS))" by simp
  also have "\<dots> \<le> A * (1 + 1 / 10 ^ 19)" using assms(6) by (intro mult_left_mono) (simp_all add: SUM_EPS_def EPS_def)
  also have "\<dots> \<le> (C * (1 + EPS) * (1 + EPS) - (4 * n + 4) / 100) * (1 + 1 / 10 ^ 19)" using assms(5) by (intro mult_right_mono) simp_all
  also have "\<dots> \<le> C * (1 + 2 / 10 ^ 19) - (4 * n + 4) / 100"
  proof -
    have "C * ((1 + EPS) * (1 + EPS) * (1 + 1 / 10 ^ 19)) \<le> C * (1 + 2 / 10 ^ 19)"
      using assms(1) by (intro mult_left_mono) (simp_all add: EPS_def)
    moreover have "(4 * n + 4) / 100 * 1 \<le> (4 * n + 4) / 100 * (1 + 1 / 10 ^ 19)"
      using assms(3) by (intro mult_left_mono) simp_all
    moreover have "(C * (1 + EPS) * (1 + EPS) - (4 * n + 4) / 100) * (1 + 1 / 10 ^ 19) =
        C * ((1 + EPS) * (1 + EPS) * (1 + 1 / 10 ^ 19)) - (4 * n + 4) / 100 * (1 + 1 / 10 ^ 19)"
      by (simp only: left_diff_distrib mult.assoc)
    ultimately show ?thesis by linarith
  qed
  finally have "A * (1 + 3 * SUM_EPS) * (1 + 4 * EPS) \<le> C + C * 2 / 10 ^ 19 - (4 * n + 4) / 100" by (simp add: algebra_simps)
  then show ?thesis using assms(2,4) by (simp add: field_simps)
qed

lemma fill_core_budget:
  assumes av: "0 < val (b2c - r - rounding_allowance lv bs)" "round_prices lv" "length bs \<le> 10 ^ 6" "0 \<le> val r"
  shows "0 \<le> val b2c - val r \<and> val (b2c - r - rounding_allowance lv bs) \<le> (val b2c - val r) * (1 + EPS) * (1 + EPS) - (4 * of_nat (length bs) + 4) / 100"
proof -
  note al = val_allowance [OF av(2,3)]
  have n0: "0 \<le> (4 * of_nat (length bs) + 4) / (100 :: rat)" by simp
  have d: "val (rounding_allowance lv bs) < val (b2c - r)"
    using rnd_nonpos [OF rnd_minus, of "b2c - r" "rounding_allowance lv bs"] av(1) by (meson diff_le_0_iff_le not_le)
  then have dp: "0 < val (b2c - r)" using al n0 by linarith
  have c: "0 < val b2c - val r" using rnd_nonpos [OF rnd_minus, of b2c r] dp by (meson not_le)
  have u1: "val (b2c - r) \<le> (val b2c - val r) * (1 + EPS)" by (rule rnd_upper [OF rnd_minus]) (use c in simp)
  have "val (b2c - r - rounding_allowance lv bs) \<le> (val (b2c - r) - val (rounding_allowance lv bs)) * (1 + EPS)"
    by (rule rnd_upper [OF rnd_minus]) (use d in simp)
  also have "\<dots> = val (b2c - r) * (1 + EPS) - val (rounding_allowance lv bs) * (1 + EPS)" by (simp add: left_diff_distrib)
  also have "\<dots> \<le> (val b2c - val r) * (1 + EPS) * (1 + EPS) - val (rounding_allowance lv bs)"
    using u1 n0 by (intro diff_mono mult_right_mono) (simp_all add: al distrib_left)
  finally show ?thesis using c by (simp add: al)
qed

lemma rates_aget:
  "aget 0 (map (\<lambda>(s, _). (s, buy_fee_rate lv s P)) bs) s = buy_fee_rate lv s P \<or> s \<notin> set (keys bs)"
  by (induction bs) (auto simp: aget_def keys_def)

lemma cost_of_member:
  assumes "(s, n) \<in> set bs" "\<forall>n \<in> set (vals bs). 0 \<le> val n" "\<forall>s. 0 \<le> val (aget 0 r s)"
  shows "val n * (1 + val (aget 0 r s)) \<le> cost_of r bs"
  using assms(1,2)
proof (induction bs)
  case (Cons x xs)
  have "0 \<le> cost_of r xs" using Cons.prems(2) assms(3) by (intro cost_of_nonneg) (auto simp: vals_def)
  moreover have "0 \<le> val (snd x) * (1 + val (aget 0 r (fst x)))"
    using Cons.prems(2) assms(3) by (intro mult_nonneg_nonneg add_nonneg_nonneg) (auto simp: vals_def)
  ultimately show ?case using Cons by (cases x) (auto simp: cost_of_def vals_def)
qed simp


section \<open>The withdrawal of the demonstration\<close>

lemma demo_plan: "buys (pe_plan demo_pd) = []" "sells (pe_plan demo_pd) = [(''VTI'', Dec 5 0)]" "pe_need demo_pd = Dec 500 0"
  by (simp_all add: demo_pd_def demo_pending_def)

lemma demo_prices_simps: "px_open demo_prices s 2 = Inr (Dec 50 0)" "px_factor demo_prices s k = Inr (Dec 1 0)"
  "px_asset_class demo_prices s = ''equity''"
  by (simp_all add: demo_prices_def)

lemma demo_sell_parts:
  "market_fill ''sell'' (Dec 50 0) ''VTI'' central (Dec 1 0) = Inr \<lparr> fp_price = Dec 499775 (-4), fp_ref = Dec 50 0, fp_spread = Dec 1250 (-5), fp_slippage = Dec 100 (-4) \<rparr>"
  "min (Dec 5 0) (Dec 10 0) = Dec 5 0"
  "cash_credit (Dec 5 0) (Dec 499775 (-4)) central = Inr (Dec 24988 (-2))"
  "ddiv (Dec 499775 (-4)) (Dec 1 0) = Inr (Dec 499775 (-4))"
  by code_simp+

lemma demo_sell_fee:
  "emap (\<lambda>fs. dsum (vals fs)) (order_fees demo_fees (Date 2026 12 31) ''sell'' (Dec 5 0 * Dec 1 0) (Dec 499775 (-4)) ''daily'' ''equity'') = Inr (Dec 613768250 (-11))"
  by code_simp

lemma demo_sell_covered: "sell_fees_covered demo_prices 2 central demo_fees ''daily'' (Date 2026 12 31) (sells (pe_plan demo_pd)) (bk_qty demo_book)"
proof -
  have q: "bk_qty demo_book = [(''VTI'', Dec 10 0)]" by (simp add: demo_book_def book_of_def demo_sim_def)
  have fee: "fee = Dec 613768250 (-11)"
    if "charge demo_prices 2 demo_fees ''daily'' (Date 2026 12 31) ''VTI'' ''sell'' (Dec 5 0) (Dec 499775 (-4)) df = Inr (fee, df')" for fee df df'
    using that demo_sell_parts(4) demo_sell_fee by (auto simp: charge_def demo_prices_simps ebind_Inr_iff emap_Inr_iff)
  show ?thesis
    unfolding sell_fees_covered_def demo_plan q
    by (auto simp: eget_def demo_prices_simps demo_sell_parts split: if_splits dest!: fee) (simp add: val_def)
qed

lemma demo_buy_fees:
  "order_fees demo_fees (Date 2026 12 31) ''buy'' u x ''daily'' ''equity'' = Inr [(''cat'', 0 + Dec 3 (-6) * u)]"
  by (simp add: order_fees_def exact_fees_def demo_fees_def fee_row_2026_def applies_def row_amount_def aget_def less_eq_date_def)

lemma demo_buy_allowed: "buy_fees_allowed demo_prices 2 central demo_fees ''daily'' (Date 2026 12 31)"
  unfolding buy_fees_allowed_def
proof (intro allI impI)
  fix s u x df fee df'
  assume c: "charge demo_prices 2 demo_fees ''daily'' (Date 2026 12 31) s ''buy'' u x df = Inr (fee, df')" and u: "0 \<le> val u" and x: "1 / 2 \<le> val x"
  let ?q = "u * Dec 1 0"
  from c have fee: "fee = 0 + (0 + Dec 3 (-6) * ?q)"
    by (auto simp: charge_def demo_prices_simps demo_buy_fees dsum_def vals_def ebind_Inr_iff)
  have q: "0 \<le> val ?q" "val ?q \<le> val u * (1 + EPS)"
    using rnd_nonneg [OF rnd_times, of u "Dec 1 0"] rnd_upper [OF rnd_times, of u "Dec 1 0"] u by (simp_all add: val_def [of "Dec 1 0"])
  let ?a = "Dec 3 (-6) * ?q"
  have a: "0 \<le> val ?a" "val ?a \<le> 3 / 10 ^ 6 * val ?q * (1 + EPS)"
    using rnd_nonneg [OF rnd_times, of "Dec 3 (-6)" ?q] rnd_upper [OF rnd_times, of "Dec 3 (-6)" ?q] q(1) by (simp_all add: val_def [of "Dec 3 (-6)"])
  have b: "0 \<le> val (0 + ?a)" "val (0 + ?a) \<le> val ?a * (1 + EPS)"
    using rnd_nonneg [OF rnd_plus, of 0 ?a] rnd_upper [OF rnd_plus, of 0 ?a] a(1) by simp_all
  have f: "0 \<le> val fee" "val fee \<le> val (0 + ?a) * (1 + EPS)"
    using rnd_nonneg [OF rnd_plus, of 0 "0 + ?a"] rnd_upper [OF rnd_plus, of 0 "0 + ?a"] b(1) by (simp_all add: fee)
  have r: "val (buy_fee_rate central s demo_prices) = 1 / 10 ^ 5"
    by (simp add: buy_fee_rate_def fee_rate_def central_def demo_prices_simps val_def)
  have "val fee \<le> 4 / 10 ^ 6 * val u" using q a b f u by (simp add: EPS_def)
  also have "\<dots> \<le> 1 / 10 ^ 5 * (val u * val x) + 3 / 100"
  proof -
    have "0 \<le> val u * val x" using u x by (intro mult_nonneg_nonneg) auto
    moreover have "val u \<le> 2 * (val u * val x)" using mult_left_mono [OF x u] by simp
    ultimately show ?thesis by (simp add: field_simps)
  qed
  finally show "0 \<le> val fee \<and> val fee \<le> val (buy_fee_rate central s demo_prices) * (val u * val x) + 3 / 100"
    using f(1) unfolding r by simp
qed


end
