(* ===== verification/Portfolio_Faults.thy ===== *)
theory Portfolio_Faults imports Portfolio_Demo begin

text \<open>
  Two places where the engine and its comments differ: the day's rounding charge is taken without looking at the cash,
  and the tax a fill has already paid is carried again as tax.
\<close>


text \<open>
  C32. A withdrawal is booked as tax: when a core fill on a fresh day books at least the whole pending tax and still
  leaves a shortfall, the shortfall can only be withdrawals, yet part of it is carried as tax: the tax booked and the
  tax carried to the next fill are together more than the tax that was due.
\<close>

theorem paid_tax_carried_as_tax:
  assumes "si_pending s = Some pd" "value_at (px_open P) k (si_qty s) (si_cash s) = Inr v"
    and "plan_blocked CORE pd v (si_prev_value s) = Inr False"
    and "open_side P sp k lv fees CORE rounding (new_day d) s = Inr (s', y')"
    and "val (pe_tax pd) \<le> val (dy_tax y')" "0 < val (pe_tax pd)" "0 < val (si_carried s')"
  shows "val (pe_tax pd) < val (dy_tax y') + val (si_carried_tax s')"
proof -
  have "pf_sizing CORE = ''core''" by (simp add: CORE_def)
  with assms(1-4) have "si_carried_tax s' = min (si_carried s') (pe_tax pd)"
    by (auto simp: open_side_def emap_Inr_iff)
  then show ?thesis using assms(5-7) by (auto simp: min_def)
qed

theorem paid_tax_carried_as_tax_witness:
  "dy_tax demo_after_day = Dec 100 0 \<and> pe_tax demo_pd = Dec 100 0 \<and> 0 < val (si_carried_tax demo_after)"
proof -
  have nb: "plan_blocked CORE demo_pd v w = Inr False" for v w by (simp add: plan_blocked_def demo_pd_def demo_pending_def)
  have pend: "si_pending (demo_sim (Dec 100 0)) = Some demo_pd" by (simp add: demo_sim_def demo_pd_def)
  have v: "value_at (px_open demo_prices) 2 (si_qty (demo_sim (Dec 100 0))) (si_cash (demo_sim (Dec 100 0))) = Inr (Dec 50000 (-2))"
    using demo_value by (simp add: demo_sim_def)
  have t: "dy_tax demo_after_day = Dec 100 0" "pe_tax demo_pd = Dec 100 0" "si_carried demo_after = Dec 25013 (-2)"
    by (simp_all add: demo_after_day_def demo_paid_def demo_pd_def demo_pending_def demo_after_def)
  have "val (pe_tax demo_pd) < val (dy_tax demo_after_day) + val (si_carried_tax demo_after)"
    by (rule paid_tax_carried_as_tax [OF pend v nb demo_open [unfolded demo_day_def]]) (simp_all add: t val_def)
  then show ?thesis by (simp add: t)
qed

end
