(* ===== verification/Market_Data.thy ===== *)
theory Market_Data imports Costs begin

text \<open>
  \<open>backtest/lockbox.py\<close> and \<open>backtest/data.py\<close>: the intraday and daily bars of the news back-test, where the
  development data ends, and the view of them a decision at an instant gets.

  The parallel arrays of a series are a list of rows. A bar starts at a whole second; a price is the decimal its
  float prints as. \<open>ny\<close> (an instant's New York date and clock) and \<open>ny_utc\<close> (the instant of a New York wall-clock
  time) need the time-zone database and are arguments. Instants are aware. \<open>MarketData.load\<close> and the cache readers
  (parquet, gzip) are left out.
\<close>

section \<open>The lock-box\<close>

definition LOCKBOX_SESSIONS_FROM :: date where "LOCKBOX_SESSIONS_FROM = Date 2026 9 21"
definition EMBARGO_SESSION :: date where "EMBARGO_SESSION = Date 2026 9 18"

text \<open>\<open>DEV_EVENTS_END\<close> is midnight UTC of 2026-09-18, in microseconds since 1970.\<close>

definition EPOCH_ORDINAL :: int where "EPOCH_ORDINAL = 719163"

definition DEV_EVENTS_END :: instant where
  "DEV_EVENTS_END = seconds (86400 * (toordinal (Date 2026 9 18) - EPOCH_ORDINAL))"

definition lockbox_events_from :: "(date \<Rightarrow> time_of_day \<Rightarrow> instant) \<Rightarrow> instant" where
  "lockbox_events_from ny_utc = ny_utc (Date 2026 9 18) (hms 16 0 0)"

text \<open>The private issuer: only \<open>issue_key\<close> has it.\<close>

datatype issuer = Issuer | Other_Object

record lockbox_key = experiment_id :: string

definition mk_key :: "string \<Rightarrow> issuer \<Rightarrow> lockbox_key result" where
  "mk_key x i = (if i \<noteq> Issuer then Inl LockBoxError else Inr \<lparr> experiment_id = x \<rparr>)"

definition issue_key :: "string \<Rightarrow> lockbox_key result" where
  "issue_key x = mk_key x Issuer"

definition event_readable :: "instant \<Rightarrow> lockbox_key option \<Rightarrow> bool" where
  "event_readable known_at key \<longleftrightarrow> key \<noteq> None \<or> known_at < DEV_EVENTS_END"

definition session_readable :: "date \<Rightarrow> lockbox_key option \<Rightarrow> bool" where
  "session_readable d key \<longleftrightarrow> key \<noteq> None \<or> d < LOCKBOX_SESSIONS_FROM"

section \<open>Intraday bars\<close>

definition SIP_DELAY :: instant where "SIP_DELAY = minutes 16"
definition INPUT_DELAY :: instant where "INPUT_DELAY = SIP_DELAY"

record row =
  r_start :: int
  r_open :: decimal
  r_high :: decimal
  r_low :: decimal
  r_close :: decimal
  r_volume :: decimal
  r_session :: nat

record series =
  bs_symbol :: string
  bs_seconds :: int
  bs_rows :: "row list"

record price_bar =
  pb_symbol :: string
  pb_start :: instant
  pb_seconds :: int
  pb_row :: row

definition pb_end :: "price_bar \<Rightarrow> instant" where
  "pb_end b = pb_start b + seconds (pb_seconds b)"

text \<open>\<open>math.ceil\<close> and \<open>math.floor\<close> of an instant's seconds.\<close>

definition ceil_s :: "instant \<Rightarrow> int" where "ceil_s t = - ((- t) div 1000000)"
definition floor_s :: "instant \<Rightarrow> int" where "floor_s t = t div 1000000"

definition starts :: "series \<Rightarrow> int list" where
  "starts s = map r_start (bs_rows s)"

definition first_at_or_after :: "series \<Rightarrow> instant \<Rightarrow> nat" where
  "first_at_or_after s t = bisect_left (starts s) (ceil_s t)"

definition last_ended_by :: "series \<Rightarrow> instant \<Rightarrow> int" where
  "last_ended_by s t = int (bisect_right (starts s) (floor_s (t - seconds (bs_seconds s)))) - 1"

definition session_last :: "series \<Rightarrow> nat \<Rightarrow> int" where
  "session_last s i = int (bisect_right (map r_session (bs_rows s)) (r_session (bs_rows s ! i))) - 1"

definition bar :: "series \<Rightarrow> nat \<Rightarrow> price_bar" where
  "bar s i = \<lparr> pb_symbol = bs_symbol s, pb_start = seconds (r_start (bs_rows s ! i)), pb_seconds = bs_seconds s, pb_row = bs_rows s ! i \<rparr>"

definition restricted :: "series \<Rightarrow> (row \<Rightarrow> bool) \<Rightarrow> series" where
  "restricted s keep = s\<lparr> bs_rows := filter keep (bs_rows s) \<rparr>"

text \<open>The bars that start inside a session's regular hours, with its index, in order of their start.\<close>

definition in_session :: "calendar \<Rightarrow> row \<Rightarrow> row option" where
  "in_session cal r =
     (let idx = int (bisect_right (map open_at cal) (seconds (r_start r))) - 1 in
      if 0 \<le> idx \<and> seconds (r_start r) < close_at (cal ! nat idx) then Some (r\<lparr> r_session := nat idx \<rparr>) else None)"

definition regular_series :: "string \<Rightarrow> int \<Rightarrow> row list \<Rightarrow> calendar \<Rightarrow> series" where
  "regular_series symbol secs rs cal =
     \<lparr> bs_symbol = symbol, bs_seconds = secs, bs_rows = sort_key r_start (List.map_filter (in_session cal) rs) \<rparr>"

section \<open>The market\<close>

text \<open>A daily bar, which Alpaca stamps at midnight New York time of its session.\<close>

record day_bar =
  db_t :: instant
  db_open :: decimal
  db_high :: decimal
  db_low :: decimal
  db_close :: decimal
  db_volume :: decimal

definition SESSION_PUBLISHED_AT :: time_of_day where "SESSION_PUBLISHED_AT = hms 16 15 0"

definition session_date :: "(instant \<Rightarrow> ny_time) \<Rightarrow> day_bar \<Rightarrow> date" where
  "session_date ny b = ny_date (ny (db_t b))"

definition completed_sessions :: "(instant \<Rightarrow> ny_time) \<Rightarrow> day_bar list \<Rightarrow> instant \<Rightarrow> day_bar list" where
  "completed_sessions ny daily as_of =
     (let today = ny_date (ny as_of); today_done = SESSION_PUBLISHED_AT \<le> ny_clock (ny as_of) in
      filter (\<lambda>b. session_date ny b < today \<or> (today_done \<and> session_date ny b = today)) daily)"

record market =
  mk_calendar_of :: calendar
  mk_lockbox :: "lockbox_key option"
  mk_symbols :: "string list"
  mk_minute :: "(string \<times> series) list"
  mk_daily :: "(string \<times> day_bar list) list"
  mk_cutoffs :: "(string \<times> instant list) list"
  mk_adj_close :: "(string \<times> (date \<times> decimal) list) list"
  mk_raw_close :: "(string \<times> (date \<times> decimal) list) list"

definition readable :: "lockbox_key option \<Rightarrow> date \<Rightarrow> bool" where
  "readable key d \<longleftrightarrow> key \<noteq> None \<or> session_readable d None"

definition quarantine_series :: "calendar \<Rightarrow> lockbox_key option \<Rightarrow> series \<Rightarrow> series" where
  "quarantine_series cal key s =
     (case index_of cal LOCKBOX_SESSIONS_FROM of
        None \<Rightarrow> s
      | Some first_locked \<Rightarrow> if key \<noteq> None then s else restricted s (\<lambda>r. r_session r < first_locked))"

definition mk_market ::
  "(instant \<Rightarrow> ny_time) \<Rightarrow> (date \<Rightarrow> time_of_day \<Rightarrow> instant) \<Rightarrow> calendar \<Rightarrow> (string \<times> series) list \<Rightarrow>
   (string \<times> day_bar list) list \<Rightarrow> (string \<times> (date \<times> decimal) list) list \<Rightarrow> lockbox_key option \<Rightarrow> market" where
  "mk_market ny ny_utc cal minute daily raw key =
     (let kept = map (\<lambda>(s, bs). (s, filter (\<lambda>b. readable key (session_date ny b)) bs)) daily in
      \<lparr> mk_calendar_of = cal, mk_lockbox = key, mk_symbols = keys minute,
        mk_minute = map (\<lambda>(s, b). (s, quarantine_series cal key b)) minute,
        mk_daily = kept,
        mk_cutoffs = map (\<lambda>(s, bs). (s, map (\<lambda>b. ny_utc (session_date ny b) SESSION_PUBLISHED_AT) bs)) kept,
        mk_adj_close = map (\<lambda>(s, bs). (s, dict_of (map (\<lambda>b. (session_date ny b, db_close b)) bs))) kept,
        mk_raw_close = map (\<lambda>(s, closes). (s, filter (\<lambda>(d, c). readable key d) closes)) raw \<rparr>)"

text \<open>\<open>datetime.max\<close> of UTC when the calendar has no lock-box session.\<close>

definition DATETIME_MAX :: instant where
  "DATETIME_MAX = seconds (86400 * (toordinal (Date 9999 12 31) - EPOCH_ORDINAL)) + hms 23 59 59 + 999999"

definition lockbox_start :: "market \<Rightarrow> instant" where
  "lockbox_start m = (case by_date (mk_calendar_of m) LOCKBOX_SESSIONS_FROM of None \<Rightarrow> DATETIME_MAX | Some s \<Rightarrow> open_at s)"

record pit_view =
  pv_market :: market
  pv_t :: instant

definition as_of :: "market \<Rightarrow> instant \<Rightarrow> pit_view result" where
  "as_of m t =
     (if mk_lockbox m = None \<and> lockbox_start m \<le> t then Inl LockBoxError
      else Inr \<lparr> pv_market = m, pv_t = t \<rparr>)"

definition fill_index :: "market \<Rightarrow> string \<Rightarrow> instant \<Rightarrow> nat result" where
  "fill_index m symbol not_before = emap (\<lambda>s. first_at_or_after s not_before) (eget (mk_minute m) symbol)"

definition factor_of :: "(decimal \<Rightarrow> decimal \<Rightarrow> 'f result) \<Rightarrow> market \<Rightarrow> string \<Rightarrow> date \<Rightarrow> 'f result" where
  "factor_of fdiv m symbol d =
     (case ebind (eget (mk_adj_close m) symbol) (\<lambda>a. ebind (eget a d) (\<lambda>x.
           ebind (eget (mk_raw_close m) symbol) (\<lambda>r. ebind (eget r d) (\<lambda>y. Inr (x, y))))) of
        Inl e \<Rightarrow> Inl (if readable (mk_lockbox m) d then e else LockBoxError)
      | Inr (x, y) \<Rightarrow> fdiv x y)"

section \<open>The view of an instant\<close>

definition pit_daily :: "pit_view \<Rightarrow> string \<Rightarrow> day_bar list result" where
  "pit_daily v symbol =
     ebind (eget (mk_cutoffs (pv_market v)) symbol) (\<lambda>cs.
     ebind (eget (mk_daily (pv_market v)) symbol) (\<lambda>bs.
     Inr (take (bisect_right cs (pv_t v)) bs)))"

definition quote_bar :: "pit_view \<Rightarrow> string \<Rightarrow> price_bar option result" where
  "quote_bar v symbol =
     ebind (eget (mk_minute (pv_market v)) symbol) (\<lambda>s.
     let i = last_ended_by s (pv_t v) in
     if i < 0 then Inr None
     else let b = bar s (nat i) in if pv_t v < pb_end b then Inl LookAheadError else Inr (Some b))"

definition input_bars :: "pit_view \<Rightarrow> string \<Rightarrow> instant \<Rightarrow> price_bar list result" where
  "input_bars v symbol since =
     ebind (eget (mk_minute (pv_market v)) symbol) (\<lambda>s.
     let lo = first_at_or_after s since;
         hi = last_ended_by s (pv_t v - INPUT_DELAY);
         bars = map (bar s) [lo..<nat (hi + 1)]
     in if bars \<noteq> [] \<and> pv_t v - INPUT_DELAY < pb_end (last bars) then Inl LookAheadError else Inr bars)"

end
