(* ===== verification/Market_Data_Laws.thy ===== *)
theory Market_Data_Laws imports Market_Data begin

text \<open>
  What a decision can see of the market: a view has no bar that had not ended, no session of the lock-box without a
  key, and its daily bars are those the features of the model are computed from.
\<close>

section \<open>Views\<close>

lemma sorted_starts_restricted: "sorted (starts s) \<Longrightarrow> sorted (starts (restricted s keep))"
  by (induction "bs_rows s" arbitrary: s) (auto simp: starts_def restricted_def sorted_map sorted_wrt_filter)

lemma sorted_starts_quarantine: "sorted (starts s) \<Longrightarrow> sorted (starts (quarantine_series c key s))"
  by (auto simp: quarantine_series_def sorted_starts_restricted split: option.splits)

lemma quarantined: "index_of c LOCKBOX_SESSIONS_FROM = Some k \<Longrightarrow> r \<in> set (bs_rows (quarantine_series c None s)) \<Longrightarrow> r_session r < k"
  by (auto simp: quarantine_series_def restricted_def)

text \<open>The last bar that ended by an instant ended by it, and so did every bar before it.\<close>

lemma floor_s_le: "x \<le> floor_s t \<longleftrightarrow> seconds x \<le> t"
  by (auto simp: floor_s_def seconds_def)

lemma ended_by:
  assumes "sorted (starts s)" "int i \<le> last_ended_by s t"
  shows "i < length (bs_rows s)" "pb_end (bar s i) \<le> t"
proof -
  note sp = splits_bisect_right [OF assms(1), of "floor_s (t - seconds (bs_seconds s))"]
  have "i < bisect_right (starts s) (floor_s (t - seconds (bs_seconds s)))" using assms(2) by (simp add: last_ended_by_def)
  with sp show i: "i < length (bs_rows s)" and "pb_end (bar s i) \<le> t"
    by (auto simp: splits_def starts_def bar_def pb_end_def floor_s_le)
qed

lemma map_of_map_val: "map_of (map (\<lambda>(k, v). (k, f k v)) xs) k = map_option (f k) (map_of xs k)"
  by (induction xs) auto

lemma mk_market_minute: "map_of (mk_minute (mk_market ny utc c minute daily raw key)) s = map_option (quarantine_series c key) (map_of minute s)"
  by (simp add: mk_market_def Let_def map_of_map_val [where f = "\<lambda>_ v. quarantine_series c key v"])

lemma mk_market_fields: "mk_lockbox (mk_market ny utc c minute daily raw key) = key" "mk_calendar_of (mk_market ny utc c minute daily raw key) = c"
  by (simp_all add: mk_market_def Let_def)

lemma minute_of_market:
  assumes "eget (mk_minute (mk_market ny utc c minute daily raw key)) s = Inr ser" "\<forall>(s, x) \<in> set minute. sorted (starts x)"
  obtains x where "ser = quarantine_series c key x" "sorted (starts ser)"
  using assms by (fastforce simp: eget_Inr_iff mk_market_minute dest!: map_of_SomeD intro: sorted_starts_quarantine)

lemma as_of_Inr: "as_of m t = Inr v \<Longrightarrow> pv_market v = m \<and> pv_t v = t \<and> (mk_lockbox m = None \<longrightarrow> t < lockbox_start m)"
  by (auto simp: as_of_def split: if_splits)

lemma quote_bar_cases:
  assumes "pv_t v = t" "eget (mk_minute (pv_market v)) s = Inr ser" "sorted (starts ser)"
  shows "quote_bar v s = Inr None \<or> (\<exists>i < length (bs_rows ser). quote_bar v s = Inr (Some (bar ser i)) \<and> pb_end (bar ser i) \<le> t)"
proof (cases "last_ended_by ser t < 0")
  case False
  then have "int (nat (last_ended_by ser t)) \<le> last_ended_by ser t" by simp
  from ended_by [OF assms(3) this] assms(1,2) False show ?thesis by (auto simp: quote_bar_def Let_def)
qed (simp add: quote_bar_def assms(1,2))

lemma input_bars_cases:
  assumes "pv_t v = t" "eget (mk_minute (pv_market v)) s = Inr ser" "sorted (starts ser)"
  shows "\<exists>ns. input_bars v s since = Inr (map (bar ser) ns) \<and> (\<forall>i \<in> set ns. i < length (bs_rows ser) \<and> pb_end (bar ser i) \<le> t - INPUT_DELAY)"
proof -
  define ns where "ns = [first_at_or_after ser since..<nat (last_ended_by ser (t - INPUT_DELAY) + 1)]"
  have ok: "\<forall>i \<in> set ns. i < length (bs_rows ser) \<and> pb_end (bar ser i) \<le> t - INPUT_DELAY"
  proof
    fix i assume "i \<in> set ns"
    then have "int i \<le> last_ended_by ser (t - INPUT_DELAY)" by (auto simp: ns_def)
    from ended_by [OF assms(3) this] show "i < length (bs_rows ser) \<and> pb_end (bar ser i) \<le> t - INPUT_DELAY" ..
  qed
  then have "ns \<noteq> [] \<Longrightarrow> pb_end (bar ser (List.last ns)) \<le> t - INPUT_DELAY" by simp
  then have "input_bars v s since = Inr (map (bar ser) ns)"
    unfolding input_bars_def assms(1,2) Let_def ns_def [symmetric] ebind_simps by (cases "ns = []") (simp_all add: last_map)
  with ok show ?thesis by blast
qed

lemma quote_bar_no_key: "eget (mk_minute (pv_market v)) s = Inl e \<Longrightarrow> quote_bar v s = Inl KeyError \<and> input_bars v s since = Inl KeyError"
  by (auto simp: quote_bar_def input_bars_def eget_def split: option.splits)

text \<open>A locked session has no raw close and no adjusted close in a market without a key.\<close>

lemma map_of_filter_key: "\<not> P k \<Longrightarrow> map_of (filter (\<lambda>(k, v). P k) xs) k = None"
  by (induction xs) auto

lemma factor_locked:
  assumes "\<not> d < LOCKBOX_SESSIONS_FROM"
  shows "factor_of fdiv (mk_market ny utc c minute daily raw None) s d = Inl LockBoxError"
proof -
  let ?m = "mk_market ny utc c minute daily raw None"
  have no: "\<not> readable None d" using assms by (simp add: readable_def session_readable_def)
  have "mk_raw_close ?m = map (\<lambda>(s, closes). (s, filter (\<lambda>(d, c). readable None d) closes)) raw"
    by (simp add: mk_market_def Let_def)
  then have "map_of (mk_raw_close ?m) s = map_option (filter (\<lambda>(d, c). readable None d)) (map_of raw s)"
    by (simp add: map_of_map_val [where f = "\<lambda>_. filter (\<lambda>(d, c). readable None d)"])
  then have "eget (mk_raw_close ?m) s = Inr r \<Longrightarrow> eget r d = Inl KeyError" for r
    using map_of_filter_key [of "readable None" d, OF no] by (auto simp: eget_def split: option.splits)
  then show ?thesis
    using no by (auto simp: factor_of_def mk_market_fields ebind_def split: sum.splits)
qed


section \<open>The daily bars of a view\<close>

text \<open>What the time-zone database gives of a local time no clock change touches: the instants at or after it.\<close>

definition published_law :: "(instant \<Rightarrow> ny_time) \<Rightarrow> (date \<Rightarrow> time_of_day \<Rightarrow> instant) \<Rightarrow> date \<Rightarrow> bool" where
  "published_law ny utc d \<longleftrightarrow>
     (\<forall>t. utc d SESSION_PUBLISHED_AT \<le> t \<longleftrightarrow> d < ny_date (ny t) \<or> (d = ny_date (ny t) \<and> SESSION_PUBLISHED_AT \<le> ny_clock (ny t)))"

lemma published_mono: "published_law ny utc d \<Longrightarrow> published_law ny utc d' \<Longrightarrow> d \<le> d' \<Longrightarrow> utc d SESSION_PUBLISHED_AT \<le> utc d' SESSION_PUBLISHED_AT"
  unfolding published_law_def by (metis order.strict_trans1 order_le_less order_refl)

lemma take_splits: "splits P xs n \<Longrightarrow> take n xs = filter P xs"
proof -
  assume sp: "splits P xs n"
  have "filter P xs = filter P (take n xs) @ filter P (drop n xs)" by (metis append_take_drop_id filter_append)
  moreover have "filter P (take n xs) = take n xs" using sp by (auto simp: splits_def in_set_conv_nth filter_id_conv)
  moreover have "filter P (drop n xs) = []" using sp by (auto simp: splits_def in_set_conv_nth filter_empty_conv)
  ultimately show ?thesis by simp
qed

text \<open>
  C36. The daily bars a view gives are those the model's features are computed from: with a symbol's bars in the order
  of their sessions, the prefix found by binary search of the publication times is what \<open>completed_sessions\<close> filters
  out of the bars the market holds, at every instant.
\<close>

theorem view_daily_is_completed_sessions:
  assumes "as_of (mk_market ny utc c minute daily raw key) t = Inr v" "map_of daily s = Some bs"
    "sorted (map (session_date ny) bs)" "\<forall>b \<in> set bs. published_law ny utc (session_date ny b)"
  shows "pit_daily v s = Inr (completed_sessions ny (filter (\<lambda>b. readable key (session_date ny b)) bs) t)"
proof -
  define ks where "ks = filter (\<lambda>b. readable key (session_date ny b)) bs"
  define cut where "cut b = utc (session_date ny b) SESSION_PUBLISHED_AT" for b
  have v: "pv_market v = mk_market ny utc c minute daily raw key" "pv_t v = t" using as_of_Inr [OF assms(1)] by simp_all
  have d: "map_of (mk_daily (pv_market v)) s = Some ks"
    by (simp add: v mk_market_def Let_def ks_def assms(2) map_of_map_val [where f = "\<lambda>_. filter (\<lambda>b. readable key (session_date ny b))"])
  have "mk_cutoffs (pv_market v) = map (\<lambda>(s, bs). (s, map cut bs)) (mk_daily (pv_market v))"
    by (auto simp: v mk_market_def Let_def cut_def)
  then have c: "map_of (mk_cutoffs (pv_market v)) s = Some (map cut ks)"
    using d by (simp add: map_of_map_val [where f = "\<lambda>_. map cut"])
  have law: "\<forall>b \<in> set ks. published_law ny utc (session_date ny b)" using assms(4) by (simp add: ks_def)
  have "sorted (map (session_date ny) ks)" using assms(3) by (simp add: ks_def sorted_map sorted_wrt_filter)
  then have "sorted (map cut ks)"
    unfolding sorted_map cut_def by (rule sorted_wrt_mono_rel [rotated]) (use law published_mono in blast)
  from take_splits [OF splits_bisect_right [OF this, of t, unfolded splits_map]]
  have "take (bisect_right (map cut ks) t) ks = filter (\<lambda>b. cut b \<le> t) ks" by (simp add: comp_def)
  also have "\<dots> = completed_sessions ny ks t"
    using law unfolding completed_sessions_def cut_def published_law_def Let_def by (intro filter_cong) auto
  finally show ?thesis
    by (simp add: pit_daily_def eget_def c d v(2) ks_def [symmetric])
qed

section \<open>A market of three sessions\<close>

text \<open>The last is in the lock-box. The clock is New York's, with the first session's midnight at zero.\<close>

definition DAY :: instant where "DAY = hms 24 0 0"

definition demo_date :: "int \<Rightarrow> date" where
  "demo_date k = (if k < 1 then Date 2026 9 17 else if k < 2 then Date 2026 9 18 else Date 2026 9 21)"

definition demo_ny :: "instant \<Rightarrow> ny_time" where
  "demo_ny t = (let k = (if t < DAY then 0 else if t < 2 * DAY then 1 else 2) in \<lparr> ny_date = demo_date k, ny_clock = t - k * DAY \<rparr>)"

definition demo_utc :: "date \<Rightarrow> time_of_day \<Rightarrow> instant" where
  "demo_utc d c = (if d < Date 2026 9 18 then 0 else if d < Date 2026 9 21 then DAY else 2 * DAY) + c"

definition demo_day :: "int \<Rightarrow> day_bar" where
  "demo_day k = \<lparr> db_t = k * DAY, db_open = Dec 10 0, db_high = Dec 10 0, db_low = Dec 10 0, db_close = Dec 10 0, db_volume = Dec 1 0 \<rparr>"

definition demo_row :: "int \<Rightarrow> int \<Rightarrow> nat \<Rightarrow> row" where
  "demo_row k m i = \<lparr> r_start = 86400 * k + 34200 + 60 * m, r_open = Dec 10 0, r_high = Dec 10 0, r_low = Dec 10 0, r_close = Dec 10 0, r_volume = Dec 1 0, r_session = i \<rparr>"

definition demo_minute :: "(string \<times> series) list" where
  "demo_minute = [(''AAPL'', \<lparr> bs_symbol = ''AAPL'', bs_seconds = 60, bs_rows = [demo_row 0 0 0, demo_row 1 0 1, demo_row 1 1 1, demo_row 2 0 2] \<rparr>)]"

definition demo_daily :: "(string \<times> day_bar list) list" where
  "demo_daily = [(''AAPL'', map demo_day [0, 1, 2])]"

definition demo_calendar :: calendar where
  "demo_calendar = map (\<lambda>k. \<lparr> sess_date = demo_date k, open_at = k * DAY + hms 9 30 0, close_at = k * DAY + hms 16 0 0, half_day = False \<rparr>) [0, 1, 2]"

definition demo_market :: market where
  "demo_market = mk_market demo_ny demo_utc demo_calendar demo_minute demo_daily [(''AAPL'', map (\<lambda>k. (demo_date k, Dec 10 0)) [0, 1, 2])] None"

definition demo_t :: instant where "demo_t = 2 * DAY + hms 9 0 0"

lemma demo_view: "as_of demo_market demo_t = Inr \<lparr> pv_market = demo_market, pv_t = demo_t \<rparr>"
  "quote_bar \<lparr> pv_market = demo_market, pv_t = demo_t \<rparr> ''AAPL'' = Inr (Some (bar (snd (hd demo_minute)) 2))"
  "completed_sessions demo_ny (filter (\<lambda>b. readable None (session_date demo_ny b)) (map demo_day [0, 1, 2])) demo_t = map demo_day [0, 1]"
  by code_simp+

lemma demo_sorted: "\<forall>(s, x) \<in> set demo_minute. sorted (starts x)" "sorted (map (session_date demo_ny) (map demo_day [0, 1, 2]))"
  by code_simp+

lemma demo_law: "\<forall>b \<in> set (map demo_day [0, 1, 2]). published_law demo_ny demo_utc (session_date demo_ny b)"
  by (auto simp: published_law_def session_date_def demo_ny_def demo_utc_def demo_day_def demo_date_def Let_def DAY_def hms_def
      SESSION_PUBLISHED_AT_def less_date_def)


lemma view_daily_is_completed_sessions_witness:
  "pit_daily \<lparr> pv_market = demo_market, pv_t = demo_t \<rparr> ''AAPL'' = Inr (map demo_day [0, 1])"
  using view_daily_is_completed_sessions [OF demo_view(1) [unfolded demo_market_def] _ demo_sorted(2) demo_law, of "''AAPL''"] demo_view(3)
  by (simp add: demo_market_def demo_daily_def)

end
