(* ===== verification/Sim_Broker.thy ===== *)
theory Sim_Broker imports Market_Data Receipts begin

text \<open>
  \<open>backtest/sim_broker.py\<close>: the simulated Alpaca account the news back-test trades on. The engine moves its time
  with \<open>set_time\<close>, \<open>advance\<close>, \<open>mark_positions\<close> and \<open>end_session\<close>; the production client's requests are answered by
  \<open>handle\<close>.

  An order is named by its place in the list of all orders, which the list of working orders and the client ids refer
  to. Instants as text (\<open>isoformat\<close>) and floats of a quote are functions of the environment. A raise ends the back-test.
  What the hooks \<open>on_fill\<close> and \<open>on_expire\<close> are called with is what \<open>advance\<close> and \<open>end_session\<close> return. A JSON
  payload is a list of its fields as text.
\<close>

definition INITIAL_CASH :: decimal where "INITIAL_CASH = Dec 100000 0"
definition MIN_LATENCY_BARS :: int where "MIN_LATENCY_BARS = 1"
definition WORKING :: "string list" where "WORKING = [''new'', ''accepted'', ''partially_filled'']"

definition num :: "decimal \<Rightarrow> string" where
  "num x = (if truthy x then dec_plain (normalize x) else ''0'')"

section \<open>Orders and positions\<close>

record sim_order =
  so_client :: string
  so_symbol :: string
  so_side :: string
  so_type :: string
  so_tif :: string
  so_qty :: decimal
  so_limit :: "decimal option"
  so_submitted :: instant
  so_decided :: instant
  so_eligible :: instant
  so_session :: nat
  so_next :: nat
  so_status :: string
  so_filled_qty :: decimal
  so_avg_price :: "decimal option"
  so_filled_at :: "instant option"
  so_expired_at :: "instant option"
  so_updated_at :: "instant option"

definition working :: "sim_order \<Rightarrow> bool" where
  "working o' \<longleftrightarrow> so_status o' \<in> set WORKING"

record sim_position =
  sp_qty :: decimal
  sp_cost_basis :: decimal
  sp_mark :: decimal
  sp_lastday :: decimal

definition no_position :: sim_position where
  "no_position = \<lparr> sp_qty = 0, sp_cost_basis = 0, sp_mark = 0, sp_lastday = 0 \<rparr>"

definition avg_entry_price :: "sim_position \<Rightarrow> decimal result" where
  "avg_entry_price p = (if truthy (sp_qty p) then ddiv (sp_cost_basis p) (sp_qty p) else Inr 0)"

record fill =
  fl_order :: nat
  fl_at :: instant
  fl_bar_start :: instant
  fl_price :: fill_price
  fl_cash :: decimal
  fl_fees :: amounts

section \<open>The account\<close>

record broker_env =
  be_market :: market
  be_level :: cost_level
  be_fees :: fee_table
  be_latency :: int
  be_bars :: "(string \<times> series) list"
  be_legacy :: bool
  be_iso_utc :: "instant \<Rightarrow> string"
  be_ny_iso :: "instant \<Rightarrow> string"
  be_ny_date :: "instant \<Rightarrow> string"
  be_float :: "decimal \<Rightarrow> pyfloat"
  be_uuid :: "nat \<Rightarrow> string"

record broker =
  br_cash :: decimal
  br_last_equity :: decimal
  br_positions :: "(string \<times> sim_position) list"
  br_orders :: "sim_order list"
  br_working :: "nat list"
  br_by_client :: "(string \<times> nat) list"
  br_now :: instant
  br_daily_fees :: daily_fees
  br_fees_paid :: amounts
  br_last_bar :: "(string \<times> nat) list"
  br_requests :: nat

definition new_broker :: "decimal \<Rightarrow> broker" where
  "new_broker cash =
     \<lparr> br_cash = cash, br_last_equity = cash, br_positions = [], br_orders = [], br_working = [], br_by_client = [],
       br_now = 0, br_daily_fees = [], br_fees_paid = [], br_last_bar = [], br_requests = 0 \<rparr>"

definition order_of :: "broker \<Rightarrow> nat \<Rightarrow> sim_order" where
  "order_of b i = br_orders b ! i"

definition set_order :: "nat \<Rightarrow> sim_order \<Rightarrow> broker \<Rightarrow> broker" where
  "set_order i o' b = b\<lparr> br_orders := (br_orders b)[i := o'] \<rparr>"

definition cal :: "broker_env \<Rightarrow> calendar" where
  "cal E = mk_calendar_of (be_market E)"

definition held_for_sale :: "broker \<Rightarrow> string \<Rightarrow> decimal" where
  "held_for_sale b symbol =
     dsum (map so_qty (filter (\<lambda>o'. so_side o' = ''sell'' \<and> so_symbol o' = symbol) (map (order_of b) (br_working b))))"

definition long_value :: "broker \<Rightarrow> decimal" where
  "long_value b = dsum (map (\<lambda>(s, p). sp_qty p * sp_mark p) (br_positions b))"

definition equity :: "broker \<Rightarrow> decimal" where
  "equity b = br_cash b + long_value b"

section \<open>Submitting an order\<close>

type_synonym payload = "(string \<times> string) list"

datatype answer = Refused int string | Accepted nat

definition ceil_minute :: "instant \<Rightarrow> instant" where
  "ceil_minute t = (let f = t - t mod minutes 1 in if f = t then f else f + minutes 1)"

definition is_oto :: "payload \<Rightarrow> bool" where
  "is_oto p \<longleftrightarrow> map_of p ''order_class'' = Some ''oto'' \<or> ''stop_loss'' \<in> set (keys p)"

definition eligible_at :: "broker_env \<Rightarrow> broker \<Rightarrow> instant" where
  "eligible_at E b = (if be_legacy E then br_now b else ceil_minute (br_now b) + minutes (be_latency E))"

definition order_session :: "broker_env \<Rightarrow> broker \<Rightarrow> series \<Rightarrow> nat \<Rightarrow> nat result" where
  "order_session E b ser first =
     (if be_legacy E \<and> first < length (bs_rows ser) then Inr (r_session (bs_rows ser ! first))
      else
        case (case session_at (cal E) (br_now b) of Some s \<Rightarrow> Some s | None \<Rightarrow> next_session (cal E) (br_now b)) of
          None \<Rightarrow> Inl AttributeError
        | Some s \<Rightarrow> (case index_of (cal E) (sess_date s) of None \<Rightarrow> Inl KeyError | Some k \<Rightarrow> Inr k))"

text \<open>The checks of \<open>submit\<close>, in its order: a refusal, or the order's terms.\<close>

record terms =
  tm_client :: string
  tm_symbol :: string
  tm_side :: string
  tm_type :: string
  tm_tif :: string
  tm_qty :: decimal

definition sell_covered :: "broker_env \<Rightarrow> broker \<Rightarrow> string \<Rightarrow> string \<Rightarrow> decimal \<Rightarrow> bool" where
  "sell_covered E b side symbol qty \<longleftrightarrow>
     (if side = ''sell'' \<and> \<not> be_legacy E then
        (case map_of (br_positions b) symbol of None \<Rightarrow> False | Some p \<Rightarrow> \<not> sp_qty p - held_for_sale b symbol < qty)
      else True)"

definition check_order :: "broker_env \<Rightarrow> broker \<Rightarrow> payload \<Rightarrow> (answer + terms) result" where
  "check_order E b p =
     ebind (eget p ''client_order_id'') (\<lambda>client.
     if client \<in> set (keys (br_by_client b)) then Inr (Inl (Refused 422 ''client_order_id must be unique''))
     else if is_oto p then Inl SimOrderRejected
     else
       ebind (eget p ''symbol'') (\<lambda>symbol. ebind (eget p ''side'') (\<lambda>side. ebind (eget p ''type'') (\<lambda>kind.
       ebind (eget p ''qty'') (\<lambda>q. ebind (dec_parse q) (\<lambda>qty.
       let tif = (case map_of p ''time_in_force'' of None \<Rightarrow> ''day'' | Some t \<Rightarrow> t) in
       if symbol \<notin> set (keys (be_bars E)) \<or> side \<notin> {''buy'', ''sell''} \<or> kind \<notin> {''limit'', ''market''} \<or> qty \<le> 0
       then Inr (Inl (Refused 422 ''invalid order''))
       else if tif \<notin> {''day'', ''cls''} then Inr (Inl (Refused 422 ''time_in_force is not simulated''))
       else if \<not> sell_covered E b side symbol qty then Inr (Inl (Refused 403 ''insufficient qty available for order''))
       else
         Inr (Inr \<lparr> tm_client = client, tm_symbol = symbol, tm_side = side, tm_type = kind, tm_tif = tif, tm_qty = qty \<rparr>)))))))"

definition submit_sim :: "broker_env \<Rightarrow> payload \<Rightarrow> broker \<Rightarrow> (broker \<times> answer) result" where
  "submit_sim E p b =
     ebind (check_order E b p) (\<lambda>c.
     case c of
       Inl a \<Rightarrow> Inr (b, a)
     | Inr t \<Rightarrow>
         ebind (if tm_type t = ''limit'' then ebind (eget p ''limit_price'') (\<lambda>l. emap Some (dec_parse l)) else Inr None) (\<lambda>limit.
         ebind (eget (be_bars E) (tm_symbol t)) (\<lambda>ser.
         let eligible = eligible_at E b; first = first_at_or_after ser eligible in
         ebind (order_session E b ser first) (\<lambda>sess.
         let new = \<lparr> so_client = tm_client t, so_symbol = tm_symbol t, so_side = tm_side t, so_type = tm_type t, so_tif = tm_tif t,
                      so_qty = tm_qty t, so_limit = limit, so_submitted = br_now b, so_decided = br_now b, so_eligible = eligible,
                      so_session = sess, so_next = first, so_status = ''accepted'', so_filled_qty = 0, so_avg_price = None,
                      so_filled_at = None, so_expired_at = None, so_updated_at = None \<rparr>;
             i = length (br_orders b)
         in
         Inr (b\<lparr> br_orders := br_orders b @ [new], br_working := br_working b @ [i],
                 br_by_client := AList.update (tm_client t) i (br_by_client b) \<rparr>, Accepted i)))))"

section \<open>Filling\<close>

definition add_fees :: "amounts \<Rightarrow> amounts \<Rightarrow> amounts" where
  "add_fees fs paid = foldl (\<lambda>d (k, v). AList.update k (aget 0 d k + v) d) paid fs"

definition position_after :: "broker_env \<Rightarrow> sim_order \<Rightarrow> fill_price \<Rightarrow> sim_position \<Rightarrow> (sim_position \<times> decimal) result" where
  "position_after E o' price p =
     (let qty = so_qty o' in
      if so_side o' = ''buy'' then
        ebind (cash_debit qty (fp_price price) (be_level E)) (\<lambda>d.
        Inr (p\<lparr> sp_lastday := (if truthy (sp_lastday p) then sp_lastday p else fp_ref price), sp_qty := sp_qty p + qty,
                sp_cost_basis := sp_cost_basis p + qty * fp_price price \<rparr>, - d))
      else
        ebind (cash_credit qty (fp_price price) (be_level E)) (\<lambda>c.
        ebind (avg_entry_price p) (\<lambda>a.
        Inr (p\<lparr> sp_cost_basis := sp_cost_basis p - a * qty, sp_qty := sp_qty p - qty \<rparr>, c))))"

definition apply_fill :: "broker_env \<Rightarrow> nat \<Rightarrow> fill_price \<Rightarrow> instant \<Rightarrow> instant \<Rightarrow> date \<Rightarrow> broker \<Rightarrow> (broker \<times> fill) result" where
  "apply_fill E i price bar_start at_end d b =
     (let o' = order_of b i; s = so_symbol o' in
      ebind (order_fees (be_fees E) d (so_side o') (so_qty o') (fp_price price) (fee_rounding (be_level E)) ''equity'') (\<lambda>exact.
      let df = (if fee_rounding (be_level E) = ''daily'' then daily_add d exact (br_daily_fees b) else br_daily_fees b);
          fs = (if fee_rounding (be_level E) = ''none'' then [] else exact)
      in
      ebind (position_after E o' price (aget no_position (br_positions b) s)) (\<lambda>(p, cash).
      let p' = p\<lparr> sp_mark := fp_price price \<rparr>;
          gone = \<not> truthy (sp_qty p');
          positions = AList.update s p' (br_positions b);
          o2 = o'\<lparr> so_status := ''filled'', so_filled_qty := so_qty o', so_avg_price := Some (fp_price price),
                   so_filled_at := Some at_end, so_updated_at := Some at_end \<rparr>
      in
      Inr ((set_order i o2 b)\<lparr> br_daily_fees := df, br_fees_paid := add_fees fs (br_fees_paid b),
             br_positions := (if gone then AList.delete s positions else positions),
             br_last_bar := (if gone then AList.delete s (br_last_bar b) else br_last_bar b),
             br_cash := br_cash b + (cash - dsum (vals fs)), br_working := remove1 i (br_working b) \<rparr>,
           \<lparr> fl_order = i, fl_at = at_end, fl_bar_start = bar_start, fl_price = price, fl_cash = cash, fl_fees = fs \<rparr>))))"

text \<open>The price an order gets on a bar, if it fills there.\<close>

definition bar_price :: "broker_env \<Rightarrow> sim_order \<Rightarrow> series \<Rightarrow> nat \<Rightarrow> session \<Rightarrow> fill_price option result" where
  "bar_price E o' ser i sess =
     (let r = bs_rows ser ! i; m = multiplier (be_level E) (seconds (r_start r)) (open_at sess) in
      if so_tif o' = ''cls'' then
        Inr (if int i \<noteq> session_last ser i then None
             else Some \<lparr> fp_price = r_close r, fp_ref = r_close r, fp_spread = 0, fp_slippage = 0 \<rparr>)
      else if so_type o' = ''market'' then emap Some (market_fill (so_side o') (r_open r) (so_symbol o') (be_level E) m)
      else if so_side o' \<noteq> ''buy'' then Inl SimOrderRejected
      else
        case so_limit o' of
          None \<Rightarrow> Inl TypeError
        | Some l \<Rightarrow> limit_buy_fill l (r_open r) (r_low r) (so_symbol o') (be_level E) m)"

definition try_fill :: "broker_env \<Rightarrow> nat \<Rightarrow> series \<Rightarrow> nat \<Rightarrow> broker \<Rightarrow> (broker \<times> fill option) result" where
  "try_fill E n ser i b =
     (let o' = order_of b n; start = seconds (r_start (bs_rows ser ! i)) in
      if \<not> be_legacy E \<and> start < so_decided o' + seconds (MIN_LATENCY_BARS * 60) then Inl FillTimingError
      else
        ebind (case nth_opt (cal E) (int (r_session (bs_rows ser ! i))) of None \<Rightarrow> Inl IndexError | Some s \<Rightarrow> Inr s) (\<lambda>sess.
        ebind (bar_price E o' ser i sess) (\<lambda>price.
        case price of
          None \<Rightarrow> Inr (b, None)
        | Some x \<Rightarrow>
            emap (\<lambda>(b', f). (b', Some f)) (apply_fill E n x start (start + seconds (bs_seconds ser)) (sess_date sess) b))))"

text \<open>One order's bars, from its next one: the state, the fill if any, and the bar to look at next.\<close>

fun scan_bars :: "broker_env \<Rightarrow> instant \<Rightarrow> nat \<Rightarrow> series \<Rightarrow> nat list \<Rightarrow> nat \<Rightarrow> broker \<Rightarrow> (broker \<times> fill option \<times> nat) result" where
  "scan_bars E t n ser [] stop b = Inr (b, None, stop)"
| "scan_bars E t n ser (i # ks) stop b =
     (if seconds (r_start (bs_rows ser ! i)) + seconds (bs_seconds ser) \<le> t \<and> r_session (bs_rows ser ! i) = so_session (order_of b n) then
        ebind (try_fill E n ser i b) (\<lambda>(b', f).
        case f of Some x \<Rightarrow> Inr (b', Some x, Suc i) | None \<Rightarrow> scan_bars E t n ser ks stop b')
      else Inr (b, None, i))"

definition advance_order :: "broker_env \<Rightarrow> instant \<Rightarrow> broker \<times> fill list \<Rightarrow> nat \<Rightarrow> (broker \<times> fill list) result" where
  "advance_order E t bf n =
     (case bf of (b, fs) \<Rightarrow>
      ebind (eget (be_bars E) (so_symbol (order_of b n))) (\<lambda>ser.
      let i = so_next (order_of b n); len = length (bs_rows ser) in
      ebind (scan_bars E t n ser [i..<len] (max i len) b) (\<lambda>(b', f, k).
      Inr (set_order n ((order_of b' n)\<lparr> so_next := k \<rparr>) b', fs @ (case f of None \<Rightarrow> [] | Some x \<Rightarrow> [x])))))"

section \<open>Time\<close>

definition set_time :: "instant \<Rightarrow> broker \<Rightarrow> broker result" where
  "set_time t b = (if t < br_now b then Inl (ValueError ''time runs forward'') else Inr (b\<lparr> br_now := t \<rparr>))"

datatype mark_mode = Low | Close_Price

definition mark_one :: "broker_env \<Rightarrow> mark_mode \<Rightarrow> (string \<times> nat) list \<Rightarrow> string \<times> sim_position \<Rightarrow> (string \<times> sim_position) result" where
  "mark_one E mode seen sp =
     (case sp of (s, p) \<Rightarrow>
      case map_of seen s of
        None \<Rightarrow> Inr (s, p)
      | Some j \<Rightarrow>
          ebind (eget (be_bars E) s) (\<lambda>ser.
          let r = bs_rows ser ! j in Inr (s, p\<lparr> sp_mark := (if mode = Low then r_low r else r_close r) \<rparr>)))"

definition mark_positions :: "broker_env \<Rightarrow> mark_mode \<Rightarrow> broker \<Rightarrow> broker result" where
  "mark_positions E mode b =
     emap (\<lambda>ps. b\<lparr> br_positions := ps \<rparr>) (etraverse (mark_one E mode (br_last_bar b)) (br_positions b))"

definition note_bar :: "broker_env \<Rightarrow> instant \<Rightarrow> (string \<times> nat) list \<Rightarrow> string \<Rightarrow> (string \<times> nat) list result" where
  "note_bar E t seen s =
     ebind (eget (be_bars E) s) (\<lambda>ser.
     let j = last_ended_by ser t in Inr (if 0 \<le> j then AList.update s (nat j) seen else seen))"

definition advance :: "broker_env \<Rightarrow> instant \<Rightarrow> broker \<Rightarrow> (broker \<times> fill list) result" where
  "advance E t b =
     ebind (set_time t b) (\<lambda>b1.
     ebind (efold (advance_order E t) (b1, []) (br_working b1)) (\<lambda>(b2, fs).
     ebind (efold (note_bar E t) (br_last_bar b2) (keys (br_positions b2))) (\<lambda>seen.
     ebind (mark_positions E Close_Price (b2\<lparr> br_last_bar := seen \<rparr>)) (\<lambda>b3.
     Inr (b3, fs)))))"

record session_end =
  se_expired :: "nat list"
  se_fee_rounding :: decimal
  se_carried :: "string list"

definition expire_order :: "broker_env \<Rightarrow> session \<Rightarrow> broker \<times> nat list \<Rightarrow> nat \<Rightarrow> (broker \<times> nat list) result" where
  "expire_order E sess bx n =
     (case bx of (b, gone) \<Rightarrow>
      ebind (case index_of (cal E) (sess_date sess) of None \<Rightarrow> Inl KeyError | Some k \<Rightarrow> Inr k) (\<lambda>k.
      if so_session (order_of b n) = k then
        Inr ((set_order n ((order_of b n)\<lparr> so_status := ''expired'', so_expired_at := Some (close_at sess), so_updated_at := Some (close_at sess) \<rparr>) b)
               \<lparr> br_working := remove1 n (br_working b) \<rparr>, gone @ [n])
      else Inr (b, gone)))"

definition roll_day :: "broker \<Rightarrow> broker" where
  "roll_day b =
     (let b' = b\<lparr> br_positions := map (\<lambda>(s, p). (s, p\<lparr> sp_lastday := sp_mark p \<rparr>)) (br_positions b) \<rparr> in b'\<lparr> br_last_equity := equity b' \<rparr>)"

definition end_session :: "broker_env \<Rightarrow> session \<Rightarrow> broker \<Rightarrow> (broker \<times> fill list \<times> session_end) result" where
  "end_session E sess b =
     ebind (advance E (max (br_now b) (close_at sess)) b) (\<lambda>(b1, fs).
     ebind (efold (expire_order E sess) (b1, []) (br_working b1)) (\<lambda>(b2, gone).
     ebind (if fee_rounding (be_level E) = ''daily'' then rounding_charge (sess_date sess) (br_daily_fees b2) else Inr 0) (\<lambda>rounding.
     let b3 = (if fee_rounding (be_level E) = ''daily'' then
                 b2\<lparr> br_cash := br_cash b2 - rounding,
                     br_fees_paid := AList.update ''daily_rounding'' (aget 0 (br_fees_paid b2) ''daily_rounding'' + rounding) (br_fees_paid b2) \<rparr>
               else b2);
         b4 = roll_day b3
     in
     Inr (b4, fs, \<lparr> se_expired = gone, se_fee_rounding = rounding, se_carried = sort (keys (br_positions b4)) \<rparr>))))"

end
