(* ===== verification/Sim_Server.thy ===== *)
theory Sim_Server imports Sim_Broker begin

text \<open>
  The requests \<open>SimAlpaca\<close> answers: the bodies in Alpaca's shapes and the routing of \<open>handle\<close>. The clock's texts,
  \<open>fromisoformat\<close> and \<open>json.loads\<close> of a request are arguments or already applied.
\<close>

section \<open>The bodies\<close>

definition js :: "decimal \<Rightarrow> json" where "js x = JStr (num x)"

definition opt_json :: "('a \<Rightarrow> json) \<Rightarrow> 'a option \<Rightarrow> json" where
  "opt_json f x = (case x of None \<Rightarrow> JNull | Some y \<Rightarrow> f y)"

definition clock_body :: "broker_env \<Rightarrow> broker \<Rightarrow> json" where
  "clock_body E b =
     (let c = clock_at (be_ny_iso E) (cal E) (br_now b) in
      JObj [(''timestamp'', JStr (ck_timestamp c)), (''is_open'', JBool (ck_is_open c)),
            (''next_open'', opt_json JStr (ck_next_open c)), (''next_close'', opt_json JStr (ck_next_close c))])"

definition account_body :: "broker_env \<Rightarrow> broker \<Rightarrow> json result" where
  "account_body E b =
     ebind (quantize (br_cash b) CENT ROUND_HALF_EVEN) (\<lambda>rounded.
     let cash = js rounded; eq = js (equity b); lv = js (long_value b); zero = JStr ''0''; no = JBool False in
     Inr (JObj
       [(''id'', JStr ''sim-account''), (''admin_configurations'', JObj []), (''user_configurations'', JNull),
        (''account_number'', JStr ''SIM0000000''), (''status'', JStr ''ACTIVE''), (''crypto_status'', JStr ''ACTIVE''),
        (''options_approved_level'', JInt 0), (''options_trading_level'', JInt 0), (''currency'', JStr ''USD''), (''buying_power'', cash),
        (''regt_buying_power'', cash), (''effective_buying_power'', cash), (''non_marginable_buying_power'', cash),
        (''options_buying_power'', cash), (''cash'', cash), (''accrued_fees'', zero), (''portfolio_value'', eq),
        (''trading_blocked'', no), (''transfers_blocked'', no), (''account_blocked'', no),
        (''created_at'', JStr ''2024-01-02T14:30:00.000000Z''), (''trade_suspended_by_user'', no), (''multiplier'', JStr ''1''),
        (''shorting_enabled'', no), (''equity'', eq), (''last_equity'', js (br_last_equity b)),
        (''long_market_value'', lv), (''short_market_value'', zero), (''position_market_value'', lv),
        (''initial_margin'', zero), (''maintenance_margin'', zero), (''last_maintenance_margin'', zero), (''sma'', zero),
        (''balance_asof'', JStr (be_ny_date E (br_now b))), (''crypto_tier'', JInt 0),
        (''intraday_adjustments'', zero), (''pending_reg_taf_fees'', zero)]))"

text \<open>\<open>x / y if y else 0\<close>, as text.\<close>

definition ratio_or_zero :: "decimal \<Rightarrow> decimal \<Rightarrow> json result" where
  "ratio_or_zero x y = (if truthy y then emap js (ddiv x y) else Inr (JStr ''0''))"

definition position_body :: "broker \<Rightarrow> string \<times> sim_position \<Rightarrow> json result" where
  "position_body b sp =
     (case sp of (s, p) \<Rightarrow>
      let held = held_for_sale b s; market_value = sp_qty p * sp_mark p; basis = sp_cost_basis p;
          intraday_base = (if truthy (sp_lastday p) then sp_qty p * sp_lastday p else basis)
      in
      ebind (avg_entry_price p) (\<lambda>avg.
      ebind (ratio_or_zero (market_value - basis) basis) (\<lambda>plpc.
      ebind (ratio_or_zero (market_value - intraday_base) intraday_base) (\<lambda>intraday_plpc.
      ebind (ratio_or_zero (sp_mark p - sp_lastday p) (sp_lastday p)) (\<lambda>change.
      Inr (JObj
        [(''asset_id'', JStr (''asset-'' @ s)), (''symbol'', JStr s), (''exchange'', JStr ''NASDAQ''), (''asset_class'', JStr ''us_equity''),
         (''asset_marginable'', JBool True), (''qty'', js (sp_qty p)), (''qty_available'', js (sp_qty p - held)),
         (''avg_entry_price'', js avg), (''side'', JStr ''long''), (''market_value'', js market_value),
         (''cost_basis'', js basis), (''unrealized_pl'', js (market_value - basis)), (''unrealized_plpc'', plpc),
         (''unrealized_intraday_pl'', js (market_value - intraday_base)), (''unrealized_intraday_plpc'', intraday_plpc),
         (''current_price'', js (sp_mark p)), (''lastday_price'', js (sp_lastday p)), (''change_today'', change)]))))))"

definition positions_body :: "broker \<Rightarrow> json result" where
  "positions_body b = emap JArr (etraverse (position_body b) (sort_key fst (br_positions b)))"

definition order_body :: "broker_env \<Rightarrow> broker \<Rightarrow> nat \<Rightarrow> json result" where
  "order_body E b i =
     (let o' = order_of b i; time = (\<lambda>t. JStr (be_iso_utc E t)) in
      ebind (case nth_opt (cal E) (int (so_session o')) of None \<Rightarrow> Inl IndexError | Some s \<Rightarrow> Inr s) (\<lambda>sess.
      Inr (JObj
        [(''id'', JStr (be_uuid E (Suc i))), (''client_order_id'', JStr (so_client o')), (''created_at'', time (so_submitted o')),
         (''updated_at'', time (case so_updated_at o' of None \<Rightarrow> so_submitted o' | Some u \<Rightarrow> u)), (''submitted_at'', time (so_submitted o')),
         (''filled_at'', opt_json time (so_filled_at o')), (''expired_at'', opt_json time (so_expired_at o')), (''canceled_at'', JNull), (''failed_at'', JNull),
         (''replaced_at'', JNull), (''replaced_by'', JNull), (''replaces'', JNull), (''asset_id'', JStr (''asset-'' @ so_symbol o')),
         (''symbol'', JStr (so_symbol o')), (''asset_class'', JStr ''us_equity''), (''notional'', JNull), (''qty'', js (so_qty o')),
         (''filled_qty'', js (so_filled_qty o')), (''filled_avg_price'', opt_json js (so_avg_price o')),
         (''order_class'', JStr ''''), (''order_type'', JStr (so_type o')), (''type'', JStr (so_type o')), (''side'', JStr (so_side o')),
         (''position_intent'', JStr (if so_side o' = ''buy'' then ''buy_to_open'' else ''sell_to_close'')),
         (''time_in_force'', JStr (so_tif o')), (''limit_price'', opt_json js (so_limit o')), (''stop_price'', JNull),
         (''status'', JStr (so_status o')), (''extended_hours'', JBool False), (''legs'', JNull), (''trail_percent'', JNull), (''trail_price'', JNull),
         (''hwm'', JNull), (''subtag'', JNull), (''source'', JStr ''access_key''), (''expires_at'', time (close_at sess))])))"

text \<open>The orders a list request asks for: only those submitted after \<open>after\<close>, by a bisect and not a scan.\<close>

definition listed_orders :: "broker \<Rightarrow> string \<Rightarrow> instant option \<Rightarrow> nat \<Rightarrow> string \<Rightarrow> nat list" where
  "listed_orders b status after limit direction =
     (let candidates =
        (if status = ''open'' then br_working b
         else case after of
                None \<Rightarrow> [0..<length (br_orders b)]
              | Some a \<Rightarrow> [bisect_right (map so_submitted (br_orders b)) a..<length (br_orders b)]);
          chosen = filter (\<lambda>i. (status = ''all'' \<or> (status = ''open'') = working (order_of b i)) \<and>
                                (case after of None \<Rightarrow> True | Some a \<Rightarrow> a < so_submitted (order_of b i))) candidates;
          ordered = sort_by (\<lambda>i j. so_submitted (order_of b i) < so_submitted (order_of b j) \<or>
                                    (so_submitted (order_of b i) = so_submitted (order_of b j) \<and> i \<le> j)) chosen
      in take limit (if direction = ''desc'' then rev ordered else ordered))"

definition orders_body :: "broker_env \<Rightarrow> broker \<Rightarrow> string \<Rightarrow> instant option \<Rightarrow> nat \<Rightarrow> string \<Rightarrow> json result" where
  "orders_body E b status after limit direction = emap JArr (etraverse (order_body E b) (listed_orders b status after limit direction))"

definition quote_json :: "string \<Rightarrow> string \<Rightarrow> string \<Rightarrow> json \<Rightarrow> json \<Rightarrow> int \<Rightarrow> json" where
  "quote_json symbol t venue ask bid lots =
     JObj [(''symbol'', JStr symbol),
           (''quote'', JObj [(''t'', JStr t), (''ax'', JStr venue), (''ap'', ask), (''as'', JInt lots), (''bx'', JStr venue), (''bp'', bid),
                             (''bs'', JInt lots), (''c'', JArr [JStr ''R'']), (''z'', JStr ''C'')])]"

definition quote_body :: "broker_env \<Rightarrow> broker \<Rightarrow> string \<Rightarrow> json result" where
  "quote_body E b symbol =
     ebind (if symbol \<in> set (keys (be_bars E)) then ebind (as_of (be_market E) (br_now b)) (\<lambda>v. quote_bar v symbol) else Inr None) (\<lambda>bar.
     case bar of
       None \<Rightarrow> Inr (quote_json symbol (be_iso_utc E (br_now b - minutes 1440)) '' '' (JInt 0) (JInt 0) 0)
     | Some pb \<Rightarrow>
         let m = (case session_at (cal E) (pb_start pb) of None \<Rightarrow> Dec 1 0 | Some s \<Rightarrow> multiplier (be_level E) (pb_start pb) (open_at s)) in
         ebind (quote_at (r_close (pb_row pb)) symbol (be_level E) m) (\<lambda>q.
         Inr (quote_json symbol (be_iso_utc E (pb_end pb)) ''V'' (JFloat (be_float E (q_ask q))) (JFloat (be_float E (q_bid q))) 1)))"

section \<open>Routing\<close>

record request =
  rq_host :: string
  rq_path :: string
  rq_method :: string
  rq_params :: "(string \<times> string) list"
  rq_payload :: payload

definition DATA_HOST :: string where "DATA_HOST = ''data.alpaca.markets''"
definition PAPER_HOST :: string where "PAPER_HOST = ''paper-api.alpaca.markets''"

fun split_on :: "char \<Rightarrow> string \<Rightarrow> string list" where
  "split_on c [] = [[]]"
| "split_on c (x # xs) = (if x = c then [] # split_on c xs else (x # hd (split_on c xs)) # tl (split_on c xs))"

definition starts_with :: "string \<Rightarrow> string \<Rightarrow> bool" where
  "starts_with s p \<longleftrightarrow> take (length p) s = p"

definition ends_with :: "string \<Rightarrow> string \<Rightarrow> bool" where
  "ends_with s p \<longleftrightarrow> starts_with (rev s) (rev p)"

definition message :: "string \<Rightarrow> json" where
  "message m = JObj [(''message'', JStr m)]"

definition answer_json :: "broker_env \<Rightarrow> broker \<Rightarrow> answer \<Rightarrow> (int \<times> json) result" where
  "answer_json E b a =
     (case a of
        Refused status text \<Rightarrow> Inr (status, JObj [(''code'', JInt (if status = 403 then 40310000 else 40010001)), (''message'', JStr text)])
      | Accepted i \<Rightarrow> emap (Pair 200) (order_body E b i))"

definition list_request :: "broker_env \<Rightarrow> (string \<Rightarrow> instant result) \<Rightarrow> (string \<times> string) list \<Rightarrow> broker \<Rightarrow> json result" where
  "list_request E parse_iso ps b =
     ebind (case map_of ps ''after'' of None \<Rightarrow> Inr None | Some t \<Rightarrow> emap Some (parse_iso t)) (\<lambda>after.
     ebind (eget ps ''status'') (\<lambda>status.
     ebind (case map_of ps ''limit'' of
              None \<Rightarrow> Inr 50
            | Some t \<Rightarrow> (case int_parse t of None \<Rightarrow> Inl (ValueError ''invalid literal for int'') | Some n \<Rightarrow> Inr n)) (\<lambda>limit.
     orders_body E b status after (nat limit) (case map_of ps ''direction'' of None \<Rightarrow> ''desc'' | Some d \<Rightarrow> d))))"

definition handle_request :: "broker_env \<Rightarrow> (string \<Rightarrow> instant result) \<Rightarrow> request \<Rightarrow> broker \<Rightarrow> (broker \<times> int \<times> json) result" where
  "handle_request E parse_iso rq b0 =
     (let b = b0\<lparr> br_requests := Suc (br_requests b0) \<rparr>; path = rq_path rq;
          ok = (\<lambda>r. emap (\<lambda>j. (b, 200, j)) r)
      in
      if rq_host rq = DATA_HOST \<and> starts_with path ''/v2/stocks/'' \<and> ends_with path ''/quotes/latest'' then
        ok (quote_body E b (split_on (CHR ''/'') path ! 3))
      else if rq_host rq \<noteq> PAPER_HOST then Inr (b, 404, message ''unknown host'')
      else if path = ''/v2/clock'' then ok (Inr (clock_body E b))
      else if path = ''/v2/account'' then ok (account_body E b)
      else if path = ''/v2/positions'' then ok (positions_body b)
      else if path = ''/v2/orders'' \<and> rq_method rq = ''GET'' then ok (list_request E parse_iso (rq_params rq) b)
      else if path = ''/v2/orders'' \<and> rq_method rq = ''POST'' then
        ebind (submit_sim E (rq_payload rq) b) (\<lambda>(b', a). emap (\<lambda>(status, j). (b', status, j)) (answer_json E b' a))
      else if path = ''/v2/orders:by_client_order_id'' then
        ebind (eget (rq_params rq) ''client_order_id'') (\<lambda>c.
        case map_of (br_by_client b) c of
          None \<Rightarrow> Inr (b, 404, message ''order not found'')
        | Some i \<Rightarrow> ok (order_body E b i))
      else Inr (b, 404, message ''unhandled''))"

end
