(* ===== verification/Sim_Broker_Laws.thy ===== *)
theory Sim_Broker_Laws imports Sim_Broker Decimal_Laws begin

text \<open>
  What holds of a simulated account whatever the back-test does with it: each order fills at most once and never too
  early, so the assertion of rule P4 cannot fire.
\<close>

section \<open>Runs\<close>

inductive sim_run :: "broker_env \<Rightarrow> decimal \<Rightarrow> broker \<Rightarrow> fill list \<Rightarrow> bool" for E c where
  started: "sim_run E c (new_broker c) []"
| submitted: "sim_run E c b fs \<Longrightarrow> submit_sim E p b = Inr (b', a) \<Longrightarrow> sim_run E c b' fs"
| timed: "sim_run E c b fs \<Longrightarrow> set_time t b = Inr b' \<Longrightarrow> sim_run E c b' fs"
| advanced: "sim_run E c b fs \<Longrightarrow> advance E t b = Inr (b', gs) \<Longrightarrow> sim_run E c b' (fs @ gs)"
| marked: "sim_run E c b fs \<Longrightarrow> mark_positions E mode b = Inr b' \<Longrightarrow> sim_run E c b' fs"
| ended: "sim_run E c b fs \<Longrightarrow> end_session E sess b = Inr (b', gs, x) \<Longrightarrow> sim_run E c b' (fs @ gs)"

section \<open>The life of an order\<close>

definition timely :: "broker_env \<Rightarrow> sim_order \<Rightarrow> bool" where
  "timely E o' \<longleftrightarrow>
     (\<not> be_legacy E \<longrightarrow> so_decided o' + minutes (be_latency E) \<le> so_eligible o') \<and>
     (\<forall>ser. map_of (be_bars E) (so_symbol o') = Some ser \<longrightarrow> first_at_or_after ser (so_eligible o') \<le> so_next o')"

definition orders_ok :: "broker_env \<Rightarrow> broker \<Rightarrow> fill list \<Rightarrow> bool" where
  "orders_ok E b fs \<longleftrightarrow>
     distinct (br_working b) \<and> distinct (map fl_order fs) \<and>
     (\<forall>i \<in> set (br_working b). i < length (br_orders b)) \<and>
     (\<forall>i < length (br_orders b). timely E (order_of b i) \<and>
        so_status (order_of b i) = (if i \<in> set (br_working b) then ''accepted'' else if i \<in> set (map fl_order fs) then ''filled'' else ''expired'')) \<and>
     (\<forall>i \<in> set (map fl_order fs). i < length (br_orders b) \<and> i \<notin> set (br_working b))"

lemma order_of_set [simp]: "length (br_orders (set_order i o' b)) = length (br_orders b)" "br_working (set_order i o' b) = br_working b"
  "i < length (br_orders b) \<Longrightarrow> order_of (set_order i o' b) j = (if j = i then o' else order_of b j)"
  by (auto simp: set_order_def order_of_def)

lemma order_of_fields [simp]:
  "order_of (b\<lparr> br_working := w \<rparr>) i = order_of b i" "order_of (b\<lparr> br_positions := ps \<rparr>) i = order_of b i"
  "order_of (b\<lparr> br_last_bar := l \<rparr>) i = order_of b i" "order_of (b\<lparr> br_cash := c \<rparr>) i = order_of b i"
  "order_of (b\<lparr> br_now := t \<rparr>) i = order_of b i" "order_of (b\<lparr> br_fees_paid := fp \<rparr>) i = order_of b i"
  "order_of (b\<lparr> br_daily_fees := df \<rparr>) i = order_of b i" "order_of (b\<lparr> br_last_equity := c \<rparr>) i = order_of b i"
  by (simp_all add: order_of_def)

text \<open>What does not touch the orders keeps this.\<close>

lemma orders_ok_cong:
  "br_orders b' = br_orders b \<Longrightarrow> br_working b' = br_working b \<Longrightarrow> orders_ok E b' fs \<longleftrightarrow> orders_ok E b fs"
  by (simp add: orders_ok_def order_of_def)

definition in_seconds :: "series \<Rightarrow> bool" where
  "in_seconds ser \<longleftrightarrow> sorted (starts ser)"

lemma apply_fill_shape:
  assumes "apply_fill E n x bs at' d b = Inr (b', f)" "n < length (br_orders b)"
  shows "fl_order f = n" "fl_bar_start f = bs" "fl_at f = at'" "br_working b' = remove1 n (br_working b)" "length (br_orders b') = length (br_orders b)"
    "order_of b' i = (if i = n then (order_of b n)\<lparr> so_status := ''filled'', so_filled_qty := so_qty (order_of b n), so_avg_price := Some (fp_price x),
                   so_filled_at := Some at', so_updated_at := Some at' \<rparr> else order_of b i)" "br_now b' = br_now b"
  using assms by (auto simp: apply_fill_def ebind_Inr_iff Let_def set_order_def order_of_def)

lemma apply_fill_ok:
  assumes "apply_fill E n x bs at' d b = Inr (b', f)" "orders_ok E b fs" "n \<in> set (br_working b)"
  shows "orders_ok E b' (fs @ [f])"
proof -
  have n: "n < length (br_orders b)" using assms(2,3) by (auto simp: orders_ok_def)
  note sh = apply_fill_shape [OF assms(1) n]
  show ?thesis
    using assms(2,3) n unfolding orders_ok_def sh(4,5)
    by (auto simp: sh(1,6) timely_def set_remove1_eq)
qed

lemma orders_ok_next:
  assumes "orders_ok E b fs" "n < length (br_orders b)" "so_next (order_of b n) \<le> k"
  shows "orders_ok E (set_order n ((order_of b n)\<lparr> so_next := k \<rparr>) b) fs"
  using assms by (auto simp: orders_ok_def timely_def intro: le_trans)

lemma try_fill_shape:
  assumes "try_fill E n ser i b = Inr (b', f)"
  shows "case f of None \<Rightarrow> b' = b
     | Some x \<Rightarrow> \<exists>pr d. apply_fill E n pr (seconds (r_start (bs_rows ser ! i))) (seconds (r_start (bs_rows ser ! i)) + seconds (bs_seconds ser)) d b = Inr (b', x)"
  using assms
  by (auto simp: try_fill_def Let_def ebind_Inr_iff emap_Inr_iff split: if_splits option.splits)

lemma scan_bars_shape:
  assumes "scan_bars E t n ser ks stop b = Inr (b', f, k)" "\<forall>i \<in> set ks. lo \<le> i" "lo \<le> stop"
  shows "lo \<le> k \<and> (case f of None \<Rightarrow> b' = b
     | Some x \<Rightarrow> \<exists>i pr d. i \<in> set ks \<and> seconds (r_start (bs_rows ser ! i)) + seconds (bs_seconds ser) \<le> t \<and>
        apply_fill E n pr (seconds (r_start (bs_rows ser ! i))) (seconds (r_start (bs_rows ser ! i)) + seconds (bs_seconds ser)) d b = Inr (b', x))"
  using assms
proof (induction ks)
  case (Cons i ks)
  show ?case
  proof (cases "seconds (r_start (bs_rows ser ! i)) + seconds (bs_seconds ser) \<le> t \<and> r_session (bs_rows ser ! i) = so_session (order_of b n)")
    case True
    with Cons.prems(1) obtain b1 g where g: "try_fill E n ser i b = Inr (b1, g)"
      "(case g of Some x \<Rightarrow> Inr (b1, Some x, Suc i) | None \<Rightarrow> scan_bars E t n ser ks stop b1) = Inr (b', f, k)"
      by (auto simp: ebind_Inr_iff)
    from try_fill_shape [OF g(1)] g(2) Cons True show ?thesis
      by (cases g) (auto split: option.splits intro: le_SucI)
  next
    case False
    with Cons.prems show ?thesis by (auto split: if_splits)
  qed
qed simp

lemma advance_order_ok:
  assumes "advance_order E t (b, gs) n = Inr (b', gs')" "orders_ok E b (fs @ gs)" "n \<in> set (br_working b)"
  shows "orders_ok E b' (fs @ gs')" "br_working b' = br_working b \<or> br_working b' = remove1 n (br_working b)" "br_now b' = br_now b"
proof -
  have n: "n < length (br_orders b)" using assms(2,3) by (auto simp: orders_ok_def)
  from assms(1) obtain ser b1 f k where ser: "eget (be_bars E) (so_symbol (order_of b n)) = Inr ser"
    and s: "scan_bars E t n ser [so_next (order_of b n)..<length (bs_rows ser)] (max (so_next (order_of b n)) (length (bs_rows ser))) b = Inr (b1, f, k)"
    and b': "b' = set_order n ((order_of b1 n)\<lparr> so_next := k \<rparr>) b1" and gs': "gs' = gs @ (case f of None \<Rightarrow> [] | Some x \<Rightarrow> [x])"
    by (auto simp: advance_order_def ebind_Inr_iff Let_def)
  note sh = scan_bars_shape [OF s, of "so_next (order_of b n)"]
  have "orders_ok E b' (fs @ gs') \<and> (br_working b' = br_working b \<or> br_working b' = remove1 n (br_working b)) \<and> br_now b' = br_now b"
  proof (cases f)
    case None
    with sh have "b1 = b" "so_next (order_of b n) \<le> k" by auto
    then show ?thesis using orders_ok_next [OF assms(2) n] None by (simp add: b' gs') (simp add: set_order_def)
  next
    case (Some x)
    with sh obtain pr bs at' d where a: "apply_fill E n pr bs at' d b = Inr (b1, x)" and k: "so_next (order_of b n) \<le> k" by auto
    note as = apply_fill_shape [OF a n]
    have "orders_ok E b1 (fs @ gs @ [x])" using apply_fill_ok [OF a assms(2,3)] by simp
    moreover have "so_next (order_of b1 n) = so_next (order_of b n)" by (simp add: as(6))
    ultimately have "orders_ok E b' (fs @ gs @ [x])" unfolding b' using k n as(5) by (intro orders_ok_next) auto
    then show ?thesis using as(4,7) Some by (simp add: gs' b' set_order_def)
  qed
  then show "orders_ok E b' (fs @ gs')" "br_working b' = br_working b \<or> br_working b' = remove1 n (br_working b)" "br_now b' = br_now b" by auto
qed

text \<open>A loop over a copy of the working orders, each of which it may close but only in its own turn.\<close>

lemma working_fold:
  assumes "efold f (b, gs) ns = Inr (b', gs')" "I b gs" "distinct ns" "set ns \<subseteq> set (br_working b)"
    and distinct: "\<And>b gs. I b gs \<Longrightarrow> distinct (br_working b)"
    and step: "\<And>b gs n b' gs'. f (b, gs) n = Inr (b', gs') \<Longrightarrow> I b gs \<Longrightarrow> n \<in> set (br_working b) \<Longrightarrow>
      I b' gs' \<and> (br_working b' = br_working b \<or> br_working b' = remove1 n (br_working b))"
  shows "I b' gs'"
  using assms(1-4)
proof (induction ns arbitrary: b gs)
  case (Cons n ns)
  then obtain b1 gs1 where a: "f (b, gs) n = Inr (b1, gs1)" "efold f (b1, gs1) ns = Inr (b', gs')"
    by (auto simp: ebind_Inr_iff)
  have nw: "n \<in> set (br_working b)" using Cons.prems(4) by simp
  note st = step [OF a(1) Cons.prems(2) nw]
  then have "set ns \<subseteq> set (br_working b1)" using distinct [OF Cons.prems(2)] Cons.prems(3,4) by (auto simp: set_remove1_eq)
  with Cons.IH [OF a(2)] st Cons.prems(3) show ?case by simp
qed simp

lemma advance_orders_ok:
  assumes "efold (advance_order E t) (b, gs) ns = Inr (b', gs')" "orders_ok E b (fs @ gs)" "distinct ns" "set ns \<subseteq> set (br_working b)"
  shows "orders_ok E b' (fs @ gs') \<and> br_now b' = br_now b"
proof (rule working_fold [OF assms(1) _ assms(3,4), where I = "\<lambda>b1 gs1. orders_ok E b1 (fs @ gs1) \<and> br_now b1 = br_now b"])
  fix b1 gs1 n b2 gs2
  assume "advance_order E t (b1, gs1) n = Inr (b2, gs2)" "orders_ok E b1 (fs @ gs1) \<and> br_now b1 = br_now b" "n \<in> set (br_working b1)"
  then show "(orders_ok E b2 (fs @ gs2) \<and> br_now b2 = br_now b) \<and> (br_working b2 = br_working b1 \<or> br_working b2 = remove1 n (br_working b1))"
    using advance_order_ok by metis
qed (use assms(2) in \<open>auto simp: orders_ok_def\<close>)

text \<open>When a bar is not too early.\<close>

lemma ceil_s_le: "t \<le> seconds (ceil_s t)"
proof -
  have "(- t) div 1000000 * 1000000 \<le> - t" using div_mult_mod_eq [of "- t" 1000000] pos_mod_sign [of 1000000 "- t"] by linarith
  then show ?thesis by (simp add: ceil_s_def seconds_def)
qed

lemma first_at_or_after_le:
  assumes "in_seconds ser" "first_at_or_after ser t \<le> i" "i < length (bs_rows ser)"
  shows "t \<le> seconds (r_start (bs_rows ser ! i))"
proof -
  have "splits (\<lambda>y. y < ceil_s t) (starts ser) (first_at_or_after ser t)"
    unfolding first_at_or_after_def by (rule splits_bisect_left) (use assms(1) in \<open>simp add: in_seconds_def\<close>)
  then have "\<not> starts ser ! i < ceil_s t" using assms(2,3) by (auto simp: splits_def starts_def)
  then have "ceil_s t \<le> r_start (bs_rows ser ! i)" using assms(3) by (simp add: starts_def)
  then have "seconds (ceil_s t) \<le> seconds (r_start (bs_rows ser ! i))" by (simp add: seconds_def)
  then show ?thesis using ceil_s_le [of t] by linarith
qed

definition bars_ok :: "broker_env \<Rightarrow> bool" where
  "bars_ok E \<longleftrightarrow> (\<forall>(s, ser) \<in> set (be_bars E). in_seconds ser)"

lemma bars_okD: "bars_ok E \<Longrightarrow> eget (be_bars E) s = Inr ser \<Longrightarrow> in_seconds ser"
  by (auto simp: bars_ok_def eget_Inr_iff dest!: map_of_SomeD)

definition fills_timed :: "broker_env \<Rightarrow> instant \<Rightarrow> broker \<Rightarrow> fill list \<Rightarrow> bool" where
  "fills_timed E t b fs \<longleftrightarrow>
     (\<forall>f \<in> set fs. fl_order f < length (br_orders b) \<and> so_eligible (order_of b (fl_order f)) \<le> fl_bar_start f \<and> fl_at f \<le> t)"

lemma advance_order_timed:
  assumes "advance_order E t (b, gs) n = Inr (b', gs')" "orders_ok E b (fs @ gs)" "n \<in> set (br_working b)" "bars_ok E" "fills_timed E t b (fs @ gs)"
  shows "fills_timed E t b' (fs @ gs')"
proof -
  have n: "n < length (br_orders b)" using assms(2,3) by (auto simp: orders_ok_def)
  from assms(1) obtain ser b1 f k where ser: "eget (be_bars E) (so_symbol (order_of b n)) = Inr ser"
    and s: "scan_bars E t n ser [so_next (order_of b n)..<length (bs_rows ser)] (max (so_next (order_of b n)) (length (bs_rows ser))) b = Inr (b1, f, k)"
    and b': "b' = set_order n ((order_of b1 n)\<lparr> so_next := k \<rparr>) b1" and gs': "gs' = gs @ (case f of None \<Rightarrow> [] | Some x \<Rightarrow> [x])"
    by (auto simp: advance_order_def ebind_Inr_iff Let_def)
  note sh = scan_bars_shape [OF s, of "so_next (order_of b n)"]
  have next_le: "first_at_or_after ser (so_eligible (order_of b n)) \<le> so_next (order_of b n)"
    using assms(2) n ser by (auto simp: orders_ok_def timely_def eget_Inr_iff)
  show ?thesis
  proof (cases f)
    case None
    with sh have "b1 = b" by auto
    then show ?thesis using assms(5) n None by (auto simp: fills_timed_def b' gs')
  next
    case (Some x)
    with sh obtain i pr d where i: "i \<in> set [so_next (order_of b n)..<length (bs_rows ser)]"
      and ended: "seconds (r_start (bs_rows ser ! i)) + seconds (bs_seconds ser) \<le> t"
      and a: "apply_fill E n pr (seconds (r_start (bs_rows ser ! i))) (seconds (r_start (bs_rows ser ! i)) + seconds (bs_seconds ser)) d b = Inr (b1, x)"
      by auto
    note as = apply_fill_shape [OF a n]
    have "so_eligible (order_of b n) \<le> seconds (r_start (bs_rows ser ! i))"
      using i next_le by (intro first_at_or_after_le [OF bars_okD [OF assms(4) ser]]) auto
    moreover have "so_eligible (order_of b' j) = so_eligible (order_of b j)" "length (br_orders b') = length (br_orders b)" for j
      using n as(5,6) by (auto simp: b')
    ultimately show ?thesis using assms(5) n ended as(1-3) Some by (auto simp: fills_timed_def gs')
  qed
qed

lemma advance_orders_timed:
  assumes "efold (advance_order E t) (b, gs) ns = Inr (b', gs')" "orders_ok E b (fs @ gs)" "distinct ns" "set ns \<subseteq> set (br_working b)"
    "bars_ok E" "fills_timed E t b (fs @ gs)"
  shows "fills_timed E t b' (fs @ gs')"
proof -
  have "orders_ok E b' (fs @ gs') \<and> fills_timed E t b' (fs @ gs')"
  proof (rule working_fold [OF assms(1) _ assms(3,4), where I = "\<lambda>b gs. orders_ok E b (fs @ gs) \<and> fills_timed E t b (fs @ gs)"])
    fix b1 gs1 n b2 gs2
    assume "advance_order E t (b1, gs1) n = Inr (b2, gs2)" "orders_ok E b1 (fs @ gs1) \<and> fills_timed E t b1 (fs @ gs1)" "n \<in> set (br_working b1)"
    then show "(orders_ok E b2 (fs @ gs2) \<and> fills_timed E t b2 (fs @ gs2)) \<and> (br_working b2 = br_working b1 \<or> br_working b2 = remove1 n (br_working b1))"
      using advance_order_ok advance_order_timed assms(5) by metis
  qed (use assms(2,6) in \<open>auto simp: orders_ok_def\<close>)
  then show ?thesis by blast
qed

definition sim_ok :: "broker_env \<Rightarrow> broker \<Rightarrow> fill list \<Rightarrow> bool" where
  "sim_ok E b fs \<longleftrightarrow> orders_ok E b fs \<and> fills_timed E (br_now b) b fs"

lemma sim_ok_cong:
  "br_orders b' = br_orders b \<Longrightarrow> br_working b' = br_working b \<Longrightarrow> br_now b \<le> br_now b' \<Longrightarrow> sim_ok E b fs \<Longrightarrow> sim_ok E b' fs"
proof -
  assume eq: "br_orders b' = br_orders b" "br_working b' = br_working b" and now: "br_now b \<le> br_now b'" and ok: "sim_ok E b fs"
  have "order_of b' i = order_of b i" for i by (simp add: order_of_def eq)
  then have "fills_timed E (br_now b') b' fs"
    using ok now by (simp add: sim_ok_def fills_timed_def eq) (blast intro: order_trans)
  then show ?thesis using ok orders_ok_cong [OF eq] by (simp add: sim_ok_def)
qed

lemma mark_positions_shape:
  assumes "mark_positions E mode b = Inr b'"
  shows "br_orders b' = br_orders b" "br_working b' = br_working b" "br_now b' = br_now b"
  using assms by (auto simp: mark_positions_def emap_Inr_iff)

lemma advance_ok:
  assumes "advance E t b = Inr (b', gs)" "sim_ok E b fs" "bars_ok E"
  shows "sim_ok E b' (fs @ gs)" "br_now b \<le> t" "br_now b' = t"
proof -
  from assms(1) obtain b2 seen where le: "\<not> t < br_now b"
    and f: "efold (advance_order E t) (b\<lparr> br_now := t \<rparr>, []) (br_working b) = Inr (b2, gs)"
    and m: "mark_positions E Close_Price (b2\<lparr> br_last_bar := seen \<rparr>) = Inr b'"
    by (auto simp: advance_def set_time_def ebind_Inr_iff split: if_splits)
  have ok: "sim_ok E (b\<lparr> br_now := t \<rparr>) fs" by (rule sim_ok_cong [OF _ _ _ assms(2)]) (use le in auto)
  have d: "distinct (br_working b)" using assms(2) by (simp add: sim_ok_def orders_ok_def)
  have o2: "orders_ok E b2 (fs @ gs) \<and> br_now b2 = t"
    using advance_orders_ok [OF f, of fs] ok d by (simp add: sim_ok_def)
  have "fills_timed E t b2 (fs @ gs)"
    using advance_orders_timed [OF f, of fs] ok d assms(3) by (simp add: sim_ok_def)
  with o2 have "sim_ok E b2 (fs @ gs)" by (simp add: sim_ok_def)
  then show "sim_ok E b' (fs @ gs)" by (rule sim_ok_cong [rotated 3]) (use mark_positions_shape [OF m] in auto)
  show "br_now b \<le> t" "br_now b' = t" using le mark_positions_shape [OF m] o2 by auto
qed

lemma expire_order_ok:
  assumes "expire_order E sess (b, gone) n = Inr (b', gone')" "sim_ok E b fs" "n \<in> set (br_working b)"
  shows "sim_ok E b' fs" "br_working b' = br_working b \<or> br_working b' = remove1 n (br_working b)"
proof -
  have n: "n < length (br_orders b)" using assms(2,3) by (auto simp: sim_ok_def orders_ok_def)
  have "sim_ok E b' fs \<and> (br_working b' = br_working b \<or> br_working b' = remove1 n (br_working b))"
  proof (cases "b' = b")
    case False
    with assms(1) have b': "b' = (set_order n ((order_of b n)\<lparr> so_status := ''expired'', so_expired_at := Some (close_at sess), so_updated_at := Some (close_at sess) \<rparr>) b)
        \<lparr> br_working := remove1 n (br_working b) \<rparr>"
      by (auto simp: expire_order_def ebind_Inr_iff split: if_splits)
    have now: "br_now b' = br_now b" by (simp add: b' set_order_def)
    show ?thesis
      using assms(2,3) n unfolding sim_ok_def orders_ok_def fills_timed_def now unfolding b'
      by (auto simp: timely_def set_remove1_eq)
  qed (use assms(2) in simp)
  then show "sim_ok E b' fs" "br_working b' = br_working b \<or> br_working b' = remove1 n (br_working b)" by auto
qed

lemma expire_orders_ok:
  assumes "efold (expire_order E sess) (b, gone) ns = Inr (b', gone')" "sim_ok E b fs" "distinct ns" "set ns \<subseteq> set (br_working b)"
  shows "sim_ok E b' fs"
proof (rule working_fold [OF assms(1) _ assms(3,4), where I = "\<lambda>b g. sim_ok E b fs"])
  fix b1 g1 n b2 g2
  assume "expire_order E sess (b1, g1) n = Inr (b2, g2)" "sim_ok E b1 fs" "n \<in> set (br_working b1)"
  then show "sim_ok E b2 fs \<and> (br_working b2 = br_working b1 \<or> br_working b2 = remove1 n (br_working b1))"
    using expire_order_ok by metis
qed (use assms(2) in \<open>auto simp: sim_ok_def orders_ok_def\<close>)

lemma end_session_ok:
  assumes "end_session E sess b = Inr (b', gs, x)" "sim_ok E b fs" "bars_ok E"
  shows "sim_ok E b' (fs @ gs)"
proof -
  from assms(1) obtain b1 b2 gone r where a: "advance E (max (br_now b) (close_at sess)) b = Inr (b1, gs)"
    and e: "efold (expire_order E sess) (b1, []) (br_working b1) = Inr (b2, gone)"
    and b': "b' = roll_day (if fee_rounding (be_level E) = ''daily'' then
                 b2\<lparr> br_cash := br_cash b2 - r,
                     br_fees_paid := AList.update ''daily_rounding'' (aget 0 (br_fees_paid b2) ''daily_rounding'' + r) (br_fees_paid b2) \<rparr>
               else b2)"
    by (auto simp: end_session_def ebind_Inr_iff Let_def)
  note ok = advance_ok [OF a assms(2,3)]
  have "sim_ok E b2 (fs @ gs)" by (rule expire_orders_ok [OF e ok(1)]) (use ok(1) in \<open>auto simp: sim_ok_def orders_ok_def\<close>)
  then show ?thesis by (rule sim_ok_cong [rotated 3]) (auto simp: b' roll_day_def Let_def)
qed

lemma ceil_minute_le: "t \<le> ceil_minute t"
proof -
  have "t mod minutes 1 < minutes 1" "0 \<le> t mod minutes 1" by (simp_all add: minutes_def seconds_def)
  then show ?thesis by (simp add: ceil_minute_def Let_def)
qed

lemma submit_sim_orders:
  assumes "submit_sim E p b = Inr (b', a)" "orders_ok E b fs"
  shows "orders_ok E b' fs" "fills_timed E (br_now b) b fs \<Longrightarrow> fills_timed E (br_now b') b' fs"
proof -
  have "orders_ok E b' fs \<and> (fills_timed E (br_now b) b fs \<longrightarrow> fills_timed E (br_now b') b' fs)"
proof (cases "b' = b")
  case False
  from assms(1) obtain r where r: "check_order E b p = Inr r" by (auto simp: submit_sim_def ebind_Inr_iff)
  with assms(1) False obtain t where t: "r = Inr t" by (cases r) (auto simp: submit_sim_def)
  from assms(1) obtain ser limit sess where ser: "eget (be_bars E) (tm_symbol t) = Inr ser"
    and b': "b' = b\<lparr> br_orders := br_orders b @
         [\<lparr> so_client = tm_client t, so_symbol = tm_symbol t, so_side = tm_side t, so_type = tm_type t, so_tif = tm_tif t,
            so_qty = tm_qty t, so_limit = limit, so_submitted = br_now b, so_decided = br_now b, so_eligible = eligible_at E b,
            so_session = sess, so_next = first_at_or_after ser (eligible_at E b), so_status = ''accepted'', so_filled_qty = 0, so_avg_price = None,
            so_filled_at = None, so_expired_at = None, so_updated_at = None \<rparr>],
         br_working := br_working b @ [length (br_orders b)],
         br_by_client := AList.update (tm_client t) (length (br_orders b)) (br_by_client b) \<rparr>"
    unfolding submit_sim_def r t ebind_simps sum.case Let_def ebind_Inr_iff by auto
  have el: "\<not> be_legacy E \<Longrightarrow> br_now b + minutes (be_latency E) \<le> eligible_at E b"
    using ceil_minute_le [of "br_now b"] by (simp add: eligible_at_def)
  have o': "order_of b' i = (if i < length (br_orders b) then order_of b i else order_of b' i)" for i
    by (simp add: b' order_of_def nth_append)
  have new: "timely E (order_of b' (length (br_orders b)))" "so_status (order_of b' (length (br_orders b))) = ''accepted''"
    using el ser by (auto simp: b' order_of_def timely_def eget_Inr_iff)
  have len: "length (br_orders b') = Suc (length (br_orders b))" "br_working b' = br_working b @ [length (br_orders b)]" "br_now b' = br_now b"
    by (simp_all add: b')
  have lt: "i < length (br_orders b)" if "i \<in> set (br_working b) \<or> i \<in> set (map fl_order fs)" for i
    using assms(2) that by (auto simp: orders_ok_def)
  have ob: "order_of b' i = order_of b i" if "i < length (br_orders b)" for i using o' [of i] that by simp
  note ok = assms(2)
  have "orders_ok E b' fs"
    unfolding orders_ok_def len
  proof (intro conjI allI impI ballI)
    show "distinct (br_working b @ [length (br_orders b)])" "distinct (map fl_order fs)" using ok lt by (auto simp: orders_ok_def)
    fix i assume i: "i < Suc (length (br_orders b))"
    show "timely E (order_of b' i)" using i new ok ob by (cases "i < length (br_orders b)") (auto simp: orders_ok_def less_Suc_eq)
    show "so_status (order_of b' i) = (if i \<in> set (br_working b @ [length (br_orders b)]) then ''accepted''
        else if i \<in> set (map fl_order fs) then ''filled'' else ''expired'')"
      using i new ok ob by (cases "i < length (br_orders b)") (auto simp: orders_ok_def less_Suc_eq)
  next
    fix i assume "i \<in> set (br_working b @ [length (br_orders b)])"
    then show "i < Suc (length (br_orders b))" using lt by (auto intro: less_SucI)
  next
    fix i assume "i \<in> set (map fl_order fs)"
    then show "i < Suc (length (br_orders b))" "i \<notin> set (br_working b @ [length (br_orders b)])"
      using lt [of i] ok by (auto simp: orders_ok_def)
  qed
  moreover have "fills_timed E (br_now b) b fs \<longrightarrow> fills_timed E (br_now b') b' fs"
    using ob by (simp add: fills_timed_def len) (metis less_SucI)
  ultimately show ?thesis by simp
qed (use assms(2) in simp)
  then show "orders_ok E b' fs" "fills_timed E (br_now b) b fs \<Longrightarrow> fills_timed E (br_now b') b' fs" by auto
qed

lemma submit_sim_ok: "submit_sim E p b = Inr (b', a) \<Longrightarrow> sim_ok E b fs \<Longrightarrow> sim_ok E b' fs"
  using submit_sim_orders unfolding sim_ok_def by blast

lemma sim_run_ok:
  assumes "sim_run E c b fs" "bars_ok E" shows "sim_ok E b fs"
  using assms(1)
proof induction
  case started
  then show ?case by (simp add: sim_ok_def orders_ok_def fills_timed_def new_broker_def)
next
  case (submitted b fs p b' a)
  then show ?case using submit_sim_ok by blast
next
  case (timed b fs t b')
  then show ?case by (auto simp: set_time_def split: if_splits elim: sim_ok_cong [rotated 3])
next
  case (advanced b fs t b' gs)
  then show ?case using advance_ok assms(2) by blast
next
  case (marked b fs mode b')
  then show ?case using mark_positions_shape by (metis sim_ok_cong order_refl)
next
  case (ended b fs sess b' gs x)
  then show ?case using end_session_ok assms(2) by blast
qed

section \<open>P4: the assertion that cannot fire\<close>

definition no_timing_error :: "'a result \<Rightarrow> bool" where
  "no_timing_error r \<longleftrightarrow> r \<noteq> Inl FillTimingError"

named_theorems quiet_intros

lemma quiet_ebind [quiet_intros]: "no_timing_error r \<Longrightarrow> (\<And>x. r = Inr x \<Longrightarrow> no_timing_error (f x)) \<Longrightarrow> no_timing_error (ebind r f)"
  by (cases r) (auto simp: no_timing_error_def)

lemma quiet_emap [quiet_intros]: "no_timing_error r \<Longrightarrow> no_timing_error (emap f r)"
  by (cases r) (auto simp: no_timing_error_def emap_def)

lemma quiet_Inr [quiet_intros]: "no_timing_error (Inr x)"
  by (simp add: no_timing_error_def)

lemma quiet_if [quiet_intros]: "(b \<Longrightarrow> no_timing_error r) \<Longrightarrow> (\<not> b \<Longrightarrow> no_timing_error r') \<Longrightarrow> no_timing_error (if b then r else r')"
  by simp

lemma quiet_etraverse [quiet_intros]: "(\<And>x. no_timing_error (f x)) \<Longrightarrow> no_timing_error (etraverse f xs)"
  by (induction xs) (auto intro!: quiet_intros)

lemma quiet_prims [quiet_intros]:
  "no_timing_error (eget d k)" "no_timing_error (quantize x q r)" "no_timing_error (ddiv x y)"
  by (auto simp: no_timing_error_def eget_def quantize_def ddiv_def Let_def split: option.splits)

lemma quiet_costs [quiet_intros]:
  "no_timing_error (round_up x lv)" "no_timing_error (round_down x lv)" "no_timing_error (cash_debit q x lv)" "no_timing_error (cash_credit q x lv)"
  by (auto simp: round_up_def round_down_def cash_debit_def cash_credit_def Let_def intro!: quiet_intros)

lemma quiet_fills [quiet_intros]:
  "no_timing_error (market_fill side o' s lv m)" "no_timing_error (order_fees t d side q x r a)" "no_timing_error (avg_entry_price p)"
proof -
  show m: "no_timing_error (market_fill side o' s lv m)"
    unfolding market_fill_def Let_def by (intro quiet_intros)
  show "no_timing_error (order_fees t d side q x r a)"
    unfolding order_fees_def Let_def by (intro quiet_intros) (auto simp: no_timing_error_def emap_def ebind_def quantize_def Let_def split: prod.splits sum.splits)
  show "no_timing_error (avg_entry_price p)" unfolding avg_entry_price_def by (intro quiet_intros)
qed

lemma quiet_limit [quiet_intros]: "no_timing_error (limit_buy_fill l o' w s lv m)"
  unfolding limit_buy_fill_def Let_def by (intro quiet_intros)

lemma quiet_apply [quiet_intros]: "no_timing_error (apply_fill E n x bs at' d b)"
  unfolding apply_fill_def position_after_def Let_def
  by (intro quiet_intros) (auto split: prod.splits intro: quiet_intros)

lemma quiet_bar_price [quiet_intros]: "no_timing_error (bar_price E o' ser i sess)"
  unfolding bar_price_def Let_def
  by (intro quiet_intros) (auto simp: no_timing_error_def split: option.splits intro!: quiet_limit [unfolded no_timing_error_def])

lemma quiet_try_fill:
  assumes "be_legacy E \<or> so_decided (order_of b n) + minutes 1 \<le> seconds (r_start (bs_rows ser ! i))"
  shows "no_timing_error (try_fill E n ser i b)"
proof -
  have "\<not> (\<not> be_legacy E \<and> seconds (r_start (bs_rows ser ! i)) < so_decided (order_of b n) + seconds (MIN_LATENCY_BARS * 60))"
    using assms by (auto simp: MIN_LATENCY_BARS_def minutes_def)
  then show ?thesis
    unfolding try_fill_def Let_def
    by (simp only: if_False) (intro quiet_intros, auto simp: no_timing_error_def split: option.splits intro!: quiet_emap [unfolded no_timing_error_def] quiet_apply [unfolded no_timing_error_def])
qed

lemma quiet_scan:
  assumes "\<forall>i \<in> set ks. be_legacy E \<or> so_decided (order_of b n) + minutes 1 \<le> seconds (r_start (bs_rows ser ! i))"
  shows "no_timing_error (scan_bars E t n ser ks stop b)"
  using assms
proof (induction ks)
  case Nil
  then show ?case by (simp add: quiet_Inr)
next
  case (Cons i ks)
  have "no_timing_error (case g of Some x \<Rightarrow> Inr (b', Some x, Suc i) | None \<Rightarrow> scan_bars E t n ser ks stop b')"
    if "try_fill E n ser i b = Inr (b', g)" for b' g
    using try_fill_shape [OF that] Cons by (cases g) (auto intro: quiet_intros)
  then show ?case
    using Cons.prems by (auto intro!: quiet_intros quiet_try_fill)
qed

lemma quiet_advance_order:
  assumes "orders_ok E b fs" "n \<in> set (br_working b)" "bars_ok E" "1 \<le> be_latency E"
  shows "no_timing_error (advance_order E t (b, gs) n)"
proof -
  have n: "timely E (order_of b n)" using assms(1,2) by (auto simp: orders_ok_def)
  have "no_timing_error (scan_bars E t n ser [so_next (order_of b n)..<length (bs_rows ser)] stop b)"
    if "eget (be_bars E) (so_symbol (order_of b n)) = Inr ser" for ser stop
  proof (rule quiet_scan, intro ballI)
    fix i assume i: "i \<in> set [so_next (order_of b n)..<length (bs_rows ser)]"
    have "so_eligible (order_of b n) \<le> seconds (r_start (bs_rows ser ! i))"
      by (rule first_at_or_after_le [OF bars_okD [OF assms(3) that]]) (use n i that in \<open>auto simp: timely_def eget_Inr_iff\<close>)
    then show "be_legacy E \<or> so_decided (order_of b n) + minutes 1 \<le> seconds (r_start (bs_rows ser ! i))"
      using n assms(4) by (auto simp: timely_def minutes_def seconds_def)
  qed
  then show ?thesis
    by (auto simp: advance_order_def Let_def intro!: quiet_intros)
qed

lemma quiet_advance_orders:
  assumes "orders_ok E b (fs @ gs)" "distinct ns" "set ns \<subseteq> set (br_working b)" "bars_ok E" "1 \<le> be_latency E"
  shows "no_timing_error (efold (advance_order E t) (b, gs) ns)"
  using assms
proof (induction ns arbitrary: b gs)
  case (Cons n ns)
  have nw: "n \<in> set (br_working b)" using Cons.prems(3) by simp
  have "no_timing_error (efold (advance_order E t) (b1, gs1) ns)" if "advance_order E t (b, gs) n = Inr (b1, gs1)" for b1 gs1
  proof -
    note ok = advance_order_ok [OF that Cons.prems(1) nw]
    have "distinct (br_working b)" using Cons.prems(1) by (simp add: orders_ok_def)
    then have "set ns \<subseteq> set (br_working b1)" using ok(2) Cons.prems(2,3) by (auto simp: set_remove1_eq)
    then show ?thesis using Cons.IH [OF ok(1)] Cons.prems(2,4,5) by simp
  qed
  then show ?case using quiet_advance_order [OF Cons.prems(1) nw Cons.prems(4,5)] by (auto intro!: quiet_intros)
qed (simp add: quiet_Inr)

lemma quiet_advance:
  assumes "sim_ok E b fs" "bars_ok E" "1 \<le> be_latency E" shows "no_timing_error (advance E t b)"
proof -
  have "orders_ok E (b\<lparr> br_now := t \<rparr>) (fs @ [])" using assms(1) orders_ok_cong [of "b\<lparr> br_now := t \<rparr>" b] by (simp add: sim_ok_def)
  then have q: "no_timing_error (efold (advance_order E t) (b\<lparr> br_now := t \<rparr>, []) (br_working b))"
    by (rule quiet_advance_orders) (use assms in \<open>auto simp: sim_ok_def orders_ok_def\<close>)
  have nb: "no_timing_error (efold (note_bar E t) l ks)" for l ks
    by (induction ks arbitrary: l) (auto simp: note_bar_def Let_def intro!: quiet_intros)
  have mp: "no_timing_error (mark_positions E mode b2)" for mode b2
    unfolding mark_positions_def mark_one_def Let_def
    by (intro quiet_intros) (auto split: prod.splits option.splits intro!: quiet_intros)
  show ?thesis
  proof (cases "t < br_now b")
    case True
    then show ?thesis by (simp add: advance_def set_time_def no_timing_error_def)
  next
    case False
    have "no_timing_error (case x of (b2, fs) \<Rightarrow> ebind (efold (note_bar E t) (br_last_bar b2) (keys (br_positions b2)))
        (\<lambda>seen. ebind (mark_positions E Close_Price (b2\<lparr> br_last_bar := seen \<rparr>)) (\<lambda>b3. Inr (b3, fs))))" for x :: "broker \<times> fill list"
      by (cases x) (auto intro!: quiet_intros nb mp)
    with q False show ?thesis by (auto simp: advance_def set_time_def intro!: quiet_intros nb mp)
  qed
qed


end
