(* ===== verification/Sim_Books.thy ===== *)
theory Sim_Books imports Sim_Broker_Laws begin

text \<open>
  The books of a simulated account: what it holds is what it bought less what it sold, and it never sells what it does
  not hold.
\<close>

section \<open>Sums over the orders\<close>

definition amount :: "broker \<Rightarrow> string \<Rightarrow> string \<Rightarrow> string \<Rightarrow> rat" where
  "amount b side s st = (\<Sum>i<length (br_orders b). if so_side (order_of b i) = side \<and> so_symbol (order_of b i) = s \<and> so_status (order_of b i) = st
     then val (so_qty (order_of b i)) else 0)"

definition qty_pos :: "broker \<Rightarrow> bool" where
  "qty_pos b \<longleftrightarrow> (\<forall>i < length (br_orders b). 0 < val (so_qty (order_of b i)) \<and> so_side (order_of b i) \<in> {''buy'', ''sell''})"

text \<open>Quantities of at most nine decimals, as Alpaca has them, and at most a million million million shares in all.\<close>

definition tidy :: "broker \<Rightarrow> bool" where
  "tidy b \<longleftrightarrow> (\<forall>i < length (br_orders b). grid (-9) (val (so_qty (order_of b i)))) \<and>
     (\<Sum>i<length (br_orders b). val (so_qty (order_of b i))) \<le> 10 ^ 18"

definition units_held :: "broker \<Rightarrow> string \<Rightarrow> rat" where
  "units_held b s = val (sp_qty (aget no_position (br_positions b) s))"

definition books :: "broker \<Rightarrow> bool" where
  "books b \<longleftrightarrow> (\<forall>s. units_held b s = amount b ''buy'' s ''filled'' - amount b ''sell'' s ''filled'' \<and> amount b ''sell'' s ''accepted'' \<le> units_held b s)"

lemma amount_nonneg: "qty_pos b \<Longrightarrow> 0 \<le> amount b side s st"
  unfolding amount_def qty_pos_def by (intro sum_nonneg) (auto simp: less_imp_le)

lemma amount_le: "qty_pos b \<Longrightarrow> amount b side s st \<le> (\<Sum>i<length (br_orders b). val (so_qty (order_of b i)))"
  unfolding amount_def qty_pos_def by (intro sum_mono) (auto simp: less_imp_le)

lemma grid_sum: "(\<And>x. x \<in> A \<Longrightarrow> grid e (f x)) \<Longrightarrow> grid e (sum f A)"
  by (induction A rule: infinite_finite_induct) (simp_all add: grid_add)

lemma amount_grid: "tidy b \<Longrightarrow> grid (-9) (amount b side s st)"
  unfolding amount_def by (rule grid_sum) (simp add: tidy_def)

lemma sum_one_changed:
  fixes g :: "'a \<Rightarrow> rat" and n k :: nat
  assumes "n < k" "\<And>i. i < k \<Longrightarrow> f' i = (if i = n then y else f i)"
  shows "(\<Sum>i<k. g (f' i)) = (\<Sum>i<k. g (f i)) - g (f n) + g y"
proof -
  have "(\<Sum>i<k. g (f' i)) = g (f' n) + (\<Sum>i\<in>{..<k} - {n}. g (f' i))" by (rule sum.remove) (use assms(1) in auto)
  also have "(\<Sum>i\<in>{..<k} - {n}. g (f' i)) = (\<Sum>i\<in>{..<k} - {n}. g (f i))" using assms(2) by (intro sum.cong) auto
  also have "\<dots> = (\<Sum>i<k. g (f i)) - g (f n)"
    using sum.remove [OF finite_lessThan, of n k "\<lambda>i. g (f i)"] assms(1) by simp
  finally show ?thesis using assms by simp
qed

text \<open>An order that changes its status.\<close>

lemma amount_status:
  assumes "n < length (br_orders b)" "length (br_orders b') = length (br_orders b)" "\<And>i. i < length (br_orders b) \<Longrightarrow> order_of b' i = (if i = n then o2 else order_of b i)"
    and "so_side o2 = so_side (order_of b n)" "so_symbol o2 = so_symbol (order_of b n)" "so_qty o2 = so_qty (order_of b n)"
  shows "amount b' side s st = amount b side s st +
     (if so_side o2 = side \<and> so_symbol o2 = s then (if so_status o2 = st then val (so_qty o2) else 0) - (if so_status (order_of b n) = st then val (so_qty o2) else 0) else 0)"
    "tidy b' \<longleftrightarrow> tidy b" "qty_pos b' \<longleftrightarrow> qty_pos b"
proof -
  show "amount b' side s st = amount b side s st +
     (if so_side o2 = side \<and> so_symbol o2 = s then (if so_status o2 = st then val (so_qty o2) else 0) - (if so_status (order_of b n) = st then val (so_qty o2) else 0) else 0)"
    unfolding amount_def assms(2)
    by (subst sum_one_changed [where f = "order_of b" and n = n and y = o2 and f' = "order_of b'"
          and g = "\<lambda>x. if so_side x = side \<and> so_symbol x = s \<and> so_status x = st then val (so_qty x) else 0"])
      (use assms in auto)
  have q: "so_qty (order_of b' i) = so_qty (order_of b i)" "so_side (order_of b' i) = so_side (order_of b i)" if "i < length (br_orders b)" for i
    using assms(3) [OF that] assms(4,6) by auto
  show "tidy b' \<longleftrightarrow> tidy b" unfolding tidy_def assms(2) using q by (auto cong: sum.cong_simp)
  show "qty_pos b' \<longleftrightarrow> qty_pos b" unfolding qty_pos_def assms(2) using q by auto
qed

text \<open>What is working for sale, as \<open>submit\<close> and the positions' body add it up.\<close>

lemma held_for_sale_val:
  assumes "orders_ok E b fs" "qty_pos b" "tidy b"
  shows "val (held_for_sale b s) = amount b ''sell'' s ''accepted''"
proof -
  let ?P = "\<lambda>i. so_side (order_of b i) = ''sell'' \<and> so_symbol (order_of b i) = s"
  let ?w = "filter ?P (br_working b)"
  have d: "distinct (br_working b)" and lt: "\<And>i. i \<in> set (br_working b) \<Longrightarrow> i < length (br_orders b)"
    and st: "\<And>i. i < length (br_orders b) \<Longrightarrow> so_status (order_of b i) = ''accepted'' \<longleftrightarrow> i \<in> set (br_working b)"
    using assms(1) by (auto simp: orders_ok_def split: if_splits)
  have "(\<Sum>i\<leftarrow>?w. val (so_qty (order_of b i))) = (\<Sum>i\<in>set ?w. val (so_qty (order_of b i)))"
    using d by (simp add: sum_list_distinct_conv_sum_set)
  also have "\<dots> = (\<Sum>i\<in>{..<length (br_orders b)} \<inter> {i. ?P i \<and> so_status (order_of b i) = ''accepted''}. val (so_qty (order_of b i)))"
    by (rule sum.cong) (use lt st in auto)
  also have "\<dots> = amount b ''sell'' s ''accepted''"
    unfolding amount_def by (simp add: sum.inter_restrict conj_assoc)
  finally have eq: "(\<Sum>i\<leftarrow>?w. val (so_qty (order_of b i))) = amount b ''sell'' s ''accepted''" .
  have e: "held_for_sale b s = dsum (map (\<lambda>i. so_qty (order_of b i)) ?w)"
    by (simp add: held_for_sale_def filter_map o_def)
  have pos: "0 \<le> val (so_qty (order_of b i))" if "i \<in> set ?w" for i using that lt assms(2) by (auto simp: qty_pos_def less_imp_le)
  have "val (held_for_sale b s) = (\<Sum>x\<leftarrow>map (\<lambda>i. so_qty (order_of b i)) ?w. val x)"
    unfolding e
  proof (rule dsum_exact [where e = "-9"])
    show "grid (-9) (val x)" if "x \<in> set (map (\<lambda>i. so_qty (order_of b i)) ?w)" for x
      using that lt assms(3) by (auto simp: tidy_def)
    have "(\<Sum>x\<leftarrow>map (\<lambda>i. so_qty (order_of b i)) ?w. \<bar>val x\<bar>) = (\<Sum>i\<leftarrow>?w. val (so_qty (order_of b i)))"
      unfolding map_map o_def by (intro arg_cong [where f = sum_list] map_cong refl) (use pos in auto)
    also have "\<dots> \<le> 10 ^ 18" unfolding eq using amount_le [OF assms(2), of "''sell''" s "''accepted''"] assms(3) by (simp add: tidy_def)
    also have "\<dots> < 10 powi (28 + - 9)" by simp
    finally show "(\<Sum>x\<leftarrow>map (\<lambda>i. so_qty (order_of b i)) ?w. \<bar>val x\<bar>) < 10 powi (28 + - 9)" .
  qed
  then show ?thesis using eq by (simp add: o_def)
qed

section \<open>The steps\<close>

text \<open>What keeps the orders and the units held keeps the books.\<close>

lemma books_cong:
  assumes "br_orders b' = br_orders b" "\<And>s. units_held b' s = units_held b s"
  shows "books b' \<longleftrightarrow> books b" "tidy b' \<longleftrightarrow> tidy b" "qty_pos b' \<longleftrightarrow> qty_pos b"
proof -
  have eq: "order_of b' = order_of b" by (rule ext) (simp add: order_of_def assms(1))
  show "books b' \<longleftrightarrow> books b" "tidy b' \<longleftrightarrow> tidy b" "qty_pos b' \<longleftrightarrow> qty_pos b"
    unfolding books_def tidy_def qty_pos_def amount_def assms eq by (rule refl)+
qed

definition booked :: "broker_env \<Rightarrow> broker \<Rightarrow> fill list \<Rightarrow> bool" where
  "booked E b fs \<longleftrightarrow> orders_ok E b fs \<and> qty_pos b \<and> (tidy b \<longrightarrow> books b)"

lemma books_bounds:
  assumes "books b" "tidy b" "qty_pos b"
  shows "grid (-9) (units_held b s)" "0 \<le> units_held b s" "units_held b s \<le> 10 ^ 18"
proof -
  have e: "units_held b s = amount b ''buy'' s ''filled'' - amount b ''sell'' s ''filled''" "amount b ''sell'' s ''accepted'' \<le> units_held b s"
    using assms(1) unfolding books_def by blast+
  show "grid (-9) (units_held b s)" unfolding e(1) using assms(2) by (intro grid_diff amount_grid)
  show "0 \<le> units_held b s" using e(2) amount_nonneg [OF assms(3), of "''sell''" s "''accepted''"] by linarith
  have "amount b ''buy'' s ''filled'' \<le> 10 ^ 18" using amount_le [OF assms(3), of "''buy''" s "''filled''"] assms(2) by (simp add: tidy_def)
  then show "units_held b s \<le> 10 ^ 18" using e(1) amount_nonneg [OF assms(3), of "''sell''" s "''filled''"] by linarith
qed

lemma order_bounds:
  assumes "tidy b" "qty_pos b" "n < length (br_orders b)"
  shows "grid (-9) (val (so_qty (order_of b n)))" "0 < val (so_qty (order_of b n))" "val (so_qty (order_of b n)) \<le> 10 ^ 18"
proof -
  show "grid (-9) (val (so_qty (order_of b n)))" "0 < val (so_qty (order_of b n))" using assms by (auto simp: tidy_def qty_pos_def)
  have "val (so_qty (order_of b n)) \<le> (\<Sum>i<length (br_orders b). val (so_qty (order_of b i)))"
    by (rule member_le_sum) (use assms in \<open>auto simp: qty_pos_def less_imp_le\<close>)
  then show "val (so_qty (order_of b n)) \<le> 10 ^ 18" using assms(1) by (simp add: tidy_def)
qed

lemma apply_fill_units:
  assumes "apply_fill E n x bs at' d b = Inr (b', f)"
  shows "\<exists>q. units_held b' s = (if s = so_symbol (order_of b n) then val q else units_held b s) \<and>
     q = (if so_side (order_of b n) = ''buy'' then sp_qty (aget no_position (br_positions b) (so_symbol (order_of b n))) + so_qty (order_of b n)
          else sp_qty (aget no_position (br_positions b) (so_symbol (order_of b n))) - so_qty (order_of b n))"
proof -
  let ?s = "so_symbol (order_of b n)"
  from assms obtain p cash where p: "position_after E (order_of b n) x (aget no_position (br_positions b) ?s) = Inr (p, cash)"
    and b': "br_positions b' = (if \<not> truthy (sp_qty p) then AList.delete ?s (AList.update ?s (p\<lparr> sp_mark := fp_price x \<rparr>) (br_positions b))
        else AList.update ?s (p\<lparr> sp_mark := fp_price x \<rparr>) (br_positions b))"
    by (auto simp: apply_fill_def Let_def ebind_Inr_iff)
  have q: "sp_qty p = (if so_side (order_of b n) = ''buy'' then sp_qty (aget no_position (br_positions b) ?s) + so_qty (order_of b n)
          else sp_qty (aget no_position (br_positions b) ?s) - so_qty (order_of b n))"
    using p by (auto simp: position_after_def Let_def ebind_Inr_iff split: if_splits)
  have "units_held b' s = (if s = ?s then val (sp_qty p) else units_held b s)"
    by (auto simp: units_held_def b' aget_def delete_conv no_position_def truthy_val val_def [of 0] restrict_map_def)
  with q show ?thesis by blast
qed

lemma apply_fill_booked:
  assumes "apply_fill E n x bs at' d b = Inr (b', f)" "booked E b fs" "n \<in> set (br_working b)"
  shows "booked E b' (fs @ [f])"
proof -
  have ok: "orders_ok E b fs" "qty_pos b" using assms(2) by (auto simp: booked_def)
  have n: "n < length (br_orders b)" "so_status (order_of b n) = ''accepted''" using ok(1) assms(3) by (auto simp: orders_ok_def)
  note sh = apply_fill_shape [OF assms(1) n(1)]
  let ?o = "order_of b n"
  define o2 where "o2 = ?o\<lparr> so_status := ''filled'', so_filled_qty := so_qty ?o, so_avg_price := Some (fp_price x), so_filled_at := Some at', so_updated_at := Some at' \<rparr>"
  note am = amount_status [of n b b' o2, OF n(1) sh(5) sh(6) [folded o2_def]]
  have o2: "so_side o2 = so_side ?o" "so_symbol o2 = so_symbol ?o" "so_qty o2 = so_qty ?o" "so_status o2 = ''filled''" by (simp_all add: o2_def)
  have "books b'" if "tidy b'"
  proof -
    have t: "tidy b" using am(2) o2 that by simp
    have bk: "books b" using assms(2) t by (simp add: booked_def)
    note ob = order_bounds [OF t ok(2) n(1)] and bb = books_bounds [OF bk t ok(2)]
    let ?s = "so_symbol ?o" and ?q = "val (so_qty ?o)"
    let ?p = "sp_qty (aget no_position (br_positions b) ?s)"
    have side: "so_side ?o = ''buy'' \<or> so_side ?o = ''sell''" using ok(2) n(1) by (auto simp: qty_pos_def)
    have up: "units_held b s = val (sp_qty (aget no_position (br_positions b) s))" for s by (simp add: units_held_def)
    have big: "10 ^ 18 + 10 ^ 18 < (10 :: rat) powi (28 + - 9)" by simp
    have plus: "val (?p + so_qty ?o) = units_held b ?s + ?q"
      unfolding up by (rule val_plus_exact [of "-9"]) (use ob bb [of ?s, unfolded up] big in auto)
    have minus: "val (?p - so_qty ?o) = units_held b ?s - ?q"
      unfolding up by (rule val_minus_exact [of "-9"]) (use ob bb [of ?s, unfolded up] big in auto)
    have uh: "units_held b' s = (if s = ?s then (if so_side ?o = ''buy'' then units_held b ?s + ?q else units_held b ?s - ?q) else units_held b s)" for s
      using apply_fill_units [OF assms(1), of s] plus minus by (auto split: if_splits)
    have "units_held b' s = amount b' ''buy'' s ''filled'' - amount b' ''sell'' s ''filled'' \<and> amount b' ''sell'' s ''accepted'' \<le> units_held b' s" for s
    proof -
      have "units_held b s = amount b ''buy'' s ''filled'' - amount b ''sell'' s ''filled''" "amount b ''sell'' s ''accepted'' \<le> units_held b s"
        using bk unfolding books_def by blast+
      then show ?thesis using side n(2) ob(2) by (auto simp: uh am(1) o2)
    qed
    then show ?thesis unfolding books_def by blast
  qed
  then show ?thesis using apply_fill_ok [OF assms(1) ok(1) assms(3)] am(3) o2 ok(2) by (simp add: booked_def)
qed

lemma booked_cong:
  assumes "br_orders b' = br_orders b" "br_working b' = br_working b" "\<And>s. units_held b' s = units_held b s"
  shows "booked E b' fs \<longleftrightarrow> booked E b fs"
  using orders_ok_cong [OF assms(1,2)] books_cong [OF assms(1,3)] by (simp add: booked_def)

lemma set_order_booked:
  assumes "booked E b fs" "n < length (br_orders b)" "so_next (order_of b n) \<le> k"
  shows "booked E (set_order n ((order_of b n)\<lparr> so_next := k \<rparr>) b) fs"
proof -
  let ?b = "set_order n ((order_of b n)\<lparr> so_next := k \<rparr>) b"
  note am = amount_status [of n b ?b "(order_of b n)\<lparr> so_next := k \<rparr>", OF assms(2)]
  have "units_held ?b = units_held b" by (rule ext) (simp add: units_held_def set_order_def)
  moreover have "amount ?b side s st = amount b side s st" for side s st using am(1) assms(2) by simp
  moreover have "tidy ?b \<longleftrightarrow> tidy b" "qty_pos ?b \<longleftrightarrow> qty_pos b" using am(2,3) assms(2) by simp_all
  ultimately have "books ?b \<longleftrightarrow> books b" "tidy ?b \<longleftrightarrow> tidy b" "qty_pos ?b \<longleftrightarrow> qty_pos b"
    unfolding books_def by (simp_all only:)
  then show ?thesis using assms(1) orders_ok_next [OF _ assms(2,3)] by (simp add: booked_def)
qed

lemma advance_order_booked:
  assumes "advance_order E t (b, gs) n = Inr (b', gs')" "booked E b (fs @ gs)" "n \<in> set (br_working b)"
  shows "booked E b' (fs @ gs')"
proof -
  have n: "n < length (br_orders b)" using assms(2,3) by (auto simp: booked_def orders_ok_def)
  from assms(1) obtain ser b1 f k where
    s: "scan_bars E t n ser [so_next (order_of b n)..<length (bs_rows ser)] (max (so_next (order_of b n)) (length (bs_rows ser))) b = Inr (b1, f, k)"
    and b': "b' = set_order n ((order_of b1 n)\<lparr> so_next := k \<rparr>) b1" and gs': "gs' = gs @ (case f of None \<Rightarrow> [] | Some x \<Rightarrow> [x])"
    by (auto simp: advance_order_def ebind_Inr_iff Let_def)
  note sh = scan_bars_shape [OF s, of "so_next (order_of b n)"]
  show ?thesis
  proof (cases f)
    case None
    with sh have "b1 = b" "so_next (order_of b n) \<le> k" by auto
    then show ?thesis using set_order_booked [OF assms(2) n] None by (simp add: b' gs')
  next
    case (Some x)
    with sh obtain pr bs at' d where a: "apply_fill E n pr bs at' d b = Inr (b1, x)" and k: "so_next (order_of b n) \<le> k" by auto
    note as = apply_fill_shape [OF a n]
    have "booked E b1 (fs @ gs @ [x])" using apply_fill_booked [OF a assms(2,3)] by simp
    moreover have "so_next (order_of b1 n) = so_next (order_of b n)" by (simp add: as(6))
    ultimately show ?thesis unfolding b' gs' using k n as(5) Some by (auto intro!: set_order_booked)
  qed
qed

lemma mark_units:
  assumes "etraverse (mark_one E mode l) ps = Inr ps'"
  shows "sp_qty (aget no_position ps' s) = sp_qty (aget no_position ps s)"
  using assms
  by (induction ps arbitrary: ps')
    (auto simp: ebind_Inr_iff mark_one_def aget_def Let_def split: option.splits if_splits)

lemma mark_positions_booked:
  assumes "mark_positions E mode b = Inr b'" shows "booked E b' fs \<longleftrightarrow> booked E b fs"
proof (rule booked_cong)
  show "units_held b' s = units_held b s" for s
    using assms mark_units by (auto simp: mark_positions_def emap_Inr_iff units_held_def)
qed (use mark_positions_shape [OF assms] in auto)

lemma advance_booked:
  assumes "advance E t b = Inr (b', gs)" "booked E b fs"
  shows "booked E b' (fs @ gs)"
proof -
  from assms(1) obtain b2 seen where
    f: "efold (advance_order E t) (b\<lparr> br_now := t \<rparr>, []) (br_working b) = Inr (b2, gs)"
    and m: "mark_positions E Close_Price (b2\<lparr> br_last_bar := seen \<rparr>) = Inr b'"
    by (auto simp: advance_def set_time_def ebind_Inr_iff split: if_splits)
  have ok: "booked E (b\<lparr> br_now := t \<rparr>) fs" using booked_cong [of "b\<lparr> br_now := t \<rparr>" b E fs] assms(2) by (simp add: units_held_def)
  have "booked E b2 (fs @ gs)"
  proof (rule working_fold [OF f, where I = "\<lambda>b gs. booked E b (fs @ gs)"])
    fix b1 gs1 n b2 gs2
    assume "advance_order E t (b1, gs1) n = Inr (b2, gs2)" "booked E b1 (fs @ gs1)" "n \<in> set (br_working b1)"
    then show "booked E b2 (fs @ gs2) \<and> (br_working b2 = br_working b1 \<or> br_working b2 = remove1 n (br_working b1))"
      using advance_order_ok advance_order_booked unfolding booked_def by metis
  qed (use ok assms(2) in \<open>auto simp: booked_def orders_ok_def\<close>)
  then have "booked E (b2\<lparr> br_last_bar := seen \<rparr>) (fs @ gs)"
    using booked_cong [of "b2\<lparr> br_last_bar := seen \<rparr>" b2 E "fs @ gs"] by (simp add: units_held_def)
  then show ?thesis using mark_positions_booked [OF m] by simp
qed

lemma expire_order_booked:
  assumes "expire_order E sess (b, gone) n = Inr (b', gone')" "booked E b fs" "n \<in> set (br_working b)"
  shows "booked E b' fs \<and> (br_working b' = br_working b \<or> br_working b' = remove1 n (br_working b))"
proof (cases "b' = b")
  case False
  have ok: "orders_ok E b fs" "qty_pos b" using assms(2) by (auto simp: booked_def)
  have n: "n < length (br_orders b)" "so_status (order_of b n) = ''accepted''" using ok(1) assms(3) by (auto simp: orders_ok_def)
  define o2 where "o2 = (order_of b n)\<lparr> so_status := ''expired'', so_expired_at := Some (close_at sess), so_updated_at := Some (close_at sess) \<rparr>"
  from assms(1) False have b': "b' = (set_order n o2 b)\<lparr> br_working := remove1 n (br_working b) \<rparr>"
    by (auto simp: expire_order_def ebind_Inr_iff o2_def split: if_splits)
  have o2: "so_side o2 = so_side (order_of b n)" "so_symbol o2 = so_symbol (order_of b n)" "so_qty o2 = so_qty (order_of b n)" "so_status o2 = ''expired''"
    by (simp_all add: o2_def)
  have am: "amount b' side s st = amount b side s st +
     (if so_side o2 = side \<and> so_symbol o2 = s then (if so_status o2 = st then val (so_qty o2) else 0) - (if so_status (order_of b n) = st then val (so_qty o2) else 0) else 0)"
     "tidy b' \<longleftrightarrow> tidy b" "qty_pos b' \<longleftrightarrow> qty_pos b" for side s st
    using n(1) o2 by (intro amount_status [of n b b' o2]; simp add: b')+
  have "orders_ok E b' fs"
    using ok(1) assms(3) n unfolding orders_ok_def unfolding b' by (auto simp: timely_def set_remove1_eq o2_def)
  moreover have "books b'" if "tidy b'"
  proof -
    have bk: "books b" using assms(2) that am(2) by (simp add: booked_def)
    have uh: "units_held b' s = units_held b s" for s by (simp add: units_held_def b' set_order_def)
    have q: "0 < val (so_qty o2)" using ok(2) n(1) o2(3) by (simp add: qty_pos_def)
    have "units_held b' s = amount b' ''buy'' s ''filled'' - amount b' ''sell'' s ''filled'' \<and> amount b' ''sell'' s ''accepted'' \<le> units_held b' s" for s
    proof -
      have "units_held b s = amount b ''buy'' s ''filled'' - amount b ''sell'' s ''filled''" "amount b ''sell'' s ''accepted'' \<le> units_held b s"
        using bk unfolding books_def by blast+
      then show ?thesis using n(2) q by (auto simp: uh am(1) o2(4))
    qed
    then show ?thesis unfolding books_def by blast
  qed
  ultimately show ?thesis using am(3) ok(2) by (simp add: booked_def b')
qed (use assms in simp)

lemma end_session_booked:
  assumes "end_session E sess b = Inr (b', gs, x)" "booked E b fs"
  shows "booked E b' (fs @ gs)"
proof -
  from assms(1) obtain b1 b2 gone r where a: "advance E (max (br_now b) (close_at sess)) b = Inr (b1, gs)"
    and e: "efold (expire_order E sess) (b1, []) (br_working b1) = Inr (b2, gone)"
    and b': "b' = roll_day (if fee_rounding (be_level E) = ''daily'' then
                 b2\<lparr> br_cash := br_cash b2 - r,
                     br_fees_paid := AList.update ''daily_rounding'' (aget 0 (br_fees_paid b2) ''daily_rounding'' + r) (br_fees_paid b2) \<rparr>
               else b2)"
    by (auto simp: end_session_def ebind_Inr_iff Let_def)
  have b1: "booked E b1 (fs @ gs)" by (rule advance_booked [OF a assms(2)])
  have "booked E b2 (fs @ gs)"
  proof (rule working_fold [OF e, where I = "\<lambda>b g. booked E b (fs @ gs)"])
    show "booked E b2 (fs @ gs) \<and> (br_working b2 = br_working b1 \<or> br_working b2 = remove1 n (br_working b1))"
      if "expire_order E sess (b1, g1) n = Inr (b2, g2)" "booked E b1 (fs @ gs)" "n \<in> set (br_working b1)" for b1 g1 n b2 g2
      by (rule expire_order_booked [OF that])
  qed (use b1 in \<open>auto simp: booked_def orders_ok_def\<close>)
  moreover have keep: "sp_qty (aget no_position (map (\<lambda>(s, p). (s, p\<lparr> sp_lastday := sp_mark p \<rparr>)) ps) s) = sp_qty (aget no_position ps s)" for ps s
    by (induction ps) (auto simp: aget_def split: if_splits)
  moreover have "br_orders b' = br_orders b2" "br_working b' = br_working b2" "units_held b' s = units_held b2 s" for s
    by (simp_all add: b' roll_day_def Let_def units_held_def keep)
  ultimately show ?thesis using booked_cong [of b' b2 E "fs @ gs"] by blast
qed

lemma submit_sim_booked:
  assumes "submit_sim E p b = Inr (b', a)" "booked E b fs" "\<not> be_legacy E"
  shows "booked E b' fs"
proof (cases "b' = b")
  case False
  from assms(1) obtain r where r: "check_order E b p = Inr r" by (auto simp: submit_sim_def ebind_Inr_iff)
  with assms(1) False obtain t where t: "r = Inr t" by (cases r) (auto simp: submit_sim_def)
  from assms(1) obtain new where b': "b' = b\<lparr> br_orders := br_orders b @ [new], br_working := br_working b @ [length (br_orders b)],
         br_by_client := AList.update (tm_client t) (length (br_orders b)) (br_by_client b) \<rparr>"
    and new: "so_symbol new = tm_symbol t" "so_side new = tm_side t" "so_qty new = tm_qty t" "so_status new = ''accepted''"
    unfolding submit_sim_def r t ebind_simps sum.case Let_def ebind_Inr_iff by auto
  have c: "tm_side t \<in> {''buy'', ''sell''}" "\<not> tm_qty t \<le> 0" "sell_covered E b (tm_side t) (tm_symbol t) (tm_qty t)"
    using r t unfolding check_order_def Let_def by (auto simp: ebind_Inr_iff split: if_splits)
  have ok: "orders_ok E b fs" "qty_pos b" using assms(2) by (auto simp: booked_def)
  have q: "0 < val (tm_qty t)" using c(2) by (simp add: less_eq_val)
  have len: "length (br_orders b') = Suc (length (br_orders b))" by (simp add: b')
  have ob: "order_of b' i = (if i = length (br_orders b) then new else order_of b i)" if "i < Suc (length (br_orders b))" for i
    using that by (auto simp: b' order_of_def nth_append less_Suc_eq)
  have am: "amount b' side s st = amount b side s st + (if so_side new = side \<and> so_symbol new = s \<and> so_status new = st then val (so_qty new) else 0)" for side s st
  proof -
    let ?g = "\<lambda>x. if so_side x = side \<and> so_symbol x = s \<and> so_status x = st then val (so_qty x) else 0"
    have "(\<Sum>i<length (br_orders b). ?g (order_of b' i)) = (\<Sum>i<length (br_orders b). ?g (order_of b i))"
      by (rule sum.cong) (use ob in auto)
    then show ?thesis
      unfolding amount_def len sum.lessThan_Suc using ob [of "length (br_orders b)"] by (simp only: lessI if_True refl)
  qed
  have pos: "qty_pos b'" using ok(2) q c(1) new ob by (auto simp: qty_pos_def len less_Suc_eq)
  have "books b'" if t': "tidy b'"
  proof -
    have tb: "tidy b"
    proof -
      have "(\<Sum>i<length (br_orders b). val (so_qty (order_of b' i))) = (\<Sum>i<length (br_orders b). val (so_qty (order_of b i)))"
        by (rule sum.cong) (use ob in auto)
      moreover have "0 \<le> val (so_qty (order_of b' (length (br_orders b))))" using pos by (simp add: qty_pos_def len less_imp_le)
      ultimately have "(\<Sum>i<length (br_orders b). val (so_qty (order_of b i))) \<le> 10 ^ 18" using t' by (simp add: tidy_def len)
      moreover have "\<forall>i<length (br_orders b). grid (-9) (val (so_qty (order_of b i)))"
        using t' ob by (metis less_Suc_eq len less_not_refl tidy_def)
      ultimately show ?thesis by (simp add: tidy_def)
    qed
    have bk: "books b" using assms(2) tb by (simp add: booked_def)
    note bb = books_bounds [OF bk tb ok(2)]
    have uh: "units_held b' s = units_held b s" for s by (simp add: units_held_def b')
    have sell: "amount b ''sell'' (tm_symbol t) ''accepted'' + val (tm_qty t) \<le> units_held b (tm_symbol t)" if "tm_side t = ''sell''"
    proof -
      let ?s = "tm_symbol t"
      from that c(3) assms(3) obtain p where p: "map_of (br_positions b) ?s = Some p" "\<not> sp_qty p - held_for_sale b ?s < tm_qty t"
        by (auto simp: sell_covered_def split: option.splits)
      have h: "val (held_for_sale b ?s) = amount b ''sell'' ?s ''accepted''" by (rule held_for_sale_val [OF ok tb])
      have u: "units_held b ?s = val (sp_qty p)" using p(1) by (simp add: units_held_def aget_def)
      have "val (sp_qty p - held_for_sale b ?s) = val (sp_qty p) - val (held_for_sale b ?s)"
      proof (rule val_minus_exact [of "-9"])
        show "grid (-9) (val (sp_qty p))" "grid (-9) (val (held_for_sale b ?s))" using bb(1) [of ?s] u h amount_grid [OF tb] by simp_all
        have "0 \<le> val (held_for_sale b ?s)" "val (held_for_sale b ?s) \<le> val (sp_qty p)" "val (sp_qty p) \<le> 10 ^ 18"
          using h amount_nonneg [OF ok(2), of "''sell''" ?s "''accepted''"] bb(3) [of ?s] u spec [OF bk [unfolded books_def], of ?s] by linarith+
        then have "\<bar>val (sp_qty p) - val (held_for_sale b ?s)\<bar> \<le> 10 ^ 18" by linarith
        also have "\<dots> < 10 powi (28 + - 9)" by simp
        finally show "\<bar>val (sp_qty p) - val (held_for_sale b ?s)\<bar> < 10 powi (28 + - 9)" .
      qed
      then show ?thesis using p(2) u h by (simp add: less_val)
    qed
    have "units_held b' s = amount b' ''buy'' s ''filled'' - amount b' ''sell'' s ''filled'' \<and> amount b' ''sell'' s ''accepted'' \<le> units_held b' s" for s
    proof -
      have "units_held b s = amount b ''buy'' s ''filled'' - amount b ''sell'' s ''filled''" "amount b ''sell'' s ''accepted'' \<le> units_held b s"
        using bk unfolding books_def by blast+
      then show ?thesis using sell by (auto simp: uh am new)
    qed
    then show ?thesis unfolding books_def by blast
  qed
  moreover have "orders_ok E b' fs"
    by (rule submit_sim_orders(1) [OF assms(1) ok(1)])
  ultimately show ?thesis using pos by (simp add: booked_def)
qed (use assms(2) in simp)

lemma sim_run_booked:
  assumes "sim_run E c b fs" "\<not> be_legacy E" shows "booked E b fs"
  using assms(1)
proof induction
  case started
  then show ?case
    by (simp add: booked_def orders_ok_def new_broker_def qty_pos_def books_def units_held_def amount_def aget_def no_position_def val_def [of 0])
next
  case (submitted b fs p b' a)
  then show ?case using submit_sim_booked assms(2) by blast
next
  case (timed b fs t b')
  then show ?case using booked_cong [of b' b E fs] by (auto simp: set_time_def units_held_def split: if_splits)
next
  case (advanced b fs t b' gs)
  then show ?case using advance_booked by blast
next
  case (marked b fs mode b')
  then show ?case using mark_positions_booked by blast
next
  case (ended b fs sess b' gs x)
  then show ?case using end_session_booked by blast
qed


end
