(* ===== verification/Sim_Demo.thy ===== *)
theory Sim_Demo imports Sim_Books begin

section \<open>A round trip\<close>

text \<open>A run of the simulated broker, evaluated: one session, one symbol with a bar a minute: a buy of five shares at the open, a sale of three of them.\<close>

definition trip_session :: session where
  "trip_session = \<lparr> sess_date = Date 2026 1 5, open_at = seconds 600, close_at = seconds 1200, half_day = False \<rparr>"

definition trip_series :: series where
  "trip_series = \<lparr> bs_symbol = ''AAPL'', bs_seconds = 60, bs_rows = map (\<lambda>k.
     \<lparr> r_start = 600 + 60 * int k, r_open = Dec 10 0, r_high = Dec 10 0, r_low = Dec 10 0, r_close = Dec 10 0, r_volume = Dec 1 0, r_session = 0 \<rparr>) [0..<8] \<rparr>"

definition trip_env :: broker_env where
  "trip_env = \<lparr> be_market = mk_market (\<lambda>t. \<lparr> ny_date = Date 2026 1 5, ny_clock = 0 \<rparr>) (\<lambda>d t. 0) [trip_session] [(''AAPL'', trip_series)] [] [] None,
     be_level = FRICTIONLESS, be_fees = \<lparr> ft_rows = [], ft_version = '''' \<rparr>, be_latency = 1, be_bars = [(''AAPL'', trip_series)], be_legacy = False,
     be_iso_utc = (\<lambda>_. ''''), be_ny_iso = (\<lambda>_. ''''), be_ny_date = (\<lambda>_. ''''), be_float = (\<lambda>d. Fin (dec_str d)), be_uuid = (\<lambda>_. '''') \<rparr>"

definition trip_order :: "string \<Rightarrow> string \<Rightarrow> string \<Rightarrow> payload" where
  "trip_order client side qty = [(''client_order_id'', client), (''symbol'', ''AAPL''), (''side'', side), (''type'', ''market''), (''qty'', qty)]"

definition trip :: "(broker \<times> fill list) result" where
  "trip =
     ebind (set_time (seconds 600) (new_broker INITIAL_CASH)) (\<lambda>b1.
     ebind (submit_sim trip_env (trip_order ''a'' ''buy'' ''5'') b1) (\<lambda>(b2, _).
     ebind (advance trip_env (seconds 720) b2) (\<lambda>(b3, fs).
     ebind (submit_sim trip_env (trip_order ''b'' ''sell'' ''3'') b3) (\<lambda>(b4, _).
     ebind (advance trip_env (seconds 900) b4) (\<lambda>(b5, gs).
     Inr (b5, fs @ gs))))))"

definition trip_summary :: "broker \<times> fill list \<Rightarrow> bool" where
  "trip_summary bf = (case bf of (b, fs) \<Rightarrow>
     map fl_order fs = [0, 1] \<and> map so_qty (br_orders b) = [Dec 5 0, Dec 3 0] \<and> map so_side (br_orders b) = [''buy'', ''sell''] \<and>
     map so_status (br_orders b) = [''filled'', ''filled''] \<and> map so_decided (br_orders b) = [seconds 600, seconds 720])"

lemma trip_done: "case trip of Inl _ \<Rightarrow> False | Inr bf \<Rightarrow> trip_summary bf"
  by code_simp

lemma trip_run:
  assumes "trip = Inr (b, fs)" shows "sim_run trip_env INITIAL_CASH b fs"
proof -
  from assms obtain b1 b2 a2 b3 f3 b4 a4 f5 where
    "set_time (seconds 600) (new_broker INITIAL_CASH) = Inr b1" and s2: "submit_sim trip_env (trip_order ''a'' ''buy'' ''5'') b1 = Inr (b2, a2)" and
    s3: "advance trip_env (seconds 720) b2 = Inr (b3, f3)" and s4: "submit_sim trip_env (trip_order ''b'' ''sell'' ''3'') b3 = Inr (b4, a4)" and
    s5: "advance trip_env (seconds 900) b4 = Inr (b, f5)" and fs: "fs = f3 @ f5"
    unfolding trip_def by (auto simp: ebind_Inr_iff split: prod.splits)
  then have "sim_run trip_env INITIAL_CASH b1 []" by (blast intro: sim_run.timed sim_run.started)
  from sim_run.submitted [OF this s2] have "sim_run trip_env INITIAL_CASH b3 f3" using sim_run.advanced [OF _ s3] by fastforce
  from sim_run.submitted [OF this s4] show ?thesis using sim_run.advanced [OF _ s5] fs by blast
qed

lemma trip_reached: "\<exists>b fs. sim_run trip_env INITIAL_CASH b fs \<and> trip_summary (b, fs)"
  using trip_done trip_run by (auto split: sum.splits)

lemma trip_bars: "bars_ok trip_env" "be_latency trip_env = 1" "\<not> be_legacy trip_env"
  by (auto simp: bars_ok_def in_seconds_def starts_def trip_env_def trip_series_def upt_rec)

lemma trip_tidy:
  assumes "trip_summary (b, fs)" shows "tidy b"
proof -
  have q: "map so_qty (br_orders b) = [Dec 5 0, Dec 3 0]" using assms by (simp add: trip_summary_def)
  then have n: "length (br_orders b) = 2" by (metis length_map list.size(3,4) One_nat_def Suc_1 add.right_neutral add_Suc_right)
  have "so_qty (order_of b 0) = Dec 5 0" "so_qty (order_of b 1) = Dec 3 0"
    using arg_cong [OF q, of "\<lambda>xs. xs ! 0"] arg_cong [OF q, of "\<lambda>xs. xs ! 1"] n by (simp_all add: order_of_def)
  moreover have "grid (-9) (5 :: rat)" "grid (-9) (3 :: rat)"
    unfolding grid_def by (auto intro: exI [of _ "5 * 10 ^ 9"] exI [of _ "3 * 10 ^ 9"])
  ultimately show ?thesis
    unfolding tidy_def n by (auto simp: numeral_2_eq_2 less_Suc_eq val_def)
qed



end
