(* ===== verification/Router_App.thy ===== *)
theory Router_App imports Control_API Gatekeeper Tier0_Core begin

text \<open>
  \<open>risk_router/app.py\<close>: the routes of the risk router. Each group of routes has its dependencies, the signature
  and the execution guard, before the handler. An \<open>HTTPException\<close> is an exception with its status. The secrets and the
  clock of a request are its environment; the validation of a body (pydantic) is an argument, \<open>None\<close> a
  \<open>ValidationError\<close>. The framework, its tasks' scheduling and the settings of the environment are left out.
\<close>

section \<open>Authentication\<close>

definition REPLAY_WINDOW_SECONDS :: rat where "REPLAY_WINDOW_SECONDS = 300"

record auth_env =
  au_hmac :: "string \<Rightarrow> string \<Rightarrow> string"
  au_signal_secret :: string
  au_webhook_secret :: "string result"
  au_now :: rat

definition long_secret :: "string \<Rightarrow> string result" where
  "long_secret text = (let secret = strip text in if length secret < 32 then Inl (HTTPException 503) else Inr secret)"

definition signal_secret :: "auth_env \<Rightarrow> string result" where
  "signal_secret A = long_secret (au_signal_secret A)"

definition control_secret :: "auth_env \<Rightarrow> string result" where
  "control_secret A = (case au_webhook_secret A of Inl e \<Rightarrow> Inl (if e = ConfigError then HTTPException 503 else e) | Inr s \<Rightarrow> Inr s)"

definition hmac_dependency :: "auth_env \<Rightarrow> string result \<Rightarrow> request \<Rightarrow> unit result" where
  "hmac_dependency A secret_for rq =
     ebind secret_for (\<lambda>secret.
     case (header rq TIMESTAMP_HEADER, header rq SIGNATURE_HEADER) of
       (Some timestamp, Some signature) \<Rightarrow>
         if timestamp = [] \<or> signature = [] then Inl (HTTPException 403)
         else
           (case py_int timestamp of
              Inl _ \<Rightarrow> Inl (HTTPException 403)
            | Inr ts \<Rightarrow>
                if REPLAY_WINDOW_SECONDS < \<bar>au_now A - of_int ts\<bar> then Inl (HTTPException 403)
                else
                  ebind (verify_signature (au_hmac A) (rq_body rq) timestamp signature secret) (\<lambda>ok.
                  if ok then Inr () else Inl (HTTPException 403)))
     | _ \<Rightarrow> Inl (HTTPException 403))"

definition verify_signal_signature :: "auth_env \<Rightarrow> request \<Rightarrow> unit result" where
  "verify_signal_signature A rq = hmac_dependency A (signal_secret A) rq"

definition verify_control_signature :: "auth_env \<Rightarrow> request \<Rightarrow> unit result" where
  "verify_control_signature A rq = hmac_dependency A (control_secret A) rq"

section \<open>The guard as a dependency, and what a raise answers\<close>

definition blocked :: "exn \<Rightarrow> exn" where
  "blocked e = (case e of GuardBlocked _ \<Rightarrow> HTTPException 423 | _ \<Rightarrow> e)"

definition broker_failure :: "exn \<Rightarrow> exn" where
  "broker_failure e = (if e = OrderRejected then HTTPException 422 else HTTPException 502)"

definition route_failure :: "exn \<Rightarrow> exn" where
  "route_failure e = (case e of GuardBlocked _ \<Rightarrow> blocked e | _ \<Rightarrow> if is_alpaca_error e then broker_failure e else e)"

definition execution_guard :: "intent \<Rightarrow> guard_env \<Rightarrow> ('w router, unit) act" where
  "execution_guard i e r =
     (case guard_check i e (r_guard r) of (g, res) \<Rightarrow>
      (r\<lparr> r_guard := g \<rparr>, case res of Inl x \<Rightarrow> Inl (blocked x) | Inr _ \<Rightarrow> Inr ()))"

section \<open>The routes\<close>

definition submit_signal_route ::
  "auth_env \<Rightarrow> guard_env \<Rightarrow> (string \<Rightarrow> signal option) \<Rightarrow> (signal \<Rightarrow> ('w router, 'o decision) act) \<Rightarrow> request \<Rightarrow> ('w router, 'o decision) act" where
  "submit_signal_route A ge validate handler rq =
     seq (lift (verify_signal_signature A rq))
    (seq (execution_guard OPEN ge)
         (case validate (rq_body rq) of
            None \<Rightarrow> raise (HTTPException 422)
          | Some s \<Rightarrow> handle (handler s) (\<lambda>e. Some (raise (route_failure e)))))"

definition close_route ::
  "auth_env \<Rightarrow> guard_env \<Rightarrow> (string \<Rightarrow> ('w router, 'o decision) act) \<Rightarrow> string \<Rightarrow> request \<Rightarrow> ('w router, 'o decision) act" where
  "close_route A ge handler symbol rq =
     seq (lift (verify_control_signature A rq))
    (seq (execution_guard REDUCE ge)
         (handle (handler (upper (strip symbol))) (\<lambda>e. Some (raise (route_failure e)))))"

text \<open>\<open>when\<close> is the instant of the halt; what cancelling raises is logged and answered.\<close>

definition halt_route :: "auth_env \<Rightarrow> string \<Rightarrow> ('w \<Rightarrow> 'w \<times> nat result) \<Rightarrow> request \<Rightarrow> ('w router, halt_answer) act" where
  "halt_route A when cancel rq =
     seq (lift (verify_control_signature A rq))
    (seq (update (\<lambda>r. r\<lparr> r_guard := guard_halt when ''Emergency halt via POST /v1/control/halt'' (r_guard r) \<rparr>))
    (attempt (\<lambda>r. case cancel (r_world r) of (w, res) \<Rightarrow> (r\<lparr> r_world := w \<rparr>, res))
       (\<lambda>_. Some (ret \<lparr> ha_halted = True, ha_orders_canceled = 0, ha_cancel_failed = True \<rparr>))
       (\<lambda>n. ret \<lparr> ha_halted = True, ha_orders_canceled = n, ha_cancel_failed = False \<rparr>)))"

record router_health =
  rh_halted :: bool
  rh_halt_reason :: "string option"
  rh_breaker_latched_today :: bool
  rh_breaker_detail :: "string option"
  rh_exit_loop_running :: bool
  rh_outbox_pending :: int
  rh_limits :: "(string \<times> string) list"

definition router_limits :: "(string \<times> string) list" where
  "router_limits =
     [(''max_notional_usd'', dec_str MAX_NOTIONAL_USD), (''max_gross_exposure_usd'', dec_str MAX_GROSS_EXPOSURE_USD),
      (''max_open_positions'', nat_str MAX_OPEN_POSITIONS), (''max_new_buys_per_day'', nat_str MAX_NEW_BUYS_PER_DAY),
      (''stop_loss_pct'', dec_str STOP_LOSS_PCT), (''take_profit_pct'', dec_str TAKE_PROFIT_PCT),
      (''circuit_breaker_daily_pnl_pct'', dec_str CIRCUIT_BREAKER_DAILY_PNL_PCT), (''min_prob_up'', dec_str ROUTER_MIN_PROB_UP)]"

definition health_route :: "guard_env \<Rightarrow> bool \<Rightarrow> outbox \<Rightarrow> 'w router \<Rightarrow> router_health" where
  "health_route ge exit_running b r =
     (let d = store_data (g_store (r_guard r)); latched = latched_today ge (r_guard r) in
      \<lparr> rh_halted = Router_State.halted (g_store (r_guard r)), rh_halt_reason = halt_reason d, rh_breaker_latched_today = latched,
        rh_breaker_detail = (if latched then breaker_detail d else None), rh_exit_loop_running = exit_running,
        rh_outbox_pending = pending_count b, rh_limits = router_limits \<rparr>)"

section \<open>The pending receipt\<close>

text \<open>Alpaca's answer to the order and what the receipt takes of the signal. \<open>to_iso\<close> reads and writes an ISO instant.\<close>

record placed_order =
  po_id :: string
  po_client_order_id :: string
  po_status :: string
  po_submitted_at :: "string option"
  po_created_at :: "string option"

record receipt_fields =
  rf_model_name :: string
  rf_predicted_move_pct :: pyfloat
  rf_confidence :: pyfloat
  rf_headline :: "string option"

definition filled_text :: "string option \<Rightarrow> string option" where
  "filled_text x = (case x of None \<Rightarrow> None | Some t \<Rightarrow> if t = [] then None else Some t)"

definition order_submitted_at :: "(string \<Rightarrow> string result) \<Rightarrow> string \<Rightarrow> placed_order \<Rightarrow> string result" where
  "order_submitted_at to_iso now ord =
     (case (case filled_text (po_submitted_at ord) of Some t \<Rightarrow> Some t | None \<Rightarrow> filled_text (po_created_at ord)) of
        Some raw \<Rightarrow> to_iso raw
      | None \<Rightarrow> Inr now)"

definition send_pending_receipt ::
  "'w ext \<Rightarrow> (string \<Rightarrow> string result) \<Rightarrow> string \<Rightarrow> execution_plan \<Rightarrow> string \<Rightarrow> receipt_fields \<Rightarrow> placed_order \<Rightarrow> ('w agent, unit) act" where
  "send_pending_receipt X to_iso now p symbol f ord =
     (let sg = \<lparr> is_ticker = symbol, is_headline = (case rf_headline f of None \<Rightarrow> [] | Some h \<Rightarrow> h),
                 is_predicted_move_pct = rf_predicted_move_pct f, is_confidence = rf_confidence f, is_model_name = rf_model_name f \<rparr>;
          bo = \<lparr> bo_id = po_id ord, bo_client_order_id = po_client_order_id ord, bo_status = po_status ord, bo_symbol = symbol,
                 bo_side = ''buy'', bo_filled_avg_price = None, bo_filled_qty = None, bo_filled_at = None, bo_updated_at = [] \<rparr>
      in handle (bind (lift (order_submitted_at to_iso now ord)) (\<lambda>executed_at.
                 bind (send_trade_receipt X p sg bo executed_at) (\<lambda>_. ret ())))
           (\<lambda>e. if e = ConfigError then Some (ret ()) else None))"

section \<open>Start-up\<close>

text \<open>\<open>policy\<close> is \<open>None\<close> when there is no policy file; \<open>number\<close> is the account's number, empty when it names none.\<close>

definition refuse_core_account :: "core_policy result option \<Rightarrow> ('w \<Rightarrow> 'w \<times> string result) \<Rightarrow> 'w \<Rightarrow> 'w \<times> unit result" where
  "refuse_core_account policy number w =
     (case policy of
        None \<Rightarrow> (w, Inr ())
      | Some (Inl e) \<Rightarrow> (w, Inl e)
      | Some (Inr p) \<Rightarrow>
          if take 2 (pol_account p) \<noteq> ''PA'' then (w, Inr ())
          else
            (case number w of
               (w', Inl e) \<Rightarrow> (w', Inl e)
             | (w', Inr n) \<Rightarrow> (w', if n = pol_account p then Inl CoreAccountRefused else Inr ())))"

definition router_tasks :: "bool \<Rightarrow> string list" where
  "router_tasks background = (if background then [''exit_loop'', ''replay_loop''] else [])"

definition start_router_app :: "core_policy result option \<Rightarrow> ('w \<Rightarrow> 'w \<times> string result) \<Rightarrow> bool \<Rightarrow> 'w \<Rightarrow> 'w \<times> string list result" where
  "start_router_app policy number background w =
     (case refuse_core_account policy number w of (w', r) \<Rightarrow> (w', emap (\<lambda>_. router_tasks background) r))"

end
