(* ===== verification/Core_Alerts.thy ===== *)
theory Core_Alerts imports Market_Feed Core_Execution begin

text \<open>
  \<open>risk_router/core_alerts.py\<close>: which journal entries are pushed to the owner, their text, and the sender. An entry
  is its event and its fields as JSON; \<open>py_str\<close> is \<open>str\<close> of a field's value. \<open>entry_of\<close> is the entry each event of the
  core router's model writes, with the fields that are free text or whole bodies as an argument.
\<close>

section \<open>What is pushed\<close>

definition ALERT_EVENTS :: "string list" where
  "ALERT_EVENTS =
     [''plan_mismatch'', ''plan_rejected'', ''plan_abandoned'', ''plan_expired'', ''plan_deferred'', ''plan_halted'',
      ''order_rejected'', ''buy_blocked'', ''sells_cancelled_at_deadline'', ''buys_cancelled_at_deadline'',
      ''tick_failed'', ''journal_invalid'']"

definition TITLES :: "(string \<times> string) list" where
  "TITLES =
     [(''plan_mismatch'', ''Core: the router disagrees with the Allocator''), (''plan_rejected'', ''Core: a plan broke a limit''),
      (''plan_abandoned'', ''Core: a rebalance was abandoned part-way''), (''plan_expired'', ''Core: a plan missed its session''),
      (''plan_deferred'', ''Core: the breaker deferred a plan''), (''plan_halted'', ''Core: the kill switch stopped a plan''),
      (''plan_done'', ''Core: a plan finished with unfilled orders''), (''order_rejected'', ''Core: Alpaca refused an order''),
      (''buy_blocked'', ''Core: the buys were blocked after the open''),
      (''sells_cancelled_at_deadline'', ''Core: sells did not fill in time''),
      (''buys_cancelled_at_deadline'', ''Core: buys did not fill in time''),
      (''tick_failed'', ''Core: the execution loop keeps failing''),
      (''journal_invalid'', ''Core: the journal failed its integrity check''), (''plan_accepted'', ''Core: a plan needs your approval'')]"

definition SHOWN :: "string list" where
  "SHOWN = [''plan_id'', ''kind'', ''execute_on'', ''session'', ''reason'', ''code'', ''detail'', ''problems'', ''error'', ''consecutive'',
            ''symbol'', ''inputs_match'']"

definition MAX_MESSAGE :: nat where "MAX_MESSAGE = 600"

type_synonym detail = "(string \<times> json) list"

text \<open>\<open>(detail.get("orders") or {}).values()\<close>; an order that is not a dict has no status.\<close>

definition orders_in :: "detail \<Rightarrow> json list" where
  "orders_in d = (case map_of d ''orders'' of Some (JObj os) \<Rightarrow> map snd os | _ \<Rightarrow> [])"

definition order_filled :: "json \<Rightarrow> bool" where
  "order_filled j \<longleftrightarrow> (case j of JObj kvs \<Rightarrow> map_of kvs ''status'' = Some (JStr ''filled'') | _ \<Rightarrow> False)"

definition should_alert :: "string \<Rightarrow> detail \<Rightarrow> bool" where
  "should_alert ev d \<longleftrightarrow>
     (if ev \<in> set ALERT_EVENTS then True
      else if ev = ''plan_accepted'' then map_of d ''status'' = Some (JStr ''awaiting_approval'')
      else if ev = ''plan_done'' then \<exists>x \<in> set (orders_in d). \<not> order_filled x
      else False)"

definition spaced :: "string \<Rightarrow> string" where
  "spaced s = map (\<lambda>c. if c = CHR ''_'' then CHR '' '' else c) s"

definition shown_line :: "(json \<Rightarrow> string) \<Rightarrow> detail \<Rightarrow> string \<Rightarrow> string list" where
  "shown_line py_str d key =
     (case map_of d key of
        None \<Rightarrow> []
      | Some v \<Rightarrow> if v \<in> {JNull, JStr [], JArr [], JObj []} then [] else [key @ '': '' @ py_str v])"

definition render :: "(json \<Rightarrow> string) \<Rightarrow> string \<Rightarrow> detail \<Rightarrow> string \<times> string" where
  "render py_str ev d =
     (let title = (case map_of TITLES ev of Some t \<Rightarrow> t | None \<Rightarrow> ''Core: '' @ spaced ev);
          fields = concat (map (shown_line py_str d) SHOWN);
          os = orders_in d;
          unfilled = length (filter (\<lambda>x. \<not> order_filled x) os);
          lines = fields
            @ (if ev = ''plan_done'' then [nat_str (int unfilled) @ '' of '' @ nat_str (int (length os)) @ '' orders did not fill''] else [])
            @ (if ev = ''plan_accepted'' then [''approve it with the signed control call (see docs/core-runbook.md)''] else []);
          text = take MAX_MESSAGE (join [char_of (10::nat)] lines)
      in (title, if text = [] then title else text))"

section \<open>The sender\<close>

record alerter =
  al_url :: "string option"
  al_fmt :: string

definition mk_alerter :: "string option \<Rightarrow> string \<Rightarrow> alerter" where
  "mk_alerter url fmt =
     \<lparr> al_url = (case url of Some (c # cs) \<Rightarrow> Some (c # cs) | _ \<Rightarrow> None),
       al_fmt = (if fmt \<in> {''json'', ''ntfy''} then fmt else ''json'') \<rparr>"

definition alerter_from_env :: "string \<Rightarrow> string \<Rightarrow> alerter" where
  "alerter_from_env url fmt = mk_alerter (if strip url = [] then None else Some (strip url)) (lower (strip fmt))"

datatype alert_body = Ntfy string string | Json_Body receipt

definition alert_body_of :: "alerter \<Rightarrow> string \<Rightarrow> string \<Rightarrow> alert_body" where
  "alert_body_of a title msg =
     (let nl = [char_of (10::nat)] in
      if al_fmt a = ''ntfy'' then Ntfy title msg
      else Json_Body [(''title'', JStr title), (''message'', JStr msg), (''text'', JStr (title @ nl @ msg)),
                      (''content'', JStr (''**'' @ title @ ''**'' @ nl @ msg))])"

text \<open>\<open>post\<close> sends and checks the status; what it raises is logged and dropped.\<close>

definition send_alert :: "(string \<Rightarrow> alert_body \<Rightarrow> 'w \<Rightarrow> 'w \<times> unit result) \<Rightarrow> alerter \<Rightarrow> string \<Rightarrow> string \<Rightarrow> 'w \<Rightarrow> 'w \<times> bool" where
  "send_alert post a title msg w =
     (case al_url a of
        None \<Rightarrow> (w, False)
      | Some url \<Rightarrow> (case post url (alert_body_of a title msg) w of (w', Inl _) \<Rightarrow> (w', False) | (w', Inr _) \<Rightarrow> (w', True)))"

section \<open>The entries of the core router\<close>

fun status_text :: "plan_status \<Rightarrow> string" where
  "status_text Awaiting_Approval = ''awaiting_approval''"
| "status_text Approved = ''approved''"
| "status_text Selling = ''selling''"
| "status_text Buying = ''buying''"
| "status_text Done = ''done''"
| "status_text Expired = ''expired''"
| "status_text Abandoned = ''abandoned''"
| "status_text Deferred = ''deferred''"
| "status_text Halted = ''halted''"

fun kind_text :: "plan_kind \<Rightarrow> string" where
  "kind_text Initial = ''initial''"
| "kind_text Rebalance = ''rebalance''"
| "kind_text Raise_Cash = ''raise_cash''"

definition side_text :: "side \<Rightarrow> string" where
  "side_text sd = (case sd of Buy \<Rightarrow> ''buy'' | Sell \<Rightarrow> ''sell'')"

definition order_json :: "core_order \<Rightarrow> json" where
  "order_json x = JObj [(''symbol'', JStr (co_symbol x)), (''side'', JStr (side_text (co_side x))), (''status'', JStr (co_status x))]"

fun entry_of :: "(event \<Rightarrow> detail) \<Rightarrow> event \<Rightarrow> string \<times> detail" where
  "entry_of extra (Plan_Mismatch d same) = (''plan_mismatch'', [(''session'', JStr (date_str d)), (''inputs_match'', JBool same)] @ extra (Plan_Mismatch d same))"
| "entry_of extra (No_Plan d early) = (''no_plan'', [(''session'', JStr (date_str d))] @ extra (No_Plan d early))"
| "entry_of extra Over_Funded = (''plan_rejected'', extra Over_Funded)"
| "entry_of extra (Plan_Rejected pid ps) = (''plan_rejected'', [(''plan_id'', JStr pid)] @ extra (Plan_Rejected pid ps))"
| "entry_of extra (Plan_Superseded old new) = (''plan_superseded'', [(''plan_id'', JStr old), (''by'', JStr new)])"
| "entry_of extra (Plan_Accepted pid k st d again) =
     (''plan_accepted'', [(''plan_id'', JStr pid), (''kind'', JStr (kind_text k)), (''status'', JStr (status_text st)), (''execute_on'', JStr (date_str d)),
        (''redecision'', JBool again)] @ extra (Plan_Accepted pid k st d again))"
| "entry_of extra (Plan_Approved pid fund) = (''plan_approved'', [(''plan_id'', JStr pid), (''fund'', JBool fund)])"
| "entry_of extra (Tick_Failed n) = (''tick_failed'', [(''consecutive'', JInt n)] @ extra (Tick_Failed n))"
| "entry_of extra (Order_Rejected pid s sd) =
     (''order_rejected'', [(''plan_id'', JStr pid), (''symbol'', JStr s), (''side'', JStr (side_text sd))] @ extra (Order_Rejected pid s sd))"
| "entry_of extra (Order_Submitted pid p st) = (''order_submitted'', [(''plan_id'', JStr pid), (''alpaca_status'', JStr st)] @ extra (Order_Submitted pid p st))"
| "entry_of extra (Sells_Cancelled pid) = (''sells_cancelled_at_deadline'', [(''plan_id'', JStr pid)])"
| "entry_of extra (Buys_Cancelled pid) = (''buys_cancelled_at_deadline'', [(''plan_id'', JStr pid)])"
| "entry_of extra (Buy_Blocked pid why) = (''buy_blocked'', [(''plan_id'', JStr pid), (''code'', JStr why)] @ extra (Buy_Blocked pid why))"
| "entry_of extra (Plan_Closed pid st k os) =
     (''plan_'' @ status_text st,
      [(''plan_id'', JStr pid), (''kind'', JStr (kind_text k)), (''orders'', JObj (map (\<lambda>(cid, x). (cid, order_json x)) os))] @ extra (Plan_Closed pid st k os))"
| "entry_of extra (Started account) = (''started'', [(''account'', JStr account)])"

text \<open>\<open>_on_journal_event\<close>: the alert an entry sends, if any.\<close>

definition alert_for :: "(json \<Rightarrow> string) \<Rightarrow> (event \<Rightarrow> detail) \<Rightarrow> event \<Rightarrow> (string \<times> string) option" where
  "alert_for py_str extra ev =
     (case entry_of extra ev of (name, d) \<Rightarrow> if should_alert name d then Some (render py_str name d) else None)"

section \<open>What the owner hears of\<close>

definition needs_owner :: "event \<Rightarrow> bool" where
  "needs_owner ev \<longleftrightarrow>
     (case ev of
        Plan_Accepted _ _ st _ _ \<Rightarrow> st = Awaiting_Approval
      | Plan_Closed _ st _ os \<Rightarrow> st \<in> {Expired, Abandoned, Deferred, Halted} \<or> (st = Done \<and> (\<exists>x \<in> set (vals os). co_status x \<noteq> ''filled''))
      | No_Plan _ _ \<Rightarrow> False | Plan_Superseded _ _ \<Rightarrow> False | Plan_Approved _ _ \<Rightarrow> False | Order_Submitted _ _ _ \<Rightarrow> False | Started _ \<Rightarrow> False
      | _ \<Rightarrow> True)"

lemma orders_of_closed:
  "orders_in ([(''plan_id'', a), (''kind'', b), (''orders'', JObj (map (\<lambda>(cid, x). (cid, order_json x)) os))] @ extra) = map order_json (vals os)"
  by (induction os) (auto simp: orders_in_def vals_def)

lemma order_json_filled: "order_filled (order_json x) \<longleftrightarrow> co_status x = ''filled''"
  by (simp add: order_filled_def order_json_def)

lemma awaiting_text: "status_text st = ''awaiting_approval'' \<longleftrightarrow> st = Awaiting_Approval"
  by (cases st) simp_all

lemma alert_names:
  "should_alert ''plan_mismatch'' d \<longleftrightarrow> True"
  "should_alert ''plan_rejected'' d \<longleftrightarrow> True"
  "should_alert ''plan_abandoned'' d \<longleftrightarrow> True"
  "should_alert ''plan_expired'' d \<longleftrightarrow> True"
  "should_alert ''plan_deferred'' d \<longleftrightarrow> True"
  "should_alert ''plan_halted'' d \<longleftrightarrow> True"
  "should_alert ''order_rejected'' d \<longleftrightarrow> True"
  "should_alert ''buy_blocked'' d \<longleftrightarrow> True"
  "should_alert ''sells_cancelled_at_deadline'' d \<longleftrightarrow> True"
  "should_alert ''buys_cancelled_at_deadline'' d \<longleftrightarrow> True"
  "should_alert ''tick_failed'' d \<longleftrightarrow> True"
  "should_alert ''no_plan'' d \<longleftrightarrow> False"
  "should_alert ''plan_superseded'' d \<longleftrightarrow> False"
  "should_alert ''plan_approved'' d \<longleftrightarrow> False"
  "should_alert ''plan_awaiting_approval'' d \<longleftrightarrow> False"
  "should_alert ''plan_selling'' d \<longleftrightarrow> False"
  "should_alert ''plan_buying'' d \<longleftrightarrow> False"
  "should_alert ''order_submitted'' d \<longleftrightarrow> False"
  "should_alert ''started'' d \<longleftrightarrow> False"
  "should_alert ''plan_accepted'' d \<longleftrightarrow> map_of d ''status'' = Some (JStr ''awaiting_approval'')"
  "should_alert ''plan_done'' d \<longleftrightarrow> (\<exists>x \<in> set (orders_in d). \<not> order_filled x)"
  by (simp_all add: should_alert_def ALERT_EVENTS_def)

fun event_name :: "event \<Rightarrow> string" where
  "event_name (Plan_Mismatch _ _) = ''plan_mismatch''"
| "event_name (No_Plan _ _) = ''no_plan''"
| "event_name Over_Funded = ''plan_rejected''"
| "event_name (Plan_Rejected _ _) = ''plan_rejected''"
| "event_name (Plan_Superseded _ _) = ''plan_superseded''"
| "event_name (Plan_Accepted _ _ _ _ _) = ''plan_accepted''"
| "event_name (Plan_Approved _ _) = ''plan_approved''"
| "event_name (Tick_Failed _) = ''tick_failed''"
| "event_name (Order_Rejected _ _ _) = ''order_rejected''"
| "event_name (Order_Submitted _ _ _) = ''order_submitted''"
| "event_name (Sells_Cancelled _) = ''sells_cancelled_at_deadline''"
| "event_name (Buys_Cancelled _) = ''buys_cancelled_at_deadline''"
| "event_name (Buy_Blocked _ _) = ''buy_blocked''"
| "event_name (Plan_Closed _ st _ _) = ''plan_'' @ status_text st"
| "event_name (Started _) = ''started''"

lemma entry_name: "entry_of extra ev = (name, d) \<Longrightarrow> name = event_name ev"
  by (cases ev) simp_all

lemma alert_exactly:
  assumes "entry_of extra ev = (name, d)" shows "should_alert name d \<longleftrightarrow> needs_owner ev"
proof (cases ev)
  case (Plan_Closed pid st k os)
  have os: "orders_in d = map order_json (vals os)" using assms Plan_Closed orders_of_closed by auto
  have name: "name = ''plan_'' @ status_text st" using entry_name [OF assms] Plan_Closed by simp
  show ?thesis
    unfolding name by (cases st) (simp_all add: alert_names needs_owner_def order_json_filled Plan_Closed os)
next
  case (Plan_Accepted pid k st day again)
  then have "name = ''plan_accepted''" "map_of d ''status'' = Some (JStr (status_text st))" using assms by auto
  then show ?thesis by (simp add: alert_names needs_owner_def Plan_Accepted awaiting_text)
qed (simp_all only: entry_name [OF assms] event_name.simps alert_names needs_owner_def event.case)

lemma render_bounds:
  assumes "should_alert name d"
  shows "fst (render py_str name d) \<noteq> [] \<and> snd (render py_str name d) \<noteq> [] \<and> length (snd (render py_str name d)) \<le> 600"
proof -
  define title where "title = (case map_of TITLES name of Some t \<Rightarrow> t | None \<Rightarrow> ''Core: '' @ spaced name)"
  have "name \<in> set (''plan_accepted'' # ''plan_done'' # ALERT_EVENTS)" using assms by (auto simp: should_alert_def split: if_splits)
  then have "title \<noteq> [] \<and> length title \<le> 600" unfolding title_def ALERT_EVENTS_def TITLES_def list.set by (elim insertE emptyE) simp_all
  then show ?thesis by (simp add: render_def Let_def MAX_MESSAGE_def title_def [symmetric])
qed

text \<open>
  C38. The owner is told exactly of what needs a person: an alert goes out for a journal entry of the core router if and
  only if it is a plan waiting for an approval, a plan that ended in any way but done with every order filled, a
  mismatch, a refused plan or order, cancelled or blocked orders or a failing loop. The alert has a title and a text of
  at most 600 characters, neither of them empty.
\<close>

theorem owner_hears_of_what_matters:
  "case alert_for py_str extra ev of
     None \<Rightarrow> \<not> needs_owner ev
   | Some (title, text) \<Rightarrow> needs_owner ev \<and> title \<noteq> [] \<and> text \<noteq> [] \<and> length text \<le> 600"
proof -
  obtain name d where e: "entry_of extra ev = (name, d)" by (cases "entry_of extra ev")
  show ?thesis
    using alert_exactly [OF e] render_bounds [of name d py_str] by (auto simp: alert_for_def e split: prod.splits)
qed

end
