(* ===== verification/Core_App.thy ===== *)
theory Core_App imports Router_App Core_Sync Core_Alerts begin

text \<open>
  \<open>risk_router/core_app.py\<close>: the routes of the core router, what \<open>/health\<close> says, and the start-up that disables
  trading when anything about the policy, the account, the journal or the state directory is wrong. The JSON of a
  body is decoded by an argument; \<open>show\<close> is the text of an exception. The instance lock (\<open>flock\<close>), the files and the
  connection to Alpaca are arguments of the start-up.
\<close>

section \<open>The application's state\<close>

definition TICK_SECONDS :: rat where "TICK_SECONDS = 15"
definition STALE_TICK_SECONDS :: rat where "STALE_TICK_SECONDS = 4 * TICK_SECONDS"
definition STARTUP_GRACE_SECONDS :: rat where "STARTUP_GRACE_SECONDS = 60"
definition UNPROCESSABLE :: int where "UNPROCESSABLE = 422"

text \<open>\<open>ca_router\<close> is the router object, which a failed start may never make; the guard and the broker of \<open>ca_rt\<close> exist all the same.\<close>

record 'w core_app =
  ca_disabled :: "string option"
  ca_policy :: "core_policy option"
  ca_background :: bool
  ca_started_at :: rat
  ca_router :: "'w core_cfg option"
  ca_rt :: "'w core_rt"
  ca_lock :: bool
  ca_sync :: bool
  ca_sync_error :: "string option"

definition on_rt :: "('w core_rt, 'a) act \<Rightarrow> ('w core_app, 'a) act" where
  "on_rt m a = (case m (ca_rt a) of (s, r) \<Rightarrow> (a\<lparr> ca_rt := s \<rparr>, r))"

section \<open>Authentication and refusals\<close>

definition plan_secret :: "string \<Rightarrow> string result" where
  "plan_secret text = long_secret text"

definition verify_plan_signature :: "auth_env \<Rightarrow> string \<Rightarrow> request \<Rightarrow> unit result" where
  "verify_plan_signature A secret rq = hmac_dependency A (plan_secret secret) rq"

definition the_router :: "('w core_app, 'w core_cfg) act" where
  "the_router a =
     (a, if ca_disabled a \<noteq> None \<and> ca_disabled a \<noteq> Some [] then Inl (HTTPException 503)
         else case ca_router a of None \<Rightarrow> Inl AttributeError | Some c \<Rightarrow> Inr c)"

definition rejected :: "string \<Rightarrow> exn" where
  "rejected why = HTTPException (if why \<in> {''plan_mismatch'', ''no_such_plan'', ''plan_in_flight''} then 409 else UNPROCESSABLE)"

text \<open>\<open>except PlanRejected\<close>, and with \<open>except AlpacaError\<close> after it.\<close>

definition on_rejection :: "exn \<Rightarrow> exn" where
  "on_rejection e = (case e of PlanRejected why \<Rightarrow> rejected why | _ \<Rightarrow> e)"

definition on_broker_error :: "exn \<Rightarrow> exn" where
  "on_broker_error e = (if is_alpaca_error e then HTTPException 502 else e)"

definition mapped :: "(exn \<Rightarrow> exn) \<Rightarrow> ('s, 'a) act \<Rightarrow> ('s, 'a) act" where
  "mapped f m = handle m (\<lambda>e. Some (raise (f e)))"

section \<open>The Allocator's routes\<close>

text \<open>\<open>json\<close> decodes the body; \<open>given\<close> reads the proposal's, which \<open>receive_plan\<close> does after it reconciled.\<close>

definition receive_json :: "('j \<Rightarrow> proposal result) \<Rightarrow> 'w core_cfg \<Rightarrow> 'j \<Rightarrow> ('w, Core_Execution.reply) core_act" where
  "receive_json given c j =
     (case given j of Inl e \<Rightarrow> seq (reconcile c) (raise e) | Inr prop \<Rightarrow> receive_plan c prop)"

definition propose ::
  "auth_env \<Rightarrow> string \<Rightarrow> (string \<Rightarrow> 'j result) \<Rightarrow> ('j \<Rightarrow> proposal result) \<Rightarrow> request \<Rightarrow> ('w core_app, Core_Execution.reply) act" where
  "propose A secret json given rq =
     seq (lift (verify_plan_signature A secret rq))
    (bind the_router (\<lambda>c.
     mapped (on_broker_error \<circ> on_rejection)
       (bind (lift (json (rq_body rq))) (\<lambda>j. on_rt (receive_json given c j)))))"

record state_answer =
  sa_forced :: bool
  sa_targets :: amounts
  sa_plan :: "plan_brief option"

definition brief :: "plan_record \<Rightarrow> plan_brief" where
  "brief r = \<lparr> pb_id = pr_id r, pb_kind = kind_text (pr_kind r), pb_status = status_text (pr_status r), pb_execute_on = date_str (pr_execute_on r) \<rparr>"

definition core_state_route :: "auth_env \<Rightarrow> string \<Rightarrow> request \<Rightarrow> ('w core_app, state_answer) act" where
  "core_state_route A secret rq =
     seq (lift (verify_plan_signature A secret rq))
    (bind the_router (\<lambda>c.
     seq (mapped on_broker_error (on_rt (reconcile c)))
    (gets (\<lambda>a. let d = rt_data (ca_rt a) in
       \<lparr> sa_forced = cs_forced d, sa_targets = cs_targets d, sa_plan = map_option brief (cs_plan d) \<rparr>))))"

section \<open>The owner's routes\<close>

record order_brief =
  ob_symbol :: string
  ob_side :: side
  ob_status :: string
  ob_filled_qty :: "decimal option"
  ob_filled_avg_price :: "decimal option"

record plan_detail =
  pd_brief :: plan_brief
  pd_decided_on :: date
  pd_redecision :: bool
  pd_sells :: "(string \<times> string) list"
  pd_buys :: "(string \<times> string) list"
  pd_orders :: "(string \<times> order_brief) list"

definition detail_of :: "plan_record \<Rightarrow> plan_detail" where
  "detail_of r =
     \<lparr> pd_brief = brief r, pd_decided_on = pr_decided_on r, pd_redecision = pr_redecision r,
       pd_sells = pj_sells (pr_plan r), pd_buys = pj_buys (pr_plan r),
       pd_orders = map (\<lambda>(cid, x). (cid, \<lparr> ob_symbol = co_symbol x, ob_side = co_side x, ob_status = co_status x,
         ob_filled_qty = co_filled_qty x, ob_filled_avg_price = co_filled_price x \<rparr>)) (pr_orders r) \<rparr>"

definition current_plan :: "auth_env \<Rightarrow> request \<Rightarrow> ('w core_app, plan_detail option \<times> bool) act" where
  "current_plan A rq =
     seq (lift (verify_control_signature A rq))
    (bind the_router (\<lambda>c.
     seq (mapped on_broker_error (on_rt (reconcile c)))
    (gets (\<lambda>a. let d = rt_data (ca_rt a) in (map_option detail_of (cs_plan d), cs_forced d)))))"

text \<open>\<open>fund\<close> reads the truth of the body's field; an empty body has none.\<close>

definition approve_route :: "auth_env \<Rightarrow> (string \<Rightarrow> bool result) \<Rightarrow> string \<Rightarrow> request \<Rightarrow> ('w core_app, Core_Execution.reply) act" where
  "approve_route A fund pid rq =
     seq (lift (verify_control_signature A rq))
    (bind the_router (\<lambda>c.
     bind (if rq_body rq = [] then ret False else lift (fund (rq_body rq))) (\<lambda>f.
     mapped on_rejection (on_rt (approve c pid f)))))"

text \<open>\<open>texts\<close> decodes the body to its given as text. The \<open>KeyError\<close>, \<open>ValueError\<close> and \<open>InvalidOperation\<close> of the two given are 422.\<close>

definition cash_request :: "(string \<times> string) list \<Rightarrow> (decimal \<times> date) result" where
  "cash_request given =
     ebind (eget given ''amount'') (\<lambda>amount_text.
     ebind (dec_parse amount_text) (\<lambda>amount.
     ebind (eget given ''need_by'') (\<lambda>need_text.
     ebind (date_parse need_text) (\<lambda>need_by. Inr (amount, need_by)))))"

definition raise_cash_route :: "auth_env \<Rightarrow> (string \<Rightarrow> (string \<times> string) list result) \<Rightarrow> request \<Rightarrow> ('w core_app, Core_Execution.reply) act" where
  "raise_cash_route A texts rq =
     seq (lift (verify_control_signature A rq))
    (bind the_router (\<lambda>c.
     bind (lift (texts (rq_body rq))) (\<lambda>given.
     case cash_request given of
       Inl _ \<Rightarrow> raise (HTTPException UNPROCESSABLE)
     | Inr (amount, need_by) \<Rightarrow>
         if amount \<le> 0 then raise (HTTPException UNPROCESSABLE)
         else mapped on_rejection (on_rt (raise_cash c amount need_by)))))"

definition core_halt_route :: "auth_env \<Rightarrow> string \<Rightarrow> ('w \<Rightarrow> 'w \<times> nat result) \<Rightarrow> request \<Rightarrow> ('w core_app, halt_answer) act" where
  "core_halt_route A when cancel rq =
     seq (lift (verify_control_signature A rq))
    (seq (update (\<lambda>a. a\<lparr> ca_rt := (ca_rt a)\<lparr> rt_guard := guard_halt when ''Emergency halt via POST /v1/control/halt (core)'' (rt_guard (ca_rt a)) \<rparr> \<rparr>))
    (attempt (on_rt (ask cancel))
       (\<lambda>_. Some (ret \<lparr> ha_halted = True, ha_orders_canceled = 0, ha_cancel_failed = True \<rparr>))
       (\<lambda>n. ret \<lparr> ha_halted = True, ha_orders_canceled = n, ha_cancel_failed = False \<rparr>)))"

section \<open>Health\<close>

text \<open>What the journal, the clock and the mirror say at the moment of the call.\<close>

record health_reads =
  hr_journal :: journal_brief
  hr_tick_age :: "rat option"
  hr_now :: rat
  hr_sync_line :: "string option"
  hr_sync :: "sync_health option"
  hr_float :: "rat \<Rightarrow> pyfloat"

definition or_none :: "string option \<Rightarrow> string" where
  "or_none x = (case x of None \<Rightarrow> ''None'' | Some t \<Rightarrow> t)"

definition said :: "string option \<Rightarrow> bool" where
  "said x \<longleftrightarrow> x \<noteq> None \<and> x \<noteq> Some []"

definition loop_stale :: "'w core_app \<Rightarrow> health_reads \<Rightarrow> string list" where
  "loop_stale a h =
     (if ca_background a \<and> \<not> said (ca_disabled a) then
        (case hr_tick_age h of
           None \<Rightarrow> if STARTUP_GRACE_SECONDS < hr_now h - ca_started_at a
                   then [''the execution loop has not completed a tick since start-up''] else []
         | Some age \<Rightarrow> if STALE_TICK_SECONDS < age then [''the execution loop has stopped ticking''] else [])
      else [])"

definition router_attention :: "'w core_app \<Rightarrow> health_reads \<Rightarrow> string list" where
  "router_attention a h =
     (let d = rt_data (ca_rt a) in
      (if \<not> jb_ok (hr_journal h) then [''the journal failed its integrity check: '' @ or_none (jb_reason (hr_journal h))] else [])
      @ loop_stale a h
      @ (case cs_plan d of None \<Rightarrow> []
         | Some r \<Rightarrow> if pr_status r = Awaiting_Approval then [''plan '' @ pr_id r @ '' is waiting for your signed approval''] else [])
      @ (if cs_initial_incomplete d then [''the first build did not finish; the next close will propose the rest''] else []))"

definition attention :: "'w core_app \<Rightarrow> health_reads \<Rightarrow> string list" where
  "attention a h =
     (let g = store_data (g_store (rt_guard (ca_rt a))) in
      (if said (ca_disabled a) then [''trading is disabled: '' @ or_none (ca_disabled a)] else [])
      @ (if Router_State.halted (g_store (rt_guard (ca_rt a))) then [''the kill switch is on: '' @ or_none (halt_reason g)] else [])
      @ (if said (ca_sync_error a) then [''the website mirror is misconfigured: '' @ or_none (ca_sync_error a)] else [])
      @ (if ca_sync a \<and> said (hr_sync_line h) then [or_none (hr_sync_line h)] else [])
      @ (if ca_router a = None then [] else router_attention a h))"

record health_answer =
  hw_status :: string
  hw_health :: core_health
  hw_sync :: "sync_health option"
  hw_limits :: "(string \<times> string) list"

definition core_limits :: "(string \<times> string) list" where
  "core_limits =
     [(''max_turnover_pct_per_rebalance'', dec_str MAX_TURNOVER_PER_REBALANCE_PCT), (''max_order_notional_usd'', dec_str MAX_ORDER_NOTIONAL_USD),
      (''max_rebalance_plans_per_month'', nat_str MAX_REBALANCE_PLANS_PER_MONTH), (''limit_collar_pct'', dec_str LIMIT_COLLAR_PCT),
      (''exits'', ''none'')]"

definition health_payload :: "'w core_app \<Rightarrow> health_reads \<Rightarrow> health_answer" where
  "health_payload a h =
     (let g = store_data (g_store (rt_guard (ca_rt a))); up = ca_router a \<noteq> None; lines = attention a h in
      \<lparr> hw_status = (if lines = [] then ''ok'' else ''attention''),
        hw_health =
          \<lparr> ch_trading_enabled = (\<not> said (ca_disabled a)), ch_disabled_reason = ca_disabled a,
            ch_halted = Router_State.halted (g_store (rt_guard (ca_rt a))), ch_halt_reason = halt_reason g,
            ch_policy_sha256 = map_option pol_sha256 (ca_policy a),
            ch_policy_effective_from = map_option (date_str \<circ> pol_effective_from) (ca_policy a),
            ch_plan = (if up then map_option brief (cs_plan (rt_data (ca_rt a))) else None),
            ch_journal = (if up then Some (hr_journal h) else None),
            ch_tick = (if up then Some \<lparr> tb_last_age_seconds = map_option (hr_float h) (hr_tick_age h),
                                         tb_failures = nat (rt_tick_failures (ca_rt a)) \<rparr> else None),
            ch_attention = lines \<rparr>,
        hw_sync = (if ca_sync a then hr_sync h else None), hw_limits = core_limits \<rparr>)"

section \<open>The execution loop\<close>

text \<open>The loop runs until it is cancelled: here for a number of rounds. What \<open>run_tick\<close> itself raises is logged.\<close>

fun core_loop :: "'w core_cfg \<Rightarrow> ('w \<Rightarrow> 'w) \<Rightarrow> nat \<Rightarrow> ('w, unit) core_act" where
  "core_loop c sleep 0 = ret ()"
| "core_loop c sleep (Suc n) =
     seq (handle (run_tick c) (\<lambda>_. Some (ret ())))
    (seq (update (\<lambda>s. s\<lparr> rt_world := sleep (rt_world s) \<rparr>)) (core_loop c sleep n))"

section \<open>Start-up\<close>

text \<open>
  What the start reads: the lock, the policy file, the router on a policy, its state files (the plan state and the
  journal's verdict on itself) and the settings of the mirror (\<open>None\<close> when it is not configured).
\<close>

record 'w core_start =
  st_lock :: "unit result"
  st_policy :: "core_policy result"
  st_router :: "core_policy \<Rightarrow> 'w core_cfg"
  st_data :: "core_state result"
  st_journal :: journal_brief
  st_alert :: "string \<times> string \<Rightarrow> 'w \<Rightarrow> 'w"
  st_sync :: "sync_settings option result"
  st_show :: "exn \<Rightarrow> string"
  st_now :: rat

text \<open>The exceptions of \<open>except (PolicyError, PlanRejected, AlpacaError, OSError)\<close>.\<close>

definition disables :: "exn \<Rightarrow> bool" where
  "disables e \<longleftrightarrow> (case e of PolicyError _ \<Rightarrow> True | PlanRejected _ \<Rightarrow> True | OSError \<Rightarrow> True | _ \<Rightarrow> is_alpaca_error e)"

definition fresh_app :: "bool \<Rightarrow> rat \<Rightarrow> 'w core_rt \<Rightarrow> 'w core_app" where
  "fresh_app background now rt =
     \<lparr> ca_disabled = None, ca_policy = None, ca_background = background, ca_started_at = now, ca_router = None, ca_rt = rt,
       ca_lock = False, ca_sync = False, ca_sync_error = None \<rparr>"

definition start_trading :: "'w core_start \<Rightarrow> ('w core_app, unit) act" where
  "start_trading S =
     seq (lift (st_lock S))
    (seq (update (\<lambda>a. a\<lparr> ca_lock := True \<rparr>))
    (bind (lift (st_policy S)) (\<lambda>p.
     seq (update (\<lambda>a. a\<lparr> ca_policy := Some p \<rparr>))
    (bind (lift (st_data S)) (\<lambda>d.
     let c = st_router S p in
     seq (update (\<lambda>a. a\<lparr> ca_rt := (ca_rt a)\<lparr> rt_data := d, rt_disk := d, rt_tick_failures := 0, rt_last_tick := None \<rparr>, ca_router := Some c \<rparr>))
    (seq (if jb_ok (st_journal S) then ret ()
          else
            seq (update (\<lambda>a. a\<lparr> ca_rt := (ca_rt a)\<lparr> rt_world := st_alert S
                   (''Core: the journal failed its integrity check'', or_none (jb_reason (st_journal S))) (rt_world (ca_rt a)) \<rparr> \<rparr>))
                (raise (PlanRejected ''journal_invalid'')))
    (seq (on_rt (check_account c))
         (on_rt (journal (Started (pol_account p)))))))))))"

definition start_sync :: "'w core_start \<Rightarrow> ('w core_app, unit) act" where
  "start_sync S =
     update (\<lambda>a.
       if ca_background a \<and> ca_lock a then
         (case st_sync S of
            Inr (Some _) \<Rightarrow> a\<lparr> ca_sync := True \<rparr>
          | Inr None \<Rightarrow> a
          | Inl e \<Rightarrow> a\<lparr> ca_sync_error := Some (st_show S e) \<rparr>)
       else a)"

text \<open>The lifespan's start: the application with the names of the tasks it runs.\<close>

definition start_core_app :: "'w core_start \<Rightarrow> bool \<Rightarrow> 'w core_rt \<Rightarrow> 'w core_app \<times> string list result" where
  "start_core_app S background rt =
     bind (attempt (start_trading S)
             (\<lambda>e. if disables e then Some (seq (update (\<lambda>a. a\<lparr> ca_disabled := Some (strip (st_show S e)) \<rparr>)) (ret [])) else None)
             (\<lambda>_. ret (if background then [''loop''] else [])))
          (\<lambda>loop. seq (start_sync S) (gets (\<lambda>a. loop @ (if ca_sync a then [''sync''] else []))))
     (fresh_app background (st_now S) rt)"

end
