(* ===== verification/Router_App_Laws.thy ===== *)
theory Router_App_Laws imports Router_App begin

text \<open>
  What the risk router's routes guarantee whatever is called: an emergency halt needs the control signature, is made
  even when cancelling the orders fails, and is final. \<open>run_router\<close> runs any sequence of requests, exit sweeps and
  restarts of the process.
\<close>

datatype router_op =
    Signal_Request auth_env guard_env request open_env
  | Close_Request auth_env guard_env string request close_env
  | Halt_Request auth_env string request
  | Exit_Sweep exit_env
  | Process_Restart

fun router_step ::
  "(news_payload \<Rightarrow> 'w \<Rightarrow> 'w \<times> 'o result) \<Rightarrow> (execution_plan \<Rightarrow> signal \<Rightarrow> 'o \<Rightarrow> 'w \<Rightarrow> 'w \<times> unit result) option \<Rightarrow> (string \<Rightarrow> string) \<Rightarrow> decimal \<Rightarrow>
   (string \<Rightarrow> signal option) \<Rightarrow> ('w \<Rightarrow> 'w \<times> nat result) \<Rightarrow> router_op \<Rightarrow> 'w router \<Rightarrow> 'w router" where
  "router_step submit notify cid mp validate cancel (Signal_Request A ge rq e) r =
     fst (submit_signal_route A ge validate (\<lambda>s. handle_signal submit notify cid mp s e) rq r)"
| "router_step submit notify cid mp validate cancel (Close_Request A ge symbol rq e) r =
     fst (close_route A ge (\<lambda>s. close_position submit s ''manual_close'' e) symbol rq r)"
| "router_step submit notify cid mp validate cancel (Halt_Request A when rq) r = fst (halt_route A when cancel rq r)"
| "router_step submit notify cid mp validate cancel (Exit_Sweep e) r = fst (run_exit_pass submit e r)"
| "router_step submit notify cid mp validate cancel Process_Restart r = r\<lparr> r_guard := guard_restart (r_guard r) \<rparr>"

definition run_router ::
  "(news_payload \<Rightarrow> 'w \<Rightarrow> 'w \<times> 'o result) \<Rightarrow> (execution_plan \<Rightarrow> signal \<Rightarrow> 'o \<Rightarrow> 'w \<Rightarrow> 'w \<times> unit result) option \<Rightarrow> (string \<Rightarrow> string) \<Rightarrow> decimal \<Rightarrow>
   (string \<Rightarrow> signal option) \<Rightarrow> ('w \<Rightarrow> 'w \<times> nat result) \<Rightarrow> router_op list \<Rightarrow> 'w router \<Rightarrow> 'w router" where
  "run_router submit notify cid mp validate cancel ops r = fold (router_step submit notify cid mp validate cancel) ops r"

definition router_halted :: "'w router \<Rightarrow> bool" where
  "router_halted r \<longleftrightarrow> Router_State.halted (g_store (r_guard r)) \<and> synced (g_store (r_guard r))"

text \<open>While it is halted, every request answers 423 (or fails its signature) before anything else, and a sweep does nothing.\<close>

lemma halted_guard: "router_halted r \<Longrightarrow> execution_guard i e r = (r, Inl (HTTPException 423))"
  by (simp add: router_halted_def execution_guard_def guard_check_def blocked_def)

lemma halted_routes:
  assumes "router_halted r"
  shows "submit_signal_route A ge validate handler rq r = (r, Inl (case verify_signal_signature A rq of Inl x \<Rightarrow> x | Inr _ \<Rightarrow> HTTPException 423))"
    "close_route A ge close_handler symbol rq r = (r, Inl (case verify_control_signature A rq of Inl x \<Rightarrow> x | Inr _ \<Rightarrow> HTTPException 423))"
  by (auto simp: submit_signal_route_def close_route_def seq_def bind_def lift_def halted_guard [OF assms] split: sum.splits)

lemma halted_sweep: "router_halted r \<Longrightarrow> run_exit_pass submit e r = (r, Inr [])"
  by (simp add: router_halted_def run_exit_pass_def)

lemma halt_route_cases:
  assumes "halt_route A when cancel rq r = (r', res)"
  shows "(\<exists>x. verify_control_signature A rq = Inl x \<and> r' = r \<and> res = Inl x) \<or>
    (verify_control_signature A rq = Inr () \<and> (\<exists>a. res = Inr a) \<and>
     r_guard r' = guard_halt when ''Emergency halt via POST /v1/control/halt'' (r_guard r))"
  using assms
  by (cases "verify_control_signature A rq"; cases "cancel (r_world r)")
    (auto simp: halt_route_def seq_def bind_def lift_def update_def attempt_def ret_def split: sum.splits)

lemma guard_halt_store:
  "Router_State.halted (g_store (guard_halt when why g))" "synced (g_store (guard_halt when why g))"
  by (simp_all add: guard_halt_def set_halted_def save_data_def Router_State.halted_def synced_def load_data_def)

lemma halted_kept:
  assumes "router_halted r" shows "router_halted (fst (halt_route A when cancel rq r))"
  using halt_route_cases [of A "when" cancel rq r "fst (halt_route A when cancel rq r)" "snd (halt_route A when cancel rq r)"] assms
  by (auto simp: router_halted_def guard_halt_store)

lemma router_step_halted:
  assumes "router_halted r"
  shows "router_halted (router_step submit notify cid mp validate cancel op r) \<and>
    router_step submit notify cid mp validate cancel op r = router_step submit' notify' cid mp validate cancel op r"
  using assms halted_kept [OF assms]
  by (cases op) (auto simp: halted_routes halted_sweep router_halted_def guard_restart_def restart_synced)

lemma run_router_halted:
  "router_halted r \<Longrightarrow> router_halted (run_router submit notify cid mp validate cancel ops r) \<and>
   run_router submit notify cid mp validate cancel ops r = run_router submit' notify' cid mp validate cancel ops r"
proof (induction ops arbitrary: r)
  case (Cons op ops)
  have "router_halted (router_step submit notify cid mp validate cancel op r)"
    "router_step submit notify cid mp validate cancel op r = router_step submit' notify' cid mp validate cancel op r"
    using router_step_halted [OF Cons.prems] by blast+
  then show ?case using Cons.IH [of "router_step submit notify cid mp validate cancel op r"] by (auto simp: run_router_def)
qed (simp add: run_router_def)

text \<open>
  C37. The risk router's emergency halt: only a request signed with the control secret engages it, it is engaged also
  when cancelling the open orders fails, and it is final. Over any later signals, manual closes, halts, exit sweeps and
  restarts of the process the router stays halted and sends no order: the run is the same whatever submitting one and
  its receipt would do.
\<close>

theorem router_halt_is_final:
  assumes "halt_route A when cancel rq r = (r', res)" "synced (g_store (r_guard r))"
    "\<not> Router_State.halted (g_store (r_guard r))" "Router_State.halted (g_store (r_guard r')) \<or> (\<exists>a. res = Inr a)"
  shows "verify_control_signature A rq = Inr () \<and> (\<exists>a. res = Inr a) \<and>
    Router_State.halted (g_store (r_guard (run_router submit notify cid mp validate cancel ops r'))) \<and>
    run_router submit notify cid mp validate cancel ops r' = run_router submit' notify' cid mp validate cancel ops r'"
proof -
  have h: "verify_control_signature A rq = Inr ()" "\<exists>a. res = Inr a"
    "r_guard r' = guard_halt when ''Emergency halt via POST /v1/control/halt'' (r_guard r)"
    using halt_route_cases [OF assms(1)] assms(3,4) by auto
  then have "router_halted r'" by (simp add: router_halted_def guard_halt_store)
  from run_router_halted [OF this, of submit notify cid mp validate cancel ops submit' notify'] h(1,2) show ?thesis
    by (auto simp: router_halted_def)
qed

definition halt_auth :: auth_env where
  "halt_auth = \<lparr> au_hmac = (\<lambda>_ _. ''ab''), au_signal_secret = ''s'', au_webhook_secret = Inr ''t'', au_now = 1000 \<rparr>"

definition halt_request :: request where
  "halt_request = \<lparr> rq_body = ''{}'', rq_headers = [(''x-signature-timestamp'', ''900''), (''x-signature-256'', ''sha256=ab'')] \<rparr>"

definition idle_router :: "unit router" where
  "idle_router = \<lparr> r_guard = \<lparr> g_store = open_store No_File, g_cache = None \<rparr>, r_world = () \<rparr>"

text \<open>Here cancelling the orders fails.\<close>

definition halted_router :: "unit router \<times> halt_answer result" where
  "halted_router = halt_route halt_auth ''now'' (\<lambda>w. (w, Inl AlpacaError)) halt_request idle_router"

lemma halted_router_done:
  "snd halted_router = Inr \<lparr> ha_halted = True, ha_orders_canceled = 0, ha_cancel_failed = True \<rparr>"
  "synced (g_store (r_guard idle_router))" "\<not> Router_State.halted (g_store (r_guard idle_router))"
  by code_simp+

definition idle_guard :: guard_env where
  "idle_guard = \<lparr> env_day = Date 2026 1 5, env_mono1 = 0, env_mono2 = 0, env_account = Inr (1, 1) \<rparr>"

definition idle_open :: open_env where
  "idle_open = \<lparr> oe_guard1 = idle_guard, oe_now = 0, oe_clock = Inl AlpacaError, oe_day_start = 0, oe_positions = Inr [],
     oe_open_orders = Inr [], oe_recent_orders = Inr [], oe_quote = Inl AlpacaError, oe_guard2 = idle_guard \<rparr>"

lemma router_halt_is_final_witness:
  "Router_State.halted (g_store (r_guard (run_router (\<lambda>p w. (w, Inr p)) None id 0 (\<lambda>_. None) (\<lambda>w. (w, Inl AlpacaError))
     [Process_Restart, Signal_Request halt_auth idle_guard halt_request idle_open] (fst halted_router))))"
proof -
  have "halt_route halt_auth ''now'' (\<lambda>w. (w, Inl AlpacaError)) halt_request idle_router = (fst halted_router, snd halted_router)"
    by (simp add: halted_router_def)
  from router_halt_is_final [OF this halted_router_done(2,3)] halted_router_done(1) show ?thesis by blast
qed

end
