(* ===== verification/Core_App_Laws.thy ===== *)
theory Core_App_Laws imports Core_App Router_App_Laws Core_Demo begin

text \<open>
  What the core router's process guarantees: a start-up that found anything wrong runs no execution loop and refuses
  every trading route, and after an emergency halt no order is sent again, whatever is called and however often it ticks
  or restarts.
\<close>

section \<open>A halt is final\<close>

definition core_halted :: "'w core_rt \<Rightarrow> bool" where
  "core_halted s \<longleftrightarrow> Router_State.halted (g_store (rt_guard s)) \<and> synced (g_store (rt_guard s))"

text \<open>Two actions that do the same in every halted state, and keep it halted.\<close>

definition same :: "('w, 'a) core_act \<Rightarrow> ('w, 'a) core_act \<Rightarrow> bool" where
  "same m m' \<longleftrightarrow> (\<forall>s. core_halted s \<longrightarrow> m s = m' s \<and> core_halted (fst (m s)))"

named_theorems same_rules
named_theorems halted_keeps

lemma same_keeps: "keeps core_halted m \<Longrightarrow> same m m"
  by (simp add: same_def keeps_def)

lemma same_bind [same_rules]: "same m m' \<Longrightarrow> (\<And>x. same (f x) (f' x)) \<Longrightarrow> same (bind m f) (bind m' f')"
  unfolding same_def bind_def by (fastforce split: prod.splits sum.splits)

lemma same_seq [same_rules]: "same m m' \<Longrightarrow> same n n' \<Longrightarrow> same (seq m n) (seq m' n')"
  unfolding seq_def by (rule same_bind)

lemma same_if [same_rules]: "(b \<Longrightarrow> same m m') \<Longrightarrow> (\<not> b \<Longrightarrow> same n n') \<Longrightarrow> same (if b then m else n) (if b then m' else n')"
  by simp

lemma same_option [same_rules]:
  "same m m' \<Longrightarrow> (\<And>x. same (f x) (f' x)) \<Longrightarrow> same (case v of None \<Rightarrow> m | Some x \<Rightarrow> f x) (case v of None \<Rightarrow> m' | Some x \<Rightarrow> f' x)"
  by (cases v) simp_all

lemma same_attempt [same_rules]:
  fixes m :: "('w, 'a) core_act"
  assumes "same m m'" "\<And>e n. h e = Some n \<Longrightarrow> keeps core_halted n" "\<And>x. same (k x) (k' x)"
  shows "same (attempt m h k) (attempt m' h k')"
  unfolding same_def
proof (intro allI impI)
  fix s :: "'w core_rt" assume s: "core_halted s"
  obtain t r where m: "m s = (t, r)" by (cases "m s")
  have m': "m' s = (t, r)" and t: "core_halted t" using assms(1) s m unfolding same_def by (metis fst_conv)+
  show "attempt m h k s = attempt m' h k' s \<and> core_halted (fst (attempt m h k s))"
  proof (cases r)
    case (Inl e)
    then show ?thesis using assms(2) t by (auto simp: attempt_def m m' keeps_def split: option.splits)
  next
    case (Inr x)
    have "k x t = k' x t" "core_halted (fst (k x t))" using assms(3) [of x] t unfolding same_def by blast+
    then show ?thesis by (simp add: attempt_def m m' Inr)
  qed
qed

section \<open>The guard's answer\<close>

lemma check_halted:
  "core_halted s \<Longrightarrow> \<exists>w. check_guard c i s = (s\<lparr> rt_world := w \<rparr>, Inl (GuardBlocked ''halted''))"
  by (cases "cc_guard_env c (rt_world s)") (auto simp: check_guard_def core_halted_def guard_check_def)

lemma core_halted_world [simp]: "core_halted (s\<lparr> rt_world := w \<rparr>) = core_halted s"
  by (simp add: core_halted_def)

lemma same_guarded:
  fixes c :: "'w core_cfg" and h :: "exn \<Rightarrow> ('w, 'a) core_act option"
  assumes "\<And>n. h (GuardBlocked ''halted'') = Some n \<Longrightarrow> keeps core_halted n"
  shows "same (attempt (check_guard c i) h k) (attempt (check_guard (c\<lparr> cc_submit := f \<rparr>) i) h k')"
proof -
  have c: "check_guard (c\<lparr> cc_submit := f \<rparr>) i = check_guard c i" by (simp add: check_guard_def fun_eq_iff)
  show ?thesis
    unfolding same_def c
  proof (intro allI impI)
    fix s :: "'w core_rt" assume s: "core_halted s"
    from check_halted [OF s, of c i] obtain w where w: "check_guard c i s = (s\<lparr> rt_world := w \<rparr>, Inl (GuardBlocked ''halted''))" by blast
    then show "attempt (check_guard c i) h k s = attempt (check_guard c i) h k' s \<and> core_halted (fst (attempt (check_guard c i) h k s))"
      using s assms by (auto simp: attempt_def keeps_def split: option.splits)
  qed
qed

section \<open>What keeps the halt\<close>

lemma halted_ask [halted_keeps]: "keeps core_halted (ask f)"
  by (auto simp: keeps_def ask_def split: prod.splits)

lemma halted_basics [halted_keeps]:
  "keeps core_halted (set_data g)" "keeps core_halted save" "keeps core_halted (journal ev)" "keeps core_halted (set_record h)"
  "keeps core_halted the_record" "keeps core_halted (now_ny c)" "keeps core_halted (snapshot_of c session)"
  by (auto simp: keeps_def set_data_def save_eq journal_eq set_record_def the_record_def now_ny_def snapshot_of_def core_halted_def split: prod.splits)

lemma halted_refresh [halted_keeps]: "keeps core_halted (refresh_one c sd cid)" "keeps core_halted (refresh c sd)"
  unfolding refresh_def refresh_one_def by (auto intro!: keeps_rules halted_keeps)

lemma halted_close [halted_keeps]: "keeps core_halted (record_history r st)" "keeps core_halted (close_plan st b)" "keeps core_halted (abandon c b0)"
  unfolding close_plan_def abandon_def record_history_def Let_def by (auto intro!: keeps_rules halted_keeps)

lemma halted_core_reconcile [halted_keeps]: "keeps core_halted (reconcile c)"
  unfolding reconcile_def by (auto intro!: keeps_rules halted_keeps)

lemma halted_admission [halted_keeps]:
  "keeps core_halted (admit c p snap kind)" "keeps core_halted (take_plan c p snap)" "keeps core_halted (take_proposal c prop snap mine theirs)"
  "keeps core_halted (receive_plan c prop)" "keeps core_halted (approve c pid fund)" "keeps core_halted (raise_cash c amount need_by)"
  unfolding admit_def take_plan_def take_proposal_def receive_plan_def approve_def raise_cash_def Let_def
  by (auto intro!: keeps_rules halted_keeps split: option.split)

lemma halted_failure [halted_keeps]: "keeps core_halted count_failure"
  unfolding count_failure_def by (auto intro!: keeps_rules halted_keeps keeps_update simp: core_halted_def)

section \<open>The tick without its submissions\<close>

lemma without_submit:
  "refresh (c\<lparr> cc_submit := f \<rparr>) = refresh c" "abandon (c\<lparr> cc_submit := f \<rparr>) = abandon c" "reconcile (c\<lparr> cc_submit := f \<rparr>) = reconcile c"
  "now_ny (c\<lparr> cc_submit := f \<rparr>) = now_ny c" "cc_cancel (c\<lparr> cc_submit := f \<rparr>) = cc_cancel c"
proof -
  show cancel: "cc_cancel (c\<lparr> cc_submit := f \<rparr>) = cc_cancel c" by simp
  have lookup: "cc_lookup (c\<lparr> cc_submit := f \<rparr>) = cc_lookup c" by simp
  show now: "now_ny (c\<lparr> cc_submit := f \<rparr>) = now_ny c" by (simp add: now_ny_def fun_eq_iff)
  have one: "refresh_one (c\<lparr> cc_submit := f \<rparr>) = refresh_one c" unfolding fun_eq_iff refresh_one_def lookup by simp
  show refresh: "refresh (c\<lparr> cc_submit := f \<rparr>) = refresh c" unfolding fun_eq_iff refresh_def one by simp
  show abandon: "abandon (c\<lparr> cc_submit := f \<rparr>) = abandon c" unfolding fun_eq_iff abandon_def refresh cancel by simp
  show "reconcile (c\<lparr> cc_submit := f \<rparr>) = reconcile c" unfolding fun_eq_iff reconcile_def abandon now by simp
qed

lemma same_buy: "same (buy c p closes pre) (buy (c\<lparr> cc_submit := f \<rparr>) p closes pre)"
  unfolding buy_def
  by (intro same_if same_keeps same_guarded) (auto simp: blocked_buy_def intro!: keeps_rules halted_keeps)

lemma blocked_without: "blocked_start (c\<lparr> cc_submit := f \<rparr>) = blocked_start c"
  unfolding fun_eq_iff blocked_start_def without_submit by simp

lemma same_start: "same (start c) (start (c\<lparr> cc_submit := f \<rparr>))"
  unfolding start_def blocked_without
  by (intro same_bind same_keeps same_guarded) (auto simp: blocked_start_def intro!: keeps_rules halted_keeps)

lemma same_after_sells: "same (after_sells c now) (after_sells (c\<lparr> cc_submit := f \<rparr>) now)"
  unfolding after_sells_def without_submit Let_def
  by (intro same_bind same_seq same_if same_buy) (auto intro!: same_keeps keeps_rules halted_keeps)

lemma same_after_buys: "same (after_buys c now) (after_buys (c\<lparr> cc_submit := f \<rparr>) now)"
proof -
  have "after_buys (c\<lparr> cc_submit := f \<rparr>) now = after_buys c now" unfolding after_buys_def without_submit ..
  then show ?thesis unfolding after_buys_def Let_def by (auto intro!: same_keeps keeps_rules halted_keeps)
qed

lemma same_tick: "same (tick c) (tick (c\<lparr> cc_submit := f \<rparr>))"
  unfolding tick_def without_submit
  by (intro same_seq same_bind same_option same_if same_keeps same_start same_after_sells same_after_buys) (auto intro!: keeps_rules halted_keeps)

lemma same_run_tick: "same (run_tick c) (run_tick (c\<lparr> cc_submit := f \<rparr>))"
  unfolding run_tick_def without_submit
  by (intro same_attempt same_tick) (auto intro!: same_keeps keeps_rules halted_keeps keeps_update simp: core_halted_def)

section \<open>Runs after a halt\<close>

text \<open>What the routes and the loop do to the router, and a restart of the process: the state and the guard are read from their files.\<close>

datatype core_op =
    Tick
  | Read_State
  | Receive proposal
  | Owner_Approves string bool
  | Owner_Raises decimal date
  | Core_Restart

fun core_step :: "'w core_cfg \<Rightarrow> core_op \<Rightarrow> ('w, unit) core_act" where
  "core_step c Tick = run_tick c"
| "core_step c Read_State = reconcile c"
| "core_step c (Receive prop) = bind (receive_plan c prop) (\<lambda>_. ret ())"
| "core_step c (Owner_Approves pid fund) = bind (approve c pid fund) (\<lambda>_. ret ())"
| "core_step c (Owner_Raises amount need_by) = bind (raise_cash c amount need_by) (\<lambda>_. ret ())"
| "core_step c Core_Restart = update (\<lambda>s. s\<lparr> rt_data := rt_disk s, rt_guard := guard_restart (rt_guard s), rt_tick_failures := 0, rt_last_tick := None \<rparr>)"

definition run_core :: "'w core_cfg \<Rightarrow> core_op list \<Rightarrow> 'w core_rt \<Rightarrow> 'w core_rt" where
  "run_core c ops s = fold (\<lambda>op s. fst (core_step c op s)) ops s"

lemma without_submit_routes:
  "receive_plan (c\<lparr> cc_submit := f \<rparr>) = receive_plan c" "approve (c\<lparr> cc_submit := f \<rparr>) = approve c" "raise_cash (c\<lparr> cc_submit := f \<rparr>) = raise_cash c"
proof -
  have sel: "cc_policy (c\<lparr> cc_submit := f \<rparr>) = cc_policy c" "cc_digest (c\<lparr> cc_submit := f \<rparr>) = cc_digest c" "cc_cash (c\<lparr> cc_submit := f \<rparr>) = cc_cash c"
    "cc_calendar (c\<lparr> cc_submit := f \<rparr>) = cc_calendar c" by simp_all
  have snap: "snapshot_of (c\<lparr> cc_submit := f \<rparr>) = snapshot_of c" by (simp add: fun_eq_iff snapshot_of_def)
  have pid: "plan_id_of (c\<lparr> cc_submit := f \<rparr>) = plan_id_of c" by (simp add: fun_eq_iff plan_id_of_def)
  have admit: "admit (c\<lparr> cc_submit := f \<rparr>) = admit c" unfolding fun_eq_iff admit_def pid sel by simp
  have take_plan: "take_plan (c\<lparr> cc_submit := f \<rparr>) = take_plan c" unfolding fun_eq_iff take_plan_def pid admit by simp
  have take_prop: "take_proposal (c\<lparr> cc_submit := f \<rparr>) = take_proposal c" unfolding fun_eq_iff take_proposal_def take_plan sel by simp
  have cash: "cash_plan (c\<lparr> cc_submit := f \<rparr>) = cash_plan c" "cash_refusal (c\<lparr> cc_submit := f \<rparr>) = cash_refusal c"
    unfolding fun_eq_iff cash_plan_def cash_refusal_def sel by simp_all
  show "receive_plan (c\<lparr> cc_submit := f \<rparr>) = receive_plan c" unfolding fun_eq_iff receive_plan_def take_prop snap sel without_submit by simp
  show "approve (c\<lparr> cc_submit := f \<rparr>) = approve c" unfolding fun_eq_iff approve_def sel without_submit by simp
  show "raise_cash (c\<lparr> cc_submit := f \<rparr>) = raise_cash c" unfolding fun_eq_iff raise_cash_def snap admit cash sel without_submit by simp
qed

lemma same_step: "same (core_step c op) (core_step (c\<lparr> cc_submit := f \<rparr>) op)"
proof (cases op)
  case Core_Restart
  then show ?thesis by (simp add: same_def core_halted_def guard_restart_def restart_synced)
qed (auto simp: same_run_tick without_submit without_submit_routes intro!: same_keeps keeps_rules halted_keeps)

lemma run_core_same:
  "core_halted s \<Longrightarrow> run_core (c\<lparr> cc_submit := f \<rparr>) ops s = run_core c ops s \<and> core_halted (run_core c ops s)"
proof (induction ops arbitrary: s)
  case (Cons op ops)
  have "fst (core_step (c\<lparr> cc_submit := f \<rparr>) op s) = fst (core_step c op s)" "core_halted (fst (core_step c op s))"
    using same_step [of c op f] Cons.prems by (auto simp: same_def)
  then show ?case using Cons.IH [of "fst (core_step c op s)"] by (simp add: run_core_def)
qed (simp add: run_core_def)

lemma core_halt_unsigned:
  "verify_control_signature A rq = Inl e \<Longrightarrow> core_halt_route A when cancel rq a = (a, Inl e)"
  by (simp add: core_halt_route_def seq_Inl)

lemma core_halt_signed:
  assumes "verify_control_signature A rq = Inr ()"
  shows "core_halted (ca_rt (fst (core_halt_route A when cancel rq a))) \<and> (\<exists>x. snd (core_halt_route A when cancel rq a) = Inr x \<and> ha_halted x)"
proof -
  define rt where "rt = (ca_rt a)\<lparr> rt_guard := guard_halt when ''Emergency halt via POST /v1/control/halt (core)'' (rt_guard (ca_rt a)) \<rparr>"
  obtain w r where c: "cancel (rt_world rt) = (w, r)" by (cases "cancel (rt_world rt)")
  have halted: "core_halted (rt\<lparr> rt_world := w \<rparr>)" by (simp add: core_halted_def rt_def guard_halt_store)
  have step: "on_rt (ask cancel) (a\<lparr> ca_rt := rt \<rparr>) = (a\<lparr> ca_rt := rt\<lparr> rt_world := w \<rparr> \<rparr>, r)" by (simp add: on_rt_def ask_def c)
  have "core_halt_route A when cancel rq a = (a\<lparr> ca_rt := rt\<lparr> rt_world := w \<rparr> \<rparr>,
      Inr \<lparr> ha_halted = True, ha_orders_canceled = (case r of Inl _ \<Rightarrow> 0 | Inr n \<Rightarrow> n), ha_cancel_failed = (case r of Inl _ \<Rightarrow> True | Inr _ \<Rightarrow> False) \<rparr>)"
    using step assms by (cases r) (simp_all add: core_halt_route_def seq_Inr attempt_def rt_def)
  then show ?thesis using halted by simp
qed

lemma core_halt_cases:
  assumes "core_halt_route A when cancel rq a = (a', res)" "verify_control_signature A rq = Inr ()"
  shows "(\<exists>x. res = Inr x \<and> ha_halted x) \<and> core_halted (ca_rt a')"
  using core_halt_signed [OF assms(2), of "when" cancel a] assms(1) by auto

text \<open>
  C39. The core router's emergency halt works in every state of the application, disabled or not: a request signed with
  the control secret engages it even when cancelling the orders fails, and it is final. Over any later ticks, state
  reads, proposals, approvals, cash requests and restarts no order is sent: the run is the same whatever submitting an
  order would do.
\<close>

theorem core_halt_is_final:
  assumes "core_halt_route A when cancel rq a = (a', res)" "verify_control_signature A rq = Inr ()"
  shows "(\<exists>x. res = Inr x \<and> ha_halted x) \<and> Router_State.halted (g_store (rt_guard (run_core c ops (ca_rt a')))) \<and>
    run_core (c\<lparr> cc_submit := f \<rparr>) ops (ca_rt a') = run_core c ops (ca_rt a')"
proof -
  have "core_halted (ca_rt a')" using core_halt_cases [OF assms] by blast
  from run_core_same [OF this] have "Router_State.halted (g_store (rt_guard (run_core c ops (ca_rt a'))))"
    "run_core (c\<lparr> cc_submit := f \<rparr>) ops (ca_rt a') = run_core c ops (ca_rt a')" by (auto simp: core_halted_def)
  moreover have "\<exists>x. res = Inr x \<and> ha_halted x" using core_halt_cases [OF assms] by blast
  ultimately show ?thesis by blast
qed

definition halting_app :: "demo_world core_app" where
  "halting_app = fresh_app True 0 (demo_rt
     \<lparr> dw_now = \<lparr> ny_date = Date 2026 9 8, ny_clock = hms 9 10 0 \<rparr>, dw_orders = [], dw_quotes = [], dw_envs = replicate 4 (demo_env 0 (Dec 1000 0)),
       dw_cash = Dec 100 0, dw_positions = [] \<rparr> (Some (demo_record Approved [])))"

lemma core_halt_is_final_witness:
  "let s = ca_rt (fst (core_halt_route halt_auth ''now'' (\<lambda>w. (w, Inl AlpacaError)) halt_request halting_app)) in
   Router_State.halted (g_store (rt_guard (run_core demo_cfg [Tick, Core_Restart, Tick] s))) \<and>
   run_core (demo_cfg\<lparr> cc_submit := (\<lambda>p w. (w, Inl AlpacaError)) \<rparr>) [Tick, Core_Restart, Tick] s = run_core demo_cfg [Tick, Core_Restart, Tick] s"
proof -
  have ok: "verify_control_signature halt_auth halt_request = Inr ()" by code_simp
  obtain a' r where h: "core_halt_route halt_auth ''now'' (\<lambda>w. (w, Inl AlpacaError)) halt_request halting_app = (a', r)"
    by (cases "core_halt_route halt_auth ''now'' (\<lambda>w. (w, Inl AlpacaError)) halt_request halting_app")
  from core_halt_is_final [OF h ok, of demo_cfg "[Tick, Core_Restart, Tick]"] show ?thesis by (simp add: h Let_def)
qed

section \<open>The start\<close>

lemma fresh_app_fields [simp]:
  "ca_disabled (fresh_app b t rt) = None" "ca_background (fresh_app b t rt) = b" "ca_lock (fresh_app b t rt) = False" "ca_sync (fresh_app b t rt) = False"
  by (simp_all add: fresh_app_def)

lemma keeps_on_rt: "(\<And>a s. P a \<Longrightarrow> P (a\<lparr> ca_rt := s \<rparr>)) \<Longrightarrow> keeps P (on_rt m)"
  by (auto simp: keeps_def on_rt_def split: prod.splits)

lemma start_keeps: "keeps (\<lambda>a. ca_disabled a = None \<and> ca_background a = b \<and> \<not> ca_sync a) (start_trading S)"
  unfolding start_trading_def Let_def by (intro keeps_rules keeps_update keeps_on_rt) auto

lemma start_locks: "st_lock S = Inr () \<Longrightarrow> ca_lock (fst (start_trading S a))"
proof -
  assume l: "st_lock S = Inr ()"
  have "keeps ca_lock (bind (lift (st_policy S)) (\<lambda>p.
     seq (update (\<lambda>a. a\<lparr> ca_policy := Some p \<rparr>))
    (bind (lift (st_data S)) (\<lambda>d.
     let c = st_router S p in
     seq (update (\<lambda>a. a\<lparr> ca_rt := (ca_rt a)\<lparr> rt_data := d, rt_disk := d, rt_tick_failures := 0, rt_last_tick := None \<rparr>, ca_router := Some c \<rparr>))
    (seq (if jb_ok (st_journal S) then ret ()
          else
            seq (update (\<lambda>a. a\<lparr> ca_rt := (ca_rt a)\<lparr> rt_world := st_alert S
                   (''Core: the journal failed its integrity check'', or_none (jb_reason (st_journal S))) (rt_world (ca_rt a)) \<rparr> \<rparr>))
                (raise (PlanRejected ''journal_invalid'')))
    (seq (on_rt (check_account c))
         (on_rt (journal (Started (pol_account p))))))))))"
    unfolding Let_def by (intro keeps_rules keeps_update keeps_on_rt) auto
  then show ?thesis by (simp add: start_trading_def l seq_Inr keeps_def)
qed

lemma on_rt_Inr: "on_rt m a = (a', Inr x) \<Longrightarrow> \<exists>s. m (ca_rt a) = (s, Inr x) \<and> a' = a\<lparr> ca_rt := s \<rparr>"
  by (auto simp: on_rt_def split: prod.splits)

lemma check_account_Inr:
  assumes "check_account c s = (s', Inr ())"
  shows "violations (cc_policy c) = [] \<and> (\<exists>w. cc_account_number c (rt_world s) = (w, Inr (pol_account (cc_policy c))))"
  using assms by (auto simp: check_account_def bind_def ask_def split: if_splits prod.splits sum.splits)

lemma start_trading_Inr:
  assumes "start_trading S a = (a', Inr ())"
  shows "\<exists>p w w'. st_lock S = Inr () \<and> st_policy S = Inr p \<and> jb_ok (st_journal S) \<and> violations (cc_policy (st_router S p)) = [] \<and>
    cc_account_number (st_router S p) w = (w', Inr (pol_account (cc_policy (st_router S p)))) \<and> ca_router a' = Some (st_router S p)"
proof -
  from assms obtain p d a1 a2 where l: "st_lock S = Inr ()" "st_policy S = Inr p" "st_data S = Inr d" "jb_ok (st_journal S)"
    and c: "on_rt (check_account (st_router S p)) a1 = (a2, Inr ())" and r1: "ca_router a1 = Some (st_router S p)"
    and j: "on_rt (journal (Started (pol_account p))) a2 = (a', Inr ())"
    unfolding start_trading_def Let_def by (auto elim!: seq_cases bind_cases split: if_splits)
  then show ?thesis using on_rt_Inr [OF c] on_rt_Inr [OF j] check_account_Inr by fastforce
qed

lemma refused_routes:
  assumes "said (ca_disabled a)"
  shows "\<exists>e. propose A secret json given rq a = (a, Inl e)" "\<exists>e. core_state_route A secret rq a = (a, Inl e)"
    "\<exists>e. current_plan A rq a = (a, Inl e)" "\<exists>e. approve_route A fund pid rq a = (a, Inl e)" "\<exists>e. raise_cash_route A texts rq a = (a, Inl e)"
proof -
  have r: "the_router a = (a, Inl (HTTPException 503))" using assms by (simp add: the_router_def said_def)
  show "\<exists>e. propose A secret json given rq a = (a, Inl e)" "\<exists>e. core_state_route A secret rq a = (a, Inl e)"
    by (cases "verify_plan_signature A secret rq"; simp add: propose_def core_state_route_def seq_def bind_def r)+
  show "\<exists>e. current_plan A rq a = (a, Inl e)" "\<exists>e. approve_route A fund pid rq a = (a, Inl e)" "\<exists>e. raise_cash_route A texts rq a = (a, Inl e)"
    by (cases "verify_control_signature A rq"; simp add: current_plan_def approve_route_def raise_cash_route_def seq_def bind_def r)+
qed

definition synced_app :: "'w core_start \<Rightarrow> 'w core_app \<Rightarrow> 'w core_app" where
  "synced_app S a = fst (start_sync S a)"

lemma start_sync_eq: "start_sync S a = (synced_app S a, Inr ())"
  by (simp add: synced_app_def start_sync_def)

lemma synced_app_fields [simp]:
  "ca_disabled (synced_app S a) = ca_disabled a" "ca_router (synced_app S a) = ca_router a" "ca_background (synced_app S a) = ca_background a"
  by (simp_all add: synced_app_def start_sync_def split: sum.splits option.splits)

lemma start_core_app_cases:
  assumes "start_core_app S background rt = (a, Inr tasks)"
  obtains (runs) a1 where "start_trading S (fresh_app background (st_now S) rt) = (a1, Inr ())" "a = synced_app S a1"
      "tasks = (if background then [''loop''] else []) @ (if ca_sync a then [''sync''] else [])"
  | (disabled) a1 e where "start_trading S (fresh_app background (st_now S) rt) = (a1, Inl e)" "disables e"
      "a = synced_app S (a1\<lparr> ca_disabled := Some (strip (st_show S e)) \<rparr>)" "tasks = (if ca_sync a then [''sync''] else [])"
proof -
  obtain a1 r where t: "start_trading S (fresh_app background (st_now S) rt) = (a1, r)" by (cases "start_trading S (fresh_app background (st_now S) rt)")
  show ?thesis
  proof (cases r)
    case (Inr u)
    with t assms have "a = synced_app S a1" "tasks = (if background then [''loop''] else []) @ (if ca_sync a then [''sync''] else [])"
      by (auto simp: start_core_app_def bind_def seq_def attempt_def start_sync_eq)
    then show ?thesis using runs t Inr by simp
  next
    case (Inl e)
    with t assms have "disables e" "a = synced_app S (a1\<lparr> ca_disabled := Some (strip (st_show S e)) \<rparr>)" "tasks = (if ca_sync a then [''sync''] else [])"
      by (auto simp: start_core_app_def bind_def seq_def attempt_def start_sync_eq split: if_splits)
    then show ?thesis using disabled t Inl by simp
  qed
qed

text \<open>
  C40. The core router fails closed. When it starts, its execution loop runs only if nothing disabled trading, and then it
  held the lock of its state directory, the journal passed its check, the policy has no violation and the account it is
  connected to is the policy's. Otherwise no loop runs and every trading route refuses, whoever signs the request, without
  changing anything. (The text of an exception that disables it is not blank.)
\<close>

theorem core_starts_fail_closed:
  assumes "start_core_app S background rt = (a, Inr tasks)" "\<forall>e. strip (st_show S e) \<noteq> []"
  shows "(''loop'' \<in> set tasks \<longleftrightarrow> background \<and> ca_disabled a = None) \<and>
    (if ca_disabled a = None then
       (\<exists>p w w'. st_lock S = Inr () \<and> st_policy S = Inr p \<and> jb_ok (st_journal S) \<and> violations (cc_policy (st_router S p)) = [] \<and>
         cc_account_number (st_router S p) w = (w', Inr (pol_account (cc_policy (st_router S p)))) \<and> ca_router a = Some (st_router S p))
     else
       (\<exists>e. propose A secret json given rq a = (a, Inl e)) \<and> (\<exists>e. core_state_route A secret rq a = (a, Inl e)) \<and>
       (\<exists>e. current_plan A rq a = (a, Inl e)) \<and> (\<exists>e. approve_route A fund pid rq a = (a, Inl e)) \<and> (\<exists>e. raise_cash_route A texts rq a = (a, Inl e)))"
  using assms(1)
proof (cases rule: start_core_app_cases)
  case (runs a1)
  have d: "ca_disabled a1 = None" using keepsD [OF start_keeps _ runs(1), of background] by simp
  from start_trading_Inr [OF runs(1)] show ?thesis using runs(2,3) d by auto
next
  case (disabled a1 e)
  have "said (ca_disabled a)" using disabled(3) assms(2) by (simp add: said_def)
  from refused_routes [OF this] show ?thesis using disabled(3,4) by auto
qed

definition demo_start :: "journal_brief \<Rightarrow> demo_world core_start" where
  "demo_start j =
     \<lparr> st_lock = Inr (), st_policy = Inr demo_policy, st_router = (\<lambda>p. demo_cfg\<lparr> cc_policy := p \<rparr>), st_data = Inr (demo_data None), st_journal = j,
       st_alert = (\<lambda>a w. w), st_sync = Inr None, st_show = (\<lambda>e. ''no''), st_now = 0 \<rparr>"

definition demo_started :: "bool \<Rightarrow> demo_world core_app \<times> string list result" where
  "demo_started ok = start_core_app (demo_start \<lparr> jb_ok = ok, jb_entries = 0, jb_reason = None \<rparr>) True (ca_rt halting_app)"

lemma demo_started_eval:
  "map_option (\<lambda>x. x = ''no'') (ca_disabled (fst (demo_started False))) = Some True" "snd (demo_started False) = Inr []"
  "ca_disabled (fst (demo_started True)) = None" "snd (demo_started True) = Inr [''loop'']"
  by code_simp+

lemma core_starts_fail_closed_witness:
  "(\<exists>e. raise_cash_route halt_auth (\<lambda>_. Inr []) halt_request (fst (demo_started False)) = (fst (demo_started False), Inl e)) \<and>
   (\<exists>p. ca_router (fst (demo_started True)) = Some (demo_cfg\<lparr> cc_policy := p \<rparr>) \<and> violations p = [])"
proof -
  have show_ok: "\<forall>e. strip (st_show (demo_start j) e) \<noteq> []" for j by (simp add: demo_start_def) code_simp
  have bad: "start_core_app (demo_start \<lparr> jb_ok = False, jb_entries = 0, jb_reason = None \<rparr>) True (ca_rt halting_app) = (fst (demo_started False), Inr [])"
    using demo_started_eval(2) by (simp add: demo_started_def prod_eq_iff)
  have good: "start_core_app (demo_start \<lparr> jb_ok = True, jb_entries = 0, jb_reason = None \<rparr>) True (ca_rt halting_app) = (fst (demo_started True), Inr [''loop''])"
    using demo_started_eval(4) by (simp add: demo_started_def prod_eq_iff)
  have "\<exists>e. raise_cash_route halt_auth (\<lambda>_. Inr []) halt_request (fst (demo_started False)) = (fst (demo_started False), Inl e)"
    using core_starts_fail_closed [OF bad show_ok, where A = halt_auth and texts = "\<lambda>_. Inr []" and rq = halt_request and secret = "[]"
        and json = "\<lambda>_. Inr ()" and given = "\<lambda>_. Inl KeyError" and fund = "\<lambda>_. Inr True" and pid = "[]"] demo_started_eval(1)
    by (cases "ca_disabled (fst (demo_started False))") simp_all
  moreover have "\<exists>p. ca_router (fst (demo_started True)) = Some (demo_cfg\<lparr> cc_policy := p \<rparr>) \<and> violations p = []"
    using core_starts_fail_closed [OF good show_ok, where A = halt_auth and texts = "\<lambda>_. Inr []" and rq = halt_request and secret = "[]"
        and json = "\<lambda>_. Inr ()" and given = "\<lambda>_. Inl KeyError" and fund = "\<lambda>_. Inr True" and pid = "[]"] demo_started_eval(3)
    by (auto simp: demo_start_def)
  ultimately show ?thesis ..
qed

end
