(* ===== verification/Spec2Isabelle.thy ===== *)
theory Spec2Isabelle
  imports Tier0 Core_Alloc_Laws Lots_Laws Raise_Cash_Laws Tier0_Core_Laws Core_Paper_Laws Guards_Laws Core_Once Core_Lifecycle
    Core_Execution_Laws Core_Admission_Laws Core_Journal
    Alpaca_Submit_Laws Gatekeeper_Laws Exchange_Calendar Costs_Laws Agent_Laws Core_Sync_Laws
    Portfolio_Report Portfolio_Cash Portfolio_Faults
    Market_Data_Laws Sim_Server Sim_Demo Core_App_Laws
begin

text \<open>
  A verification library for the paper trader: a Python program that trades on an Alpaca paper account. Three
  processes make up the program. The \<^emph>\<open>trading process\<close> (\<open>main.py\<close>) turns headlines into signals and
  sends small buys; the \<^emph>\<open>risk router\<close> (\<open>risk_router/gatekeeper.py\<close>) is the only way signals of other agents
  reach the broker; the \<^emph>\<open>core router\<close> (\<open>risk_router/core_gatekeeper.py\<close>) executes the monthly plans of a
  long-term portfolio, each proposed by an allocator, recomputed here and approved by the owner. The back-tests
  (\<open>backtest/\<close>) run the same rules on historical prices. All share the hard limits of \<open>tier0.py\<close> and
  \<open>tier0_core.py\<close>.

  \<^bold>\<open>Conventions.\<close> A Python \<open>Decimal\<close> is the type \<open>decimal\<close> (sign and coefficient as an integer, an exponent), with
  the 28-digit context of the standard library written out in \<open>Decimal\<close>; \<open>val\<close> reads it as a rational. A raise
  is \<open>Inl\<close> of the datatype \<open>exn\<close> in \<open>Prelude\<close>, a normal return is \<open>Inr\<close>; \<open>bind\<close> is the sequencing of statements
  that may raise. Dates are a record with Gregorian day numbers (\<open>Dates\<close>), instants and durations are integers of the
  unit the theory names. State a function mutates is a record it takes and returns. Clocks, random ids, hash
  functions, time-zone conversions, the broker and other services are arguments. A float that the code only carries
  is the decimal it prints as. Messages of log lines and exceptions are left out unless code reads them.

  \<^bold>\<open>Shared limits and arithmetic.\<close>
  \<^item> \<open>Prelude\<close>, \<open>Decimal\<close>, \<open>Decimal_Laws\<close>, \<open>Dates\<close>: errors, lists, maps, decimal arithmetic and its rounding
    errors, calendar dates.
  \<^item> \<open>Tier0\<close>: \<open>tier0.py\<close>, \<open>plan_buy\<close> with its outcomes on every branch and the limits every accepted buy keeps.
  \<^item> \<open>Core_Alloc\<close>, \<open>Core_Alloc_Laws\<close>, \<open>Lots\<close>, \<open>Lots_Laws\<close>, \<open>Raise_Cash\<close>, \<open>Raise_Cash_Laws\<close>: \<open>core_alloc.py\<close>,
    weights, rules, drift, rebalancing, tax lots (locale \<open>lot_policy\<close>, interpreted for each lot method), raising cash.
    Nothing is oversold, weights sum to one, sales conserve units and cost basis.
  \<^item> \<open>Tier0_Core\<close>, \<open>Tier0_Core_Laws\<close>: \<open>tier0_core.py\<close>, the policy file and the limits of a plan.
  \<^item> \<open>Core_Paper\<close>, \<open>Core_Paper_Laws\<close>: \<open>core_paper.py\<close>, the decision at a close, limits, order payloads.

  \<^bold>\<open>Risk router.\<close>
  \<^item> \<open>Router_State\<close>, \<open>Guards\<close>, \<open>Guards_Laws\<close>: \<open>state.py\<close> and \<open>guards.py\<close>, the kill switch, the daily circuit breaker
    and the file they survive in (locale \<open>order_guard\<close>). A halt is final, a breach latches for the day.
  \<^item> \<open>Alpaca_Submit\<close>, \<open>Alpaca_Submit_Laws\<close>: \<open>submit_order\<close> of \<open>alpaca_async.py\<close> against an abstract Alpaca that may lose a
    request or its answer: at most one order, and the one way a rejection can hide a live order.
  \<^item> \<open>Router_Policy\<close>, \<open>Gatekeeper\<close>, \<open>Gatekeeper_Laws\<close>: \<open>policy.py\<close>, \<open>schemas.py\<close>, \<open>gatekeeper.py\<close>, one signal and one
    exit sweep.

  \<^bold>\<open>Core router.\<close>
  \<^item> \<open>Text_Forms\<close>, \<open>Core_Json\<close>: decimals and dates as text, plans as JSON and back.
  \<^item> \<open>Actions\<close>, \<open>Core_Router\<close>, \<open>Core_Execution\<close>: \<open>core_gatekeeper.py\<close> over a state of memory, disk, journal and broker;
    \<open>Actions\<close> holds the monad of such steps, where a raise keeps the effects made before it.
  \<^item> \<open>Core_Once\<close>, \<open>Core_Lifecycle\<close>, \<open>Core_Execution_Laws\<close>, \<open>Core_Admission_Laws\<close>, \<open>Core_Demo\<close>: no order is sent twice over
    any ticks and restarts; a tick refines the documented life cycle of a plan; only the owner's approval starts a
    plan that needs one; overdue plans are closed; what a proposal must be to be accepted; a run on concrete data.
  \<^item> \<open>Core_Journal\<close>: the hash chain of the journal, its anchor and what a crash between the two does.

  \<^item> \<open>Core_Sync\<close>, \<open>Core_Sync_Laws\<close>: \<open>core_sync.py\<close>, the mirror of the journal on the website. \<open>mirror_step\<close> is the relation
    of its passes, lost requests and restarts: the site always has a prefix of the journal, and one pass catches up.

  \<^bold>\<open>Trading process.\<close>
  \<^item> \<open>Receipts\<close>, \<open>Outbox\<close>, \<open>Outbox_Laws\<close>, \<open>Delivery\<close>: \<open>webhook.py\<close> and \<open>outbox.py\<close>, signed receipts, the queue of
    undelivered ones, retries. No receipt that was queued is lost.
  \<^item> \<open>Market_Feed\<close>: \<open>broker.py\<close> and the market data of \<open>inference.py\<close>.
  \<^item> \<open>Scheduler\<close>: \<open>execution.py\<close>, \<open>scheduler.py\<close>, \<open>reconcile.py\<close>. \<open>Control_API\<close>: \<open>main.py\<close>. \<open>Agent_Laws\<close>: an emergency
    halt stops every later order, and two defects of the receipts.

  \<^bold>\<open>Back-test.\<close>
  \<^item> \<open>Exchange_Calendar\<close>: \<open>backtest/calendar.py\<close>, sessions and their binary-search lookups.
  \<^item> \<open>Costs\<close>, \<open>Costs_Laws\<close>: \<open>backtest/costs.py\<close> with the fee table, fills and fees.
  \<^item> \<open>Daily_Market\<close>, \<open>Portfolio_Engine\<close>: \<open>daily.py\<close> and \<open>portfolio.py\<close>, daily bars as a decision sees them and the
    simulation of a portfolio session by session. \<open>Portfolio_Demo\<close> runs it; \<open>Portfolio_Laws\<close>: no look-ahead;
    \<open>Portfolio_Report\<close>: the report is well formed; \<open>Portfolio_Cash\<close>: a fill never overdraws; \<open>Portfolio_Faults\<close>: two
    defects.
  \<^item> \<open>Market_Data\<close>, \<open>Market_Data_Laws\<close>: \<open>lockbox.py\<close> and \<open>data.py\<close>, the views of an instant and the data no run may see
    without a key.
  \<^item> \<open>Sim_Broker\<close>, \<open>Sim_Server\<close>: \<open>sim_broker.py\<close>, the simulated Alpaca account and its HTTP answers. \<open>sim_run\<close> is the
    relation of its uses (submissions, time, marks, session ends in any order); \<open>Sim_Broker_Laws\<close>: orders fill once
    and on time; \<open>Sim_Books\<close>: holdings are what filled, never oversold; \<open>Sim_Demo\<close>: a round trip.

  \<^bold>\<open>Bounds and fuel.\<close> Loops over data are structural. The loops of \<open>Decimal\<close> (digit counts, rounding) are functions with
  measures or closed forms. \<open>weekday_loop\<close> (a \<open>while\<close> over days) runs on the number of days of the range, shown
  to be enough. Binary searches run by a measure on the interval. Loops that run until the process is cancelled
  (\<open>trading_loop\<close>, \<open>replay_loop\<close>, \<open>reconcile_loop\<close>, the core router's ticks) run for a given number of rounds or over
  a list of ticks, and their laws hold for every such number or list.

  \<^bold>\<open>Not modelled.\<close> The HTTP frameworks, clients and TLS; the sentiment and return models (\<open>finbert_onnx.py\<close>,
  \<open>models/\<close>, the training code of \<open>swarm/\<close>), which are floating-point networks and linear algebra; environment
  settings (\<open>config.py\<close>, pydantic); the reports, metrics and storage of the back-test, which format floats into
  text, parquet and SQL. Components with their reasons are in the manifest.
\<close>

end
